(* ===== verification/PP_Prelude.thy ===== *)
theory PP_Prelude
  imports Main "HOL-Library.Word" "HOL-Library.While_Combinator"
begin

text \<open>
  Shared types, containers and lemmas.

  The repository builds on the \<open>xel\<close> library, whose sources are not part of it. Two of its
  containers carry the state of every component, and are represented by the data they hold:
  \<^item> an \<open>xList\<close> of nodes is the list of the nodes' identifiers, head first; a node is linked
    in at most one list, \<open>AddTail\<close> appends, \<open>GrabTail\<close> unlinks and appends, \<open>PopHead\<close>
    takes the head, and destroying a node unlinks it;
  \<^item> an \<open>xIndexedStorage\<close> is the map from the identifiers of the live objects to the
    objects; \<open>CheckAndGet\<close> is the lookup, \<open>Release\<close> destroys the object. Which identifier
    \<open>Acquire\<close> returns is not known: it is the parameter \<open>alloc\<close> of every operation that
    acquires, a function of the live identifiers, where \<open>0\<close> means that the storage is
    exhausted. What the code relies on is \<open>storage_ok alloc\<close>.
  Every other function of \<open>xel\<close> (address parsing, digests, string helpers) is a parameter of
  the definitions that use it.
\<close>

section \<open>Machine types\<close>

type_synonym uint8 = "8 word"
type_synonym uint16 = "16 word"
type_synonym uint32 = "32 word"
type_synonym uint64 = "64 word"
type_synonym byte = "8 word"
type_synonym bytes = "byte list"

named_theorems pool_simps \<open>unfolding of the storage and list operations\<close>
named_theorems inv_intros \<open>preservation of component invariants\<close>

definition str :: "string \<Rightarrow> bytes" where
  "str s = map of_char s"

lemma str_Nil [simp]: "str [] = []" and str_Cons [simp]: "str (c # s) = of_char c # str s"
  by (simp_all add: str_def)

lemma length_str [simp]: "length (str s) = length s"
  by (simp add: str_def)

section \<open>Network addresses\<close>

text \<open>
  The fields of \<open>xNetAddress\<close> that the sources read and write: the family with the bytes of
  \<open>SA4\<close> or \<open>SA6\<close>, and the port.
\<close>

datatype xNetIp = UNKNOWN | IPV4 bytes | IPV6 bytes

record xNetAddress =
  na_ip :: xNetIp
  na_port :: uint16

definition no_address :: xNetAddress where
  "no_address = \<lparr>na_ip = UNKNOWN, na_port = 0\<rparr>"

definition Is4 :: "xNetAddress \<Rightarrow> bool" where
  "Is4 a \<longleftrightarrow> (case na_ip a of IPV4 _ \<Rightarrow> True | _ \<Rightarrow> False)"

definition Is6 :: "xNetAddress \<Rightarrow> bool" where
  "Is6 a \<longleftrightarrow> (case na_ip a of IPV6 _ \<Rightarrow> True | _ \<Rightarrow> False)"

definition addr_ok :: "xNetAddress \<Rightarrow> bool" where
  "addr_ok a \<longleftrightarrow> na_ip a \<noteq> UNKNOWN"

definition addr_Ip :: "xNetAddress \<Rightarrow> xNetAddress" where
  "addr_Ip a = a\<lparr>na_port := 0\<rparr>"

lemma Is4_not_Is6: "Is4 a \<Longrightarrow> \<not> Is6 a"
  by (auto simp: Is4_def Is6_def split: xNetIp.splits)

lemma addr_ok_cases: "addr_ok a \<longleftrightarrow> Is4 a \<or> Is6 a"
  by (auto simp: addr_ok_def Is4_def Is6_def split: xNetIp.splits)

lemma na_ip_addr_Ip [simp]: "na_ip (addr_Ip a) = na_ip a"
  and na_port_addr_Ip [simp]: "na_port (addr_Ip a) = 0"
  by (simp_all add: addr_Ip_def)

lemma no_address_simps [simp]:
  "na_ip no_address = UNKNOWN" "na_port no_address = 0" "\<not> addr_ok no_address"
  "\<not> Is4 no_address" "\<not> Is6 no_address"
  by (simp_all add: no_address_def addr_ok_def Is4_def Is6_def)

section \<open>Intrusive lists\<close>

abbreviation add_tail :: "'i list \<Rightarrow> 'i \<Rightarrow> 'i list" where
  "add_tail xs i \<equiv> xs @ [i]"

definition grab_tail :: "'i list \<Rightarrow> 'i \<Rightarrow> 'i list" where
  "grab_tail xs i = removeAll i xs @ [i]"

lemma set_grab_tail [simp]: "set (grab_tail xs i) = insert i (set xs)"
  by (auto simp: grab_tail_def)

lemma distinct_grab_tail [simp]: "distinct (grab_tail xs i) = distinct (removeAll i xs)"
  by (simp add: grab_tail_def)

lemma distinct_removeAll_if [simp, intro]: "distinct xs \<Longrightarrow> distinct (removeAll i xs)"
  by (simp add: distinct_removeAll)

lemma last_grab_tail [simp]: "last (grab_tail xs i) = i"
  by (simp add: grab_tail_def)

section \<open>Indexed storage\<close>

text \<open>What the code relies on: an identifier that \<open>Acquire\<close> returns is not live.\<close>

definition storage_ok :: "(uint64 set \<Rightarrow> uint64) \<Rightarrow> bool" where
  "storage_ok alloc \<longleftrightarrow> (\<forall>D. alloc D = 0 \<or> alloc D \<notin> D)"

lemma storage_okD: "storage_ok alloc \<Longrightarrow> alloc (dom m) \<noteq> 0 \<Longrightarrow> m (alloc (dom m)) = None"
  by (auto simp: storage_ok_def)

text \<open>A storage of two slots, for the concrete instances.\<close>

definition two_slot_alloc :: "uint64 set \<Rightarrow> uint64" where
  "two_slot_alloc D = (if 1 \<notin> D then 1 else if 2 \<notin> D then 2 else 0)"

lemma two_slot_alloc_ok: "storage_ok two_slot_alloc"
  by (simp add: storage_ok_def two_slot_alloc_def)

text \<open>
  Live objects are counted in \<open>size_t\<close> variables beside the storage. The count is exact as a
  word, whatever its initial value, because every acquisition adds one and every release takes
  one off.
\<close>

definition count_live :: "(uint64 \<Rightarrow> 'a option) \<Rightarrow> uint64" where
  "count_live m = of_nat (card (dom m))"

lemma finite_dom_word [simp]: "finite (dom (m :: uint64 \<Rightarrow> 'a option))"
  by (rule finite_subset [OF subset_UNIV]) simp

lemma count_live_empty [simp]: "count_live Map.empty = 0"
  by (simp add: count_live_def)

lemma count_live_acquire [pool_simps]:
  "m i = None \<Longrightarrow> count_live (m(i \<mapsto> x)) = count_live m + 1"
  by (simp add: count_live_def card_insert_if domIff)

lemma count_live_update [pool_simps]:
  "m i = Some y \<Longrightarrow> count_live (m(i \<mapsto> x)) = count_live m"
  by (simp add: count_live_def card_insert_if domIff)

lemma count_live_release [pool_simps]:
  assumes "m i = Some x"
  shows "count_live (m(i := None)) = count_live m - 1"
proof -
  have i: "i \<in> dom m"
    using assms by auto
  then have "0 < card (dom m)"
    by (metis card_gt_0_iff empty_iff finite_dom_word)
  moreover have "dom (m(i := None)) = dom m - {i}"
    by auto
  ultimately show ?thesis
    using i by (simp add: count_live_def of_nat_diff)
qed

lemma dom_upd_None [simp]: "dom (m(i := None)) = dom m - {i}"
  by auto

lemma of_nat_64_eq_0: "n < 2 ^ 64 \<Longrightarrow> (of_nat n :: uint64) = 0 \<longleftrightarrow> n = 0"
  by (simp add: word_unat_eq_iff unat_of_nat)

lemma word_minus_less: "c \<le> now \<Longrightarrow> 0 < c \<Longrightarrow> now - c < now" for now :: uint64
  unfolding word_less_nat_alt word_le_nat_alt by (subst unat_sub) (simp_all add: word_le_nat_alt)

text \<open>A quantity summed over the live objects of a storage.\<close>

definition pool_sum :: "('a \<Rightarrow> uint64) \<Rightarrow> (uint64 \<Rightarrow> 'a option) \<Rightarrow> uint64" where
  "pool_sum f m = (\<Sum>i \<in> dom m. f (the (m i)))"

lemma pool_sum_empty [simp]: "pool_sum f Map.empty = 0"
  by (simp add: pool_sum_def)

lemma pool_sum_release [pool_simps]:
  assumes "m i = Some x"
  shows "pool_sum f (m(i := None)) = pool_sum f m - f x"
proof -
  have "pool_sum f (m(i := None)) = (\<Sum>j \<in> dom m - {i}. f (the (m j)))"
    unfolding pool_sum_def by (rule sum.cong) auto
  moreover have "pool_sum f m = f x + (\<Sum>j \<in> dom m - {i}. f (the (m j)))"
    unfolding pool_sum_def using assms by (subst sum.remove [of _ i]) auto
  ultimately show ?thesis
    by simp
qed

lemma pool_sum_acquire [pool_simps]:
  assumes "m i = None"
  shows "pool_sum f (m(i \<mapsto> x)) = pool_sum f m + f x"
proof -
  have "(m(i \<mapsto> x))(i := None) = m"
    using assms by (auto simp: fun_eq_iff)
  with pool_sum_release [of "m(i \<mapsto> x)" i x f] show ?thesis
    by (simp add: algebra_simps)
qed

lemma pool_sum_update [pool_simps]:
  assumes "m i = Some y"
  shows "pool_sum f (m(i \<mapsto> x)) = pool_sum f m - f y + f x"
proof -
  have "pool_sum f ((m(i := None))(i \<mapsto> x)) = pool_sum f (m(i := None)) + f x"
    by (rule pool_sum_acquire) simp
  also have "pool_sum f (m(i := None)) = pool_sum f m - f y"
    using assms by (rule pool_sum_release)
  finally show ?thesis
    by (simp only: fun_upd_upd)
qed

text \<open>Merging two updates of one record field leaves the inner map expanded; fold it again.\<close>

lemma fun_upd_fold [simp]: "(\<lambda>a. if a = i then x else m a) = m(i := x)"
  by (auto simp: fun_eq_iff)

section \<open>Loops that pop a queue\<close>

text \<open>
  Most loops of the sources are \<open>while (auto P = List.PopHead(Cond)) { ... }\<close>: they take the head
  of a queue as long as it satisfies a condition and run a body on it. \<open>pop_loop_run\<close> is the loop
  as it is written (\<open>None\<close> would be a loop that does not end), \<open>drain\<close> is what it computes when
  the body neither feeds the queue nor changes the condition of the other nodes: the longest
  prefix that satisfies the condition is taken off, and the body runs on its nodes in order. The
  locale \<open>pop_loop\<close> states that contract, and each component interprets it on its own queues.
\<close>

definition pop_head_if ::
    "('s \<Rightarrow> 'i list) \<Rightarrow> ('i list \<Rightarrow> 's \<Rightarrow> 's) \<Rightarrow> ('s \<Rightarrow> 'i \<Rightarrow> bool) \<Rightarrow> 's \<Rightarrow> ('i \<times> 's) option" where
  "pop_head_if queue set_queue cond s =
     (case queue s of
        [] \<Rightarrow> None
      | i # q \<Rightarrow> if cond s i then Some (i, set_queue q s) else None)"

definition pop_loop_run ::
    "('s \<Rightarrow> 'i list) \<Rightarrow> ('i list \<Rightarrow> 's \<Rightarrow> 's) \<Rightarrow> ('s \<Rightarrow> 'i \<Rightarrow> bool) \<Rightarrow> ('i \<Rightarrow> 's \<Rightarrow> 's) \<Rightarrow>
     's \<Rightarrow> 's option" where
  "pop_loop_run queue set_queue cond body =
     while_option (\<lambda>s. pop_head_if queue set_queue cond s \<noteq> None)
       (\<lambda>s. case pop_head_if queue set_queue cond s of Some (i, t) \<Rightarrow> body i t | None \<Rightarrow> s)"

definition drain ::
    "('s \<Rightarrow> 'i list) \<Rightarrow> ('i list \<Rightarrow> 's \<Rightarrow> 's) \<Rightarrow> ('s \<Rightarrow> 'i \<Rightarrow> bool) \<Rightarrow> ('i \<Rightarrow> 's \<Rightarrow> 's) \<Rightarrow>
     's \<Rightarrow> 's" where
  "drain queue set_queue cond body s =
     fold body (takeWhile (cond s) (queue s)) (set_queue (dropWhile (cond s) (queue s)) s)"

lemma pop_loop_run_stop:
  "pop_head_if queue set_queue cond s = None \<Longrightarrow> pop_loop_run queue set_queue cond body s = Some s"
  unfolding pop_loop_run_def by (subst while_option_unfold) simp

lemma pop_loop_run_step:
  "pop_head_if queue set_queue cond s = Some (i, t) \<Longrightarrow>
   pop_loop_run queue set_queue cond body s = pop_loop_run queue set_queue cond body (body i t)"
  unfolding pop_loop_run_def by (subst while_option_unfold) simp

text \<open>An invariant of the loop, and its end when a measure falls.\<close>

lemma pop_loop_run_invariant:
  assumes "pop_loop_run queue set_queue cond body s = Some t" and "P s"
    and "\<And>s i q. P s \<Longrightarrow> queue s = i # q \<Longrightarrow> cond s i \<Longrightarrow> P (body i (set_queue q s))"
  shows "P t" and "\<And>i q. queue t = i # q \<Longrightarrow> \<not> cond t i"
proof -
  note run = assms(1) [unfolded pop_loop_run_def]
  show "P t"
    by (rule while_option_rule [where P = P, OF _ run assms(2)])
       (auto simp: pop_head_if_def assms(3) split: list.splits if_splits)
  show "\<And>i q. queue t = i # q \<Longrightarrow> \<not> cond t i"
    using while_option_stop [OF run] by (auto simp: pop_head_if_def split: if_splits)
qed

lemma pop_loop_run_ends:
  assumes "P s"
    and "\<And>s i q. P s \<Longrightarrow> queue s = i # q \<Longrightarrow> cond s i \<Longrightarrow>
      P (body i (set_queue q s)) \<and> (f (body i (set_queue q s)) :: nat) < f s"
  shows "\<exists>t. pop_loop_run queue set_queue cond body s = Some t"
  unfolding pop_loop_run_def
  by (rule measure_while_option_Some [where P = P and f = f, OF _ assms(1)])
     (auto simp: pop_head_if_def assms(2) split: list.splits if_splits)

locale pop_loop =
  fixes queue :: "'s \<Rightarrow> 'i list"
    and set_queue :: "'i list \<Rightarrow> 's \<Rightarrow> 's"
    and cond :: "'s \<Rightarrow> 'i \<Rightarrow> bool"
    and body :: "'i \<Rightarrow> 's \<Rightarrow> 's"
  assumes queue_set: "queue (set_queue q s) = q"
    and set_set: "set_queue q (set_queue r s) = set_queue q s"
    and set_same: "set_queue (queue s) s = s"
    and cond_set: "cond (set_queue q s) i = cond s i"
    and queue_body: "i \<notin> set (queue s) \<Longrightarrow> queue (body i s) = queue s"
    and cond_body: "i \<noteq> j \<Longrightarrow> i \<notin> set (queue s) \<Longrightarrow> cond (body i s) j = cond s j"
    and body_set: "i \<notin> set q \<Longrightarrow> i \<notin> set (queue s) \<Longrightarrow> body i (set_queue q s) = set_queue q (body i s)"
begin

lemma loop_is_drain:
  "distinct (queue s) \<Longrightarrow>
   pop_loop_run queue set_queue cond body s = Some (drain queue set_queue cond body s)"
proof (induction "queue s" arbitrary: s)
  case Nil
  have "pop_head_if queue set_queue cond s = None"
    by (simp add: pop_head_if_def Nil.hyps [symmetric])
  moreover have "drain queue set_queue cond body s = s"
    using set_same [of s] by (simp add: drain_def Nil.hyps [symmetric])
  ultimately show ?case
    by (simp add: pop_loop_run_stop)
next
  case (Cons i q)
  note q = Cons.hyps(2) [symmetric]
  show ?case
  proof (cases "cond s i")
    case False
    then have "pop_head_if queue set_queue cond s = None"
      by (simp add: pop_head_if_def q)
    moreover have "drain queue set_queue cond body s = s"
      using False set_same [of s] by (simp add: drain_def q)
    ultimately show ?thesis
      by (simp add: pop_loop_run_stop)
  next
    case True
    define t where "t = body i (set_queue q s)"
    from Cons.prems q have i: "i \<notin> set q" and dq: "distinct q"
      by auto
    have qt: "queue t = q"
      using i by (simp add: t_def queue_body queue_set)
    have ct: "cond t j = cond s j" if "j \<in> set q" for j
      using i that cond_body [of i j "set_queue q s"] cond_set [of q s j] queue_set [of q s]
      by (auto simp: t_def)
    have tw: "takeWhile (cond t) q = takeWhile (cond s) q"
      using ct by (rule takeWhile_cong [OF refl])
    have dw: "dropWhile (cond t) q = dropWhile (cond s) q"
      using ct by (rule dropWhile_cong [OF refl])
    have "pop_loop_run queue set_queue cond body s = pop_loop_run queue set_queue cond body t"
      unfolding t_def using True by (intro pop_loop_run_step) (simp add: pop_head_if_def q)
    also have "\<dots> = Some (drain queue set_queue cond body t)"
      using Cons.hyps(1) [of t] qt dq by simp
    also have "drain queue set_queue cond body t = drain queue set_queue cond body s"
    proof -
      have "i \<notin> set (dropWhile (cond s) q)"
        using i set_dropWhileD by fastforce
      then have "set_queue (dropWhile (cond s) q) t = body i (set_queue (dropWhile (cond s) q) s)"
        using i body_set [of i "dropWhile (cond s) q" "set_queue q s"]
        by (simp add: t_def set_set queue_set)
      then show ?thesis
        using True by (simp add: drain_def q qt tw dw)
    qed
    finally show ?thesis .
  qed
qed

end

lemma takeWhile_True [simp]: "takeWhile (\<lambda>_. True) xs = xs"
  by (induction xs) auto

lemma dropWhile_True [simp]: "dropWhile (\<lambda>_. True) xs = []"
  by (induction xs) auto

text \<open>
  A queue whose nodes are linked in the order of their time stamps is drained of exactly the
  expired nodes.
\<close>

lemma takeWhile_sorted_stamps:
  fixes ts :: "'i \<Rightarrow> 'a :: linorder"
  assumes "sorted (map ts xs)"
  shows "takeWhile (\<lambda>i. ts i \<le> k) xs = filter (\<lambda>i. ts i \<le> k) xs"
  using assms
proof (induction xs)
  case (Cons x xs)
  show ?case
  proof (cases "ts x \<le> k")
    case False
    with Cons.prems have "filter (\<lambda>i. ts i \<le> k) xs = []"
      by (fastforce simp: filter_empty_conv)
    with False show ?thesis by simp
  qed (use Cons in simp)
qed simp

lemma dropWhile_sorted_stamps:
  fixes ts :: "'i \<Rightarrow> 'a :: linorder"
  assumes "sorted (map ts xs)"
  shows "dropWhile (\<lambda>i. ts i \<le> k) xs = filter (\<lambda>i. \<not> ts i \<le> k) xs"
  using assms
proof (induction xs)
  case (Cons x xs)
  show ?case
  proof (cases "ts x \<le> k")
    case False
    with Cons.prems have "filter (\<lambda>i. \<not> ts i \<le> k) xs = xs"
      by (fastforce simp: filter_id_conv)
    with False show ?thesis by simp
  qed (use Cons in simp)
qed simp

text \<open>
  A loop whose body may change its own queue, as long as it does not make it longer, runs at most
  as often as the queue is long: \<open>pop_upto\<close> with that bound is the loop.
\<close>

fun pop_upto ::
    "nat \<Rightarrow> ('s \<Rightarrow> 'i list) \<Rightarrow> ('i list \<Rightarrow> 's \<Rightarrow> 's) \<Rightarrow> ('s \<Rightarrow> 'i \<Rightarrow> bool) \<Rightarrow> ('i \<Rightarrow> 's \<Rightarrow> 's) \<Rightarrow>
     's \<Rightarrow> 's" where
  "pop_upto 0 queue set_queue cond body s = s"
| "pop_upto (Suc n) queue set_queue cond body s =
     (case pop_head_if queue set_queue cond s of
        None \<Rightarrow> s
      | Some (i, t) \<Rightarrow> pop_upto n queue set_queue cond body (body i t))"

definition pop_all ::
    "('s \<Rightarrow> 'i list) \<Rightarrow> ('i list \<Rightarrow> 's \<Rightarrow> 's) \<Rightarrow> ('s \<Rightarrow> 'i \<Rightarrow> bool) \<Rightarrow> ('i \<Rightarrow> 's \<Rightarrow> 's) \<Rightarrow>
     's \<Rightarrow> 's" where
  "pop_all queue set_queue cond body s = pop_upto (length (queue s)) queue set_queue cond body s"

locale bounded_loop =
  fixes queue :: "'s \<Rightarrow> 'i list"
    and set_queue :: "'i list \<Rightarrow> 's \<Rightarrow> 's"
    and cond :: "'s \<Rightarrow> 'i \<Rightarrow> bool"
    and body :: "'i \<Rightarrow> 's \<Rightarrow> 's"
    and inv :: "'s \<Rightarrow> bool"
  assumes queue_set: "queue (set_queue q s) = q"
    and body_inv: "inv s \<Longrightarrow> queue s = i # q \<Longrightarrow> cond s i \<Longrightarrow> inv (body i (set_queue q s))"
    and body_queue: "inv s \<Longrightarrow> queue s = i # q \<Longrightarrow> cond s i \<Longrightarrow>
      length (queue (body i (set_queue q s))) \<le> length q"
begin

lemma upto_inv: "inv s \<Longrightarrow> inv (pop_upto n queue set_queue cond body s)"
proof (induction n arbitrary: s)
  case (Suc n)
  then show ?case
    by (auto simp: pop_head_if_def body_inv split: list.splits)
qed simp

lemma upto_run:
  "inv s \<Longrightarrow> length (queue s) \<le> n \<Longrightarrow>
   pop_loop_run queue set_queue cond body s = Some (pop_upto n queue set_queue cond body s)"
proof (induction n arbitrary: s)
  case 0
  then show ?case
    by (simp add: pop_loop_run_stop pop_head_if_def)
next
  case (Suc n)
  show ?case
  proof (cases "pop_head_if queue set_queue cond s")
    case None
    then show ?thesis
      by (simp add: pop_loop_run_stop)
  next
    case (Some it)
    then obtain i q where q: "queue s = i # q" "cond s i" and it: "it = (i, set_queue q s)"
      by (auto simp: pop_head_if_def split: list.splits if_splits)
    have "inv (body i (set_queue q s))" "length (queue (body i (set_queue q s))) \<le> n"
      using body_inv [OF Suc.prems(1) q] body_queue [OF Suc.prems(1) q] Suc.prems(2) q(1) by simp_all
    from Suc.IH [OF this] show ?thesis
      by (simp add: pop_loop_run_step [OF Some [unfolded it]] Some it)
  qed
qed

lemma all_inv: "inv s \<Longrightarrow> inv (pop_all queue set_queue cond body s)"
  unfolding pop_all_def by (rule upto_inv)

lemma loop_is_all:
  "inv s \<Longrightarrow> pop_loop_run queue set_queue cond body s = Some (pop_all queue set_queue cond body s)"
  unfolding pop_all_def by (rule upto_run) simp_all

lemma all_exhausts:
  assumes "inv s" and "queue (pop_all queue set_queue cond body s) = i # q"
  shows "\<not> cond (pop_all queue set_queue cond body s) i"
  using pop_loop_run_invariant(2) [OF loop_is_all [OF assms(1)], of "\<lambda>_. True"] assms(2) by simp

end

end
