(* ===== verification/PP_Future.thy ===== *)
theory PP_Future
  imports PP_Prelude
begin

text \<open>
  \<open>src_common/pp_common/future.hpp\<close>: results that arrive later. A future lives in the storage of
  its manager, an \<open>xFutureHandle\<close> names it by the manager and its identifier, \<open>SetReady\<close> links it
  at the tail of the manager's list of ready futures, and the owner of the manager pops that
  list. The fields that derived futures add are \<open>fu_owner\<close>, the expected result is
  \<open>fu_result\<close> (\<open>None\<close> is the unexpected value it starts with).
\<close>

section \<open>Futures and their manager\<close>

record ('o, 'r) future =
  fu_start :: uint64
  fu_ready :: bool
  fu_owner :: 'o
  fu_result :: "'r option"

record ('o, 'r) future_manager =
  fm_pool :: "uint64 \<Rightarrow> ('o, 'r) future option"
  fm_ready :: "uint64 list"
  fm_in_use :: uint64

definition new_future :: "'o \<Rightarrow> ('o, 'r) future" where
  "new_future d = \<lparr>fu_start = 0, fu_ready = False, fu_owner = d, fu_result = None\<rparr>"

definition new_manager :: "uint64 \<Rightarrow> ('o, 'r) future_manager" where
  "new_manager n = \<lparr>fm_pool = Map.empty, fm_ready = [], fm_in_use = n\<rparr>"

definition AcquireFuture ::
    "(uint64 set \<Rightarrow> uint64) \<Rightarrow> 'o \<Rightarrow> ('o, 'r) future_manager \<Rightarrow> uint64 \<times> ('o, 'r) future_manager" where
  "AcquireFuture alloc d fm =
     (let Id = alloc (dom (fm_pool fm)) in
      if Id = 0 then (0, fm)
      else (Id, fm\<lparr>fm_pool := (fm_pool fm)(Id \<mapsto> new_future d), fm_in_use := fm_in_use fm + 1\<rparr>))"

definition GetFuture :: "('o, 'r) future_manager \<Rightarrow> uint64 \<Rightarrow> ('o, 'r) future option" where
  "GetFuture fm FutureId = fm_pool fm FutureId"

text \<open>Releasing destroys the future, which unlinks its node.\<close>

definition ReleaseFuture :: "uint64 \<Rightarrow> ('o, 'r) future_manager \<Rightarrow> ('o, 'r) future_manager" where
  "ReleaseFuture FutureId fm =
     fm\<lparr>fm_pool := (fm_pool fm)(FutureId := None), fm_ready := removeAll FutureId (fm_ready fm),
        fm_in_use := fm_in_use fm - 1\<rparr>"

definition ReleaseFutureById ::
    "uint64 \<Rightarrow> ('o, 'r) future_manager \<Rightarrow> bool \<times> ('o, 'r) future_manager" where
  "ReleaseFutureById FutureId fm =
     (case GetFuture fm FutureId of
        None \<Rightarrow> (False, fm)
      | Some _ \<Rightarrow> (True, ReleaseFuture FutureId fm))"

definition SetReady :: "uint64 \<Rightarrow> ('o, 'r) future_manager \<Rightarrow> ('o, 'r) future_manager" where
  "SetReady FutureId fm =
     (case fm_pool fm FutureId of
        None \<Rightarrow> fm
      | Some F \<Rightarrow> fm\<lparr>fm_pool := (fm_pool fm)(FutureId \<mapsto> F\<lparr>fu_ready := True\<rparr>),
                      fm_ready := grab_tail (fm_ready fm) FutureId\<rparr>)"

text \<open>Writes through the future's address: the result and the fields of derived futures.\<close>

definition upd_future ::
    "uint64 \<Rightarrow> (('o, 'r) future \<Rightarrow> ('o, 'r) future) \<Rightarrow> ('o, 'r) future_manager \<Rightarrow>
     ('o, 'r) future_manager" where
  "upd_future FutureId f fm = fm\<lparr>fm_pool := (fm_pool fm)(FutureId := map_option f (fm_pool fm FutureId))\<rparr>"

definition SetResult :: "uint64 \<Rightarrow> 'r \<Rightarrow> ('o, 'r) future_manager \<Rightarrow> ('o, 'r) future_manager" where
  "SetResult FutureId R = upd_future FutureId (\<lambda>F. F\<lparr>fu_result := Some R\<rparr>)"

text \<open>
  A handle is \<open>None\<close> without a manager; \<open>Get\<close> answers the live future it names. Handles are
  compared with a fixed manager here, because each kind of handle is made from one manager only.
\<close>

type_synonym xFutureHandle = "uint64 option"

definition handle_Get :: "('o, 'r) future_manager \<Rightarrow> xFutureHandle \<Rightarrow> ('o, 'r) future option" where
  "handle_Get fm h = (case h of None \<Rightarrow> None | Some FutureId \<Rightarrow> GetFuture fm FutureId)"

definition handle_ok :: "xFutureHandle \<Rightarrow> bool" where
  "handle_ok h \<longleftrightarrow> (case h of None \<Rightarrow> False | Some FutureId \<Rightarrow> FutureId \<noteq> 0)"

definition PopReady :: "('o, 'r) future_manager \<Rightarrow> (uint64 \<times> ('o, 'r) future_manager) option" where
  "PopReady fm = (case fm_ready fm of [] \<Rightarrow> None | i # q \<Rightarrow> Some (i, fm\<lparr>fm_ready := q\<rparr>))"

section \<open>The invariant of a manager\<close>

text \<open>
  Ready nodes are live, distinct and marked, and the audit counter is the number of live futures
  over its starting value \<open>n\<close>.
\<close>

definition fm_inv :: "uint64 \<Rightarrow> ('o, 'r) future_manager \<Rightarrow> bool" where
  "fm_inv n fm \<longleftrightarrow>
     distinct (fm_ready fm) \<and>
     (\<forall>i \<in> set (fm_ready fm). \<exists>F. fm_pool fm i = Some F \<and> fu_ready F) \<and>
     fm_pool fm 0 = None \<and>
     fm_in_use fm = n + count_live (fm_pool fm)"

lemma fm_inv_new [inv_intros]: "fm_inv n (new_manager n)"
  by (simp add: fm_inv_def new_manager_def)

lemma AcquireFuture_0:
  "AcquireFuture alloc d fm = (0, fm') \<Longrightarrow> fm' = fm"
  by (auto simp: AcquireFuture_def Let_def split: if_splits)

lemma AcquireFuture_id:
  assumes "storage_ok alloc" and "AcquireFuture alloc d fm = (i, fm')" and "i \<noteq> 0"
  shows "fm_pool fm i = None"
    and "fm' = fm\<lparr>fm_pool := (fm_pool fm)(i \<mapsto> new_future d), fm_in_use := fm_in_use fm + 1\<rparr>"
  using assms storage_okD [OF assms(1), of "fm_pool fm"]
  by (auto simp: AcquireFuture_def Let_def split: if_splits)

lemma fm_inv_Acquire [inv_intros]:
  assumes "storage_ok alloc" and "fm_inv n fm" and "AcquireFuture alloc d fm = (i, fm')"
  shows "fm_inv n fm'"
proof (cases "i = 0")
  case True
  with assms AcquireFuture_0 [of alloc d fm fm'] show ?thesis by simp
next
  case False
  from AcquireFuture_id [OF assms(1,3) False] have i: "fm_pool fm i = None"
    and fm': "fm' = fm\<lparr>fm_pool := (fm_pool fm)(i \<mapsto> new_future d), fm_in_use := fm_in_use fm + 1\<rparr>"
    by auto
  show ?thesis
    using assms(2) i False by (auto simp: fm' fm_inv_def pool_simps)
qed

lemma fm_inv_Release [inv_intros]:
  "fm_inv n fm \<Longrightarrow> fm_pool fm i = Some F \<Longrightarrow> fm_inv n (ReleaseFuture i fm)"
  by (auto simp: fm_inv_def ReleaseFuture_def pool_simps)

lemma fm_inv_SetReady [inv_intros]: "fm_inv n fm \<Longrightarrow> fm_inv n (SetReady i fm)"
  by (auto simp: fm_inv_def SetReady_def pool_simps split: option.splits)

lemma fm_inv_upd [inv_intros]:
  assumes "fm_inv n fm" and "\<And>F. fu_ready (f F) = fu_ready F"
  shows "fm_inv n (upd_future i f fm)"
proof (cases "fm_pool fm i")
  case None
  then have "upd_future i f fm = fm"
    by (simp add: upd_future_def fun_upd_idem)
  with assms(1) show ?thesis by simp
next
  case (Some F)
  with assms show ?thesis
    by (auto simp: fm_inv_def upd_future_def pool_simps)
qed

lemma fm_inv_PopReady [inv_intros]: "fm_inv n fm \<Longrightarrow> PopReady fm = Some (i, fm') \<Longrightarrow> fm_inv n fm'"
  by (auto simp: fm_inv_def PopReady_def split: list.splits)

section \<open>The interface the clients use\<close>

text \<open>
  What the owner of a manager and the services that complete its futures rely on: a fresh future
  is not ready and has no result, other futures keep theirs, a released future is gone for every
  handle and is not delivered, and a completed one is delivered after those completed before it.
\<close>

locale future_interface =
  fixes acquire :: "'m \<Rightarrow> uint64 \<times> 'm"
    and release :: "uint64 \<Rightarrow> 'm \<Rightarrow> 'm"
    and complete :: "uint64 \<Rightarrow> 'm \<Rightarrow> 'm"
    and lookup :: "'m \<Rightarrow> uint64 \<Rightarrow> 'f option"
    and ready :: "'m \<Rightarrow> uint64 list"
  assumes acquire_lookup:
      "acquire m = (i, m') \<Longrightarrow> i \<noteq> 0 \<Longrightarrow> lookup m i = None \<and> (\<forall>j. j \<noteq> i \<longrightarrow> lookup m' j = lookup m j)"
    and acquire_live: "acquire m = (i, m') \<Longrightarrow> i \<noteq> 0 \<Longrightarrow> lookup m' i \<noteq> None"
    and acquire_ready: "acquire m = (i, m') \<Longrightarrow> ready m' = ready m"
    and release_lookup: "lookup (release i m) j = (if j = i then None else lookup m j)"
    and release_ready: "ready (release i m) = removeAll i (ready m)"
    and complete_ready:
      "lookup m i \<noteq> None \<Longrightarrow> ready (complete i m) = removeAll i (ready m) @ [i]"
    and complete_live: "lookup (complete i m) j \<noteq> None \<longleftrightarrow> lookup m j \<noteq> None"
    and complete_other: "j \<noteq> i \<Longrightarrow> lookup (complete i m) j = lookup m j"
begin

lemma released_is_never_delivered: "i \<notin> set (ready (release i m))"
  by (simp add: release_ready)

lemma released_is_lost: "lookup (release i m) i = None"
  by (simp add: release_lookup)

lemma delivered_in_order:
  assumes "lookup m i \<noteq> None" and "lookup m j \<noteq> None" and "i \<noteq> j" and "i \<notin> set (ready m)" and "j \<notin> set (ready m)"
  shows "ready (complete j (complete i m)) = ready m @ [i, j]"
proof -
  have "lookup (complete i m) j \<noteq> None"
    using assms(2) complete_live by blast
  then have "ready (complete j (complete i m)) = removeAll j (ready (complete i m)) @ [j]"
    by (rule complete_ready)
  also have "ready (complete i m) = ready m @ [i]"
    using assms(1,4) by (simp add: complete_ready removeAll_id)
  finally show ?thesis
    using assms(3,5) by (simp add: removeAll_id)
qed

lemma acquired_completes_last:
  assumes "acquire m = (i, m')" and "i \<noteq> 0" and "i \<notin> set (ready m)"
  shows "ready (complete i m') = ready m @ [i]"
proof -
  have "lookup m' i \<noteq> None"
    using assms(1,2) by (rule acquire_live)
  then have "ready (complete i m') = removeAll i (ready m') @ [i]"
    by (rule complete_ready)
  also have "ready m' = ready m"
    using assms(1) by (rule acquire_ready)
  finally show ?thesis
    using assms(3) by (simp add: removeAll_id)
qed

end

lemma future_manager_interface:
  assumes "storage_ok alloc"
  shows "future_interface (AcquireFuture alloc d) ReleaseFuture SetReady GetFuture fm_ready"
proof (unfold_locales, goal_cases)
  case (1 m i m')
  then show ?case
    using AcquireFuture_id [OF assms, of d m i m'] by (auto simp: GetFuture_def)
next
  case (2 m i m')
  then show ?case
    using AcquireFuture_id [OF assms, of d m i m'] by (auto simp: GetFuture_def)
next
  case (3 m i m')
  then show ?case
    by (auto simp: AcquireFuture_def Let_def split: if_splits)
qed (auto simp: GetFuture_def ReleaseFuture_def SetReady_def grab_tail_def split: option.splits)

text \<open>
  The interface holds for the managers over every storage whose identifiers are fresh.
\<close>

locale storage_allocator =
  fixes alloc :: "uint64 set \<Rightarrow> uint64"
  assumes fresh: "storage_ok alloc"
begin

lemma acquired_is_fresh: "alloc (dom m) \<noteq> 0 \<Longrightarrow> m (alloc (dom m)) = None"
  by (rule storage_okD [OF fresh])

end

sublocale storage_allocator \<subseteq> managed:
    future_interface "AcquireFuture alloc d" ReleaseFuture SetReady GetFuture fm_ready for d :: 'o
  by (rule future_manager_interface [OF fresh])

interpretation two_slots: storage_allocator two_slot_alloc
  by unfold_locales (rule two_slot_alloc_ok)

section \<open>Properties\<close>



end
