(* ===== verification/PP_Common.thy ===== *)
theory PP_Common
  imports PP_Prelude
begin

text \<open>
  \<open>src_common/pp_common\<close>: the 64-bit packing helpers, the string hash, the application
  signature with its validation, the address signature built on it, the local-address test and
  the country code. SHA-256, the hexadecimal printer, \<open>Split\<close>, \<open>SignedDiff\<close>, and the printing
  and parsing of addresses belong to \<open>xel\<close> and are parameters; decimal printing and
  \<open>strtoumax\<close> are the standard library's and are written out.
\<close>

unbundle bit_operations_syntax

section \<open>Packing of 64-bit values\<close>

definition High32 :: "uint64 \<Rightarrow> uint32" where
  "High32 U = ucast (drop_bit 32 U)"

definition Low32 :: "uint64 \<Rightarrow> uint32" where
  "Low32 U = ucast U"

definition Make64 :: "uint32 \<Rightarrow> uint32 \<Rightarrow> uint64" where
  "Make64 H32 L32 = push_bit 32 (ucast H32) + ucast L32"

definition High16 :: "uint64 \<Rightarrow> uint16" where
  "High16 U = ucast (drop_bit 48 U)"

definition Low48 :: "uint64 \<Rightarrow> uint64" where
  "Low48 U = U AND 0x0000FFFFFFFFFFFF"

definition Make64_H16L48 :: "uint16 \<Rightarrow> uint64 \<Rightarrow> uint64" where
  "Make64_H16L48 H16 L48 = push_bit 48 (ucast H16) + L48"

lemma unat_Make64: "unat (Make64 h l) = unat h * 2 ^ 32 + unat l"
proof -
  have "unat h < 2 ^ 32" "unat l < 2 ^ 32"
    using unsigned_less [of h] unsigned_less [of l] by simp_all
  then show ?thesis
    by (simp add: Make64_def unat_word_ariths unsigned_push_bit_eq unsigned_ucast_eq
        take_bit_eq_mod push_bit_eq_mult)
qed

lemma unat_High32: "unat (High32 u) = unat u div 2 ^ 32"
proof -
  have "unat u < 2 ^ 64"
    using unsigned_less [of u] by simp
  then show ?thesis
    by (simp add: High32_def unsigned_ucast_eq take_bit_eq_mod drop_bit_eq_div unat_div)
qed

lemma unat_Low32: "unat (Low32 u) = unat u mod 2 ^ 32"
  by (simp add: Low32_def unsigned_ucast_eq take_bit_eq_mod)

lemma High32_Make64 [simp]: "High32 (Make64 h l) = h"
  and Low32_Make64 [simp]: "Low32 (Make64 h l) = l"
proof -
  have l: "unat l < 2 ^ 32"
    using unsigned_less [of l] by simp
  show "High32 (Make64 h l) = h"
    by (rule word_unat_eq_iff [THEN iffD2]) (simp only: unat_High32 unat_Make64, use l in simp)
  show "Low32 (Make64 h l) = l"
    by (rule word_unat_eq_iff [THEN iffD2]) (simp only: unat_Low32 unat_Make64, use l in simp)
qed

lemma Make64_High32_Low32 [simp]: "Make64 (High32 u) (Low32 u) = u"
  by (rule word_unat_eq_iff [THEN iffD2])
     (simp only: unat_Make64 unat_High32 unat_Low32 div_mult_mod_eq)

section \<open>Strings\<close>

text \<open>
  \<open>char\<close> is signed on the platforms the build files target, so a byte of 128 and more is
  subtracted from the hash.
\<close>

definition hash_step :: "uint32 \<Rightarrow> byte \<Rightarrow> uint32" where
  "hash_step H C = H * 33 + scast C"

fun HashString_cstr :: "uint32 \<Rightarrow> bytes \<Rightarrow> uint32" where
  "HashString_cstr H [] = H"
| "HashString_cstr H (C # S) = (if C = 0 then H else HashString_cstr (hash_step H C) S)"

definition HashString :: "bytes \<Rightarrow> uint32" where
  "HashString S = foldl hash_step 0 S"

lemma HashString_cstr_foldl: "HashString_cstr H S = foldl hash_step H (takeWhile (\<lambda>C. C \<noteq> 0) S)"
  by (induction H S rule: HashString_cstr.induct) auto

lemma foldl_hash_step: "foldl hash_step H S = H * 33 ^ length S + foldl hash_step 0 S"
proof (induction S rule: rev_induct)
  case Nil
  then show ?case by simp
next
  case (snoc C S)
  then show ?case by (simp add: hash_step_def algebra_simps)
qed

lemma HashString_append: "HashString (S @ T) = HashString S * 33 ^ length T + HashString T"
  unfolding HashString_def foldl_append by (rule foldl_hash_step)

definition tolower_char :: "byte \<Rightarrow> byte" where
  "tolower_char C = (if 65 \<le> C \<and> C \<le> 90 then C + 32 else C)"

definition ToLower :: "bytes \<Rightarrow> bytes" where
  "ToLower Src = map tolower_char Src"

lemma tolower_char_idem [simp]: "tolower_char (tolower_char C) = tolower_char C"
proof (cases "65 \<le> C \<and> C \<le> 90")
  case True
  then have "unat C + 32 < 256" "65 \<le> unat C" "unat C \<le> 90"
    by (simp_all add: word_le_nat_alt)
  then have "unat (C + 32) = unat C + 32"
    by (simp add: unat_word_ariths)
  then have "\<not> C + 32 \<le> 90"
    using \<open>65 \<le> unat C\<close> by (simp add: word_le_nat_alt)
  with True show ?thesis
    by (simp add: tolower_char_def)
qed (simp add: tolower_char_def)

lemma ToLower_idem: "ToLower (ToLower S) = ToLower S"
  by (simp add: ToLower_def)

section \<open>Decimal numbers of the standard library\<close>

fun to_string_nat :: "nat \<Rightarrow> bytes" where
  "to_string_nat n =
     (if n < 10 then [of_nat (48 + n)] else to_string_nat (n div 10) @ [of_nat (48 + n mod 10)])"

declare to_string_nat.simps [simp del]

definition to_string :: "uint64 \<Rightarrow> bytes" where
  "to_string n = to_string_nat (unat n)"

definition isdigit :: "byte \<Rightarrow> bool" where
  "isdigit C \<longleftrightarrow> 48 \<le> C \<and> C \<le> 57"

definition isspace :: "byte \<Rightarrow> bool" where
  "isspace C \<longleftrightarrow> C = 32 \<or> (9 \<le> C \<and> C \<le> 13)"

definition digits_value :: "bytes \<Rightarrow> nat" where
  "digits_value S = foldl (\<lambda>v C. v * 10 + (unat C - 48)) 0 S"

text \<open>\<open>strtoumax\<close> in base 10: white space, a sign, digits; it saturates, and a minus sign negates.\<close>

definition strtoumax :: "bytes \<Rightarrow> uint64" where
  "strtoumax S =
     (let T = dropWhile isspace S;
          neg = (case T of C # _ \<Rightarrow> C = 45 | [] \<Rightarrow> False);
          D = (case T of C # T' \<Rightarrow> if C = 45 \<or> C = 43 then T' else T | [] \<Rightarrow> []);
          v = digits_value (takeWhile isdigit D)
      in if v \<ge> 2 ^ 64 then - 1 else if neg then - of_nat v else of_nat v)"

lemma unat_digit: "d < 10 \<Longrightarrow> unat (of_nat (48 + d) :: byte) = 48 + d"
  by (simp only: unat_of_nat) simp

lemma isdigit_digit: "d < 10 \<Longrightarrow> isdigit (of_nat (48 + d))"
  by (simp only: isdigit_def word_le_nat_alt unat_digit) simp

lemma to_string_nat_digits: "list_all isdigit (to_string_nat n)"
proof (induction n rule: to_string_nat.induct)
  case (1 n)
  show ?case
  proof (cases "n < 10")
    case True
    then show ?thesis
      by (subst to_string_nat.simps) (simp del: of_nat_add add: isdigit_digit)
  next
    case False
    with 1 show ?thesis
      by (subst to_string_nat.simps) (simp del: of_nat_add add: isdigit_digit)
  qed
qed

lemma to_string_nat_value: "digits_value (to_string_nat n) = n"
proof (induction n rule: to_string_nat.induct)
  case (1 n)
  show ?case
  proof (cases "n < 10")
    case True
    then show ?thesis
      by (subst to_string_nat.simps) (simp del: of_nat_add add: digits_value_def unat_digit)
  next
    case False
    with 1 have "digits_value (to_string_nat (n div 10)) = n div 10"
      by simp
    then show ?thesis
      using False
      by (subst to_string_nat.simps) (simp del: of_nat_add add: digits_value_def unat_digit)
  qed
qed

lemma to_string_nat_ne: "to_string_nat n \<noteq> []"
  by (subst to_string_nat.simps) simp

lemma isdigit_not_sign: "isdigit C \<Longrightarrow> \<not> isspace C \<and> C \<noteq> 45 \<and> C \<noteq> 43 \<and> C \<noteq> 58 \<and> C \<noteq> 61"
  by (auto simp: isdigit_def isspace_def word_le_nat_alt)

lemma strtoumax_to_string: "strtoumax (to_string n) = n"
proof -
  obtain C T where CT: "to_string_nat (unat n) = C # T"
    using to_string_nat_ne by (cases "to_string_nat (unat n)") auto
  then have C: "isdigit C" and T: "list_all isdigit T"
    using to_string_nat_digits [of "unat n"] by simp_all
  have tw: "takeWhile isdigit T = T"
    using T by (simp add: list_all_iff takeWhile_eq_all_conv)
  have "unat n < 2 ^ 64"
    using unsigned_less [of n] by simp
  then show ?thesis
    using to_string_nat_value [of "unat n"] C isdigit_not_sign [OF C]
    by (simp add: strtoumax_def to_string_def CT Let_def tw)
qed

lemma to_string_no_sep: "58 \<notin> set (to_string n)" "61 \<notin> set (to_string n)"
  using to_string_nat_digits [of "unat n"] isdigit_not_sign
  by (auto simp: to_string_def list_all_iff)

section \<open>Application signatures\<close>

text \<open>
  \<open>xel\<close> functions the signature rests on: \<open>Sha256\<close>, \<open>StrToHex\<close>, \<open>Split\<close> (text, separator),
  \<open>SignedDiff\<close> and the printer and parser of addresses.
\<close>

record xel_text =
  Sha256 :: "bytes \<Rightarrow> bytes"
  StrToHex :: "bytes \<Rightarrow> bytes"
  Split :: "bytes \<Rightarrow> bytes \<Rightarrow> bytes list"
  SignedDiff :: "uint64 \<Rightarrow> uint64 \<Rightarrow> int"
  AddrToString :: "xNetAddress \<Rightarrow> bytes"
  AddrParse :: "bytes \<Rightarrow> xNetAddress"

definition StaicSignSalt :: bytes where
  "StaicSignSalt = str ''!#@SFas098xc()*&''"

definition AppSign :: "xel_text \<Rightarrow> uint64 \<Rightarrow> bytes \<Rightarrow> bytes \<Rightarrow> bytes" where
  "AppSign X Timestamp SecretKey Data =
     (let TS = to_string Timestamp;
          Source = StaicSignSalt @ TS @ SecretKey @ Data;
          D = Sha256 X Source
      in TS @ str '':'' @ StrToHex X D)"

definition ValidateAppSign :: "xel_text \<Rightarrow> uint64 \<Rightarrow> bytes \<Rightarrow> bytes \<Rightarrow> bytes \<Rightarrow> bool" where
  "ValidateAppSign X NowMS Sign SecretKey Data =
     (let Segs = Split X Sign (str '':'') in
      if length Segs \<noteq> 2 then False
      else
        let TimestampMS = strtoumax (Segs ! 0);
            TimeDiff = \<bar>SignedDiff X TimestampMS NowMS\<bar>
        in if TimeDiff \<ge> 60000 then False
           else
             let Source = StaicSignSalt @ (Segs ! 0) @ SecretKey @ Data;
                 D = Sha256 X Source
             in StrToHex X D = Segs ! 1)"

definition SignAndPackAddress :: "xel_text \<Rightarrow> uint64 \<Rightarrow> bytes \<Rightarrow> xNetAddress \<Rightarrow> bytes" where
  "SignAndPackAddress X Timestamp SecretKey Address =
     (let IpString = AddrToString X Address;
          Sign = AppSign X Timestamp SecretKey IpString
      in IpString @ str ''='' @ Sign)"

definition ExtractAddressFromPack :: "xel_text \<Rightarrow> uint64 \<Rightarrow> bytes \<Rightarrow> bytes \<Rightarrow> xNetAddress" where
  "ExtractAddressFromPack X NowMS SignedPack SecretKey =
     (let Segs = Split X SignedPack (str ''='') in
      if length Segs \<noteq> 2 then no_address
      else
        let IpString = Segs ! 0 in
        if \<not> ValidateAppSign X NowMS (Segs ! 1) SecretKey IpString then no_address
        else AddrParse X IpString)"

text \<open>
  What the signature relies on: \<open>Split\<close> by a one-byte separator cuts a text with exactly one
  separator in two, a hexadecimal text holds neither separator, and the parser reads back what
  the printer wrote.
\<close>

definition split_ok :: "xel_text \<Rightarrow> bool" where
  "split_ok X \<longleftrightarrow> (\<forall>a b c. c \<notin> set a \<longrightarrow> c \<notin> set b \<longrightarrow> Split X (a @ c # b) [c] = [a, b])"

definition hex_ok :: "xel_text \<Rightarrow> bool" where
  "hex_ok X \<longleftrightarrow> (\<forall>D. 58 \<notin> set (StrToHex X D) \<and> 61 \<notin> set (StrToHex X D))"

lemma AppSign_Split:
  assumes "split_ok X" and "hex_ok X"
  shows "Split X (AppSign X Timestamp SecretKey Data) (str '':'')
    = [to_string Timestamp,
       StrToHex X (Sha256 X (StaicSignSalt @ to_string Timestamp @ SecretKey @ Data))]"
  using assms to_string_no_sep(1) [of Timestamp]
  by (simp add: AppSign_def Let_def split_ok_def hex_ok_def)

lemma AppSign_no_eq: "hex_ok X \<Longrightarrow> 61 \<notin> set (AppSign X Timestamp SecretKey Data)"
  using to_string_no_sep(2) [of Timestamp] by (simp add: AppSign_def Let_def hex_ok_def)

lemma ValidateAppSign_AppSign:
  assumes "split_ok X" and "hex_ok X"
  shows "ValidateAppSign X NowMS (AppSign X Timestamp SecretKey Data) SecretKey Data
    \<longleftrightarrow> \<bar>SignedDiff X Timestamp NowMS\<bar> < 60000"
  unfolding ValidateAppSign_def AppSign_Split [OF assms] Let_def
  by (simp add: strtoumax_to_string not_le)

section \<open>Local addresses, countries\<close>

definition IsLocalNetAddress :: "xNetAddress \<Rightarrow> bool" where
  "IsLocalNetAddress Addr =
     (case na_ip Addr of
        IPV4 SA4 \<Rightarrow>
          (let B0 = SA4 ! 0; B1 = SA4 ! 1 in
           if B0 = 10 then True
           else if B0 = 192 \<and> B1 = 168 then True
           else if B0 = 172 \<and> (B1 \<ge> 16 \<and> B1 < 31) then True
           else False)
      | IPV6 SA6 \<Rightarrow>
          (let B0 = SA6 ! 0; B1 = SA6 ! 1 in
           if (B0 AND 0xFE) = 0xFC then True
           else if B0 = 0xFE \<and> (B1 AND 0xC0) = 0x80 then True
           else False)
      | UNKNOWN \<Rightarrow> False)"

definition CountryCodeToCountryId :: "byte \<times> byte \<Rightarrow> uint32" where
  "CountryCodeToCountryId CountryName =
     push_bit 8 (ucast (fst CountryName)) + ucast (snd CountryName)"

definition GetContinentIdByCountry :: "uint32 \<Rightarrow> uint16" where
  "GetContinentIdByCountry CountryId = 0"

lemma unat_CountryCodeToCountryId:
  "unat (CountryCodeToCountryId (a, b)) = unat a * 256 + unat b"
proof -
  have "unat a < 256" "unat b < 256"
    using unsigned_less [of a] unsigned_less [of b] by simp_all
  then show ?thesis
    by (simp add: CountryCodeToCountryId_def unat_word_ariths unsigned_push_bit_eq
        unsigned_ucast_eq take_bit_eq_mod push_bit_eq_mult)
qed

section \<open>Properties\<close>

text \<open>
  C39: signed addresses round trip. An address that was signed and packed with a key at one time
  is extracted unchanged with the same key at any time less than a minute away, and extracts to
  the invalid address at any other time.
\<close>

theorem signed_address_roundtrip:
  assumes "split_ok X" and "hex_ok X"
    and "AddrParse X (AddrToString X Address) = Address" and "61 \<notin> set (AddrToString X Address)"
  shows "ExtractAddressFromPack X NowMS (SignAndPackAddress X Timestamp SecretKey Address) SecretKey
    = (if \<bar>SignedDiff X Timestamp NowMS\<bar> < 60000 then Address else no_address)"
proof -
  have "Split X (SignAndPackAddress X Timestamp SecretKey Address) [61]
      = [AddrToString X Address, AppSign X Timestamp SecretKey (AddrToString X Address)]"
    using assms(1,4) AppSign_no_eq [OF assms(2)]
    by (simp add: SignAndPackAddress_def Let_def split_ok_def)
  then show ?thesis
    by (simp add: ExtractAddressFromPack_def Let_def ValidateAppSign_AppSign [OF assms(1,2)] assms(3))
qed

definition split_at_first :: "bytes \<Rightarrow> bytes \<Rightarrow> bytes list" where
  "split_at_first S sep =
     (if hd sep \<in> set S
      then [takeWhile (\<lambda>c. c \<noteq> hd sep) S, tl (dropWhile (\<lambda>c. c \<noteq> hd sep) S)] else [S])"

definition text_instance :: xel_text where
  "text_instance =
     \<lparr>Sha256 = (\<lambda>S. S), StrToHex = (\<lambda>D. [of_nat (48 + length D mod 10)]), Split = split_at_first,
      SignedDiff = (\<lambda>a b. sint (a - b)),
      AddrToString = (\<lambda>a. case na_ip a of IPV4 b \<Rightarrow> [65 + b ! 0] | _ \<Rightarrow> []),
      AddrParse = (\<lambda>S. \<lparr>na_ip = IPV4 [hd S - 65, 0, 0, 1], na_port = 0\<rparr>)\<rparr>"

lemma text_instance_ok: "split_ok text_instance" "hex_ok text_instance"
proof -
  have "split_at_first (a @ c # b) [c] = [a, b]" if "c \<notin> set a" for a b and c :: byte
  proof -
    have "takeWhile (\<lambda>x. x \<noteq> c) (a @ c # b) = a"
      using that by (induction a) auto
    moreover have "dropWhile (\<lambda>x. x \<noteq> c) (a @ c # b) = c # b"
      using that by (induction a) auto
    ultimately show ?thesis by (simp add: split_at_first_def)
  qed
  then show "split_ok text_instance"
    by (simp add: split_ok_def text_instance_def)
  show "hex_ok text_instance"
    using isdigit_not_sign [OF isdigit_digit] by (force simp: hex_ok_def text_instance_def)
qed

lemma signed_address_roundtrip_witness:
  "ExtractAddressFromPack text_instance 5000
     (SignAndPackAddress text_instance 1000 (str ''key'') \<lparr>na_ip = IPV4 [10, 0, 0, 1], na_port = 0\<rparr>)
     (str ''key'') = \<lparr>na_ip = IPV4 [10, 0, 0, 1], na_port = 0\<rparr>"
  by (subst signed_address_roundtrip [OF text_instance_ok]) (simp_all add: text_instance_def)

text \<open>
  Which IPv4 addresses count as local: 10.0.0.0/8, 192.168.0.0/16 and 172.16.0.0 up to
  172.30.255.255. The last sixteenth of the private block 172.16.0.0/12, that is 172.31.0.0/16,
  is not among them.
\<close>

theorem local_ipv4_addresses:
  "(IsLocalNetAddress \<lparr>na_ip = IPV4 [a, b, c, d], na_port = p\<rparr> \<longleftrightarrow>
     a = 10 \<or> a = 192 \<and> b = 168 \<or> a = 172 \<and> unat b \<in> {16..30}) \<and>
   \<not> IsLocalNetAddress \<lparr>na_ip = IPV4 [172, 31, c, d], na_port = p\<rparr>"
  by (auto simp: IsLocalNetAddress_def Let_def word_le_nat_alt word_less_nat_alt)

end
