(* ===== verification/Auth_Service.thy ===== *)
theory Auth_Service
  imports PP_Common PP_Future
begin

text \<open>
  \<open>lib_component/auth_local_service\<close>: authorisation by account and password from the CSV files
  of a directory, the usage counted against each account, and the blocking of accounts over
  their limits. The map of accounts is an association list with distinct keys. A usage node is
  counted by reference: the record of its account holds one reference, and so does every
  authorisation that a client has not released. What the service reports to the audit service is
  appended to \<open>au_Reports\<close>. The CSV parser is not part of the repository: a loaded document is
  the list of its rows, \<open>None\<close> a document that cannot be read.
\<close>

section \<open>State\<close>

record auth_record =
  ar_LocalAuthId :: uint64
  ar_GlobalAuthId :: uint64
  ar_CountryId :: uint32
  ar_EnableTcp :: bool
  ar_EnableUdp :: bool
  ar_BandwidthLimit :: uint64
  ar_ConnectionLimit :: uint64
  ar_ProxyClientAddress :: xNetAddress
  ar_StaticExportAddress :: xNetAddress
  ar_BlockStartTimestampMS :: uint64

record xLocalUsage =
  lu_Dirty :: bool
  lu_TotalTcpConnections :: uint64
  lu_TotalTcpBytesFromClient :: uint64
  lu_TotalTcpBytesToClient :: uint64
  lu_TotalUdpChannels :: uint64
  lu_TotalUdpBytesFromClient :: uint64
  lu_TotalUdpBytesToClient :: uint64

record usage_node =
  un_GlobalAuthId :: uint64
  un_ReferenceCount :: uint64
  un_LastReportTimestampMS :: uint64
  un_Audit :: xLocalUsage

record xAuthResult =
  as_LocalAuthId :: uint64
  as_GlobalAuthId :: uint64
  as_CountryId :: uint32
  as_ProxyAccessAddress :: xNetAddress
  as_ExportAddress :: xNetAddress
  as_EnableTcp :: bool
  as_EnableUdp :: bool
  as_BandwidthLimit :: uint32
  as_ConnectionLimit :: uint32
  as_ExpireTime :: uint64

record xAuditUsage =
  ru_AuthId :: uint64
  ru_StartTimestampMS :: uint64
  ru_PeriodMS :: uint64
  ru_Usage :: xLocalUsage

datatype eBlockAccountReason = BANDWITH_LIMIT | CONNECTION_LIMIT | BLACK_LIST_LIMIT

record xAuditBlockAccount =
  rb_AuthId :: uint64
  rb_StartTimestampMS :: uint64
  rb_PeriodMS :: uint64
  rb_Reason :: eBlockAccountReason
  rb_Threshold :: uint64
  rb_TriggerValue :: uint64

datatype audit_report = ReportUsage xAuditUsage | ReportBlockAccount xAuditBlockAccount

type_synonym auth_map = "(bytes \<times> auth_record) list"

record auth_service =
  au_LocalTicker :: uint64
  au_AuthLocalMap :: auth_map
  au_LocalAuditNodePool :: "uint64 \<Rightarrow> usage_node option"
  au_LocalAuditTimeoutList :: "uint64 list"
  au_AuthMap :: "auth_map option"
  au_FileList :: "bytes list"
  au_FileTimestampList :: "int list"
  au_Reports :: "audit_report list"
  au_UnReleasedAuthInfoCount :: uint64
  au_CachedAuthInfoCount :: uint64
  au_CachedAuthInfoMapVersion :: uint64

type_synonym 'o auth_futures = "('o, xAuthResult) future_manager"
type_synonym 'o auth_state = "auth_service \<times> 'o auth_futures"

definition ACCOUNT_BLOCK_TIMEOUT_MS :: uint64 where "ACCOUNT_BLOCK_TIMEOUT_MS = 15 * 60000"
definition LOCAL_AUDIT_NODE_IDLE_TIMEOUT_MS :: uint64 where "LOCAL_AUDIT_NODE_IDLE_TIMEOUT_MS = 5 * 60000"
definition BANDWITH_LIMIT_OVER_FACTOR :: uint64 where "BANDWITH_LIMIT_OVER_FACTOR = 3"
definition CONNECTION_LIMIT_OVER_FACTOR :: uint64 where "CONNECTION_LIMIT_OVER_FACTOR = 3"

definition default_record :: auth_record where
  "default_record =
     \<lparr>ar_LocalAuthId = 0, ar_GlobalAuthId = 0, ar_CountryId = 0, ar_EnableTcp = True, ar_EnableUdp = False,
      ar_BandwidthLimit = 0, ar_ConnectionLimit = 0, ar_ProxyClientAddress = no_address,
      ar_StaticExportAddress = no_address, ar_BlockStartTimestampMS = 0\<rparr>"

definition no_usage :: xLocalUsage where
  "no_usage =
     \<lparr>lu_Dirty = False, lu_TotalTcpConnections = 0, lu_TotalTcpBytesFromClient = 0,
      lu_TotalTcpBytesToClient = 0, lu_TotalUdpChannels = 0, lu_TotalUdpBytesFromClient = 0,
      lu_TotalUdpBytesToClient = 0\<rparr>"

definition fresh_auth_service :: auth_service where
  "fresh_auth_service =
     \<lparr>au_LocalTicker = 0, au_AuthLocalMap = [], au_LocalAuditNodePool = Map.empty,
      au_LocalAuditTimeoutList = [], au_AuthMap = None, au_FileList = [], au_FileTimestampList = [],
      au_Reports = [], au_UnReleasedAuthInfoCount = 0, au_CachedAuthInfoCount = 0,
      au_CachedAuthInfoMapVersion = 0\<rparr>"

text \<open>\<open>Init\<close> with the outcomes of the storage's initialisation and of the directory test.\<close>

definition auth_Init :: "bool \<Rightarrow> bool \<Rightarrow> auth_service \<Rightarrow> bool \<times> auth_service" where
  "auth_Init pool_ok is_directory s =
     (if \<not> pool_ok then (False, s)
      else
        let s = s\<lparr>au_LocalAuditNodePool := Map.empty\<rparr> in
        if \<not> is_directory then (False, s) else (True, s))"

text \<open>
  \<open>Clean\<close> joins the reloading thread, which clears what it holds when its loop has ended by the
  run state (\<open>thread_running\<close>) and not by a file it could not read.
\<close>

definition auth_Clean :: "bool \<Rightarrow> auth_service \<Rightarrow> auth_service" where
  "auth_Clean thread_running s =
     (let s = (if thread_running
               then s\<lparr>au_AuthMap := None, au_FileList := [], au_FileTimestampList := []\<rparr> else s)
      in s\<lparr>au_AuthLocalMap := [], au_LocalAuditNodePool := Map.empty, au_LocalAuditTimeoutList := []\<rparr>)"

section \<open>Reporting the usage\<close>

definition audit_timed_out :: "uint64 \<Rightarrow> auth_service \<Rightarrow> uint64 \<Rightarrow> bool" where
  "audit_timed_out AuditTimepoint s i \<longleftrightarrow>
     (case au_LocalAuditNodePool s i of
        Some N \<Rightarrow> un_LastReportTimestampMS N \<le> AuditTimepoint
      | None \<Rightarrow> False)"

abbreviation set_audit_list :: "uint64 list \<Rightarrow> auth_service \<Rightarrow> auth_service" where
  "set_audit_list q s \<equiv> s\<lparr>au_LocalAuditTimeoutList := q\<rparr>"

definition report_node :: "uint64 \<Rightarrow> uint64 \<Rightarrow> auth_service \<Rightarrow> auth_service" where
  "report_node NowMS i s =
     (case au_LocalAuditNodePool s i of
        None \<Rightarrow> s
      | Some P \<Rightarrow>
          let reported = lu_Dirty (un_Audit P);
              UsageInfo = \<lparr>ru_AuthId = un_GlobalAuthId P, ru_StartTimestampMS = un_LastReportTimestampMS P,
                           ru_PeriodMS = NowMS - un_LastReportTimestampMS P,
                           ru_Usage = un_Audit P\<rparr>;
              P = (if reported then P\<lparr>un_Audit := no_usage\<rparr> else P);
              s = (if reported then s\<lparr>au_Reports := au_Reports s @ [ReportUsage UsageInfo]\<rparr> else s)
          in if un_ReferenceCount P \<noteq> 0
             then s\<lparr>au_LocalAuditNodePool := (au_LocalAuditNodePool s)(i \<mapsto> P\<lparr>un_LastReportTimestampMS := NowMS\<rparr>),
                    au_LocalAuditTimeoutList := add_tail (au_LocalAuditTimeoutList s) i\<rparr>
             else s\<lparr>au_LocalAuditNodePool := (au_LocalAuditNodePool s)(i := None),
                    au_UnReleasedAuthInfoCount := au_UnReleasedAuthInfoCount s - 1\<rparr>)"

text \<open>
  The loop puts the nodes that are still referenced back on the list that it pops; \<open>None\<close> would be
  a loop that does not end.
\<close>

definition CheckAndReportLocalAudit :: "auth_service \<Rightarrow> auth_service option" where
  "CheckAndReportLocalAudit s =
     (let NowMS = au_LocalTicker s;
          AuditTimepoint = NowMS - LOCAL_AUDIT_NODE_IDLE_TIMEOUT_MS
      in pop_loop_run au_LocalAuditTimeoutList set_audit_list (audit_timed_out AuditTimepoint)
           (report_node NowMS) s)"

definition auth_Tick :: "uint64 \<Rightarrow> auth_service \<Rightarrow> auth_service option" where
  "auth_Tick NowMS s = CheckAndReportLocalAudit (s\<lparr>au_LocalTicker := NowMS\<rparr>)"

section \<open>Acquiring and releasing authorisations\<close>

definition map_entry :: "bytes \<Rightarrow> (auth_record \<Rightarrow> auth_record) \<Rightarrow> auth_map \<Rightarrow> auth_map" where
  "map_entry k f M = map (\<lambda>(l, R). if l = k then (l, f R) else (l, R)) M"

definition drop_reference :: "uint64 \<Rightarrow> (uint64 \<Rightarrow> usage_node option) \<Rightarrow> uint64 \<Rightarrow> usage_node option" where
  "drop_reference i P = P(i := map_option (\<lambda>N. N\<lparr>un_ReferenceCount := un_ReferenceCount N - 1\<rparr>) (P i))"

text \<open>The records of the replaced map give up their references.\<close>

fun drop_record_references ::
    "auth_map \<Rightarrow> (uint64 \<Rightarrow> usage_node option) \<Rightarrow> uint64 \<Rightarrow> usage_node option" where
  "drop_record_references [] P = P"
| "drop_record_references ((k, R) # M) P =
     drop_record_references M
       (if ar_LocalAuthId R \<noteq> 0 then drop_reference (ar_LocalAuthId R) P else P)"

definition adopt_auth_map :: "auth_service \<Rightarrow> auth_service" where
  "adopt_auth_map s =
     (case au_AuthMap s of
        None \<Rightarrow> s
      | Some NewMap \<Rightarrow>
          s\<lparr>au_AuthMap := None,
            au_LocalAuditNodePool := drop_record_references (au_AuthLocalMap s) (au_LocalAuditNodePool s),
            au_AuthLocalMap := NewMap,
            au_CachedAuthInfoCount := of_nat (length NewMap),
            au_CachedAuthInfoMapVersion := au_CachedAuthInfoMapVersion s + 1\<rparr>)"

text \<open>An exhausted storage stops the program (\<open>X_RUNTIME_ASSERT\<close>): \<open>None\<close>.\<close>

definition CheckAndSetLocalAuthId ::
    "(uint64 set \<Rightarrow> uint64) \<Rightarrow> bytes \<Rightarrow> auth_record \<Rightarrow> auth_service \<Rightarrow> (uint64 \<times> auth_service) option" where
  "CheckAndSetLocalAuthId alloc k LocalRecord s =
     (if ar_LocalAuthId LocalRecord \<noteq> 0 then Some (ar_LocalAuthId LocalRecord, s)
      else
        let LocalAuthId = alloc (dom (au_LocalAuditNodePool s)) in
        if LocalAuthId = 0 then None
        else Some (LocalAuthId,
          s\<lparr>au_AuthLocalMap := map_entry k (\<lambda>R. R\<lparr>ar_LocalAuthId := LocalAuthId\<rparr>) (au_AuthLocalMap s),
            au_LocalAuditNodePool := (au_LocalAuditNodePool s)(LocalAuthId \<mapsto>
              \<lparr>un_GlobalAuthId = ar_GlobalAuthId LocalRecord, un_ReferenceCount = 1,
               un_LastReportTimestampMS = au_LocalTicker s, un_Audit = no_usage\<rparr>),
            au_LocalAuditTimeoutList := add_tail (au_LocalAuditTimeoutList s) LocalAuthId,
            au_UnReleasedAuthInfoCount := au_UnReleasedAuthInfoCount s + 1\<rparr>))"

definition TotalConsumed :: "xLocalUsage \<Rightarrow> uint64" where
  "TotalConsumed Audit = lu_TotalTcpBytesFromClient Audit + lu_TotalTcpBytesToClient Audit +
     lu_TotalUdpBytesFromClient Audit + lu_TotalUdpBytesToClient Audit"

definition block_account ::
    "bytes \<Rightarrow> uint64 \<Rightarrow> eBlockAccountReason \<Rightarrow> uint64 \<Rightarrow> uint64 \<Rightarrow> auth_service \<Rightarrow> auth_service" where
  "block_account k GlobalAuthId Reason Threshold TriggerValue s =
     s\<lparr>au_AuthLocalMap := map_entry k (\<lambda>R. R\<lparr>ar_BlockStartTimestampMS := au_LocalTicker s\<rparr>) (au_AuthLocalMap s),
       au_Reports := au_Reports s @ [ReportBlockAccount
         \<lparr>rb_AuthId = GlobalAuthId, rb_StartTimestampMS = au_LocalTicker s,
          rb_PeriodMS = ACCOUNT_BLOCK_TIMEOUT_MS, rb_Reason = Reason, rb_Threshold = Threshold,
          rb_TriggerValue = TriggerValue\<rparr>]\<rparr>"

text \<open>The result starts from \<open>{}\<close>: the fields that are not assigned are zero.\<close>

definition auth_result_of :: "uint64 \<Rightarrow> auth_record \<Rightarrow> xAuthResult" where
  "auth_result_of LocalAuthId R =
     \<lparr>as_LocalAuthId = LocalAuthId, as_GlobalAuthId = ar_GlobalAuthId R, as_CountryId = 0,
      as_ProxyAccessAddress = ar_ProxyClientAddress R, as_ExportAddress = ar_StaticExportAddress R,
      as_EnableTcp = ar_EnableTcp R, as_EnableUdp = ar_EnableUdp R, as_BandwidthLimit = 0,
      as_ConnectionLimit = 0, as_ExpireTime = 0\<rparr>"

datatype auth_verdict = Unknown_Account | Blocked | Over_Limit | Granted xAuthResult

definition AcquireAuthInfo_service ::
    "(uint64 set \<Rightarrow> uint64) \<Rightarrow> bytes \<Rightarrow> auth_service \<Rightarrow> (auth_verdict \<times> auth_service) option" where
  "AcquireAuthInfo_service alloc AccountPass s =
     (let s = adopt_auth_map s in
      case map_of (au_AuthLocalMap s) AccountPass of
        None \<Rightarrow> Some (Unknown_Account, s)
      | Some R \<Rightarrow>
          (case CheckAndSetLocalAuthId alloc AccountPass R s of
             None \<Rightarrow> None
           | Some (LocalAuthId, s) \<Rightarrow>
               if ar_BlockStartTimestampMS R \<noteq> 0 \<and>
                  \<not> ar_BlockStartTimestampMS R + ACCOUNT_BLOCK_TIMEOUT_MS \<le> au_LocalTicker s
               then Some (Blocked, s)
               else
                 let s = (if ar_BlockStartTimestampMS R \<noteq> 0
                          then s\<lparr>au_AuthLocalMap := map_entry AccountPass
                                   (\<lambda>R. R\<lparr>ar_BlockStartTimestampMS := 0\<rparr>) (au_AuthLocalMap s)\<rparr>
                          else s);
                     Audit = (case au_LocalAuditNodePool s LocalAuthId of
                                Some N \<Rightarrow> un_Audit N | None \<Rightarrow> no_usage)
                 in
                 if ar_BandwidthLimit R \<noteq> 0 \<and> TotalConsumed Audit > ar_BandwidthLimit R
                 then Some (Over_Limit, block_account AccountPass (ar_GlobalAuthId R) BANDWITH_LIMIT
                             (ar_BandwidthLimit R) (TotalConsumed Audit) s)
                 else if ar_ConnectionLimit R \<noteq> 0 \<and> lu_TotalTcpConnections Audit > ar_ConnectionLimit R
                 then Some (Over_Limit, block_account AccountPass (ar_GlobalAuthId R) CONNECTION_LIMIT
                             (ar_ConnectionLimit R) (lu_TotalTcpConnections Audit) s)
                 else Some (Granted (auth_result_of LocalAuthId R),
                   s\<lparr>au_LocalAuditNodePool := (au_LocalAuditNodePool s)(LocalAuthId :=
                       map_option (\<lambda>N. N\<lparr>un_ReferenceCount := un_ReferenceCount N + 1\<rparr>)
                         (au_LocalAuditNodePool s LocalAuthId))\<rparr>)))"

text \<open>The future is made ready before the look-up, and its result is written when it is granted.\<close>

definition AcquireAuthInfo ::
    "(uint64 set \<Rightarrow> uint64) \<Rightarrow> bytes \<Rightarrow> uint64 \<Rightarrow> 'o auth_state \<Rightarrow> 'o auth_state option" where
  "AcquireAuthInfo alloc AccountPass FutureId st =
     (case AcquireAuthInfo_service alloc AccountPass (fst st) of
        None \<Rightarrow> None
      | Some (verdict, s) \<Rightarrow>
          Some (s, case verdict of
             Granted R \<Rightarrow> SetResult FutureId R (SetReady FutureId (snd st))
           | _ \<Rightarrow> SetReady FutureId (snd st)))"

definition add_usage :: "xLocalUsage \<Rightarrow> xLocalUsage \<Rightarrow> xLocalUsage" where
  "add_usage Audit Usage =
     \<lparr>lu_Dirty = True,
      lu_TotalTcpConnections = lu_TotalTcpConnections Audit + lu_TotalTcpConnections Usage,
      lu_TotalTcpBytesFromClient = lu_TotalTcpBytesFromClient Audit + lu_TotalTcpBytesFromClient Usage,
      lu_TotalTcpBytesToClient = lu_TotalTcpBytesToClient Audit + lu_TotalTcpBytesToClient Usage,
      lu_TotalUdpChannels = lu_TotalUdpChannels Audit + lu_TotalUdpChannels Usage,
      lu_TotalUdpBytesFromClient = lu_TotalUdpBytesFromClient Audit + lu_TotalUdpBytesFromClient Usage,
      lu_TotalUdpBytesToClient = lu_TotalUdpBytesToClient Audit + lu_TotalUdpBytesToClient Usage\<rparr>"

definition ReleaseAuthInfo :: "uint64 \<Rightarrow> xLocalUsage \<Rightarrow> auth_service \<Rightarrow> auth_service" where
  "ReleaseAuthInfo LocalAuthId Usage s =
     s\<lparr>au_LocalAuditNodePool := (au_LocalAuditNodePool s)(LocalAuthId :=
         map_option (\<lambda>N. N\<lparr>un_Audit := add_usage (un_Audit N) Usage,
                           un_ReferenceCount := un_ReferenceCount N - 1\<rparr>)
           (au_LocalAuditNodePool s LocalAuthId))\<rparr>"

section \<open>Loading the files\<close>

text \<open>
  Limits are scaled in double precision: \<open>round_double\<close> rounds a natural number to 53
  significant bits, to nearest and ties to even.
\<close>

fun bit_length :: "nat \<Rightarrow> nat" where
  "bit_length n = (if n = 0 then 0 else Suc (bit_length (n div 2)))"

declare bit_length.simps [simp del]

definition round_double :: "nat \<Rightarrow> nat" where
  "round_double n =
     (if bit_length n \<le> 53 then n
      else
        let k = bit_length n - 53; q = n div 2 ^ k; r = n mod 2 ^ k; h = 2 ^ (k - 1) in
        (if r > h \<or> (r = h \<and> odd q) then q + 1 else q) * 2 ^ k)"

text \<open>\<open>LOCAL_AUDIT_NODE_IDLE_TIMEOUT_MS / 1000.\<close> is 300 exactly.\<close>

definition scale_limit :: "uint64 \<Rightarrow> uint64 \<Rightarrow> uint64" where
  "scale_limit Factor Limit = of_nat (round_double (round_double (unat (Factor * Limit)) * 300))"

definition atoi :: "bytes \<Rightarrow> int" where
  "atoi S =
     (let T = dropWhile isspace S;
          neg = (case T of C # _ \<Rightarrow> C = 45 | [] \<Rightarrow> False);
          D = (case T of C # T' \<Rightarrow> if C = 45 \<or> C = 43 then T' else T | [] \<Rightarrow> []);
          v = int (digits_value (takeWhile isdigit D))
      in if neg then - v else v)"

record csv_row =
  cv_auth_id :: bytes
  cv_account :: bytes
  cv_password :: bytes
  cv_country_code :: bytes
  cv_pa_ip :: bytes
  cv_proxy_ip :: bytes
  cv_is_udp :: bytes
  cv_bandwidth_limit :: bytes
  cv_conn_limit :: bytes
  cv_expired_time :: int

definition CombineAccountPass :: "bytes \<Rightarrow> bytes \<Rightarrow> bytes" where
  "CombineAccountPass AccountView PassView = AccountView @ [0] @ PassView"

definition ensure_entry :: "bytes \<Rightarrow> auth_map \<Rightarrow> auth_map" where
  "ensure_entry k M = (case map_of M k of None \<Rightarrow> M @ [(k, default_record)] | Some _ \<Rightarrow> M)"

definition LoadRow :: "(bytes \<Rightarrow> xNetAddress) \<Rightarrow> int \<Rightarrow> csv_row \<Rightarrow> auth_map \<Rightarrow> auth_map" where
  "LoadRow parse Now Row TargetMap =
     (if cv_expired_time Row < Now then TargetMap
      else
        let AccountKey = CombineAccountPass (cv_account Row) (cv_password Row);
            TargetMap = ensure_entry AccountKey TargetMap;
            CountryCode = cv_country_code Row
        in if length CountryCode \<noteq> 2 then TargetMap
           else map_entry AccountKey
             (\<lambda>Node. Node\<lparr>
                ar_GlobalAuthId := strtoumax (cv_auth_id Row),
                ar_CountryId := CountryCodeToCountryId (CountryCode ! 0, CountryCode ! 1),
                ar_ProxyClientAddress := parse (cv_pa_ip Row),
                ar_StaticExportAddress := parse (cv_proxy_ip Row),
                ar_EnableUdp := atoi (cv_is_udp Row) \<noteq> 0,
                ar_BandwidthLimit := scale_limit BANDWITH_LIMIT_OVER_FACTOR (strtoumax (cv_bandwidth_limit Row)),
                ar_ConnectionLimit := scale_limit CONNECTION_LIMIT_OVER_FACTOR (strtoumax (cv_conn_limit Row))\<rparr>)
             TargetMap)"

definition LoadFile :: "(bytes \<Rightarrow> xNetAddress) \<Rightarrow> int \<Rightarrow> csv_row list \<Rightarrow> auth_map \<Rightarrow> auth_map" where
  "LoadFile parse Now Doc TargetMap = fold (LoadRow parse Now) Doc TargetMap"

record dir_entry =
  de_path :: bytes
  de_is_regular_file :: bool
  de_extension :: bytes
  de_last_write_time :: int

definition auth_files :: "dir_entry list \<Rightarrow> dir_entry list" where
  "auth_files Entries = filter (\<lambda>E. de_is_regular_file E \<and> ToLower (de_extension E) = str ''.csv'') Entries"

fun files_differ :: "bytes list \<Rightarrow> int list \<Rightarrow> bytes list \<Rightarrow> int list \<Rightarrow> bool" where
  "files_differ (F # Fs) (T # Ts) (G # Gs) (U # Us) =
     (if F \<noteq> G \<or> T \<noteq> U then True else files_differ Fs Ts Gs Us)"
| "files_differ _ _ _ _ = False"

definition NeedReload :: "bytes list \<Rightarrow> int list \<Rightarrow> bytes list \<Rightarrow> int list \<Rightarrow> bool" where
  "NeedReload Fs Ts Gs Us = (if length Fs \<noteq> length Gs then True else files_differ Fs Ts Gs Us)"

fun LoadFiles ::
    "(bytes \<Rightarrow> xNetAddress) \<Rightarrow> int \<Rightarrow> (bytes \<Rightarrow> csv_row list option) \<Rightarrow> bytes list \<Rightarrow> auth_map \<Rightarrow>
     auth_map option" where
  "LoadFiles parse Now read [] M = Some M"
| "LoadFiles parse Now read (F # Fs) M =
     (case read F of
        None \<Rightarrow> None
      | Some Doc \<Rightarrow> LoadFiles parse Now read Fs (LoadFile parse Now Doc M))"

text \<open>
  One round of the reloading thread, over the entries of the directory (\<open>None\<close>: the iteration
  failed). The Boolean tells whether the thread goes on: a file that cannot be read ends it.
\<close>

definition ReloadAuthFile ::
    "(bytes \<Rightarrow> xNetAddress) \<Rightarrow> int \<Rightarrow> (bytes \<Rightarrow> csv_row list option) \<Rightarrow> dir_entry list option \<Rightarrow>
     auth_service \<Rightarrow> bool \<times> auth_service" where
  "ReloadAuthFile parse Now read directory s =
     (case directory of
        None \<Rightarrow> (True, s)
      | Some Entries \<Rightarrow>
          let FileList = map de_path (auth_files Entries);
              FileTimestampList = map de_last_write_time (auth_files Entries)
          in if NeedReload FileList FileTimestampList (au_FileList s) (au_FileTimestampList s)
             then (case LoadFiles parse Now read FileList [] of
                     None \<Rightarrow> (False, s)
                   | Some NewMap \<Rightarrow>
                       (True, s\<lparr>au_AuthMap := Some NewMap, au_FileList := FileList,
                                au_FileTimestampList := FileTimestampList\<rparr>))
             else (True, s))"

section \<open>References\<close>

definition record_ids :: "auth_map \<Rightarrow> uint64 list" where
  "record_ids M = map (\<lambda>(k, R). ar_LocalAuthId R) M"

text \<open>The references to a usage node: of its record, and of the authorisations \<open>H\<close> that clients hold.\<close>

definition refs :: "auth_map \<Rightarrow> uint64 list \<Rightarrow> uint64 \<Rightarrow> nat" where
  "refs M H i = count_list (record_ids M) i + count_list H i"

lemma record_ids_map_entry:
  "(\<And>R. ar_LocalAuthId (f R) = ar_LocalAuthId R) \<Longrightarrow> record_ids (map_entry k f M) = record_ids M"
  by (induction M) (auto simp: record_ids_def map_entry_def)

lemma keys_map_entry [simp]: "map fst (map_entry k f M) = map fst M"
  by (induction M) (auto simp: map_entry_def)

lemma length_map_entry [simp]: "length (map_entry k f M) = length M"
  by (simp add: map_entry_def)

lemma map_of_map_entry:
  "map_of (map_entry k f M) l = (if l = k then map_option f (map_of M k) else map_of M l)"
  by (induction M) (auto simp: map_entry_def)

lemma map_entry_other: "k \<notin> set (map fst M) \<Longrightarrow> map_entry k f M = M"
  by (induction M) (auto simp: map_entry_def)

lemma count_record_ids_set:
  assumes "distinct (map fst M)" and "map_of M k = Some R" and "ar_LocalAuthId R = 0" and "i \<noteq> 0"
  shows "count_list (record_ids (map_entry k (\<lambda>R. R\<lparr>ar_LocalAuthId := j\<rparr>) M)) i
    = count_list (record_ids M) i + (if i = j then 1 else 0)"
  using assms
proof (induction M)
  case (Cons e M)
  obtain l Q where e: "e = (l, Q)"
    by fastforce
  show ?case
  proof (cases "l = k")
    case True
    with Cons.prems e have "map_entry k (\<lambda>R. R\<lparr>ar_LocalAuthId := j\<rparr>) M = M"
      by (intro map_entry_other) auto
    moreover have "map_entry k f (e # M) = (k, f Q) # map_entry k f M" for f
      using True e by (simp add: map_entry_def)
    ultimately show ?thesis
      using Cons.prems e True by (simp add: record_ids_def)
  next
    case False
    then have "map_entry k f (e # M) = e # map_entry k f M" for f
      using e by (simp add: map_entry_def)
    with Cons False e show ?thesis
      by (simp add: record_ids_def)
  qed
qed simp

lemma drop_record_references_apply:
  "i \<noteq> 0 \<Longrightarrow> drop_record_references M P i =
     map_option (\<lambda>N. N\<lparr>un_ReferenceCount := un_ReferenceCount N - of_nat (count_list (record_ids M) i)\<rparr>) (P i)"
  "drop_record_references M P 0 = P 0"
  by (induction M P rule: drop_record_references.induct)
     (auto simp: record_ids_def drop_reference_def option.map_comp comp_def option.map_ident algebra_simps)

lemma dom_drop_record_references [simp]: "dom (drop_record_references M P) = dom P"
proof -
  have "drop_record_references M P i = None \<longleftrightarrow> P i = None" for i
    by (cases "i = 0") (simp_all add: drop_record_references_apply)
  then show ?thesis
    by (auto simp: dom_def)
qed

section \<open>The invariant\<close>

definition node_time :: "auth_service \<Rightarrow> uint64 \<Rightarrow> uint64" where
  "node_time s i = (case au_LocalAuditNodePool s i of Some N \<Rightarrow> un_LastReportTimestampMS N | None \<Rightarrow> 0)"

text \<open>
  Every node counts exactly the references to it, every referenced node is live, live nodes are
  queued once each in the order of their last report, a node whose usage is not marked has none,
  and an adopted map starts without references.
\<close>

definition ref_inv :: "uint64 list \<Rightarrow> auth_service \<Rightarrow> bool" where
  "ref_inv H s \<longleftrightarrow>
     length (au_AuthLocalMap s) < 2 ^ 63 \<and> length H < 2 ^ 63 \<and>
     (\<forall>i N. au_LocalAuditNodePool s i = Some N \<longrightarrow>
        un_ReferenceCount N = of_nat (refs (au_AuthLocalMap s) H i)) \<and>
     (\<forall>i. i \<noteq> 0 \<longrightarrow> refs (au_AuthLocalMap s) H i \<noteq> 0 \<longrightarrow> au_LocalAuditNodePool s i \<noteq> None) \<and>
     au_LocalAuditNodePool s 0 = None \<and> 0 \<notin> set H"

definition map_inv :: "auth_service \<Rightarrow> bool" where
  "map_inv s \<longleftrightarrow> distinct (map fst (au_AuthLocalMap s)) \<and>
     (case au_AuthMap s of None \<Rightarrow> True
      | Some M \<Rightarrow> distinct (map fst M) \<and> length M < 2 ^ 63 \<and> set (record_ids M) \<subseteq> {0})"

definition audit_inv :: "auth_service \<Rightarrow> bool" where
  "audit_inv s \<longleftrightarrow>
     distinct (au_LocalAuditTimeoutList s) \<and>
     set (au_LocalAuditTimeoutList s) = dom (au_LocalAuditNodePool s) \<and>
     sorted (map (node_time s) (au_LocalAuditTimeoutList s)) \<and>
     (\<forall>i N. au_LocalAuditNodePool s i = Some N \<longrightarrow> un_LastReportTimestampMS N \<le> au_LocalTicker s \<and>
        (\<not> lu_Dirty (un_Audit N) \<longrightarrow> un_Audit N = no_usage)) \<and>
     au_UnReleasedAuthInfoCount s = count_live (au_LocalAuditNodePool s)"

definition auth_inv :: "uint64 list \<Rightarrow> auth_service \<Rightarrow> bool" where
  "auth_inv H s \<longleftrightarrow> ref_inv H s \<and> map_inv s \<and> audit_inv s"

lemma auth_inv_fresh: "auth_inv [] fresh_auth_service"
  by (simp add: auth_inv_def ref_inv_def map_inv_def audit_inv_def fresh_auth_service_def refs_def record_ids_def)

lemma refs_bound: "refs M H i \<le> length M + length H"
  unfolding refs_def record_ids_def
  by (metis add_mono count_le_length length_map)

lemma ref_count_zero:
  assumes "ref_inv H s" and "au_LocalAuditNodePool s i = Some N"
  shows "un_ReferenceCount N = 0 \<longleftrightarrow> refs (au_AuthLocalMap s) H i = 0"
proof -
  have "refs (au_AuthLocalMap s) H i < 2 ^ 64"
    using assms(1) refs_bound [of "au_AuthLocalMap s" H i] by (simp add: ref_inv_def)
  moreover have "un_ReferenceCount N = of_nat (refs (au_AuthLocalMap s) H i)"
    using assms by (simp add: ref_inv_def)
  ultimately show ?thesis
    by (simp add: of_nat_64_eq_0)
qed

section \<open>The report loop\<close>

text \<open>One iteration, on a node \<open>i\<close> at the head of the list.\<close>

definition reports_of :: "uint64 \<Rightarrow> usage_node \<Rightarrow> audit_report list" where
  "reports_of NowMS P =
     (if lu_Dirty (un_Audit P)
      then [ReportUsage \<lparr>ru_AuthId = un_GlobalAuthId P, ru_StartTimestampMS = un_LastReportTimestampMS P,
              ru_PeriodMS = NowMS - un_LastReportTimestampMS P, ru_Usage = un_Audit P\<rparr>]
      else [])"

lemma report_node_eq:
  assumes "audit_inv s" and "au_LocalAuditNodePool s i = Some P"
  shows "report_node NowMS i (set_audit_list q s) =
     (if un_ReferenceCount P \<noteq> 0
      then s\<lparr>au_LocalAuditNodePool := (au_LocalAuditNodePool s)(i \<mapsto>
               P\<lparr>un_Audit := no_usage, un_LastReportTimestampMS := NowMS\<rparr>),
             au_LocalAuditTimeoutList := q @ [i], au_Reports := au_Reports s @ reports_of NowMS P\<rparr>
      else s\<lparr>au_LocalAuditNodePool := (au_LocalAuditNodePool s)(i := None), au_LocalAuditTimeoutList := q,
             au_UnReleasedAuthInfoCount := au_UnReleasedAuthInfoCount s - 1,
             au_Reports := au_Reports s @ reports_of NowMS P\<rparr>)"
proof -
  have "P\<lparr>un_Audit := no_usage\<rparr> = P" if "\<not> lu_Dirty (un_Audit P)"
  proof -
    have "un_Audit P = no_usage"
      using assms that unfolding audit_inv_def by blast
    then show ?thesis by (cases P) simp
  qed
  with assms(2) show ?thesis
    by (auto simp: report_node_def Let_def reports_of_def)
qed

lemma auth_inv_report:
  assumes inv: "auth_inv H s" and q: "au_LocalAuditTimeoutList s = i # q"
  shows "auth_inv H (report_node (au_LocalTicker s) i (set_audit_list q s))"
proof -
  let ?s' = "report_node (au_LocalTicker s) i (set_audit_list q s)"
  have r: "ref_inv H s" and m: "map_inv s" and a: "audit_inv s"
    using inv by (simp_all add: auth_inv_def)
  have dm: "insert i (set q) = dom (au_LocalAuditNodePool s)" and i: "i \<notin> set q" "distinct q"
    using a q by (simp_all add: audit_inv_def)
  then obtain P where P: "au_LocalAuditNodePool s i = Some P"
    by blast
  have i0: "i \<noteq> 0"
    using r P by (auto simp: ref_inv_def)
  note s' = report_node_eq [OF a P, of "au_LocalTicker s" q]
  have stamps: "map (node_time ?s') q = map (node_time s) q"
    using i by (auto simp: s' node_time_def)
  have "node_time s j \<le> au_LocalTicker s" if "j \<in> set q" for j
    using a dm that by (auto simp: audit_inv_def node_time_def split: option.split)
  then have "\<forall>j \<in> set q. node_time ?s' j \<le> au_LocalTicker s"
    using stamps by (simp add: map_eq_conv)
  moreover have "sorted (map (node_time ?s') q)"
    unfolding stamps using a q by (simp add: audit_inv_def)
  moreover have "au_LocalAuditTimeoutList ?s' = (if un_ReferenceCount P \<noteq> 0 then q @ [i] else q)"
    and "un_ReferenceCount P \<noteq> 0 \<Longrightarrow> node_time ?s' i = au_LocalTicker s"
    by (simp_all add: s' node_time_def)
  ultimately have so: "sorted (map (node_time ?s') (au_LocalAuditTimeoutList ?s'))"
    by (simp add: sorted_append)
  have "map_inv ?s'"
    using m by (simp add: map_inv_def s')
  moreover have "ref_inv H ?s'"
    using r P ref_count_zero [OF r P] by (auto simp: ref_inv_def s')
  moreover have "audit_inv ?s'"
    using a i dm so P by (auto simp: audit_inv_def s' pool_simps)
  ultimately show ?thesis
    by (simp add: auth_inv_def)
qed

definition old_nodes :: "uint64 \<Rightarrow> auth_service \<Rightarrow> uint64 set" where
  "old_nodes T s = {i. audit_timed_out T s i}"

lemma finite_old_nodes [simp]: "finite (old_nodes T s)"
  by (rule finite_subset [OF subset_UNIV]) simp

lemma auth_inv_ticker:
  "auth_inv H s \<Longrightarrow> au_LocalTicker s \<le> now \<Longrightarrow> auth_inv H (s\<lparr>au_LocalTicker := now\<rparr>)"
proof -
  assume a: "auth_inv H s" "au_LocalTicker s \<le> now"
  have "node_time (s\<lparr>au_LocalTicker := now\<rparr>) = node_time s"
    by (simp add: node_time_def fun_eq_iff)
  with a show ?thesis
    by (fastforce simp: auth_inv_def ref_inv_def map_inv_def audit_inv_def)
qed

lemma report_node_old:
  assumes inv: "audit_inv s" and q: "au_LocalAuditTimeoutList s = i # q" and T: "T < NowMS"
  shows "old_nodes T (report_node NowMS i (set_audit_list q s)) = old_nodes T s - {i}"
proof -
  have "i \<in> dom (au_LocalAuditNodePool s)"
    using inv q by (auto simp: audit_inv_def)
  then obtain P where P: "au_LocalAuditNodePool s i = Some P"
    by blast
  show ?thesis
    using T by (auto simp: report_node_eq [OF inv P] old_nodes_def audit_timed_out_def)
qed

lemma timepoint_less:
  "LOCAL_AUDIT_NODE_IDLE_TIMEOUT_MS \<le> now \<Longrightarrow> now - LOCAL_AUDIT_NODE_IDLE_TIMEOUT_MS < now"
  by (rule word_minus_less) (simp_all add: LOCAL_AUDIT_NODE_IDLE_TIMEOUT_MS_def)

lemma report_node_ticker [simp]: "au_LocalTicker (report_node NowMS i s) = au_LocalTicker s"
  by (simp add: report_node_def Let_def split: option.split)

lemma auth_Tick_ends:
  assumes "auth_inv H s" and "au_LocalTicker s \<le> now" and "LOCAL_AUDIT_NODE_IDLE_TIMEOUT_MS \<le> now"
  shows "\<exists>s'. auth_Tick now s = Some s'"
  unfolding auth_Tick_def CheckAndReportLocalAudit_def Let_def
proof (rule pop_loop_run_ends [where P = "\<lambda>s. auth_inv H s \<and> au_LocalTicker s = now"
      and f = "\<lambda>s. card (old_nodes (now - LOCAL_AUDIT_NODE_IDLE_TIMEOUT_MS) s)"], goal_cases)
  case 1
  show ?case
    using auth_inv_ticker [OF assms(1,2)] by simp
next
  case (2 u i q)
  then have inv: "auth_inv H (report_node now i (set_audit_list q u))"
    using auth_inv_report by blast
  have "i \<in> old_nodes (now - LOCAL_AUDIT_NODE_IDLE_TIMEOUT_MS) u"
    using 2(3) by (simp add: old_nodes_def)
  moreover have "old_nodes (now - LOCAL_AUDIT_NODE_IDLE_TIMEOUT_MS) (report_node now i (set_audit_list q u))
      = old_nodes (now - LOCAL_AUDIT_NODE_IDLE_TIMEOUT_MS) u - {i}"
    using 2(1) timepoint_less [OF assms(3)] by (intro report_node_old [OF _ 2(2)]) (simp_all add: auth_inv_def)
  ultimately show ?case
    using inv 2(1) card_Diff1_less [OF finite_old_nodes] by simp
qed

lemma auth_Tick_inv:
  assumes "auth_Tick now s = Some s'" and "auth_inv H s" and "au_LocalTicker s \<le> now"
  shows "auth_inv H s'" and "au_LocalTicker s' = now"
    and "\<And>i q. au_LocalAuditTimeoutList s' = i # q \<Longrightarrow>
      \<not> audit_timed_out (now - LOCAL_AUDIT_NODE_IDLE_TIMEOUT_MS) s' i"
proof -
  have run: "pop_loop_run au_LocalAuditTimeoutList set_audit_list
      (audit_timed_out (now - LOCAL_AUDIT_NODE_IDLE_TIMEOUT_MS)) (report_node now)
      (s\<lparr>au_LocalTicker := now\<rparr>) = Some s'"
    using assms(1) by (simp add: auth_Tick_def CheckAndReportLocalAudit_def Let_def)
  have start: "auth_inv H (s\<lparr>au_LocalTicker := now\<rparr>) \<and> au_LocalTicker (s\<lparr>au_LocalTicker := now\<rparr>) = now"
    using auth_inv_ticker [OF assms(2,3)] by simp
  have step: "auth_inv H (report_node now i (set_audit_list q u)) \<and>
      au_LocalTicker (report_node now i (set_audit_list q u)) = now"
    if "auth_inv H u \<and> au_LocalTicker u = now" "au_LocalAuditTimeoutList u = i # q" for u i q
    using that auth_inv_report by auto
  show "auth_inv H s'" and "au_LocalTicker s' = now"
    using pop_loop_run_invariant(1) [OF run, of "\<lambda>u. auth_inv H u \<and> au_LocalTicker u = now", OF start step]
    by auto
  show "\<And>i q. au_LocalAuditTimeoutList s' = i # q \<Longrightarrow>
      \<not> audit_timed_out (now - LOCAL_AUDIT_NODE_IDLE_TIMEOUT_MS) s' i"
    using pop_loop_run_invariant(2) [OF run, of "\<lambda>u. True"] by blast
qed

lemma auth_Tick_young:
  assumes "auth_Tick now s = Some s'" and "auth_inv H s" and "au_LocalTicker s \<le> now"
    and N: "au_LocalAuditNodePool s' i = Some N"
  shows "now - LOCAL_AUDIT_NODE_IDLE_TIMEOUT_MS < un_LastReportTimestampMS N"
proof -
  let ?T = "now - LOCAL_AUDIT_NODE_IDLE_TIMEOUT_MS"
  note s' = auth_Tick_inv [OF assms(1-3)]
  have a: "audit_inv s'"
    using s'(1) by (simp add: auth_inv_def)
  have i: "i \<in> set (au_LocalAuditTimeoutList s')"
    using a N by (auto simp: audit_inv_def)
  then obtain j q where L: "au_LocalAuditTimeoutList s' = j # q"
    by (cases "au_LocalAuditTimeoutList s'") auto
  have "j \<in> dom (au_LocalAuditNodePool s')"
    using a L by (auto simp: audit_inv_def)
  then have "?T < node_time s' j"
    using s'(3) [OF L] by (auto simp: audit_timed_out_def node_time_def)
  moreover have "node_time s' j \<le> node_time s' i"
    using a L i by (auto simp: audit_inv_def)
  ultimately show ?thesis
    using N by (simp add: node_time_def)
qed

lemma auth_Tick_unreferenced:
  assumes "auth_Tick now s = Some s'" and "auth_inv H s" and "au_LocalTicker s \<le> now"
    and z: "refs (au_AuthLocalMap s) H i = 0"
  shows "au_LocalAuditNodePool s' i = au_LocalAuditNodePool s i \<or> au_LocalAuditNodePool s' i = None"
proof -
  have run: "pop_loop_run au_LocalAuditTimeoutList set_audit_list
      (audit_timed_out (now - LOCAL_AUDIT_NODE_IDLE_TIMEOUT_MS)) (report_node now)
      (s\<lparr>au_LocalTicker := now\<rparr>) = Some s'"
    using assms(1) by (simp add: auth_Tick_def CheckAndReportLocalAudit_def Let_def)
  let ?Q = "\<lambda>u. auth_inv H u \<and> au_LocalTicker u = now \<and> au_AuthLocalMap u = au_AuthLocalMap s \<and>
    (au_LocalAuditNodePool u i = au_LocalAuditNodePool s i \<or> au_LocalAuditNodePool u i = None)"
  have start: "?Q (s\<lparr>au_LocalTicker := now\<rparr>)"
    using auth_inv_ticker [OF assms(2,3)] by simp
  have step: "?Q (report_node now j (set_audit_list q u))"
    if Q: "?Q u" and q: "au_LocalAuditTimeoutList u = j # q" for u j q
  proof -
    have inv: "auth_inv H u" and n: "au_LocalTicker u = now" and m: "au_AuthLocalMap u = au_AuthLocalMap s"
      using Q by simp_all
    have a: "audit_inv u" and r: "ref_inv H u"
      using inv by (simp_all add: auth_inv_def)
    have "j \<in> dom (au_LocalAuditNodePool u)"
      using a q by (auto simp: audit_inv_def)
    then obtain P where P: "au_LocalAuditNodePool u j = Some P"
      by blast
    let ?u = "report_node now j (set_audit_list q u)"
    have 1: "auth_inv H ?u"
      using auth_inv_report [OF inv q] n by simp
    have 2: "au_LocalTicker ?u = now"
      by (simp add: n)
    have 3: "au_AuthLocalMap ?u = au_AuthLocalMap s"
      using m by (simp add: report_node_eq [OF a P])
    have 4: "au_LocalAuditNodePool ?u i = au_LocalAuditNodePool u i \<or> au_LocalAuditNodePool ?u i = None"
      using z ref_count_zero [OF r P] m by (cases "i = j") (simp_all add: report_node_eq [OF a P])
    have 5: "au_LocalAuditNodePool u i = au_LocalAuditNodePool s i \<or> au_LocalAuditNodePool u i = None"
      using Q by (elim conjE)
    have 6: "au_LocalAuditNodePool ?u i = au_LocalAuditNodePool s i \<or> au_LocalAuditNodePool ?u i = None"
      using 4 5 by argo
    show ?thesis
      by (intro conjI 1 2 3 6)
  qed
  have "?Q s'"
    by (rule pop_loop_run_invariant(1) [of _ _ _ _ _ _ ?Q, OF run start step])
  then show ?thesis
    by (elim conjE)
qed

section \<open>Acquiring, releasing and reloading preserve the invariant\<close>

lemma count_list_zeros: "set xs \<subseteq> {0} \<Longrightarrow> i \<noteq> 0 \<Longrightarrow> count_list xs i = 0"
  by (rule count_notin) auto

lemma auth_inv_adopt:
  assumes "auth_inv H s"
  shows "auth_inv H (adopt_auth_map s)"
proof (cases "au_AuthMap s")
  case None
  with assms show ?thesis
    by (simp add: adopt_auth_map_def)
next
  case (Some M)
  let ?s' = "adopt_auth_map s"
  let ?P = "drop_record_references (au_AuthLocalMap s) (au_LocalAuditNodePool s)"
  have s': "?s' = s\<lparr>au_AuthMap := None, au_LocalAuditNodePool := ?P, au_AuthLocalMap := M,
      au_CachedAuthInfoCount := of_nat (length M),
      au_CachedAuthInfoMapVersion := au_CachedAuthInfoMapVersion s + 1\<rparr>"
    using Some by (simp add: adopt_auth_map_def)
  have r: "ref_inv H s" and m: "map_inv s" and a: "audit_inv s"
    using assms by (simp_all add: auth_inv_def)
  have M: "distinct (map fst M)" "length M < 2 ^ 63" "set (record_ids M) \<subseteq> {0}"
    using m Some by (simp_all add: map_inv_def)
  have i0: "?P 0 = None"
    using r by (simp add: ref_inv_def drop_record_references_apply)
  have node: "\<exists>K. au_LocalAuditNodePool s i = Some K \<and> N = K\<lparr>un_ReferenceCount := of_nat (count_list H i)\<rparr> \<and> i \<noteq> 0"
    if "?P i = Some N" for i N
  proof -
    have i: "i \<noteq> 0"
      using that i0 by auto
    with that obtain K where K: "au_LocalAuditNodePool s i = Some K"
      and N: "N = K\<lparr>un_ReferenceCount := un_ReferenceCount K - of_nat (count_list (record_ids (au_AuthLocalMap s)) i)\<rparr>"
      by (auto simp: drop_record_references_apply)
    have "un_ReferenceCount K = of_nat (refs (au_AuthLocalMap s) H i)"
      using r K by (simp add: ref_inv_def)
    then show ?thesis
      using K N i by (simp add: refs_def)
  qed
  have refs: "refs M H i = count_list H i" if "i \<noteq> 0" for i
    using count_list_zeros [OF M(3) that] by (simp add: refs_def)
  have d: "?P i = None \<longleftrightarrow> au_LocalAuditNodePool s i = None" for i
    by (metis dom_drop_record_references domIff)
  have "ref_inv H ?s'"
    unfolding ref_inv_def
  proof (intro conjI allI impI)
    fix i N assume "au_LocalAuditNodePool ?s' i = Some N"
    then show "un_ReferenceCount N = of_nat (refs (au_AuthLocalMap ?s') H i)"
      using node [of i N] refs [of i] by (auto simp: s')
  next
    fix i assume i: "i \<noteq> 0" "refs (au_AuthLocalMap ?s') H i \<noteq> 0"
    then have "refs (au_AuthLocalMap s) H i \<noteq> 0"
      using refs [of i] by (simp add: s' refs_def)
    then have "au_LocalAuditNodePool s i \<noteq> None"
      using r i(1) by (simp add: ref_inv_def)
    then show "au_LocalAuditNodePool ?s' i \<noteq> None"
      using d [of i] by (simp add: s')
  qed (use r M i0 in \<open>simp_all add: s' ref_inv_def\<close>)
  moreover have "map_inv ?s'"
    using M by (simp add: map_inv_def s')
  moreover have "audit_inv ?s'"
  proof -
    have "node_time ?s' i = node_time s i" for i
      using node [of i] d [of i] by (cases "?P i") (auto simp: node_time_def s')
    then have eq: "node_time ?s' = node_time s"
      by (rule ext)
    have "count_live ?P = count_live (au_LocalAuditNodePool s)"
      by (simp add: count_live_def)
    moreover have "un_LastReportTimestampMS N \<le> au_LocalTicker s \<and>
        (\<not> lu_Dirty (un_Audit N) \<longrightarrow> un_Audit N = no_usage)" if "?P i = Some N" for i N
      using node [OF that] a by (auto simp: audit_inv_def)
    ultimately show ?thesis
      using a unfolding audit_inv_def eq by (simp add: s')
  qed
  ultimately show ?thesis
    by (simp add: auth_inv_def)
qed

lemma auth_inv_map_entry:
  assumes "auth_inv H s" and "\<And>R. ar_LocalAuthId (f R) = ar_LocalAuthId R"
  shows "auth_inv H (s\<lparr>au_AuthLocalMap := map_entry k f (au_AuthLocalMap s), au_Reports := rs\<rparr>)"
proof -
  have "refs (map_entry k f (au_AuthLocalMap s)) = refs (au_AuthLocalMap s)"
    by (simp add: refs_def record_ids_map_entry [OF assms(2)] fun_eq_iff)
  moreover have "node_time (s\<lparr>au_AuthLocalMap := map_entry k f (au_AuthLocalMap s), au_Reports := rs\<rparr>) = node_time s"
    by (simp add: node_time_def fun_eq_iff)
  ultimately show ?thesis
    using assms(1) by (simp add: auth_inv_def ref_inv_def map_inv_def audit_inv_def)
qed

lemma map_of_count:
  assumes "map_of M k = Some R" shows "count_list (record_ids M) (ar_LocalAuthId R) \<noteq> 0"
proof -
  have "ar_LocalAuthId R \<in> set (record_ids M)"
    using map_of_SomeD [OF assms] by (force simp: record_ids_def)
  then show ?thesis
    by (simp add: count_list_0_iff)
qed

lemma auth_inv_CheckAndSet:
  assumes inv: "auth_inv H s" and "storage_ok alloc" and R: "map_of (au_AuthLocalMap s) k = Some R"
    and c: "CheckAndSetLocalAuthId alloc k R s = Some (i, s')"
  shows "auth_inv H s'" and "i \<noteq> 0" and "au_LocalAuditNodePool s' i \<noteq> None"
    and "map_of (au_AuthLocalMap s') k = Some (R\<lparr>ar_LocalAuthId := i\<rparr>)"
proof -
  have r: "ref_inv H s" and m: "map_inv s" and a: "audit_inv s"
    using inv by (simp_all add: auth_inv_def)
  have "auth_inv H s' \<and> i \<noteq> 0 \<and> au_LocalAuditNodePool s' i \<noteq> None \<and>
    map_of (au_AuthLocalMap s') k = Some (R\<lparr>ar_LocalAuthId := i\<rparr>)"
  proof (cases "ar_LocalAuthId R = 0")
    case False
    then have "s' = s" "i = ar_LocalAuthId R"
      using c by (simp_all add: CheckAndSetLocalAuthId_def)
    moreover have "refs (au_AuthLocalMap s) H (ar_LocalAuthId R) \<noteq> 0"
      using map_of_count [OF R] by (simp add: refs_def)
    then have "au_LocalAuditNodePool s (ar_LocalAuthId R) \<noteq> None"
      using r False by (simp add: ref_inv_def)
    ultimately show ?thesis
      using inv R False by simp
  next
    case True
    let ?i = "alloc (dom (au_LocalAuditNodePool s))"
    from c True have i: "i = ?i" "i \<noteq> 0"
      and s': "s' = s\<lparr>au_AuthLocalMap := map_entry k (\<lambda>R. R\<lparr>ar_LocalAuthId := i\<rparr>) (au_AuthLocalMap s),
            au_LocalAuditNodePool := (au_LocalAuditNodePool s)(i \<mapsto>
              \<lparr>un_GlobalAuthId = ar_GlobalAuthId R, un_ReferenceCount = 1,
               un_LastReportTimestampMS = au_LocalTicker s, un_Audit = no_usage\<rparr>),
            au_LocalAuditTimeoutList := add_tail (au_LocalAuditTimeoutList s) i,
            au_UnReleasedAuthInfoCount := au_UnReleasedAuthInfoCount s + 1\<rparr>"
      by (auto simp: CheckAndSetLocalAuthId_def Let_def split: if_splits)
    have n: "au_LocalAuditNodePool s i = None"
      using storage_okD [OF assms(2), of "au_LocalAuditNodePool s"] i by simp
    then have r0: "refs (au_AuthLocalMap s) H i = 0"
      using r i(2) by (auto simp: ref_inv_def)
    have refs': "refs (au_AuthLocalMap s') H j = refs (au_AuthLocalMap s) H j + (if j = i then 1 else 0)"
      if "j \<noteq> 0" for j
      using count_record_ids_set [OF _ R True that, of i] m by (simp add: map_inv_def refs_def s')
    have "ref_inv H s'"
      unfolding ref_inv_def
    proof (intro conjI allI impI)
      fix j N assume N: "au_LocalAuditNodePool s' j = Some N"
      show "un_ReferenceCount N = of_nat (refs (au_AuthLocalMap s') H j)"
      proof (cases "j = i")
        case True
        with N i(2) r0 refs' [of i] show ?thesis
          by (auto simp: s')
      next
        case False
        with N have "au_LocalAuditNodePool s j = Some N"
          by (simp add: s')
        moreover from this have "j \<noteq> 0"
          using r by (auto simp: ref_inv_def)
        ultimately show ?thesis
          using False r refs' [of j] by (simp add: ref_inv_def)
      qed
    next
      fix j assume "j \<noteq> 0" "refs (au_AuthLocalMap s') H j \<noteq> 0"
      then show "au_LocalAuditNodePool s' j \<noteq> None"
        using refs' [of j] r by (cases "j = i") (simp_all add: s' ref_inv_def)
    qed (use r i in \<open>simp_all add: s' ref_inv_def\<close>)
    moreover have "map_inv s'"
      using m by (simp add: map_inv_def s')
    moreover have "audit_inv s'"
    proof -
      have "i \<notin> dom (au_LocalAuditNodePool s)"
        using n by auto
      then have i: "i \<notin> set (au_LocalAuditTimeoutList s)"
        using a by (simp add: audit_inv_def)
      then have eq: "map (node_time s') (au_LocalAuditTimeoutList s) = map (node_time s) (au_LocalAuditTimeoutList s)"
        by (auto simp: node_time_def s')
      have "node_time s j \<le> au_LocalTicker s" for j
        using a by (auto simp: audit_inv_def node_time_def split: option.split)
      moreover have "sorted (map (node_time s) (au_LocalAuditTimeoutList s))"
        using a by (simp add: audit_inv_def)
      moreover have "node_time s' i = au_LocalTicker s"
        by (simp add: node_time_def s')
      ultimately have "sorted (map (node_time s') (au_LocalAuditTimeoutList s @ [i]))"
        unfolding map_append eq sorted_append by simp
      then show ?thesis
        using a i n by (auto simp: audit_inv_def s' pool_simps)
    qed
    ultimately show ?thesis
      using i(2) R by (simp add: auth_inv_def s' map_of_map_entry)
  qed
  then show "auth_inv H s'" and "i \<noteq> 0" and "au_LocalAuditNodePool s' i \<noteq> None"
    and "map_of (au_AuthLocalMap s') k = Some (R\<lparr>ar_LocalAuthId := i\<rparr>)"
    by simp_all
qed

lemma auth_inv_reference:
  assumes inv: "auth_inv H s" and i: "i \<noteq> 0" "au_LocalAuditNodePool s i = Some N"
    and H': "\<And>j. count_list H' j = (if j = i then c else count_list H j)" "length H' < 2 ^ 63" "0 \<notin> set H'"
    and N': "un_ReferenceCount N' = un_ReferenceCount N + of_nat c - of_nat (count_list H i)"
      "un_LastReportTimestampMS N' = un_LastReportTimestampMS N"
      "\<not> lu_Dirty (un_Audit N') \<longrightarrow> un_Audit N' = no_usage"
  shows "auth_inv H' (s\<lparr>au_LocalAuditNodePool := (au_LocalAuditNodePool s)(i \<mapsto> N')\<rparr>)"
proof -
  let ?s' = "s\<lparr>au_LocalAuditNodePool := (au_LocalAuditNodePool s)(i \<mapsto> N')\<rparr>"
  have r: "ref_inv H s" and m: "map_inv s" and a: "audit_inv s"
    using inv by (simp_all add: auth_inv_def)
  have "un_ReferenceCount N = of_nat (refs (au_AuthLocalMap s) H i)"
    using r i by (simp add: ref_inv_def)
  then have "un_ReferenceCount N' = of_nat (refs (au_AuthLocalMap s) H' i)"
    by (simp add: N' refs_def H')
  moreover have "refs (au_AuthLocalMap s) H' j = refs (au_AuthLocalMap s) H j" if "j \<noteq> i" for j
    using that by (simp add: refs_def H'(1))
  ultimately have "ref_inv H' ?s'"
    using r i H'(2,3) by (auto simp: ref_inv_def)
  moreover have eq: "node_time ?s' = node_time s"
    using i N' by (simp add: node_time_def fun_eq_iff)
  have "audit_inv ?s'"
    using a i N' unfolding audit_inv_def eq by (auto simp: pool_simps)
  moreover have "map_inv ?s'"
    using m by (simp add: map_inv_def)
  ultimately show ?thesis
    by (simp add: auth_inv_def)
qed

lemma adopt_auth_map_keeps:
  "au_AuthMap (adopt_auth_map s) = None" "au_LocalTicker (adopt_auth_map s) = au_LocalTicker s"
  by (simp_all add: adopt_auth_map_def split: option.split)

lemma CheckAndSetLocalAuthId_keeps:
  assumes "CheckAndSetLocalAuthId alloc k R s = Some (i, s')"
  shows "au_AuthMap s' = au_AuthMap s" and "au_LocalTicker s' = au_LocalTicker s"
  using assms by (auto simp: CheckAndSetLocalAuthId_def Let_def split: if_splits)

text \<open>The account after the block has run out.\<close>

definition unblocked :: "bytes \<Rightarrow> auth_record \<Rightarrow> auth_service \<Rightarrow> auth_service" where
  "unblocked k R s =
     (if ar_BlockStartTimestampMS R \<noteq> 0
      then s\<lparr>au_AuthLocalMap := map_entry k (\<lambda>R. R\<lparr>ar_BlockStartTimestampMS := 0\<rparr>) (au_AuthLocalMap s)\<rparr>
      else s)"

lemma unblocked_simps [simp]:
  "au_LocalAuditNodePool (unblocked k R s) = au_LocalAuditNodePool s"
  "au_Reports (unblocked k R s) = au_Reports s" "au_LocalTicker (unblocked k R s) = au_LocalTicker s"
  by (simp_all add: unblocked_def)

lemma acquire_eq:
  assumes "map_of (au_AuthLocalMap (adopt_auth_map s)) k = Some R"
    and "CheckAndSetLocalAuthId alloc k R (adopt_auth_map s) = Some (i, s1)"
    and "au_LocalAuditNodePool s1 i = Some N"
  shows "AcquireAuthInfo_service alloc k s = Some
      (if ar_BlockStartTimestampMS R \<noteq> 0 \<and>
          \<not> ar_BlockStartTimestampMS R + ACCOUNT_BLOCK_TIMEOUT_MS \<le> au_LocalTicker s1
       then (Blocked, s1)
       else if ar_BandwidthLimit R \<noteq> 0 \<and> TotalConsumed (un_Audit N) > ar_BandwidthLimit R
       then (Over_Limit, block_account k (ar_GlobalAuthId R) BANDWITH_LIMIT
               (ar_BandwidthLimit R) (TotalConsumed (un_Audit N)) (unblocked k R s1))
       else if ar_ConnectionLimit R \<noteq> 0 \<and> lu_TotalTcpConnections (un_Audit N) > ar_ConnectionLimit R
       then (Over_Limit, block_account k (ar_GlobalAuthId R) CONNECTION_LIMIT
               (ar_ConnectionLimit R) (lu_TotalTcpConnections (un_Audit N)) (unblocked k R s1))
       else (Granted (auth_result_of i R),
          (unblocked k R s1)\<lparr>au_LocalAuditNodePool := (au_LocalAuditNodePool s1)(i \<mapsto>
           N\<lparr>un_ReferenceCount := un_ReferenceCount N + 1\<rparr>)\<rparr>))"
  using assms unfolding AcquireAuthInfo_service_def Let_def unblocked_def by (auto split: if_splits)

lemma acquire_cases:
  assumes acq: "AcquireAuthInfo_service alloc k s = Some (v, s')"
    and inv: "auth_inv H s" and ok: "storage_ok alloc"
  obtains (unknown) "v = Unknown_Account" "s' = adopt_auth_map s"
      "map_of (au_AuthLocalMap (adopt_auth_map s)) k = None"
    | (known) R i s1 N where "map_of (au_AuthLocalMap (adopt_auth_map s)) k = Some R"
      "CheckAndSetLocalAuthId alloc k R (adopt_auth_map s) = Some (i, s1)"
      "au_LocalAuditNodePool s1 i = Some N" "auth_inv H s1" "i \<noteq> 0"
      "(v, s') = (Blocked, s1) \<or>
       (\<exists>g reason t x. (v, s') = (Over_Limit, block_account k g reason t x (unblocked k R s1))) \<or>
       (v, s') = (Granted (auth_result_of i R),
          (unblocked k R s1)\<lparr>au_LocalAuditNodePool := (au_LocalAuditNodePool s1)(i \<mapsto>
           N\<lparr>un_ReferenceCount := un_ReferenceCount N + 1\<rparr>)\<rparr>)"
proof (cases "map_of (au_AuthLocalMap (adopt_auth_map s)) k")
  case None
  with acq show ?thesis
    by (intro unknown) (simp_all add: AcquireAuthInfo_service_def Let_def)
next
  case (Some R)
  with acq obtain i s1 where c: "CheckAndSetLocalAuthId alloc k R (adopt_auth_map s) = Some (i, s1)"
    by (auto simp: AcquireAuthInfo_service_def Let_def split: option.splits)
  note s1 = auth_inv_CheckAndSet [OF auth_inv_adopt [OF inv] ok Some c]
  obtain N where N: "au_LocalAuditNodePool s1 i = Some N"
    using s1(3) by auto
  show ?thesis
    by (rule known [OF Some c N s1(1,2)])
       (use acq acquire_eq [OF Some c N] in \<open>auto split: if_splits\<close>)
qed

lemma auth_inv_unblocked: "auth_inv H s \<Longrightarrow> auth_inv H (unblocked k R s)"
  using auth_inv_map_entry [where f = "\<lambda>R. R\<lparr>ar_BlockStartTimestampMS := 0\<rparr>" and k = k and rs = "au_Reports s" and s = s]
  by (simp add: unblocked_def)

lemma auth_inv_Acquire:
  assumes inv: "auth_inv H s" and ok: "storage_ok alloc" and len: "Suc (length H) < 2 ^ 63"
    and acq: "AcquireAuthInfo_service alloc k s = Some (v, s')"
  shows "auth_inv (case v of Granted R \<Rightarrow> as_LocalAuthId R # H | _ \<Rightarrow> H) s'"
  using acq inv ok
proof (cases rule: acquire_cases)
  case unknown
  with auth_inv_adopt [OF inv] show ?thesis
    by simp
next
  case (known R i s1 N)
  note i2 = auth_inv_unblocked [OF known(4), of k R]
  have block: "auth_inv H (block_account k g reason t x (unblocked k R s1))" for g reason t x
    unfolding block_account_def by (rule auth_inv_map_entry [OF i2]) simp
  have N2: "au_LocalAuditNodePool (unblocked k R s1) i = Some N"
    using known(3) by simp
  have "auth_inv (i # H) ((unblocked k R s1)\<lparr>au_LocalAuditNodePool := (au_LocalAuditNodePool (unblocked k R s1))(i \<mapsto>
         N\<lparr>un_ReferenceCount := un_ReferenceCount N + 1\<rparr>)\<rparr>)"
  proof (rule auth_inv_reference [OF i2 known(5) N2])
    show "count_list (i # H) j = (if j = i then Suc (count_list H i) else count_list H j)" for j
      by simp
    have "audit_inv s1" and "ref_inv H s1"
      using known(4) by (simp_all add: auth_inv_def)
    then show "\<not> lu_Dirty (un_Audit (N\<lparr>un_ReferenceCount := un_ReferenceCount N + 1\<rparr>)) \<longrightarrow>
        un_Audit (N\<lparr>un_ReferenceCount := un_ReferenceCount N + 1\<rparr>) = no_usage"
      and "0 \<notin> set (i # H)"
      using known(3,5) by (auto simp: audit_inv_def ref_inv_def)
  qed (use len in simp_all)
  with known(4,6) block show ?thesis
    by (auto simp: auth_result_of_def)
qed

lemma auth_inv_Release:
  assumes inv: "auth_inv H s" and i: "i \<in> set H"
  shows "auth_inv (remove1 i H) (ReleaseAuthInfo i U s)" and "au_LocalAuditNodePool s i \<noteq> None"
proof -
  have r: "ref_inv H s"
    using inv by (simp add: auth_inv_def)
  have c: "count_list H i \<noteq> 0" and i0: "i \<noteq> 0"
    using i r by (auto simp: count_list_0_iff ref_inv_def)
  then show live: "au_LocalAuditNodePool s i \<noteq> None"
    using r by (auto simp: ref_inv_def refs_def)
  then obtain N where N: "au_LocalAuditNodePool s i = Some N"
    by blast
  have cnt: "count_list (remove1 i H) j = (if j = i then count_list H i - 1 else count_list H j)" for j
    by (induction H) auto
  have "auth_inv (remove1 i H) (s\<lparr>au_LocalAuditNodePool := (au_LocalAuditNodePool s)(i \<mapsto>
      N\<lparr>un_Audit := add_usage (un_Audit N) U, un_ReferenceCount := un_ReferenceCount N - 1\<rparr>)\<rparr>)"
  proof (rule auth_inv_reference [OF inv i0 N cnt])
    show "length (remove1 i H) < 2 ^ 63"
      using r by (auto simp: ref_inv_def length_remove1)
    show "0 \<notin> set (remove1 i H)"
      using r set_remove1_subset [of i H] by (auto simp: ref_inv_def)
    show "un_ReferenceCount (N\<lparr>un_Audit := add_usage (un_Audit N) U, un_ReferenceCount := un_ReferenceCount N - 1\<rparr>)
        = un_ReferenceCount N + of_nat (count_list H i - 1) - of_nat (count_list H i)"
      using c by (simp add: of_nat_diff)
  qed (simp_all add: add_usage_def)
  then show "auth_inv (remove1 i H) (ReleaseAuthInfo i U s)"
    using N by (simp add: ReleaseAuthInfo_def)
qed

definition loaded_ok :: "auth_map \<Rightarrow> bool" where
  "loaded_ok M \<longleftrightarrow> distinct (map fst M) \<and> set (record_ids M) \<subseteq> {0}"

lemma loaded_ok_LoadRow:
  assumes "loaded_ok M" shows "loaded_ok (LoadRow parse Now Row M)"
proof -
  have "loaded_ok (ensure_entry k M)" for k
    using assms by (auto simp: ensure_entry_def loaded_ok_def record_ids_def default_record_def map_of_eq_None_iff
        split: option.split)
  then show ?thesis
    using assms by (auto simp: LoadRow_def Let_def loaded_ok_def record_ids_map_entry)
qed

lemma loaded_ok_LoadFiles:
  "LoadFiles parse Now read Fs M = Some M' \<Longrightarrow> loaded_ok M \<Longrightarrow> loaded_ok M'"
proof (induction Fs arbitrary: M)
  case (Cons F Fs)
  have "loaded_ok (LoadFile parse Now Doc M)" for Doc
    unfolding LoadFile_def using Cons.prems(2) by (induction Doc arbitrary: M) (simp_all add: loaded_ok_LoadRow)
  with Cons show ?case
    by (auto split: option.splits)
qed simp

lemma auth_inv_Reload:
  assumes inv: "auth_inv H s" and re: "ReloadAuthFile parse Now read dir s = (go, s')"
    and len: "\<forall>M. au_AuthMap s' = Some M \<longrightarrow> length M < 2 ^ 63"
  shows "auth_inv H s'"
proof (cases "s' = s")
  case True
  with inv show ?thesis by simp
next
  case False
  with re obtain fs ts M where M: "LoadFiles parse Now read fs [] = Some M"
    and s': "s' = s\<lparr>au_AuthMap := Some M, au_FileList := fs, au_FileTimestampList := ts\<rparr>"
    by (auto simp: ReloadAuthFile_def Let_def split: option.splits if_splits)
  have "loaded_ok M"
    using loaded_ok_LoadFiles [OF M] by (simp add: loaded_ok_def record_ids_def)
  moreover have "length M < 2 ^ 63"
    using len by (simp add: s')
  moreover have "node_time s' = node_time s"
    by (simp add: node_time_def s' fun_eq_iff)
  ultimately show ?thesis
    using inv by (simp add: auth_inv_def ref_inv_def map_inv_def audit_inv_def loaded_ok_def) (simp add: s')
qed

section \<open>The usage that is released is reported\<close>

definition counters :: "(xLocalUsage \<Rightarrow> uint64) set" where
  "counters = {lu_TotalTcpConnections, lu_TotalTcpBytesFromClient, lu_TotalTcpBytesToClient,
     lu_TotalUdpChannels, lu_TotalUdpBytesFromClient, lu_TotalUdpBytesToClient}"

definition reported :: "(xLocalUsage \<Rightarrow> uint64) \<Rightarrow> audit_report list \<Rightarrow> uint64" where
  "reported sel Rs =
     sum_list (map (\<lambda>r. case r of ReportUsage U \<Rightarrow> sel (ru_Usage U) | ReportBlockAccount _ \<Rightarrow> 0) Rs)"

definition usage_total :: "(xLocalUsage \<Rightarrow> uint64) \<Rightarrow> auth_service \<Rightarrow> uint64" where
  "usage_total sel s =
     pool_sum (\<lambda>N. sel (un_Audit N)) (au_LocalAuditNodePool s) + reported sel (au_Reports s)"

lemma counter_simps:
  assumes "sel \<in> counters"
  shows "sel no_usage = 0" and "sel (add_usage A U) = sel A + sel U"
  using assms by (auto simp: counters_def no_usage_def add_usage_def)

lemma reported_append [simp]: "reported sel (Rs @ Ss) = reported sel Rs + reported sel Ss"
  by (simp add: reported_def)

lemma usage_total_report:
  assumes sel: "sel \<in> counters" and a: "audit_inv s" and q: "au_LocalAuditTimeoutList s = i # q"
  shows "usage_total sel (report_node NowMS i (set_audit_list q s)) = usage_total sel s"
proof -
  have "i \<in> dom (au_LocalAuditNodePool s)"
    using a q by (auto simp: audit_inv_def)
  then obtain P where P: "au_LocalAuditNodePool s i = Some P"
    by blast
  have "\<not> lu_Dirty (un_Audit P) \<longrightarrow> un_Audit P = no_usage"
    using a P by (auto simp: audit_inv_def)
  then have "reported sel (reports_of NowMS P) = sel (un_Audit P)"
    using counter_simps(1) [OF sel] by (auto simp: reports_of_def reported_def)
  then show ?thesis
    using counter_simps(1) [OF sel] pool_sum_release [of "au_LocalAuditNodePool s" i P "\<lambda>N. sel (un_Audit N)", OF P]
      pool_sum_update [of "au_LocalAuditNodePool s" i P "\<lambda>N. sel (un_Audit N)", OF P]
    by (simp add: usage_total_def report_node_eq [OF a P])
qed

lemma usage_total_Tick:
  assumes "sel \<in> counters" and "auth_Tick now s = Some s'" and "auth_inv H s" and "au_LocalTicker s \<le> now"
  shows "usage_total sel s' = usage_total sel s"
proof -
  let ?K = "usage_total sel s"
  have run: "pop_loop_run au_LocalAuditTimeoutList set_audit_list
      (audit_timed_out (now - LOCAL_AUDIT_NODE_IDLE_TIMEOUT_MS)) (report_node now)
      (s\<lparr>au_LocalTicker := now\<rparr>) = Some s'"
    using assms(2) by (simp add: auth_Tick_def CheckAndReportLocalAudit_def Let_def)
  let ?Q = "\<lambda>u. auth_inv H u \<and> au_LocalTicker u = now \<and> usage_total sel u = ?K"
  have "?Q (s\<lparr>au_LocalTicker := now\<rparr>)"
    using auth_inv_ticker [OF assms(3,4)] by (simp add: usage_total_def)
  moreover have "?Q (report_node now i (set_audit_list q u))"
    if "?Q u" "au_LocalAuditTimeoutList u = i # q" for u i q
    using that auth_inv_report [of H u i q] usage_total_report [OF assms(1) _ that(2), of now]
    by (simp add: auth_inv_def)
  ultimately have "?Q s'"
    using pop_loop_run_invariant(1) [OF run, of ?Q] by blast
  then show ?thesis
    by simp
qed

lemma usage_total_adopt: "usage_total sel (adopt_auth_map s) = usage_total sel s"
proof -
  have "un_Audit (the (drop_record_references M P i)) = un_Audit (the (P i))" if "i \<in> dom P" for M P i
    using that by (cases "i = 0") (auto simp: drop_record_references_apply)
  then have "pool_sum (\<lambda>N. sel (un_Audit N)) (drop_record_references M P) = pool_sum (\<lambda>N. sel (un_Audit N)) P" for M P
    by (simp add: pool_sum_def cong: sum.cong)
  then show ?thesis
    by (simp add: usage_total_def adopt_auth_map_def split: option.split)
qed

lemma usage_total_CheckAndSet:
  assumes "sel \<in> counters" and "storage_ok alloc" and "CheckAndSetLocalAuthId alloc k R s = Some (i, s')"
  shows "usage_total sel s' = usage_total sel s"
  using assms(3) storage_okD [OF assms(2), of "au_LocalAuditNodePool s"] counter_simps(1) [OF assms(1)]
  by (auto simp: CheckAndSetLocalAuthId_def Let_def usage_total_def pool_simps split: if_splits)

lemma usage_total_Acquire:
  assumes sel: "sel \<in> counters" and inv: "auth_inv H s" and ok: "storage_ok alloc"
    and acq: "AcquireAuthInfo_service alloc k s = Some (v, s')"
  shows "usage_total sel s' = usage_total sel s"
  using acq inv ok
proof (cases rule: acquire_cases)
  case unknown
  then show ?thesis
    by (simp add: usage_total_adopt)
next
  case (known R i s1 N)
  have "usage_total sel s1 = usage_total sel s"
    using usage_total_CheckAndSet [OF sel ok known(2)] usage_total_adopt by simp
  with known(3,6) show ?thesis
    by (auto simp: usage_total_def block_account_def pool_simps) (simp_all add: reported_def)
qed

lemma usage_total_Release:
  assumes "sel \<in> counters" and "au_LocalAuditNodePool s i \<noteq> None"
  shows "usage_total sel (ReleaseAuthInfo i U s) = usage_total sel s + sel U"
  using assms counter_simps(2) [OF assms(1)] by (auto simp: usage_total_def ReleaseAuthInfo_def pool_simps)

lemma usage_total_Reload:
  "ReloadAuthFile parse Now read dir s = (go, s') \<Longrightarrow> usage_total sel s' = usage_total sel s"
  by (auto simp: ReloadAuthFile_def Let_def usage_total_def split: option.splits if_splits)

section \<open>The service as a transition system\<close>

text \<open>
  A state of the run is the service with two histories: the authorisations \<open>H\<close> that clients hold
  and the usages \<open>U\<close> that they have released. Clients release what they hold, once.
\<close>

type_synonym auth_run_state = "auth_service \<times> uint64 list \<times> xLocalUsage list"

inductive auth_step :: "(uint64 set \<Rightarrow> uint64) \<Rightarrow> auth_run_state \<Rightarrow> auth_run_state \<Rightarrow> bool" for alloc where
  acquire: "AcquireAuthInfo_service alloc k s = Some (v, s') \<Longrightarrow> Suc (length H) < 2 ^ 63 \<Longrightarrow>
    auth_step alloc (s, H, U) (s', case v of Granted R \<Rightarrow> as_LocalAuthId R # H | _ \<Rightarrow> H, U)"
| release: "i \<in> set H \<Longrightarrow> auth_step alloc (s, H, U) (ReleaseAuthInfo i u s, remove1 i H, u # U)"
| tick: "au_LocalTicker s \<le> now \<Longrightarrow> auth_Tick now s = Some s' \<Longrightarrow> auth_step alloc (s, H, U) (s', H, U)"
| reload: "ReloadAuthFile parse Now read dir s = (go, s') \<Longrightarrow>
    \<forall>M. au_AuthMap s' = Some M \<longrightarrow> length M < 2 ^ 63 \<Longrightarrow> auth_step alloc (s, H, U) (s', H, U)"

definition run_inv :: "auth_run_state \<Rightarrow> bool" where
  "run_inv r \<longleftrightarrow> (case r of (s, H, U) \<Rightarrow>
     auth_inv H s \<and> (\<forall>sel \<in> counters. usage_total sel s = sum_list (map sel U)))"

lemma run_inv_step: "auth_step alloc r r' \<Longrightarrow> storage_ok alloc \<Longrightarrow> run_inv r \<Longrightarrow> run_inv r'"
proof (induction rule: auth_step.induct)
  case (acquire k s v s' H U)
  then show ?case
    using auth_inv_Acquire [of H s alloc k v s'] usage_total_Acquire [of _ H s alloc k v s']
    by (auto simp: run_inv_def)
next
  case (release i H s U u)
  then show ?case
    using auth_inv_Release(1) [of H s i u] auth_inv_Release(2) [of H s i] usage_total_Release [of _ s i u] by (auto simp: run_inv_def)
next
  case (tick s now s' H U)
  then show ?case
    using auth_Tick_inv(1) [of now s s' H] usage_total_Tick [of _ now s s' H] by (auto simp: run_inv_def)
next
  case (reload parse Now read dir s go s' H U)
  then show ?case
    using auth_inv_Reload [of H s parse Now read dir go s'] usage_total_Reload [of parse Now read dir s go s']
    by (auto simp: run_inv_def)
qed

lemma run_inv_fresh: "run_inv (fresh_auth_service, [], [])"
  by (simp add: run_inv_def auth_inv_fresh) (simp add: fresh_auth_service_def usage_total_def reported_def)

lemma run_inv_steps:
  "(auth_step alloc)\<^sup>*\<^sup>* (fresh_auth_service, [], []) r \<Longrightarrow> storage_ok alloc \<Longrightarrow> run_inv r"
  by (induction rule: rtranclp_induct) (auto simp: run_inv_fresh run_inv_step)

section \<open>Properties\<close>

text \<open>
  C8: the references to the usage nodes are counted exactly, through every order of acquiring,
  releasing, ticking and reloading: every authorisation that a client holds has a live node, a
  node's count is the number of the records and clients that refer to it, and the live nodes
  are those on the report list, counted by the audit.
\<close>

theorem auth_references_exact:
  assumes "storage_ok alloc" and "(auth_step alloc)\<^sup>*\<^sup>* (fresh_auth_service, [], []) (s, H, U)"
  shows "(\<forall>i \<in> set H. au_LocalAuditNodePool s i \<noteq> None) \<and>
    (\<forall>i N. au_LocalAuditNodePool s i = Some N \<longrightarrow>
       un_ReferenceCount N = of_nat (refs (au_AuthLocalMap s) H i)) \<and>
    distinct (au_LocalAuditTimeoutList s) \<and>
    set (au_LocalAuditTimeoutList s) = dom (au_LocalAuditNodePool s) \<and>
    au_UnReleasedAuthInfoCount s = of_nat (card (dom (au_LocalAuditNodePool s)))"
proof -
  have inv: "auth_inv H s"
    using run_inv_steps [OF assms(2,1)] by (simp add: run_inv_def)
  with auth_inv_Release(2) [OF inv] show ?thesis
    by (simp add: auth_inv_def ref_inv_def audit_inv_def count_live_def)
qed

definition example_row :: csv_row where
  "example_row = \<lparr>cv_auth_id = [55], cv_account = [97], cv_password = [98], cv_country_code = [67, 78],
     cv_pa_ip = [], cv_proxy_ip = [], cv_is_udp = [49], cv_bandwidth_limit = [50], cv_conn_limit = [],
     cv_expired_time = 9\<rparr>"

definition example_entry :: dir_entry where
  "example_entry = \<lparr>de_path = [1], de_is_regular_file = True, de_extension = [46, 67, 115, 118],
     de_last_write_time = 5\<rparr>"

definition example_auth :: auth_service where
  "example_auth = snd (ReloadAuthFile (\<lambda>_. no_address) 3 (\<lambda>_. Some [example_row]) (Some [example_entry])
     fresh_auth_service)"

definition example_record :: auth_record where
  "example_record = default_record\<lparr>ar_GlobalAuthId := 7, ar_CountryId := 17230, ar_EnableUdp := True,
     ar_BandwidthLimit := 1800\<rparr>"

lemma example_auth_eq:
  "example_auth = fresh_auth_service\<lparr>au_AuthMap := Some [([97, 0, 98], example_record)],
     au_FileList := [[1]], au_FileTimestampList := [5]\<rparr>"
  by (simp add: example_auth_def ReloadAuthFile_def auth_files_def example_entry_def ToLower_def tolower_char_def
      NeedReload_def fresh_auth_service_def LoadFile_def LoadRow_def example_row_def CombineAccountPass_def
      ensure_entry_def map_entry_def example_record_def
      default_record_def CountryCodeToCountryId_def atoi_def strtoumax_def scale_limit_def digits_value_def
      isspace_def isdigit_def round_double_def bit_length.simps BANDWITH_LIMIT_OVER_FACTOR_def
      CONNECTION_LIMIT_OVER_FACTOR_def Let_def)

definition example_granted :: auth_service where
  "example_granted = snd (the (AcquireAuthInfo_service two_slot_alloc [97, 0, 98] example_auth))"

lemma example_acquire:
  "AcquireAuthInfo_service two_slot_alloc [97, 0, 98] example_auth =
     Some (Granted (auth_result_of 1 example_record), example_granted)"
  by (simp add: example_granted_def AcquireAuthInfo_service_def adopt_auth_map_def example_auth_eq Let_def
      CheckAndSetLocalAuthId_def fresh_auth_service_def two_slot_alloc_def example_record_def default_record_def
      map_entry_def TotalConsumed_def no_usage_def)

lemma example_run:
  "(auth_step two_slot_alloc)\<^sup>*\<^sup>* (fresh_auth_service, [], []) (example_granted, [1], [])"
proof -
  have re: "ReloadAuthFile (\<lambda>_. no_address) 3 (\<lambda>_. Some [example_row]) (Some [example_entry]) fresh_auth_service
      = (fst (ReloadAuthFile (\<lambda>_. no_address) 3 (\<lambda>_. Some [example_row]) (Some [example_entry]) fresh_auth_service),
         example_auth)"
    by (simp add: example_auth_def)
  have 1: "auth_step two_slot_alloc (fresh_auth_service, [], []) (example_auth, [], [])"
    by (rule auth_step.reload [OF re]) (simp add: example_auth_eq)
  have 2: "auth_step two_slot_alloc (example_auth, [], []) (example_granted, [1], [])"
    using auth_step.acquire [OF example_acquire, of "[]" "[]"] by (simp add: auth_result_of_def)
  show ?thesis
    by (rule converse_rtranclp_into_rtranclp [of "auth_step two_slot_alloc", OF 1]) (rule r_into_rtranclp [of "auth_step two_slot_alloc", OF 2])
qed

lemma auth_references_exact_witness: "au_LocalAuditNodePool example_granted 1 \<noteq> None"
  using auth_references_exact [OF two_slot_alloc_ok example_run] by simp

text \<open>
  C9: no usage is lost or counted twice. Whatever the order of operations, each of the six
  counters, summed over what was reported and what is still pending, is its sum over all the
  usages that clients released.
\<close>

theorem auth_usage_conserved:
  assumes "storage_ok alloc" and "(auth_step alloc)\<^sup>*\<^sup>* (fresh_auth_service, [], []) (s, H, U)"
  shows "\<forall>sel \<in> counters. usage_total sel s = sum_list (map sel U)"
  using run_inv_steps [OF assms(2,1)] by (simp add: run_inv_def)

lemma auth_usage_conserved_witness:
  "usage_total lu_TotalTcpBytesFromClient
     (ReleaseAuthInfo 1 (no_usage\<lparr>lu_TotalTcpBytesFromClient := 42\<rparr>) example_granted) = 42"
proof -
  have "auth_step two_slot_alloc (example_granted, [1], [])
     (ReleaseAuthInfo 1 (no_usage\<lparr>lu_TotalTcpBytesFromClient := 42\<rparr>) example_granted, [],
      [no_usage\<lparr>lu_TotalTcpBytesFromClient := 42\<rparr>])"
    using auth_step.release [of 1 "[1]" two_slot_alloc example_granted "[]"] by simp
  with example_run have "(auth_step two_slot_alloc)\<^sup>*\<^sup>* (fresh_auth_service, [], [])
     (ReleaseAuthInfo 1 (no_usage\<lparr>lu_TotalTcpBytesFromClient := 42\<rparr>) example_granted, [],
      [no_usage\<lparr>lu_TotalTcpBytesFromClient := 42\<rparr>])"
    by (rule rtranclp.rtrancl_into_rtrancl)
  from auth_usage_conserved [OF two_slot_alloc_ok this] show ?thesis
    by (simp add: counters_def)
qed

text \<open>
  C28: the report loop of a tick ends, although it puts the referenced nodes back on the list it
  pops. Afterwards every node has reported within the last five minutes, and the nodes that were
  due and that nothing refers to are gone.
\<close>

theorem auth_tick_reports:
  assumes "auth_inv H s" and "au_LocalTicker s \<le> now" and "LOCAL_AUDIT_NODE_IDLE_TIMEOUT_MS \<le> now"
  shows "\<exists>s'. auth_Tick now s = Some s' \<and> auth_inv H s' \<and>
    (\<forall>i N. au_LocalAuditNodePool s' i = Some N \<longrightarrow>
       now - LOCAL_AUDIT_NODE_IDLE_TIMEOUT_MS < un_LastReportTimestampMS N) \<and>
    (\<forall>i. audit_timed_out (now - LOCAL_AUDIT_NODE_IDLE_TIMEOUT_MS) s i \<longrightarrow>
       refs (au_AuthLocalMap s) H i = 0 \<longrightarrow> au_LocalAuditNodePool s' i = None)"
proof -
  let ?T = "now - LOCAL_AUDIT_NODE_IDLE_TIMEOUT_MS"
  obtain s' where t: "auth_Tick now s = Some s'"
    using auth_Tick_ends [OF assms] by blast
  note s' = auth_Tick_inv [OF t assms(1,2)]
  have a: "audit_inv s'"
    using s'(1) by (simp add: auth_inv_def)
  have young: "?T < un_LastReportTimestampMS N" if N: "au_LocalAuditNodePool s' i = Some N" for i N
    using auth_Tick_young [OF t assms(1,2) N] .
  have kept: "au_LocalAuditNodePool s' i = au_LocalAuditNodePool s i \<or> au_LocalAuditNodePool s' i = None"
    if "refs (au_AuthLocalMap s) H i = 0" for i
    using auth_Tick_unreferenced [OF t assms(1,2) that] .
  have "au_LocalAuditNodePool s' i = None"
    if "audit_timed_out ?T s i" "refs (au_AuthLocalMap s) H i = 0" for i
    using kept [OF that(2)] young [of i] that(1) by (auto simp: audit_timed_out_def split: option.splits)
  with t s'(1) young show ?thesis
    by blast
qed

lemma auth_tick_reports_witness:
  "\<exists>s'. auth_Tick 900000 example_granted = Some s' \<and> auth_inv [1] s'"
proof -
  have inv: "auth_inv [1] example_granted"
    using run_inv_steps [OF example_run two_slot_alloc_ok] by (simp add: run_inv_def)
  have "au_LocalTicker example_granted = 0"
    by (simp add: example_granted_def AcquireAuthInfo_service_def adopt_auth_map_def example_auth_eq Let_def
      CheckAndSetLocalAuthId_def fresh_auth_service_def two_slot_alloc_def example_record_def default_record_def
      map_entry_def TotalConsumed_def no_usage_def)
  then have "au_LocalTicker example_granted \<le> 900000" and "LOCAL_AUDIT_NODE_IDLE_TIMEOUT_MS \<le> 900000"
    by (simp_all add: LOCAL_AUDIT_NODE_IDLE_TIMEOUT_MS_def)
  from auth_tick_reports [OF inv this] show ?thesis
    by blast
qed


definition busy_record :: auth_record where
  "busy_record = default_record\<lparr>ar_LocalAuthId := 1, ar_BandwidthLimit := 10\<rparr>"

definition busy_node :: usage_node where
  "busy_node = \<lparr>un_GlobalAuthId = 0, un_ReferenceCount = 1, un_LastReportTimestampMS = 50,
     un_Audit = no_usage\<lparr>lu_Dirty := True, lu_TotalTcpBytesToClient := 42\<rparr>\<rparr>"

definition busy_auth :: auth_service where
  "busy_auth = fresh_auth_service\<lparr>au_LocalTicker := 100, au_AuthLocalMap := [([97], busy_record)],
     au_LocalAuditNodePool := [1 \<mapsto> busy_node], au_LocalAuditTimeoutList := [1],
     au_UnReleasedAuthInfoCount := 1\<rparr>"


text \<open>
  A row whose country code does not have two letters still enters its account. The account is
  created with the default record before the code is tested, and an acquisition with its name
  and password is granted, with the global identifier zero and without any limit.
\<close>

theorem auth_invalid_country_grants:
  assumes "Now \<le> cv_expired_time Row" and "length (cv_country_code Row) \<noteq> 2"
    and "map_of M (CombineAccountPass (cv_account Row) (cv_password Row)) = None"
    and "au_AuthMap s = Some (LoadRow parse Now Row M)"
    and "alloc (dom (au_LocalAuditNodePool s)) \<noteq> 0"
  shows "\<exists>s' i. AcquireAuthInfo_service alloc (CombineAccountPass (cv_account Row) (cv_password Row)) s
     = Some (Granted (auth_result_of i default_record), s')"
proof -
  let ?k = "CombineAccountPass (cv_account Row) (cv_password Row)"
  have "map_of (LoadRow parse Now Row M) ?k = Some default_record"
    using assms(1-3) by (simp add: LoadRow_def ensure_entry_def map_add_def)
  then have "map_of (au_AuthLocalMap (adopt_auth_map s)) ?k = Some default_record"
    using assms(4) by (simp add: adopt_auth_map_def)
  moreover have "dom (au_LocalAuditNodePool (adopt_auth_map s)) = dom (au_LocalAuditNodePool s)"
    using assms(4) by (simp add: adopt_auth_map_def)
  ultimately show ?thesis
    using assms(5) by (simp add: AcquireAuthInfo_service_def CheckAndSetLocalAuthId_def Let_def)
      (simp add: default_record_def auth_result_of_def)
qed

lemma auth_invalid_country_grants_witness:
  "\<exists>s' i. AcquireAuthInfo_service two_slot_alloc [97, 0, 98]
     (fresh_auth_service\<lparr>au_AuthMap := Some [([97, 0, 98], default_record)]\<rparr>)
     = Some (Granted (auth_result_of i default_record), s')"
  using auth_invalid_country_grants [of 0 "example_row\<lparr>cv_country_code := [67]\<rparr>" "[]"
      "fresh_auth_service\<lparr>au_AuthMap := Some [([97, 0, 98], default_record)]\<rparr>" "\<lambda>_. no_address" two_slot_alloc]
  by (simp add: example_row_def LoadRow_def CombineAccountPass_def ensure_entry_def fresh_auth_service_def
      two_slot_alloc_def)

lemma files_differ_iff:
  "length Fs = length Ts \<Longrightarrow> length Gs = length Us \<Longrightarrow> length Fs = length Gs \<Longrightarrow>
   files_differ Fs Ts Gs Us \<longleftrightarrow> \<not> (Fs = Gs \<and> Ts = Us)"
  by (induction Fs Ts Gs Us rule: files_differ.induct) (auto split: if_splits)

lemma NeedReload_iff:
  "length Fs = length Ts \<Longrightarrow> length Gs = length Us \<Longrightarrow>
   NeedReload Fs Ts Gs Us \<longleftrightarrow> \<not> (Fs = Gs \<and> Ts = Us)"
  using files_differ_iff [of Fs Ts Gs Us] by (auto simp: NeedReload_def)

text \<open>
  The files are loaded again exactly when the directory changed. A round of the reloading
  thread replaces the pending map when the list of files or one of their times differs from the
  last load, otherwise changes nothing, and never loads an unchanged directory twice.
\<close>

theorem auth_reload_on_change:
  assumes "length (au_FileList s) = length (au_FileTimestampList s)"
    and "ReloadAuthFile parse Now read (Some Entries) s = (True, s')"
  shows "(let unchanged = (map de_path (auth_files Entries) = au_FileList s \<and>
           map de_last_write_time (auth_files Entries) = au_FileTimestampList s)
     in if unchanged then s' = s
        else au_AuthMap s' = LoadFiles parse Now read (map de_path (auth_files Entries)) [] \<and>
          au_AuthMap s' \<noteq> None) \<and>
    ReloadAuthFile parse' Now' read' (Some Entries) s' = (True, s')"
proof -
  let ?Fs = "map de_path (auth_files Entries)" and ?Ts = "map de_last_write_time (auth_files Entries)"
  have l: "length ?Fs = length ?Ts"
    by simp
  have again: "ReloadAuthFile parse' Now' read' (Some Entries) t = (True, t)"
    if "au_FileList t = ?Fs" "au_FileTimestampList t = ?Ts" for t
    using NeedReload_iff [OF l l] that by (simp add: ReloadAuthFile_def)
  show ?thesis
  proof (cases "?Fs = au_FileList s \<and> ?Ts = au_FileTimestampList s")
    case True
    then have "s' = s"
      using assms NeedReload_iff [OF l assms(1)] by (simp add: ReloadAuthFile_def)
    with True again [of s] show ?thesis
      by simp
  next
    case False
    then have "NeedReload ?Fs ?Ts (au_FileList s) (au_FileTimestampList s)"
      using NeedReload_iff [OF l assms(1)] by blast
    with assms(2) obtain M where "LoadFiles parse Now read ?Fs [] = Some M"
      and "s' = s\<lparr>au_AuthMap := Some M, au_FileList := ?Fs, au_FileTimestampList := ?Ts\<rparr>"
      by (auto simp: ReloadAuthFile_def Let_def split: option.splits)
    with False again [of s'] show ?thesis
      by (auto simp: Let_def)
  qed
qed

lemma auth_reload_on_change_witness:
  "ReloadAuthFile (\<lambda>_. no_address) 3 (\<lambda>_. None) (Some [example_entry]) example_auth = (True, example_auth)"
proof -
  have "ReloadAuthFile (\<lambda>_. no_address) 3 (\<lambda>_. Some [example_row]) (Some [example_entry]) fresh_auth_service
      = (True, example_auth)"
    by (simp add: example_auth_def ReloadAuthFile_def Let_def auth_files_def example_entry_def ToLower_def
        tolower_char_def NeedReload_def fresh_auth_service_def)
  from auth_reload_on_change [OF _ this] show ?thesis
    by (simp add: fresh_auth_service_def)
qed

end
