(* ===== verification/Dns_Service.thy ===== *)
theory Dns_Service
  imports PP_Future
begin

text \<open>
  \<open>lib_component/dns_local_service\<close>: the caching resolver. A node of the cache is named by its
  host name, as the keys of \<open>CacheMap\<close> are; nodes are never freed. Futures belong to the one
  client of the service, so every operation passes the client's manager through. The query
  threads are modelled by the requests each of them has grabbed (\<open>dn_tmp\<close>) and by the two steps
  they take on the shared lists: grabbing the queued requests, and finishing the first of the
  grabbed ones with what \<open>getaddrinfo\<close> answered.
\<close>

section \<open>State\<close>

record xDnsResult =
  dr_A4 :: xNetAddress
  dr_A6 :: xNetAddress

record dns_request =
  dq_Hostname :: bytes
  dq_A4List :: "xNetAddress list"
  dq_A6List :: "xNetAddress list"

record dns_cache_result =
  dc_A4List :: "xNetAddress list"
  dc_A6List :: "xNetAddress list"
  dc_LastA4ResultIndex :: nat
  dc_LastA6ResultIndex :: nat

record dns_cache_node =
  cn_QueryFinished :: bool
  cn_TimestampMS :: uint64
  cn_Pending :: "uint64 list"
  cn_Result :: "dns_cache_result option"

record dns_service =
  dn_LocalTicker :: uint64
  dn_RequestPool :: "uint64 \<Rightarrow> dns_request option"
  dn_SourcePool :: "uint64 \<Rightarrow> xFutureHandle option"
  dn_RequestList :: "uint64 list"
  dn_tmp :: "nat \<Rightarrow> uint64 list"
  dn_RequestFinishedList :: "uint64 list"
  dn_CacheMap :: "bytes \<Rightarrow> dns_cache_node option"
  dn_CacheRequestTimeoutList :: "bytes list"
  dn_CacheTimeoutList :: "bytes list"
  dn_OnGoingDnsRequestCount :: uint64

type_synonym 'o dns_futures = "('o, xDnsResult) future_manager"
type_synonym 'o dns_state = "dns_service \<times> 'o dns_futures"

definition DNS_QUERY_TIMEOUT_MS :: uint64 where "DNS_QUERY_TIMEOUT_MS = 5000"
definition DNS_CACHE_TIMEOUT_MS :: uint64 where "DNS_CACHE_TIMEOUT_MS = 45 * 60000"

definition empty_cache_result :: dns_cache_result where
  "empty_cache_result =
     \<lparr>dc_A4List = [], dc_A6List = [], dc_LastA4ResultIndex = 0, dc_LastA6ResultIndex = 0\<rparr>"

definition fresh_dns_service :: dns_service where
  "fresh_dns_service =
     \<lparr>dn_LocalTicker = 0, dn_RequestPool = Map.empty, dn_SourcePool = Map.empty,
      dn_RequestList = [], dn_tmp = (\<lambda>_. []), dn_RequestFinishedList = [],
      dn_CacheMap = Map.empty, dn_CacheRequestTimeoutList = [], dn_CacheTimeoutList = [],
      dn_OnGoingDnsRequestCount = 0\<rparr>"

text \<open>\<open>Init\<close> allocates the two storages, undoing the first when the second fails; the threads start.\<close>

definition dns_Init :: "bool \<Rightarrow> bool \<Rightarrow> dns_service \<Rightarrow> bool \<times> dns_service" where
  "dns_Init request_pool_ok source_pool_ok s =
     (if \<not> request_pool_ok then (False, s)
      else
        let s = s\<lparr>dn_RequestPool := Map.empty\<rparr> in
        if \<not> source_pool_ok then (False, s)
        else (True, s\<lparr>dn_SourcePool := Map.empty\<rparr>))"

text \<open>
  \<open>Clean\<close> joins the threads and empties the two storages, which unlinks the nodes from every list
  they are in. The nodes of the cache stay.
\<close>

definition dns_Clean :: "dns_service \<Rightarrow> dns_service" where
  "dns_Clean s =
     s\<lparr>dn_SourcePool := Map.empty, dn_RequestPool := Map.empty, dn_RequestList := [],
       dn_tmp := (\<lambda>_. []), dn_RequestFinishedList := [],
       dn_CacheMap := (\<lambda>h. map_option (\<lambda>N. N\<lparr>cn_Pending := []\<rparr>) (dn_CacheMap s h))\<rparr>"

section \<open>Picking a result\<close>

definition next_index :: "nat \<Rightarrow> nat \<Rightarrow> nat" where
  "next_index I n = (if Suc I \<ge> n then 0 else Suc I)"

definition PickDnsResult :: "dns_cache_result \<Rightarrow> xDnsResult \<times> dns_cache_result" where
  "PickDnsResult C =
     (let C4 = (if dc_A4List C \<noteq> []
                then C\<lparr>dc_LastA4ResultIndex := next_index (dc_LastA4ResultIndex C) (length (dc_A4List C))\<rparr>
                else C);
          A4 = (if dc_A4List C \<noteq> [] then dc_A4List C ! dc_LastA4ResultIndex C4 else no_address);
          C6 = (if dc_A6List C \<noteq> []
                then C4\<lparr>dc_LastA6ResultIndex := next_index (dc_LastA6ResultIndex C) (length (dc_A6List C))\<rparr>
                else C4);
          A6 = (if dc_A6List C \<noteq> [] then dc_A6List C ! dc_LastA6ResultIndex C6 else no_address)
      in (\<lparr>dr_A4 = A4, dr_A6 = A6\<rparr>, C6))"

definition upd_node :: "bytes \<Rightarrow> (dns_cache_node \<Rightarrow> dns_cache_node) \<Rightarrow> dns_service \<Rightarrow> dns_service" where
  "upd_node h f s = s\<lparr>dn_CacheMap := (dn_CacheMap s)(h := map_option f (dn_CacheMap s h))\<rparr>"

text \<open>\<open>F->Result = PickDnsResult(CacheNode); F->SetReady();\<close>\<close>

definition answer_from_cache :: "bytes \<Rightarrow> uint64 \<Rightarrow> 'o dns_state \<Rightarrow> 'o dns_state" where
  "answer_from_cache h FutureId st =
     (case Option.bind (dn_CacheMap (fst st) h) cn_Result of
        None \<Rightarrow> st
      | Some C \<Rightarrow>
          let (R, C') = PickDnsResult C in
          (upd_node h (\<lambda>N. N\<lparr>cn_Result := Some C'\<rparr>) (fst st),
           SetReady FutureId (SetResult FutureId R (snd st))))"

section \<open>Completing the requests that wait for a node\<close>

definition release_source :: "uint64 \<Rightarrow> 'o dns_state \<Rightarrow> 'o dns_state" where
  "release_source i st = ((fst st)\<lparr>dn_SourcePool := (dn_SourcePool (fst st))(i := None)\<rparr>, snd st)"

definition source_future :: "uint64 \<Rightarrow> 'o dns_state \<Rightarrow> uint64 option" where
  "source_future i st =
     (case Option.bind (dn_SourcePool (fst st) i) (\<lambda>h. h) of
        None \<Rightarrow> None
      | Some F \<Rightarrow> (case GetFuture (snd st) F of None \<Rightarrow> None | Some _ \<Rightarrow> Some F))"

definition dispatch_source :: "bytes \<Rightarrow> uint64 \<Rightarrow> 'o dns_state \<Rightarrow> 'o dns_state" where
  "dispatch_source h i st =
     (let st = (case source_future i st of
                  None \<Rightarrow> st
                | Some F \<Rightarrow> answer_from_cache h F st)
      in release_source i st)"

definition timeout_source :: "uint64 \<Rightarrow> 'o dns_state \<Rightarrow> 'o dns_state" where
  "timeout_source i st =
     (let st = (case source_future i st of
                  None \<Rightarrow> st
                | Some F \<Rightarrow> (fst st, SetReady F (snd st)))
      in release_source i st)"

definition take_pending :: "bytes \<Rightarrow> 'o dns_state \<Rightarrow> uint64 list \<times> 'o dns_state" where
  "take_pending h st =
     (case dn_CacheMap (fst st) h of
        None \<Rightarrow> ([], st)
      | Some N \<Rightarrow> (cn_Pending N, (upd_node h (\<lambda>N. N\<lparr>cn_Pending := []\<rparr>) (fst st), snd st)))"

section \<open>The periodic work\<close>

text \<open>One finished request: its node, if the host is cached, gets the answer and serves its waiters.\<close>

definition dispatch_request :: "uint64 \<Rightarrow> 'o dns_state \<Rightarrow> 'o dns_state" where
  "dispatch_request i st =
     (case dn_RequestPool (fst st) i of
        None \<Rightarrow> st
      | Some P \<Rightarrow>
          let s = (fst st)\<lparr>dn_OnGoingDnsRequestCount := dn_OnGoingDnsRequestCount (fst st) - 1\<rparr>;
              h = dq_Hostname P;
              st = (case dn_CacheMap s h of
                      None \<Rightarrow> (s, snd st)
                    | Some N \<Rightarrow>
                        let N = N\<lparr>cn_QueryFinished := True,
                                  cn_Result := Some (empty_cache_result\<lparr>dc_A4List := dq_A4List P,
                                                                        dc_A6List := dq_A6List P\<rparr>),
                                  cn_TimestampMS := dn_LocalTicker s\<rparr>;
                            s = s\<lparr>dn_CacheMap := (dn_CacheMap s)(h \<mapsto> N),
                                  dn_CacheRequestTimeoutList := removeAll h (dn_CacheRequestTimeoutList s),
                                  dn_CacheTimeoutList := grab_tail (dn_CacheTimeoutList s) h\<rparr>;
                            (waiting, st) = take_pending h (s, snd st)
                        in fold (dispatch_source h) waiting st)
          in ((fst st)\<lparr>dn_RequestPool := (dn_RequestPool (fst st))(i := None)\<rparr>, snd st))"

definition DispatchResolveResults :: "'o dns_state \<Rightarrow> 'o dns_state" where
  "DispatchResolveResults st =
     (let TempResultList = dn_RequestFinishedList (fst st)
      in fold dispatch_request TempResultList ((fst st)\<lparr>dn_RequestFinishedList := []\<rparr>, snd st))"

definition node_older :: "uint64 \<Rightarrow> 'o dns_state \<Rightarrow> bytes \<Rightarrow> bool" where
  "node_older KillTimestamp st h \<longleftrightarrow>
     (case dn_CacheMap (fst st) h of
        Some N \<Rightarrow> cn_TimestampMS N \<le> KillTimestamp
      | None \<Rightarrow> False)"

definition timeout_node :: "bytes \<Rightarrow> 'o dns_state \<Rightarrow> 'o dns_state" where
  "timeout_node h st =
     (let s = upd_node h (\<lambda>N. N\<lparr>cn_QueryFinished := True, cn_Result := Some empty_cache_result,
                               cn_TimestampMS := dn_LocalTicker (fst st)\<rparr>) (fst st);
          s = s\<lparr>dn_CacheTimeoutList := add_tail (dn_CacheTimeoutList s) h\<rparr>;
          (waiting, st) = take_pending h (s, snd st)
      in fold timeout_source waiting st)"

abbreviation set_request_timeout_list :: "bytes list \<Rightarrow> 'o dns_state \<Rightarrow> 'o dns_state" where
  "set_request_timeout_list q st \<equiv> ((fst st)\<lparr>dn_CacheRequestTimeoutList := q\<rparr>, snd st)"

abbreviation request_timeout_list :: "'o dns_state \<Rightarrow> bytes list" where
  "request_timeout_list st \<equiv> dn_CacheRequestTimeoutList (fst st)"

definition ProcessRequestTimeoutCacheNodes :: "'o dns_state \<Rightarrow> 'o dns_state" where
  "ProcessRequestTimeoutCacheNodes st =
     (let KillTimestamp = dn_LocalTicker (fst st) - DNS_QUERY_TIMEOUT_MS
      in drain request_timeout_list set_request_timeout_list (node_older KillTimestamp) timeout_node st)"

text \<open>The loop pops \<open>CacheRequestTimeoutList\<close>, the list of the nodes whose query is not finished.\<close>

definition move_node :: "bytes \<Rightarrow> 'o dns_state \<Rightarrow> 'o dns_state" where
  "move_node h st =
     ((fst st)\<lparr>dn_CacheTimeoutList := add_tail (dn_CacheTimeoutList (fst st)) h\<rparr>, snd st)"

definition ProcessTimeoutCacheNodes :: "'o dns_state \<Rightarrow> 'o dns_state" where
  "ProcessTimeoutCacheNodes st =
     (let KillTimestamp = dn_LocalTicker (fst st) - DNS_CACHE_TIMEOUT_MS
      in drain request_timeout_list set_request_timeout_list (node_older KillTimestamp) move_node st)"

definition dns_Tick :: "uint64 \<Rightarrow> 'o dns_state \<Rightarrow> 'o dns_state" where
  "dns_Tick NowMS st =
     (let st = ((fst st)\<lparr>dn_LocalTicker := NowMS\<rparr>, snd st)
      in ProcessTimeoutCacheNodes (ProcessRequestTimeoutCacheNodes (DispatchResolveResults st)))"

section \<open>Resolving\<close>

definition ResolveDns ::
    "(uint64 set \<Rightarrow> uint64) \<Rightarrow> (uint64 set \<Rightarrow> uint64) \<Rightarrow> bytes \<Rightarrow> uint64 \<Rightarrow> 'o dns_state \<Rightarrow>
     bool \<times> 'o dns_state" where
  "ResolveDns alloc_source alloc_request Hostname FutureId st =
     (let s = fst st in
      case dn_CacheMap s Hostname of
        None \<Rightarrow>
          let SourceRequestNodeId = alloc_source (dom (dn_SourcePool s)) in
          if SourceRequestNodeId = 0 then (False, st)
          else
            let s = s\<lparr>dn_SourcePool := (dn_SourcePool s)(SourceRequestNodeId \<mapsto> Some FutureId)\<rparr>;
                RequestNodeId = alloc_request (dom (dn_RequestPool s))
            in
            if RequestNodeId = 0
            then (False, (s\<lparr>dn_SourcePool := (dn_SourcePool s)(SourceRequestNodeId := None)\<rparr>, snd st))
            else
              let CacheNode = \<lparr>cn_QueryFinished = False, cn_TimestampMS = dn_LocalTicker s,
                               cn_Pending = [SourceRequestNodeId], cn_Result = None\<rparr>
              in (True,
                  (s\<lparr>dn_RequestPool := (dn_RequestPool s)(RequestNodeId \<mapsto>
                       \<lparr>dq_Hostname = Hostname, dq_A4List = [], dq_A6List = []\<rparr>),
                     dn_CacheMap := (dn_CacheMap s)(Hostname \<mapsto> CacheNode),
                     dn_CacheRequestTimeoutList := add_tail (dn_CacheRequestTimeoutList s) Hostname,
                     dn_RequestList := add_tail (dn_RequestList s) RequestNodeId,
                     dn_OnGoingDnsRequestCount := dn_OnGoingDnsRequestCount s + 1\<rparr>, snd st))
      | Some CacheNode \<Rightarrow>
          if \<not> cn_QueryFinished CacheNode
          then
            let SourceRequestNodeId = alloc_source (dom (dn_SourcePool s)) in
            if SourceRequestNodeId = 0 then (False, st)
            else
              let s = s\<lparr>dn_SourcePool := (dn_SourcePool s)(SourceRequestNodeId \<mapsto> Some FutureId)\<rparr>
              in (True, (upd_node Hostname
                           (\<lambda>N. N\<lparr>cn_Pending := add_tail (cn_Pending N) SourceRequestNodeId\<rparr>) s, snd st))
          else (True, answer_from_cache Hostname FutureId st))"

section \<open>The query threads\<close>

text \<open>The addresses of a result list, by family; other families are skipped.\<close>

fun collect_answers :: "xNetAddress list \<Rightarrow> dns_request \<Rightarrow> dns_request" where
  "collect_answers [] P = P"
| "collect_answers (A # iter) P =
     collect_answers iter
       (if Is4 A then P\<lparr>dq_A4List := dq_A4List P @ [A]\<rparr>
        else if Is6 A then P\<lparr>dq_A6List := dq_A6List P @ [A]\<rparr>
        else P)"

definition thread_grab :: "nat \<Rightarrow> dns_service \<Rightarrow> dns_service" where
  "thread_grab t s =
     s\<lparr>dn_tmp := (dn_tmp s)(t := dn_tmp s t @ dn_RequestList s), dn_RequestList := []\<rparr>"

text \<open>\<open>None\<close> is a failed \<open>getaddrinfo\<close>, after which the request is finished without addresses.\<close>

definition thread_finish :: "nat \<Rightarrow> xNetAddress list option \<Rightarrow> dns_service \<Rightarrow> dns_service" where
  "thread_finish t answers s =
     (case dn_tmp s t of
        [] \<Rightarrow> s
      | i # q \<Rightarrow>
          s\<lparr>dn_tmp := (dn_tmp s)(t := q),
            dn_RequestPool := (dn_RequestPool s)(i := map_option
              (\<lambda>P. case answers of None \<Rightarrow> P | Some res \<Rightarrow> collect_answers res P) (dn_RequestPool s i)),
            dn_RequestFinishedList := dn_RequestFinishedList s @ [i]\<rparr>)"

section \<open>Lemmas on the waiters\<close>

definition drop_keys :: "'k set \<Rightarrow> ('k \<Rightarrow> 'v option) \<Rightarrow> 'k \<Rightarrow> 'v option" where
  "drop_keys K m = (\<lambda>k. if k \<in> K then None else m k)"

lemma drop_keys_empty [simp]: "drop_keys {} m = m"
  by (simp add: drop_keys_def)

lemma drop_keys_upd_None [simp]: "drop_keys K (m(i := None)) = drop_keys (insert i K) m"
  by (auto simp: drop_keys_def fun_eq_iff)

lemma drop_keys_if_None [simp]:
  "drop_keys K (\<lambda>k. if k = i then None else m k) = drop_keys (insert i K) m"
  by (auto simp: drop_keys_def fun_eq_iff)

lemma drop_keys_apply: "drop_keys K m k = (if k \<in> K then None else m k)"
  by (simp add: drop_keys_def)

lemma dom_drop_keys [simp]: "dom (drop_keys K m) = dom m - K"
  by (auto simp: drop_keys_def dom_def split: if_splits)

definition index_ok :: "dns_cache_result \<Rightarrow> bool" where
  "index_ok C \<longleftrightarrow> (dc_A4List C \<noteq> [] \<longrightarrow> dc_LastA4ResultIndex C < length (dc_A4List C)) \<and>
     (dc_A6List C \<noteq> [] \<longrightarrow> dc_LastA6ResultIndex C < length (dc_A6List C))"

lemma next_index_less: "0 < n \<Longrightarrow> next_index I n < n"
  by (simp add: next_index_def)

lemma next_index_mod: "I < n \<Longrightarrow> next_index I n = Suc I mod n"
  by (auto simp: next_index_def le_Suc_eq)

lemma PickDnsResult_index:
  assumes "PickDnsResult C = (R, C')" and "index_ok C"
  shows "index_ok C'" and "dc_A4List C' = dc_A4List C" and "dc_A6List C' = dc_A6List C"
    and "dc_A4List C \<noteq> [] \<Longrightarrow> dr_A4 R = dc_A4List C ! (Suc (dc_LastA4ResultIndex C) mod length (dc_A4List C))"
    and "dc_A4List C \<noteq> [] \<Longrightarrow> dc_LastA4ResultIndex C' = Suc (dc_LastA4ResultIndex C) mod length (dc_A4List C)"
    and "dc_A4List C = [] \<Longrightarrow> dr_A4 R = no_address"
    and "dc_A6List C = [] \<Longrightarrow> dr_A6 R = no_address"
    and "dc_A6List C \<noteq> [] \<Longrightarrow> dr_A6 R \<in> set (dc_A6List C)"
  using assms
  by (auto simp: PickDnsResult_def Let_def index_ok_def next_index_less next_index_mod
      split: if_splits)

lemma fst_answer_from_cache:
  assumes "dn_CacheMap (fst st) h = Some N" and "cn_Result N = Some C"
  shows "fst (answer_from_cache h F st)
      = (fst st)\<lparr>dn_CacheMap := (dn_CacheMap (fst st))(h \<mapsto> N\<lparr>cn_Result := Some (snd (PickDnsResult C))\<rparr>)\<rparr>"
    and "snd (answer_from_cache h F st) = SetReady F (SetResult F (fst (PickDnsResult C)) (snd st))"
  using assms by (auto simp: answer_from_cache_def upd_node_def split: prod.split)

lemma node_same: "N\<lparr>cn_Result := cn_Result N\<rparr> = N"
  by simp

lemma dispatch_sources:
  assumes "dn_CacheMap (fst st) h = Some N" and "cn_Result N = Some C" and "index_ok C"
  shows "\<exists>C'. index_ok C' \<and> dc_A4List C' = dc_A4List C \<and> dc_A6List C' = dc_A6List C \<and>
    fst (fold (dispatch_source h) ws st) = (fst st)
      \<lparr>dn_CacheMap := (dn_CacheMap (fst st))(h \<mapsto> N\<lparr>cn_Result := Some C'\<rparr>),
       dn_SourcePool := drop_keys (set ws) (dn_SourcePool (fst st))\<rparr>"
  using assms
proof (induction ws arbitrary: st N C)
  case Nil
  have "N\<lparr>cn_Result := Some C\<rparr> = N"
    using Nil(2) by (metis node_same)
  with Nil show ?case
    by (intro exI [of _ C]) (simp add: fun_upd_idem)
next
  case (Cons i ws)
  define st1 where "st1 = dispatch_source h i st"
  obtain C1 where C1: "index_ok C1" "dc_A4List C1 = dc_A4List C" "dc_A6List C1 = dc_A6List C"
    and st1: "fst st1 = (fst st)
      \<lparr>dn_CacheMap := (dn_CacheMap (fst st))(h \<mapsto> N\<lparr>cn_Result := Some C1\<rparr>),
       dn_SourcePool := (dn_SourcePool (fst st))(i := None)\<rparr>"
  proof (cases "source_future i st")
    case None
    have "N\<lparr>cn_Result := Some C\<rparr> = N"
      using Cons.prems(2) by (metis node_same)
    with None Cons.prems show ?thesis
      by (intro that [of C]) (simp_all add: st1_def dispatch_source_def release_source_def fun_upd_idem)
  next
    case (Some F)
    obtain R C1 where P: "PickDnsResult C = (R, C1)"
      by fastforce
    with Some Cons.prems PickDnsResult_index(1-3) [OF P Cons.prems(3)] show ?thesis
      by (intro that [of C1])
         (simp_all add: st1_def dispatch_source_def release_source_def fst_answer_from_cache)
  qed
  have "dn_CacheMap (fst st1) h = Some (N\<lparr>cn_Result := Some C1\<rparr>)"
    by (simp add: st1)
  moreover have "cn_Result (N\<lparr>cn_Result := Some C1\<rparr>) = Some C1"
    by simp
  ultimately have "\<exists>C'. index_ok C' \<and> dc_A4List C' = dc_A4List C1 \<and>
    dc_A6List C' = dc_A6List C1 \<and> fst (fold (dispatch_source h) ws st1) = (fst st1)
      \<lparr>dn_CacheMap := (dn_CacheMap (fst st1))(h \<mapsto> N\<lparr>cn_Result := Some C1, cn_Result := Some C'\<rparr>),
       dn_SourcePool := drop_keys (set ws) (dn_SourcePool (fst st1))\<rparr>"
    using C1(1) by (rule Cons.IH)
  then obtain C' where C': "index_ok C'" "dc_A4List C' = dc_A4List C1"
    "dc_A6List C' = dc_A6List C1" and f: "fst (fold (dispatch_source h) ws st1) = (fst st1)
      \<lparr>dn_CacheMap := (dn_CacheMap (fst st1))(h \<mapsto> N\<lparr>cn_Result := Some C1, cn_Result := Some C'\<rparr>),
       dn_SourcePool := drop_keys (set ws) (dn_SourcePool (fst st1))\<rparr>"
    by blast
  with C1 show ?case
    by (intro exI [of _ C']) (simp add: st1 st1_def [symmetric])
qed

lemma timeout_sources:
  "fst (fold timeout_source ws st) = (fst st)\<lparr>dn_SourcePool := drop_keys (set ws) (dn_SourcePool (fst st))\<rparr>"
proof (induction ws arbitrary: st)
  case (Cons i ws)
  have "fst (timeout_source i st) = (fst st)\<lparr>dn_SourcePool := (dn_SourcePool (fst st))(i := None)\<rparr>"
    by (simp add: timeout_source_def release_source_def split: option.split)
  then show ?case
    by (simp add: Cons.IH)
qed simp

lemma fst_timeout_node:
  assumes "dn_CacheMap (fst st) h = Some N"
  shows "fst (timeout_node h st) = (fst st)
    \<lparr>dn_CacheMap := (dn_CacheMap (fst st))(h \<mapsto>
       N\<lparr>cn_QueryFinished := True, cn_Result := Some empty_cache_result,
         cn_TimestampMS := dn_LocalTicker (fst st), cn_Pending := []\<rparr>),
     dn_CacheTimeoutList := add_tail (dn_CacheTimeoutList (fst st)) h,
     dn_SourcePool := drop_keys (set (cn_Pending N)) (dn_SourcePool (fst st))\<rparr>"
  using assms
  by (simp add: timeout_node_def take_pending_def upd_node_def Let_def timeout_sources)

lemma fst_dispatch_request:
  assumes "dn_RequestPool (fst st) i = Some P" and "dn_CacheMap (fst st) (dq_Hostname P) = Some N"
  shows "\<exists>C. index_ok C \<and> dc_A4List C = dq_A4List P \<and> dc_A6List C = dq_A6List P \<and>
    fst (dispatch_request i st) = (fst st)
    \<lparr>dn_OnGoingDnsRequestCount := dn_OnGoingDnsRequestCount (fst st) - 1,
     dn_CacheMap := (dn_CacheMap (fst st))(dq_Hostname P \<mapsto>
       N\<lparr>cn_QueryFinished := True, cn_TimestampMS := dn_LocalTicker (fst st),
         cn_Pending := [], cn_Result := Some C\<rparr>),
     dn_CacheRequestTimeoutList := removeAll (dq_Hostname P) (dn_CacheRequestTimeoutList (fst st)),
     dn_CacheTimeoutList := grab_tail (dn_CacheTimeoutList (fst st)) (dq_Hostname P),
     dn_SourcePool := drop_keys (set (cn_Pending N)) (dn_SourcePool (fst st)),
     dn_RequestPool := (dn_RequestPool (fst st))(i := None)\<rparr>"
proof -
  define C0 where "C0 = empty_cache_result\<lparr>dc_A4List := dq_A4List P, dc_A6List := dq_A6List P\<rparr>"
  define N0 where "N0 = N\<lparr>cn_QueryFinished := True, cn_Result := Some C0,
    cn_TimestampMS := dn_LocalTicker (fst st), cn_Pending := []\<rparr>"
  define s0 where "s0 = (fst st)
    \<lparr>dn_OnGoingDnsRequestCount := dn_OnGoingDnsRequestCount (fst st) - 1,
     dn_CacheMap := (dn_CacheMap (fst st))(dq_Hostname P \<mapsto> N0),
     dn_CacheRequestTimeoutList := removeAll (dq_Hostname P) (dn_CacheRequestTimeoutList (fst st)),
     dn_CacheTimeoutList := grab_tail (dn_CacheTimeoutList (fst st)) (dq_Hostname P)\<rparr>"
  have "index_ok C0"
    by (simp add: C0_def index_ok_def empty_cache_result_def)
  moreover have "dn_CacheMap (fst (s0, snd st)) (dq_Hostname P) = Some N0" and "cn_Result N0 = Some C0"
    by (simp_all add: s0_def N0_def)
  ultimately obtain C where C: "index_ok C" "dc_A4List C = dc_A4List C0" "dc_A6List C = dc_A6List C0"
    and f: "fst (fold (dispatch_source (dq_Hostname P)) (cn_Pending N) (s0, snd st)) = s0
      \<lparr>dn_CacheMap := (dn_CacheMap s0)(dq_Hostname P \<mapsto> N0\<lparr>cn_Result := Some C\<rparr>),
       dn_SourcePool := drop_keys (set (cn_Pending N)) (dn_SourcePool s0)\<rparr>"
    using dispatch_sources [of "(s0, snd st)" "dq_Hostname P" N0 C0 "cn_Pending N"] by auto
  have "take_pending (dq_Hostname P)
      ((fst st)\<lparr>dn_OnGoingDnsRequestCount := dn_OnGoingDnsRequestCount (fst st) - 1,
         dn_CacheMap := (dn_CacheMap (fst st))(dq_Hostname P \<mapsto>
           N\<lparr>cn_QueryFinished := True, cn_Result := Some C0, cn_TimestampMS := dn_LocalTicker (fst st)\<rparr>),
         dn_CacheRequestTimeoutList := removeAll (dq_Hostname P) (dn_CacheRequestTimeoutList (fst st)),
         dn_CacheTimeoutList := grab_tail (dn_CacheTimeoutList (fst st)) (dq_Hostname P)\<rparr>, snd st)
      = (cn_Pending N, (s0, snd st))"
    by (simp add: take_pending_def upd_node_def s0_def N0_def)
  then have "dispatch_request i st =
     (let st' = fold (dispatch_source (dq_Hostname P)) (cn_Pending N) (s0, snd st)
      in ((fst st')\<lparr>dn_RequestPool := (dn_RequestPool (fst st'))(i := None)\<rparr>, snd st'))"
    using assms by (simp add: dispatch_request_def Let_def C0_def)
  moreover have "dc_A4List C = dq_A4List P" and "dc_A6List C = dq_A6List P"
    using C by (simp_all add: C0_def)
  ultimately show ?thesis
    using C(1) by (intro exI [of _ C])
       (simp add: Let_def f, intro dns_service.equality, simp_all add: s0_def N0_def C0_def)
qed


section \<open>The invariant of the service\<close>

text \<open>
  Every cached host is in one of the two lists, by whether its query is finished. An unfinished
  node has no result yet; a finished one has a result whose indices are in range and nobody
  waiting. Unfinished nodes are queued in the order of their time stamps. \<open>L\<close> are the nodes that
  a loop has popped and not yet dealt with.
\<close>

definition node_inv :: "bytes set \<Rightarrow> bytes set \<Rightarrow> bytes \<Rightarrow> dns_cache_node \<Rightarrow> bool" where
  "node_inv R T h N \<longleftrightarrow>
     (if cn_QueryFinished N
      then h \<in> T \<and> cn_Pending N = [] \<and> (\<exists>C. cn_Result N = Some C \<and> index_ok C)
      else h \<in> R \<and> cn_Result N = None)"

definition node_stamp :: "dns_service \<Rightarrow> bytes \<Rightarrow> uint64" where
  "node_stamp s h = (case dn_CacheMap s h of Some N \<Rightarrow> cn_TimestampMS N | None \<Rightarrow> 0)"

definition cache_inv :: "bytes list \<Rightarrow> dns_service \<Rightarrow> bool" where
  "cache_inv L s \<longleftrightarrow>
     (let R = L @ dn_CacheRequestTimeoutList s; T = dn_CacheTimeoutList s in
      distinct R \<and> distinct T \<and> set R \<inter> set T = {} \<and> set R \<union> set T \<subseteq> dom (dn_CacheMap s) \<and>
      sorted (map (node_stamp s) R) \<and>
      (\<forall>h N. dn_CacheMap s h = Some N \<longrightarrow>
         node_inv (set R) (set T) h N \<and> cn_TimestampMS N \<le> dn_LocalTicker s))"

lemma cache_invD:
  "cache_inv L s \<Longrightarrow> dn_CacheMap s h = Some N \<Longrightarrow>
   node_inv (set (L @ dn_CacheRequestTimeoutList s)) (set (dn_CacheTimeoutList s)) h N"
  by (simp add: cache_inv_def Let_def)

text \<open>The live waiters are exactly those that some node holds, each held once.\<close>

definition pending_of :: "dns_service \<Rightarrow> bytes \<Rightarrow> uint64 list" where
  "pending_of s h = (case dn_CacheMap s h of Some N \<Rightarrow> cn_Pending N | None \<Rightarrow> [])"

definition source_inv :: "dns_service \<Rightarrow> bool" where
  "source_inv s \<longleftrightarrow>
     (\<forall>h. distinct (pending_of s h)) \<and>
     (\<forall>h k. h \<noteq> k \<longrightarrow> set (pending_of s h) \<inter> set (pending_of s k) = {}) \<and>
     dom (dn_SourcePool s) = (\<Union>h. set (pending_of s h))"

text \<open>
  The live requests are exactly the queued ones, the ones that a thread has grabbed, the
  finished ones and those being dispatched (\<open>L\<close>), each in one place; the audit counter is their
  number.
\<close>

definition request_inv :: "uint64 list \<Rightarrow> dns_service \<Rightarrow> bool" where
  "request_inv L s \<longleftrightarrow>
     (let Q = dn_RequestList s; F = L @ dn_RequestFinishedList s in
      distinct Q \<and> distinct F \<and> set Q \<inter> set F = {} \<and>
      (\<forall>t. distinct (dn_tmp s t) \<and> set (dn_tmp s t) \<inter> (set Q \<union> set F) = {}) \<and>
      (\<forall>t u i. i \<in> set (dn_tmp s t) \<longrightarrow> i \<in> set (dn_tmp s u) \<longrightarrow> t = u) \<and>
      dom (dn_RequestPool s) = set Q \<union> (\<Union>t. set (dn_tmp s t)) \<union> set F \<and>
      dn_OnGoingDnsRequestCount s = count_live (dn_RequestPool s))"

text \<open>Requests are for cached hosts, and an unfinished host has a request in flight.\<close>

definition requested :: "dns_service \<Rightarrow> bytes set" where
  "requested s = dq_Hostname ` ran (dn_RequestPool s)"

lemma requested_iff: "h \<in> requested s \<longleftrightarrow> (\<exists>i P. dn_RequestPool s i = Some P \<and> dq_Hostname P = h)"
  by (auto simp: requested_def ran_def)

definition host_inv :: "dns_service \<Rightarrow> bool" where
  "host_inv s \<longleftrightarrow> requested s \<subseteq> dom (dn_CacheMap s) \<and>
     (\<forall>h N. dn_CacheMap s h = Some N \<longrightarrow> \<not> cn_QueryFinished N \<longrightarrow> h \<in> requested s)"

definition dns_inv :: "bytes list \<Rightarrow> uint64 list \<Rightarrow> dns_service \<Rightarrow> bool" where
  "dns_inv L Q s \<longleftrightarrow> cache_inv L s \<and> source_inv s \<and> request_inv Q s \<and> host_inv s"

lemmas dns_inv_defs = dns_inv_def cache_inv_def source_inv_def request_inv_def host_inv_def Let_def

lemma dns_inv_fresh: "dns_inv [] [] fresh_dns_service"
  by (simp add: dns_inv_defs fresh_dns_service_def pending_of_def requested_def)

text \<open>A node that finishes, by an answer or by the timeout.\<close>

lemma cache_inv_finish:
  assumes inv: "cache_inv L s" and upd: "dn_CacheMap s' = (dn_CacheMap s)(h \<mapsto> M)"
    and C: "index_ok C"
    and M: "cn_QueryFinished M" "cn_Pending M = []" "cn_Result M = Some C"
      "cn_TimestampMS M = dn_LocalTicker s"
    and h: "h \<in> dom (dn_CacheMap s)"
    and tick: "dn_LocalTicker s' = dn_LocalTicker s"
    and lists: "dn_CacheTimeoutList s' = grab_tail (dn_CacheTimeoutList s) h"
      "L' @ dn_CacheRequestTimeoutList s' = removeAll h (L @ dn_CacheRequestTimeoutList s)"
  shows "cache_inv L' s'"
proof -
  let ?R = "L @ dn_CacheRequestTimeoutList s"
  have stamps: "map (node_stamp s') (removeAll h ?R) = map (node_stamp s) (removeAll h ?R)"
    using upd by (simp add: node_stamp_def)
  have "sorted (map (node_stamp s) (removeAll h ?R))"
    using inv unfolding cache_inv_def Let_def removeAll_filter_not_eq by (intro sorted_filter) simp
  moreover have "node_inv (set (removeAll h ?R)) (set (dn_CacheTimeoutList s')) k K \<and>
      cn_TimestampMS K \<le> dn_LocalTicker s'" if "dn_CacheMap s' k = Some K" for k K
  proof (cases "k = h")
    case True
    with that M C upd tick lists show ?thesis
      by (simp add: node_inv_def)
  next
    case False
    with that upd inv have "node_inv (set ?R) (set (dn_CacheTimeoutList s)) k K \<and>
        cn_TimestampMS K \<le> dn_LocalTicker s"
      by (simp add: cache_inv_def Let_def)
    with False tick lists show ?thesis
      by (auto simp: node_inv_def)
  qed
  moreover have "distinct ?R \<and> distinct (dn_CacheTimeoutList s) \<and>
      set ?R \<inter> set (dn_CacheTimeoutList s) = {} \<and>
      set ?R \<union> set (dn_CacheTimeoutList s) \<subseteq> dom (dn_CacheMap s)"
    using inv by (simp add: cache_inv_def Let_def)
  moreover note h
  ultimately show ?thesis
    unfolding cache_inv_def Let_def lists(2) stamps lists(1)
    by (auto simp: upd)
qed

lemma union_minus: "A = B \<union> C \<Longrightarrow> D = C \<Longrightarrow> B \<inter> C = {} \<Longrightarrow> A - B = D"
  by blast

lemma source_inv_finish:
  assumes inv: "source_inv s" and h: "dn_CacheMap s h = Some N"
    and s': "dn_CacheMap s' = (dn_CacheMap s)(h \<mapsto> M)"
      "dn_SourcePool s' = drop_keys (set (cn_Pending N)) (dn_SourcePool s)"
    and M: "cn_Pending M = []"
  shows "source_inv s'"
proof -
  have p: "pending_of s' k = (if k = h then [] else pending_of s k)" for k
    using M s'(1) by (simp add: pending_of_def)
  have N: "pending_of s h = cn_Pending N"
    using h by (simp add: pending_of_def)
  have d: "set (pending_of s k) \<inter> set (cn_Pending N) = {}" if "k \<noteq> h" for k
    using inv that N unfolding source_inv_def by metis
  have "(\<Union>k. set (pending_of s k)) = set (cn_Pending N) \<union> (\<Union>k\<in>-{h}. set (pending_of s k))"
    using N by (metis (no_types, lifting) Compl_eq_Diff_UNIV UNIV_I UN_insert insert_Diff)
  moreover have "(\<Union>k. set (pending_of s' k)) = (\<Union>k\<in>-{h}. set (pending_of s k))"
    by (auto simp: p split: if_splits)
  moreover have "set (cn_Pending N) \<inter> (\<Union>k\<in>-{h}. set (pending_of s k)) = {}"
    using d by auto
  ultimately have "(\<Union>k. set (pending_of s k)) - set (cn_Pending N) = (\<Union>k. set (pending_of s' k))"
    by (rule union_minus)
  with inv show ?thesis
    by (simp add: source_inv_def p s'(2))
qed

lemma dns_inv_dispatch_request:
  assumes inv: "dns_inv [] (i # Q) (fst st)"
  shows "dns_inv [] Q (fst (dispatch_request i st))"
proof -
  let ?s = "fst st"
  let ?s' = "fst (dispatch_request i st)"
  have r: "request_inv (i # Q) ?s" and o: "host_inv ?s" and c: "cache_inv [] ?s" and u: "source_inv ?s"
    using inv by (simp_all add: dns_inv_def)
  have "i \<in> dom (dn_RequestPool ?s)"
    using r by (simp add: request_inv_def Let_def)
  then obtain P where P: "dn_RequestPool ?s i = Some P"
    by blast
  then have "dq_Hostname P \<in> requested ?s"
    by (auto simp: requested_def ran_def)
  with o obtain N where N: "dn_CacheMap ?s (dq_Hostname P) = Some N"
    unfolding host_inv_def by blast
  from fst_dispatch_request [OF P N] obtain C where C: "index_ok C"
    and s': "?s' = ?s
    \<lparr>dn_OnGoingDnsRequestCount := dn_OnGoingDnsRequestCount ?s - 1,
     dn_CacheMap := (dn_CacheMap ?s)(dq_Hostname P \<mapsto>
       N\<lparr>cn_QueryFinished := True, cn_TimestampMS := dn_LocalTicker ?s,
         cn_Pending := [], cn_Result := Some C\<rparr>),
     dn_CacheRequestTimeoutList := removeAll (dq_Hostname P) (dn_CacheRequestTimeoutList ?s),
     dn_CacheTimeoutList := grab_tail (dn_CacheTimeoutList ?s) (dq_Hostname P),
     dn_SourcePool := drop_keys (set (cn_Pending N)) (dn_SourcePool ?s),
     dn_RequestPool := (dn_RequestPool ?s)(i := None)\<rparr>"
    by blast
  have "dn_CacheMap ?s' = (dn_CacheMap ?s)(dq_Hostname P \<mapsto>
      N\<lparr>cn_QueryFinished := True, cn_TimestampMS := dn_LocalTicker ?s,
        cn_Pending := [], cn_Result := Some C\<rparr>)"
    by (simp add: s')
  from cache_inv_finish [OF c this C] have "cache_inv [] ?s'"
    using N by (simp add: s' domI)
  moreover have "source_inv ?s'"
    using u N by (rule source_inv_finish) (simp add: s')+
  moreover have "request_inv Q ?s'"
    using r P by (auto simp: request_inv_def Let_def s' pool_simps)
  moreover have "host_inv ?s'"
  proof -
    have "dn_RequestPool ?s' = (dn_RequestPool ?s)(i := None)"
      by (simp add: s')
    then have "requested ?s - {dq_Hostname P} \<subseteq> requested ?s'" and "requested ?s' \<subseteq> requested ?s"
      using P unfolding subset_iff Diff_iff requested_iff by (metis fun_upd_apply option.inject singletonI option.simps(3))+
    with o N show ?thesis
      by (auto simp: host_inv_def s')
  qed
  ultimately show ?thesis
    by (simp add: dns_inv_def)
qed

lemma dns_inv_dispatch_requests:
  "dns_inv [] (Qs @ Q) (fst st) \<Longrightarrow> dns_inv [] Q (fst (fold dispatch_request Qs st))"
  by (induction Qs arbitrary: st) (simp_all add: dns_inv_dispatch_request)

lemma dns_inv_DispatchResolveResults:
  assumes "dns_inv [] [] (fst st)"
  shows "dns_inv [] [] (fst (DispatchResolveResults st))"
proof -
  have "requested (s\<lparr>dn_RequestFinishedList := q\<rparr>) = requested s"
    and "node_stamp (s\<lparr>dn_RequestFinishedList := q\<rparr>) = node_stamp s"
    and "pending_of (s\<lparr>dn_RequestFinishedList := q\<rparr>) = pending_of s" for s q
    by (simp_all add: requested_def node_stamp_def pending_of_def fun_eq_iff)
  with assms have "dns_inv [] (dn_RequestFinishedList (fst st) @ [])
      ((fst st)\<lparr>dn_RequestFinishedList := []\<rparr>)"
    by (simp add: dns_inv_defs)
  then show ?thesis
    unfolding DispatchResolveResults_def Let_def by (intro dns_inv_dispatch_requests) simp
qed

lemma dns_inv_timeout_node:
  assumes inv: "dns_inv (h # L) Q (fst st)"
  shows "dns_inv L Q (fst (timeout_node h st))"
proof -
  let ?s = "fst st"
  let ?s' = "fst (timeout_node h st)"
  have r: "request_inv Q ?s" and o: "host_inv ?s" and c: "cache_inv (h # L) ?s" and u: "source_inv ?s"
    using inv by (simp_all add: dns_inv_def)
  have h: "h \<notin> set L" "h \<notin> set (dn_CacheRequestTimeoutList ?s)" "h \<notin> set (dn_CacheTimeoutList ?s)"
    and "h \<in> dom (dn_CacheMap ?s)"
    using c by (simp_all add: cache_inv_def Let_def)
  then obtain N where N: "dn_CacheMap ?s h = Some N"
    by blast
  note s' = fst_timeout_node [OF N]
  have "index_ok empty_cache_result"
    by (simp add: index_ok_def empty_cache_result_def)
  moreover have "dn_CacheMap ?s' = (dn_CacheMap ?s)(h \<mapsto>
      N\<lparr>cn_QueryFinished := True, cn_Result := Some empty_cache_result,
        cn_TimestampMS := dn_LocalTicker ?s, cn_Pending := []\<rparr>)"
    by (simp add: s')
  ultimately have "cache_inv L ?s'"
    using cache_inv_finish [OF c, of ?s' h] N h
    by (simp add: s' grab_tail_def removeAll_id domI)
  moreover have "source_inv ?s'"
    using u N by (rule source_inv_finish) (simp add: s')+
  moreover have "request_inv Q ?s'"
    using r by (simp add: request_inv_def s')
  moreover have "requested ?s' = requested ?s"
    by (simp add: requested_def s')
  then have "host_inv ?s'"
    using o N by (auto simp: host_inv_def s')
  ultimately show ?thesis
    by (simp add: dns_inv_def)
qed

lemma dns_inv_timeout_nodes:
  "dns_inv (Ls @ L) Q (fst st) \<Longrightarrow> dns_inv L Q (fst (fold timeout_node Ls st))"
  by (induction Ls arbitrary: st) (simp_all add: dns_inv_timeout_node)

lemma dns_inv_pop:
  assumes "dn_CacheRequestTimeoutList s = L @ q"
  shows "dns_inv L Q (s\<lparr>dn_CacheRequestTimeoutList := q\<rparr>) = dns_inv [] Q s"
proof -
  have "requested (s\<lparr>dn_CacheRequestTimeoutList := q\<rparr>) = requested s"
    and "node_stamp (s\<lparr>dn_CacheRequestTimeoutList := q\<rparr>) = node_stamp s"
    and "pending_of (s\<lparr>dn_CacheRequestTimeoutList := q\<rparr>) = pending_of s"
    by (simp_all add: requested_def node_stamp_def pending_of_def fun_eq_iff)
  with assms show ?thesis
    by (simp add: dns_inv_defs)
qed

lemma dns_inv_ProcessRequestTimeout:
  assumes "dns_inv [] Q (fst st)"
  shows "dns_inv [] Q (fst (ProcessRequestTimeoutCacheNodes st))"
  unfolding ProcessRequestTimeoutCacheNodes_def drain_def Let_def
  by (intro dns_inv_timeout_nodes) (simp add: dns_inv_pop assms)

text \<open>What a timed out node leaves alone, whatever the state.\<close>

lemma timeout_node_frame:
  "dn_CacheRequestTimeoutList (fst (timeout_node h st)) = dn_CacheRequestTimeoutList (fst st)"
  "dn_LocalTicker (fst (timeout_node h st)) = dn_LocalTicker (fst st)"
  "dn_RequestPool (fst (timeout_node h st)) = dn_RequestPool (fst st)"
  "k \<noteq> h \<Longrightarrow> dn_CacheMap (fst (timeout_node h st)) k = dn_CacheMap (fst st) k"
  by (simp_all add: timeout_node_def take_pending_def upd_node_def Let_def timeout_sources
      split: option.split prod.split)

lemma timeout_nodes_frame:
  "dn_CacheRequestTimeoutList (fst (fold timeout_node hs st)) = dn_CacheRequestTimeoutList (fst st)"
  "dn_LocalTicker (fst (fold timeout_node hs st)) = dn_LocalTicker (fst st)"
  "dn_RequestPool (fst (fold timeout_node hs st)) = dn_RequestPool (fst st)"
  "k \<notin> set hs \<Longrightarrow> dn_CacheMap (fst (fold timeout_node hs st)) k = dn_CacheMap (fst st) k"
  by (induction hs arbitrary: st) (simp_all add: timeout_node_frame)

lemma ProcessRequestTimeout_frame:
  "dn_CacheRequestTimeoutList (fst (ProcessRequestTimeoutCacheNodes st)) =
     dropWhile (node_older (dn_LocalTicker (fst st) - DNS_QUERY_TIMEOUT_MS) st)
       (dn_CacheRequestTimeoutList (fst st))"
  "dn_LocalTicker (fst (ProcessRequestTimeoutCacheNodes st)) = dn_LocalTicker (fst st)"
  "k \<notin> set (takeWhile (node_older (dn_LocalTicker (fst st) - DNS_QUERY_TIMEOUT_MS) st)
              (dn_CacheRequestTimeoutList (fst st))) \<Longrightarrow>
   dn_CacheMap (fst (ProcessRequestTimeoutCacheNodes st)) k = dn_CacheMap (fst st) k"
  by (simp_all add: ProcessRequestTimeoutCacheNodes_def drain_def Let_def timeout_nodes_frame)

lemma takeWhile_dropWhile_disjoint:
  "distinct xs \<Longrightarrow> set (takeWhile p xs) \<inter> set (dropWhile p xs) = {}"
  by (metis distinct_append takeWhile_dropWhile_id)

lemma while_stops:
  "(\<And>k q. xs = k # q \<Longrightarrow> \<not> P k) \<Longrightarrow> takeWhile P xs = [] \<and> dropWhile P xs = xs"
  by (cases xs) auto

text \<open>
  The second loop finds nothing to do, because the first has just taken every node older than the
  shorter timeout off the list that both of them pop.
\<close>

lemma ProcessTimeoutCacheNodes_idle:
  assumes d: "distinct (dn_CacheRequestTimeoutList (fst st))"
    and now: "DNS_CACHE_TIMEOUT_MS \<le> dn_LocalTicker (fst st)"
  shows "ProcessTimeoutCacheNodes (ProcessRequestTimeoutCacheNodes st) = ProcessRequestTimeoutCacheNodes st"
proof -
  let ?now = "dn_LocalTicker (fst st)"
  let ?old = "node_older (?now - DNS_QUERY_TIMEOUT_MS) st"
  let ?R = "dn_CacheRequestTimeoutList (fst st)"
  let ?st = "ProcessRequestTimeoutCacheNodes st"
  have lt: "?now - DNS_CACHE_TIMEOUT_MS \<le> ?now - DNS_QUERY_TIMEOUT_MS"
    using now by (simp add: DNS_CACHE_TIMEOUT_MS_def DNS_QUERY_TIMEOUT_MS_def word_le_nat_alt unat_sub
        word_less_nat_alt unat_sub [OF order.trans [of _ "2700000 :: uint64"]])
  have same: "dn_CacheMap (fst ?st) k = dn_CacheMap (fst st) k" if "k \<in> set (dropWhile ?old ?R)" for k
    using that takeWhile_dropWhile_disjoint [OF d, of ?old]
    by (intro ProcessRequestTimeout_frame(3)) auto
  have "\<not> node_older (?now - DNS_CACHE_TIMEOUT_MS) ?st k"
    if "dropWhile ?old ?R = k # q" for k q
  proof -
    have "\<not> ?old k"
      using hd_dropWhile [of ?old ?R] that by simp
    moreover have "k \<in> set (dropWhile ?old ?R)"
      unfolding that by simp
    ultimately show ?thesis
      using lt by (auto simp: node_older_def same split: option.splits)
  qed
  then have t: "takeWhile (node_older (?now - DNS_CACHE_TIMEOUT_MS) ?st) (dropWhile ?old ?R) = []"
    and dr: "dropWhile (node_older (?now - DNS_CACHE_TIMEOUT_MS) ?st) (dropWhile ?old ?R) = dropWhile ?old ?R"
    using while_stops [of "dropWhile ?old ?R"] by blast+
  have "set_request_timeout_list (dropWhile ?old ?R) ?st = ?st"
    using ProcessRequestTimeout_frame(1) [of st] by (cases ?st) simp
  then show ?thesis
    unfolding ProcessTimeoutCacheNodes_def drain_def Let_def ProcessRequestTimeout_frame(1,2) t dr
    by simp
qed

lemma answer_from_cache_frame:
  "dn_LocalTicker (fst (answer_from_cache h F st)) = dn_LocalTicker (fst st)"
  "dn_RequestPool (fst (answer_from_cache h F st)) = dn_RequestPool (fst st)"
  "k \<noteq> h \<Longrightarrow> dn_CacheMap (fst (answer_from_cache h F st)) k = dn_CacheMap (fst st) k"
  by (simp_all add: answer_from_cache_def upd_node_def Let_def split: option.split prod.split)

lemma dispatch_source_frame:
  "dn_LocalTicker (fst (dispatch_source h i st)) = dn_LocalTicker (fst st)"
  "dn_RequestPool (fst (dispatch_source h i st)) = dn_RequestPool (fst st)"
  "k \<noteq> h \<Longrightarrow> dn_CacheMap (fst (dispatch_source h i st)) k = dn_CacheMap (fst st) k"
  by (simp_all add: dispatch_source_def release_source_def Let_def answer_from_cache_frame split: option.split)

lemma dispatch_sources_frame:
  "dn_LocalTicker (fst (fold (dispatch_source h) ws st)) = dn_LocalTicker (fst st)"
  "dn_RequestPool (fst (fold (dispatch_source h) ws st)) = dn_RequestPool (fst st)"
  "k \<noteq> h \<Longrightarrow> dn_CacheMap (fst (fold (dispatch_source h) ws st)) k = dn_CacheMap (fst st) k"
  by (induction ws arbitrary: st) (simp_all add: dispatch_source_frame)

definition request_host :: "dns_service \<Rightarrow> uint64 \<Rightarrow> bytes option" where
  "request_host s i = map_option dq_Hostname (dn_RequestPool s i)"

lemma requested_by_host: "requested s = {h. \<exists>i. request_host s i = Some h}"
  by (auto simp: requested_def ran_def request_host_def)

lemma dispatch_request_frame:
  "dn_LocalTicker (fst (dispatch_request i st)) = dn_LocalTicker (fst st)"
  "request_host (fst st) i \<noteq> Some h \<Longrightarrow>
   dn_CacheMap (fst (dispatch_request i st)) h = dn_CacheMap (fst st) h"
  "dn_RequestPool (fst (dispatch_request i st)) = (dn_RequestPool (fst st))(i := None)"
  by (auto simp: dispatch_request_def take_pending_def upd_node_def Let_def request_host_def
      dispatch_sources_frame split: option.split)

lemma dispatch_requests_ticker:
  "dn_LocalTicker (fst (fold dispatch_request Q st)) = dn_LocalTicker (fst st)"
  by (induction Q arbitrary: st) (simp_all add: dispatch_request_frame)

lemma DispatchResolveResults_frame:
  "dn_LocalTicker (fst (DispatchResolveResults st)) = dn_LocalTicker (fst st)"
  by (simp add: DispatchResolveResults_def dispatch_requests_ticker)

section \<open>Every operation preserves the invariant\<close>

lemma cache_inv_new_node:
  assumes c: "cache_inv [] s" and h: "dn_CacheMap s h = None"
    and s': "dn_CacheMap s' = (dn_CacheMap s)(h \<mapsto>
        \<lparr>cn_QueryFinished = False, cn_TimestampMS = dn_LocalTicker s, cn_Pending = W, cn_Result = None\<rparr>)"
      "dn_LocalTicker s' = dn_LocalTicker s" "dn_CacheTimeoutList s' = dn_CacheTimeoutList s"
      "dn_CacheRequestTimeoutList s' = dn_CacheRequestTimeoutList s @ [h]"
  shows "cache_inv [] s'"
proof -
  let ?R = "dn_CacheRequestTimeoutList s"
  have new: "h \<notin> set ?R" "h \<notin> set (dn_CacheTimeoutList s)"
    using c h by (auto simp: cache_inv_def Let_def)
  then have stamps: "map (node_stamp s') ?R = map (node_stamp s) ?R" "node_stamp s' h = dn_LocalTicker s"
    using s'(1) by (auto simp: node_stamp_def)
  have "x \<le> dn_LocalTicker s" if "x \<in> set (map (node_stamp s) ?R)" for x
    using that c by (auto simp: cache_inv_def Let_def node_stamp_def split: option.splits)
  then have "sorted (map (node_stamp s') (?R @ [h]))"
    using c by (simp add: stamps cache_inv_def Let_def sorted_append)
  with c new h show ?thesis
    by (auto simp: cache_inv_def Let_def s' node_inv_def split: if_splits)
qed

lemma source_inv_add:
  assumes u: "source_inv s" and i: "dn_SourcePool s i = None"
    and s': "dn_SourcePool s' = (dn_SourcePool s)(i \<mapsto> F)"
      "\<And>k. pending_of s' k = (if k = h then pending_of s h @ [i] else pending_of s k)"
  shows "source_inv s'"
proof -
  have "i \<notin> set (pending_of s k)" for k
    using u i unfolding source_inv_def by (metis UN_I UNIV_I domIff)
  moreover have "(\<Union>k. set (pending_of s' k)) = insert i (\<Union>k. set (pending_of s k))"
    by (auto simp: s'(2) split: if_splits)
  ultimately show ?thesis
    using u by (auto simp: source_inv_def s')
qed

lemma request_inv_add:
  assumes r: "request_inv [] s" and j: "dn_RequestPool s j = None"
    and s': "dn_RequestPool s' = (dn_RequestPool s)(j \<mapsto> P)" "dn_tmp s' = dn_tmp s"
      "dn_RequestList s' = dn_RequestList s @ [j]" "dn_RequestFinishedList s' = dn_RequestFinishedList s"
      "dn_OnGoingDnsRequestCount s' = dn_OnGoingDnsRequestCount s + 1"
  shows "request_inv [] s'"
proof -
  have "j \<notin> dom (dn_RequestPool s)"
    using j by auto
  then have "j \<notin> set (dn_RequestList s)" "j \<notin> set (dn_RequestFinishedList s)" "\<And>t. j \<notin> set (dn_tmp s t)"
    using r by (auto simp: request_inv_def Let_def)
  with r j show ?thesis
    by (auto simp: request_inv_def Let_def s' pool_simps)
qed

lemma dns_inv_ResolveDns:
  assumes inv: "dns_inv [] [] (fst st)" and "storage_ok asrc" and "storage_ok areq"
  shows "dns_inv [] [] (fst (snd (ResolveDns asrc areq h F st)))"
proof -
  let ?s = "fst st"
  let ?i = "asrc (dom (dn_SourcePool ?s))"
  let ?j = "areq (dom (dn_RequestPool ?s))"
  have r: "request_inv [] ?s" and o: "host_inv ?s" and c: "cache_inv [] ?s" and u: "source_inv ?s"
    using inv by (simp_all add: dns_inv_def)
  have i: "dn_SourcePool ?s ?i = None" if "?i \<noteq> 0"
    using storage_okD [OF assms(2) that] .
  have j: "dn_RequestPool ?s ?j = None" if "?j \<noteq> 0"
    using storage_okD [OF assms(3) that] .
  have undo: "?s\<lparr>dn_SourcePool := (dn_SourcePool ?s)(?i := None)\<rparr> = ?s" if "?i \<noteq> 0"
    using i [OF that] by (simp add: fun_upd_idem)
  consider (refused) "fst (snd (ResolveDns asrc areq h F st)) = ?s"
    | (started) "?i \<noteq> 0" "?j \<noteq> 0" "dn_CacheMap ?s h = None"
    | (waiting) N where "?i \<noteq> 0" "dn_CacheMap ?s h = Some N" "\<not> cn_QueryFinished N"
    | (cached) N where "dn_CacheMap ?s h = Some N" "cn_QueryFinished N"
  proof (cases "dn_CacheMap ?s h")
    case None
    then show ?thesis
      using that(1,2) undo by (cases "?i = 0"; cases "?j = 0") (simp_all add: ResolveDns_def Let_def)
  next
    case (Some N)
    then show ?thesis
      using that(1,3,4) by (cases "cn_QueryFinished N"; cases "?i = 0") (simp_all add: ResolveDns_def Let_def)
  qed
  then show ?thesis
  proof cases
    case refused
    with inv show ?thesis by simp
  next
    case started
    let ?s' = "fst (snd (ResolveDns asrc areq h F st))"
    have s': "?s' = ?s
      \<lparr>dn_SourcePool := (dn_SourcePool ?s)(?i \<mapsto> Some F),
       dn_RequestPool := (dn_RequestPool ?s)(?j \<mapsto> \<lparr>dq_Hostname = h, dq_A4List = [], dq_A6List = []\<rparr>),
       dn_CacheMap := (dn_CacheMap ?s)(h \<mapsto>
         \<lparr>cn_QueryFinished = False, cn_TimestampMS = dn_LocalTicker ?s, cn_Pending = [?i], cn_Result = None\<rparr>),
       dn_CacheRequestTimeoutList := dn_CacheRequestTimeoutList ?s @ [h],
       dn_RequestList := dn_RequestList ?s @ [?j],
       dn_OnGoingDnsRequestCount := dn_OnGoingDnsRequestCount ?s + 1\<rparr>"
      using started by (simp add: ResolveDns_def Let_def)
    have "cache_inv [] ?s'"
      using c started(3) by (rule cache_inv_new_node) (simp_all add: s')
    moreover have "source_inv ?s'"
      using u i [OF started(1)] started(3)
      by (intro source_inv_add [of ?s ?i ?s' "Some F" h]) (auto simp: s' pending_of_def)
    moreover have "request_inv [] ?s'"
      using r j [OF started(2)] by (rule request_inv_add) (simp_all add: s')
    moreover have "requested ?s' = insert h (requested ?s)"
      using j [OF started(2)] by (auto simp: requested_def s' ran_map_upd)
    then have "host_inv ?s'"
      using o by (auto simp: host_inv_def s')
    ultimately show ?thesis
      by (simp add: dns_inv_def)
  next
    case waiting
    let ?s' = "fst (snd (ResolveDns asrc areq h F st))"
    have s': "?s' = ?s
      \<lparr>dn_SourcePool := (dn_SourcePool ?s)(?i \<mapsto> Some F),
       dn_CacheMap := (dn_CacheMap ?s)(h \<mapsto> N\<lparr>cn_Pending := cn_Pending N @ [?i]\<rparr>)\<rparr>"
      using waiting by (simp add: ResolveDns_def Let_def upd_node_def)
    have "node_stamp ?s' = node_stamp ?s"
      using waiting by (simp add: node_stamp_def s' fun_eq_iff)
    with c waiting have "cache_inv [] ?s'"
      by (auto simp: cache_inv_def Let_def s' node_inv_def)
    moreover have "source_inv ?s'"
      using u i [OF waiting(1)] waiting
      by (intro source_inv_add [of ?s ?i ?s' "Some F" h]) (auto simp: s' pending_of_def)
    moreover have "request_inv [] ?s'"
      using r by (simp add: request_inv_def s')
    moreover have "requested ?s' = requested ?s"
      by (simp add: requested_def s')
    then have "host_inv ?s'"
      using o waiting by (auto simp: host_inv_def s')
    ultimately show ?thesis
      by (simp add: dns_inv_def)
  next
    case cached
    let ?s' = "fst (snd (ResolveDns asrc areq h F st))"
    obtain R T where "node_inv R T h N"
      using c cached(1) unfolding cache_inv_def Let_def by blast
    with cached(2) obtain C where C: "cn_Result N = Some C" "index_ok C"
      by (auto simp: node_inv_def)
    define C' where "C' = snd (PickDnsResult C)"
    have C': "index_ok C'"
      using PickDnsResult_index(1) [of C "fst (PickDnsResult C)" C'] C by (simp add: C'_def)
    have s': "?s' = ?s\<lparr>dn_CacheMap := (dn_CacheMap ?s)(h \<mapsto> N\<lparr>cn_Result := Some C'\<rparr>)\<rparr>"
      using cached fst_answer_from_cache [OF cached(1) C(1)]
      by (simp add: ResolveDns_def Let_def C'_def)
    have "node_stamp ?s' = node_stamp ?s" and "pending_of ?s' = pending_of ?s"
      using cached by (simp_all add: node_stamp_def pending_of_def s' fun_eq_iff)
    with c u cached C' have "cache_inv [] ?s'" and "source_inv ?s'"
      by (auto simp: cache_inv_def source_inv_def Let_def s' node_inv_def)
    moreover have "request_inv [] ?s'"
      using r by (simp add: request_inv_def s')
    moreover have "requested ?s' = requested ?s"
      by (simp add: requested_def s')
    then have "host_inv ?s'"
      using o cached by (auto simp: host_inv_def s')
    ultimately show ?thesis
      by (simp add: dns_inv_def)
  qed
qed

lemma dns_inv_dispatched:
  assumes "dns_inv [] [] (fst st)" and "dn_LocalTicker (fst st) \<le> now"
  shows "dns_inv [] [] (fst (DispatchResolveResults ((fst st)\<lparr>dn_LocalTicker := now\<rparr>, snd st)))"
    and "dn_LocalTicker (fst (DispatchResolveResults ((fst st)\<lparr>dn_LocalTicker := now\<rparr>, snd st))) = now"
proof -
  let ?st0 = "((fst st)\<lparr>dn_LocalTicker := now\<rparr>, snd st)"
  have "requested (fst ?st0) = requested (fst st)" and "node_stamp (fst ?st0) = node_stamp (fst st)"
    and "pending_of (fst ?st0) = pending_of (fst st)"
    by (simp_all add: requested_def node_stamp_def pending_of_def fun_eq_iff)
  with assms have "dns_inv [] [] (fst ?st0)"
    by (fastforce simp: dns_inv_defs)
  then show "dns_inv [] [] (fst (DispatchResolveResults ?st0))"
    by (rule dns_inv_DispatchResolveResults)
qed (simp add: DispatchResolveResults_frame)

lemma dns_inv_tick:
  assumes "dns_inv [] [] (fst st)" and "dn_LocalTicker (fst st) \<le> now" and "DNS_CACHE_TIMEOUT_MS \<le> now"
  shows "dns_inv [] [] (fst (dns_Tick now st))"
    and "dns_Tick now st = ProcessRequestTimeoutCacheNodes
           (DispatchResolveResults ((fst st)\<lparr>dn_LocalTicker := now\<rparr>, snd st))"
proof -
  let ?st0 = "((fst st)\<lparr>dn_LocalTicker := now\<rparr>, snd st)"
  note inv = dns_inv_dispatched [OF assms(1,2)]
  then have d: "distinct (dn_CacheRequestTimeoutList (fst (DispatchResolveResults ?st0)))"
    by (simp add: dns_inv_def cache_inv_def Let_def)
  with ProcessTimeoutCacheNodes_idle [OF d] inv(2) assms(3)
  show eq: "dns_Tick now st = ProcessRequestTimeoutCacheNodes (DispatchResolveResults ?st0)"
    by (simp add: dns_Tick_def Let_def)
  show "dns_inv [] [] (fst (dns_Tick now st))"
    unfolding eq by (rule dns_inv_ProcessRequestTimeout [OF inv(1)])
qed

lemma dns_inv_threads:
  assumes inv: "dns_inv [] [] s" and r: "request_inv [] s'"
    and s': "dn_CacheMap s' = dn_CacheMap s" "dn_LocalTicker s' = dn_LocalTicker s"
      "dn_CacheRequestTimeoutList s' = dn_CacheRequestTimeoutList s"
      "dn_CacheTimeoutList s' = dn_CacheTimeoutList s" "dn_SourcePool s' = dn_SourcePool s"
      "requested s' = requested s"
  shows "dns_inv [] [] s'"
proof -
  have "node_stamp s' = node_stamp s" and "pending_of s' = pending_of s"
    by (simp_all add: node_stamp_def pending_of_def fun_eq_iff s')
  with inv r show ?thesis
    by (simp add: dns_inv_def cache_inv_def source_inv_def host_inv_def s')
qed

lemma dns_inv_thread_grab:
  assumes "dns_inv [] [] s"
  shows "dns_inv [] [] (thread_grab t s)"
proof -
  have r: "request_inv [] s"
    using assms by (simp add: dns_inv_def)
  have eq: "(\<Union>u. set (dn_tmp (thread_grab t s) u)) = set (dn_RequestList s) \<union> (\<Union>u. set (dn_tmp s u))"
    by (auto simp: thread_grab_def split: if_splits)
  have "request_inv [] (thread_grab t s)"
    using r unfolding request_inv_def Let_def eq by (auto simp: thread_grab_def)
  then show ?thesis
    by (rule dns_inv_threads [OF assms]) (simp_all add: thread_grab_def requested_def)
qed

lemma collect_answers_Hostname [simp]: "dq_Hostname (collect_answers as P) = dq_Hostname P"
  by (induction as arbitrary: P) simp_all

lemma dns_inv_thread_finish:
  assumes "dns_inv [] [] s"
  shows "dns_inv [] [] (thread_finish t answers s)"
proof (cases "dn_tmp s t")
  case Nil
  with assms show ?thesis
    by (simp add: thread_finish_def)
next
  case (Cons i q)
  let ?s' = "thread_finish t answers s"
  let ?f = "\<lambda>P. case answers of None \<Rightarrow> P | Some res \<Rightarrow> collect_answers res P"
  have r: "request_inv [] s"
    using assms by (simp add: dns_inv_def)
  have s': "?s' = s\<lparr>dn_tmp := (dn_tmp s)(t := q),
      dn_RequestPool := (dn_RequestPool s)(i := map_option ?f (dn_RequestPool s i)),
      dn_RequestFinishedList := dn_RequestFinishedList s @ [i]\<rparr>"
    by (simp add: thread_finish_def Cons)
  have "i \<in> dom (dn_RequestPool s)"
  proof -
    have "i \<in> (\<Union>u. set (dn_tmp s u))"
      by (rule UN_I [of t]) (simp_all add: Cons)
    with r show ?thesis
      by (simp add: request_inv_def Let_def)
  qed
  then obtain P where P: "dn_RequestPool s i = Some P"
    by blast
  have "distinct (dn_tmp s t)" and "set (dn_tmp s t) \<inter> (set (dn_RequestList s) \<union> set (dn_RequestFinishedList s)) = {}"
    using r by (simp_all add: request_inv_def Let_def)
  then have i: "i \<notin> set q" "distinct q" "i \<notin> set (dn_RequestList s)" "i \<notin> set (dn_RequestFinishedList s)"
    "set q \<inter> (set (dn_RequestList s) \<union> set (dn_RequestFinishedList s)) = {}"
    by (auto simp: Cons)
  have own: "u = t" if "x \<in> set (i # q)" and "x \<in> set (dn_tmp s u)" for u x
    using r that Cons unfolding request_inv_def Let_def by metis
  have eq: "insert i (\<Union>u. set (dn_tmp ?s' u)) = (\<Union>u. set (dn_tmp s u))"
  proof -
    have m: "x \<in> set (dn_tmp s u) \<longleftrightarrow> x \<in> set (dn_tmp ?s' u) \<or> (x = i \<and> u = t)" for x u
      using Cons by (auto simp: s')
    show ?thesis
      unfolding set_eq_iff insert_iff UN_iff m by blast
  qed
  have "dom (dn_RequestPool ?s') = dom (dn_RequestPool s)" and "count_live (dn_RequestPool ?s') = count_live (dn_RequestPool s)"
    using P by (auto simp: s' pool_simps)
  with r i own eq have "request_inv [] ?s'"
    unfolding request_inv_def Let_def by (auto simp: s')
  moreover have "requested ?s' = requested s"
  proof -
    have "request_host ?s' = request_host s"
      using P by (simp add: request_host_def s' fun_eq_iff split: option.split)
    then show ?thesis
      by (simp add: requested_by_host)
  qed
  ultimately show ?thesis
    by (intro dns_inv_threads [OF assms]) (simp_all add: s')
qed

section \<open>The service as a transition system\<close>

text \<open>
  The steps of the service: the client's own work on its futures, a resolution, a tick of the
  main loop, and the two steps of a query thread. The clock counts milliseconds since 1970 and
  does not go back.
\<close>

inductive dns_step ::
    "(uint64 set \<Rightarrow> uint64) \<Rightarrow> (uint64 set \<Rightarrow> uint64) \<Rightarrow> 'o dns_state \<Rightarrow> 'o dns_state \<Rightarrow> bool"
  for alloc_source alloc_request where
  client: "dns_step alloc_source alloc_request (s, fm) (s, fm')"
| resolve: "dns_step alloc_source alloc_request st (snd (ResolveDns alloc_source alloc_request h F st))"
| tick: "dn_LocalTicker (fst st) \<le> now \<Longrightarrow> DNS_CACHE_TIMEOUT_MS \<le> now \<Longrightarrow>
    dns_step alloc_source alloc_request st (dns_Tick now st)"
| grab: "dns_step alloc_source alloc_request (s, fm) (thread_grab t s, fm)"
| finish: "dns_step alloc_source alloc_request (s, fm) (thread_finish t answers s, fm)"

lemma dns_inv_step:
  assumes "dns_step asrc areq st st'" and "storage_ok asrc" and "storage_ok areq" and "dns_inv [] [] (fst st)"
  shows "dns_inv [] [] (fst st')"
  using assms
  by (induction rule: dns_step.induct)
     (simp_all add: dns_inv_ResolveDns dns_inv_tick(1) dns_inv_thread_grab dns_inv_thread_finish)

lemma dns_inv_steps:
  assumes "(dns_step asrc areq)\<^sup>*\<^sup>* st st'" and "storage_ok asrc" and "storage_ok areq"
    and "dns_inv [] [] (fst st)"
  shows "dns_inv [] [] (fst st')"
  using assms(1,4) by (induction rule: rtranclp_induct) (auto intro: dns_inv_step assms(2,3))

section \<open>The loops of the service\<close>

lemma timeout_source_queue:
  "timeout_source i (set_request_timeout_list q st) = set_request_timeout_list q (timeout_source i st)"
  by (simp add: timeout_source_def release_source_def source_future_def Let_def split: option.split)

lemma timeout_sources_queue:
  "fold timeout_source ws (set_request_timeout_list q st) =
   set_request_timeout_list q (fold timeout_source ws st)"
  by (induction ws arbitrary: st) (simp_all only: fold_simps timeout_source_queue)

lemma timeout_node_queue:
  "timeout_node h (set_request_timeout_list q st) = set_request_timeout_list q (timeout_node h st)"
proof (cases "dn_CacheMap (fst st) h")
  case None
  then show ?thesis
    by (simp add: timeout_node_def take_pending_def upd_node_def Let_def)
next
  case (Some N)
  define s1 where "s1 = upd_node h (\<lambda>N. N\<lparr>cn_Pending := []\<rparr>)
    ((upd_node h (\<lambda>N. N\<lparr>cn_QueryFinished := True, cn_Result := Some empty_cache_result,
                               cn_TimestampMS := dn_LocalTicker (fst st)\<rparr>) (fst st))
      \<lparr>dn_CacheTimeoutList := add_tail (dn_CacheTimeoutList (fst st)) h\<rparr>)"
  have "timeout_node h st = fold timeout_source (cn_Pending N) (s1, snd st)"
    using Some by (simp add: timeout_node_def take_pending_def upd_node_def Let_def s1_def)
  moreover have "timeout_node h (set_request_timeout_list q st) =
      fold timeout_source (cn_Pending N) (set_request_timeout_list q (s1, snd st))"
    using Some by (simp add: timeout_node_def take_pending_def upd_node_def Let_def s1_def)
      (rule arg_cong [where f = "fold timeout_source (cn_Pending N)"], simp)
  ultimately show ?thesis
    by (simp only: timeout_sources_queue)
qed

interpretation dns_timeout: pop_loop
  request_timeout_list set_request_timeout_list "node_older T" timeout_node for T
proof (unfold_locales, goal_cases)
  case (7 i q s)
  show ?case by (rule timeout_node_queue)
qed (auto simp: node_older_def timeout_node_frame)

interpretation dns_move: pop_loop
  request_timeout_list set_request_timeout_list "node_older T" move_node for T
  by unfold_locales (auto simp: node_older_def move_node_def)

section \<open>Lemmas on completed futures\<close>

definition answered :: "xNetAddress list \<Rightarrow> 'o dns_futures \<Rightarrow> uint64 \<Rightarrow> bool" where
  "answered A4List fm F \<longleftrightarrow> (case fm_pool fm F of
     None \<Rightarrow> False
   | Some G \<Rightarrow> fu_ready G \<and> F \<in> set (fm_ready fm) \<and>
       (case fu_result G of None \<Rightarrow> False | Some R \<Rightarrow> dr_A4 R \<in> set A4List))"

definition completes :: "bytes \<Rightarrow> xNetAddress list \<Rightarrow> 'o dns_state \<Rightarrow> bool" where
  "completes h A4List st \<longleftrightarrow> (\<exists>N C. dn_CacheMap (fst st) h = Some N \<and> cn_Result N = Some C \<and>
     index_ok C \<and> dc_A4List C = A4List \<and> A4List \<noteq> [])"

lemma PickDnsResult_A4:
  assumes "index_ok C" and "dc_A4List C \<noteq> []"
  shows "dr_A4 (fst (PickDnsResult C)) \<in> set (dc_A4List C)"
  using assms PickDnsResult_index(4) [of C "fst (PickDnsResult C)" "snd (PickDnsResult C)"] by simp

lemma dispatch_source_completes:
  assumes "completes h A4List st"
  shows "completes h A4List (dispatch_source h i st)"
proof -
  from assms obtain N C where N: "dn_CacheMap (fst st) h = Some N" "cn_Result N = Some C" "index_ok C"
    "dc_A4List C = A4List" "A4List \<noteq> []"
    by (auto simp: completes_def)
  from dispatch_sources [OF N(1-3), of "[i]"] N(4,5) show ?thesis
    by (auto simp: completes_def)
qed

lemma dispatch_source_answers:
  assumes c: "completes h A4List st" and F: "dn_SourcePool (fst st) i = Some (Some F)"
    and G: "fm_pool (snd st) F \<noteq> None"
  shows "answered A4List (snd (dispatch_source h i st)) F"
proof -
  from c obtain N C where N: "dn_CacheMap (fst st) h = Some N" "cn_Result N = Some C" "index_ok C"
    "dc_A4List C = A4List" "A4List \<noteq> []"
    by (auto simp: completes_def)
  have "source_future i st = Some F"
    using F G by (auto simp: source_future_def GetFuture_def)
  with N have "snd (dispatch_source h i st) = SetReady F (SetResult F (fst (PickDnsResult C)) (snd st))"
    by (simp add: dispatch_source_def release_source_def fst_answer_from_cache)
  moreover have "dr_A4 (fst (PickDnsResult C)) \<in> set A4List"
    using PickDnsResult_A4 [OF N(3)] N(4,5) by simp
  ultimately show ?thesis
    using G by (auto simp: answered_def SetReady_def SetResult_def upd_future_def)
qed

lemma dispatch_source_keeps:
  assumes c: "completes h A4List st"
  shows "answered A4List (snd st) F \<Longrightarrow> answered A4List (snd (dispatch_source h i st)) F"
    and "fm_pool (snd (dispatch_source h i st)) F \<noteq> None \<longleftrightarrow> fm_pool (snd st) F \<noteq> None"
    and "dn_SourcePool (fst (dispatch_source h i st)) = (dn_SourcePool (fst st))(i := None)"
proof -
  from c obtain N C where N: "dn_CacheMap (fst st) h = Some N" "cn_Result N = Some C" "index_ok C"
    "dc_A4List C = A4List" "A4List \<noteq> []"
    by (auto simp: completes_def)
  have m: "dr_A4 (fst (PickDnsResult C)) \<in> set A4List"
    using PickDnsResult_A4 [OF N(3)] N(4,5) by simp
  show "answered A4List (snd st) F \<Longrightarrow> answered A4List (snd (dispatch_source h i st)) F"
    using N m by (auto simp: dispatch_source_def release_source_def fst_answer_from_cache answered_def
        SetReady_def SetResult_def upd_future_def split: option.splits)
  show "fm_pool (snd (dispatch_source h i st)) F \<noteq> None \<longleftrightarrow> fm_pool (snd st) F \<noteq> None"
    using N by (auto simp: dispatch_source_def release_source_def fst_answer_from_cache
        SetReady_def SetResult_def upd_future_def split: option.splits)
  show "dn_SourcePool (fst (dispatch_source h i st)) = (dn_SourcePool (fst st))(i := None)"
    using N by (simp add: dispatch_source_def release_source_def fst_answer_from_cache split: option.split)
qed

lemma dispatch_sources_answer:
  assumes "completes h A4List st" and "fm_pool (snd st) F \<noteq> None"
    and "answered A4List (snd st) F \<or> (\<exists>i \<in> set ws. dn_SourcePool (fst st) i = Some (Some F))"
  shows "answered A4List (snd (fold (dispatch_source h) ws st)) F"
  using assms
proof (induction ws arbitrary: st)
  case (Cons i ws)
  let ?st = "dispatch_source h i st"
  have "answered A4List (snd ?st) F \<or> (\<exists>j \<in> set ws. dn_SourcePool (fst ?st) j = Some (Some F))"
  proof (cases "answered A4List (snd st) F \<or> dn_SourcePool (fst st) i = Some (Some F)")
    case True
    with Cons.prems(1,2) dispatch_source_answers dispatch_source_keeps(1) show ?thesis
      by blast
  next
    case False
    with Cons.prems obtain j where "j \<in> set ws" "j \<noteq> i" "dn_SourcePool (fst st) j = Some (Some F)"
      by auto
    then show ?thesis
      using dispatch_source_keeps(3) [OF Cons.prems(1)] by (metis fun_upd_other)
  qed
  with Cons.prems(1,2) have "answered A4List (snd (fold (dispatch_source h) ws ?st)) F"
    by (intro Cons.IH) (simp_all only: dispatch_source_completes dispatch_source_keeps(2) not_False_eq_True)
  then show ?case
    by simp
qed simp

lemma snd_dispatch_request:
  assumes "dn_RequestPool (fst st) i = Some P" and "dn_CacheMap (fst st) (dq_Hostname P) = Some N"
  shows "\<exists>s0. dn_SourcePool s0 = dn_SourcePool (fst st) \<and>
    dn_CacheMap s0 (dq_Hostname P) = Some (N\<lparr>cn_QueryFinished := True,
      cn_Result := Some (empty_cache_result\<lparr>dc_A4List := dq_A4List P, dc_A6List := dq_A6List P\<rparr>),
      cn_TimestampMS := dn_LocalTicker (fst st), cn_Pending := []\<rparr>) \<and>
    snd (dispatch_request i st) =
      snd (fold (dispatch_source (dq_Hostname P)) (cn_Pending N) (s0, snd st))"
  using assms
  by (simp add: dispatch_request_def take_pending_def upd_node_def Let_def) (rule exI, intro conjI; (rule refl)?; simp)

section \<open>Properties\<close>

text \<open>
  C10: whatever the order of resolutions, ticks, thread steps and completions, the cache of the
  resolver stays consistent: every host is queued by whether its query is finished, every
  waiter is held by one unfinished node, every request is in one place and counted, and every
  unfinished host has a request in flight.
\<close>

theorem dns_service_invariant:
  assumes "storage_ok asrc" and "storage_ok areq"
    and "(dns_step asrc areq)\<^sup>*\<^sup>* (fresh_dns_service, fm) st"
  shows "dns_inv [] [] (fst st)"
  using dns_inv_steps [OF assms(3,1,2)] by (simp add: dns_inv_fresh)

lemma dns_service_invariant_witness:
  "dns_inv [] [] (fst (snd (ResolveDns two_slot_alloc two_slot_alloc (str ''host'') 1
     (fresh_dns_service, new_manager 0 :: unit dns_futures))))"
  by (rule dns_service_invariant [OF two_slot_alloc_ok two_slot_alloc_ok], rule r_into_rtranclp,
      rule dns_step.resolve)

text \<open>
  C29: when a request of an unfinished host is answered with an IPv4 address, every client that waits
  for the host gets one of the answered addresses and becomes ready, and no waiter is left.
\<close>

theorem dns_waiters_served:
  assumes "dn_RequestPool (fst st) i = Some P" and "dn_CacheMap (fst st) (dq_Hostname P) = Some N"
    and "dq_A4List P \<noteq> []"
  shows "(\<forall>w \<in> set (cn_Pending N). dn_SourcePool (fst (dispatch_request i st)) w = None \<and>
      (\<forall>F. dn_SourcePool (fst st) w = Some (Some F) \<longrightarrow> fm_pool (snd st) F \<noteq> None \<longrightarrow>
         answered (dq_A4List P) (snd (dispatch_request i st)) F)) \<and>
    pending_of (fst (dispatch_request i st)) (dq_Hostname P) = []"
proof -
  obtain s0 where s0: "dn_SourcePool s0 = dn_SourcePool (fst st)"
    "dn_CacheMap s0 (dq_Hostname P) = Some (N\<lparr>cn_QueryFinished := True,
      cn_Result := Some (empty_cache_result\<lparr>dc_A4List := dq_A4List P, dc_A6List := dq_A6List P\<rparr>),
      cn_TimestampMS := dn_LocalTicker (fst st), cn_Pending := []\<rparr>)"
    and f: "snd (dispatch_request i st) =
      snd (fold (dispatch_source (dq_Hostname P)) (cn_Pending N) (s0, snd st))"
    using snd_dispatch_request [OF assms(1,2)] by blast
  have "completes (dq_Hostname P) (dq_A4List P) (s0, snd st)"
    using assms(3) s0 by (simp add: completes_def index_ok_def empty_cache_result_def)
  from dispatch_sources_answer [OF this] s0(1)
  have "answered (dq_A4List P) (snd (dispatch_request i st)) F"
    if "w \<in> set (cn_Pending N)" "dn_SourcePool (fst st) w = Some (Some F)" "fm_pool (snd st) F \<noteq> None" for w F
    using that by (auto simp: f)
  moreover obtain C where "fst (dispatch_request i st) = (fst st)
    \<lparr>dn_OnGoingDnsRequestCount := dn_OnGoingDnsRequestCount (fst st) - 1,
     dn_CacheMap := (dn_CacheMap (fst st))(dq_Hostname P \<mapsto>
       N\<lparr>cn_QueryFinished := True, cn_TimestampMS := dn_LocalTicker (fst st),
         cn_Pending := [], cn_Result := Some C\<rparr>),
     dn_CacheRequestTimeoutList := removeAll (dq_Hostname P) (dn_CacheRequestTimeoutList (fst st)),
     dn_CacheTimeoutList := grab_tail (dn_CacheTimeoutList (fst st)) (dq_Hostname P),
     dn_SourcePool := drop_keys (set (cn_Pending N)) (dn_SourcePool (fst st)),
     dn_RequestPool := (dn_RequestPool (fst st))(i := None)\<rparr>"
    using fst_dispatch_request [OF assms(1,2)] by blast
  ultimately show ?thesis
    by (auto simp: pending_of_def drop_keys_apply)
qed

definition waiting_example :: "unit dns_state" where
  "waiting_example = (fresh_dns_service
     \<lparr>dn_RequestPool := [1 \<mapsto> \<lparr>dq_Hostname = [104], dq_A4List = [no_address\<lparr>na_ip := IPV4 [1, 2, 3, 4]\<rparr>],
                            dq_A6List = []\<rparr>],
      dn_SourcePool := [1 \<mapsto> Some 2],
      dn_CacheMap := [[104] \<mapsto> \<lparr>cn_QueryFinished = False, cn_TimestampMS = 7, cn_Pending = [1],
                                 cn_Result = None\<rparr>]\<rparr>,
     new_manager 0\<lparr>fm_pool := [2 \<mapsto> new_future ()]\<rparr>)"

lemma dns_waiters_served_witness:
  "answered [no_address\<lparr>na_ip := IPV4 [1, 2, 3, 4]\<rparr>] (snd (dispatch_request 1 waiting_example)) 2"
  using dns_waiters_served [of waiting_example 1
      "\<lparr>dq_Hostname = [104], dq_A4List = [no_address\<lparr>na_ip := IPV4 [1, 2, 3, 4]\<rparr>], dq_A6List = []\<rparr>"
      "\<lparr>cn_QueryFinished = False, cn_TimestampMS = 7, cn_Pending = [1], cn_Result = None\<rparr>"]
  by (simp add: waiting_example_def)

text \<open>
  A tick ends every query that is older than five seconds, and its loop ends. Whatever is
  not finished afterwards was started less than five seconds ago.
\<close>

theorem dns_query_timeout:
  assumes "dns_inv [] [] (fst st)" and "dn_LocalTicker (fst st) \<le> now" and "DNS_CACHE_TIMEOUT_MS \<le> now"
  shows "pop_loop_run request_timeout_list set_request_timeout_list
      (node_older (now - DNS_QUERY_TIMEOUT_MS)) timeout_node
      (DispatchResolveResults ((fst st)\<lparr>dn_LocalTicker := now\<rparr>, snd st)) = Some (dns_Tick now st) \<and>
    (\<forall>h N. dn_CacheMap (fst (dns_Tick now st)) h = Some N \<longrightarrow> \<not> cn_QueryFinished N \<longrightarrow>
       now - DNS_QUERY_TIMEOUT_MS < cn_TimestampMS N)"
proof -
  define st1 where "st1 = DispatchResolveResults ((fst st)\<lparr>dn_LocalTicker := now\<rparr>, snd st)"
  let ?R = "dn_CacheRequestTimeoutList (fst st1)"
  note tick = dns_inv_tick(2) [OF assms, folded st1_def]
  note i1 = dns_inv_dispatched(1) [OF assms(1,2), folded st1_def]
    and t1 = dns_inv_dispatched(2) [OF assms(1,2), folded st1_def]
  have c: "cache_inv [] (fst st1)"
    using i1 by (simp add: dns_inv_def)
  then have d: "distinct ?R" and s: "sorted (map (node_stamp (fst st1)) ?R)" and m: "set ?R \<subseteq> dom (dn_CacheMap (fst st1))"
    by (simp_all add: cache_inv_def Let_def)
  have run: "pop_loop_run request_timeout_list set_request_timeout_list
      (node_older (now - DNS_QUERY_TIMEOUT_MS)) timeout_node st1 = Some (dns_Tick now st)"
    unfolding tick ProcessRequestTimeoutCacheNodes_def t1 Let_def
    by (rule dns_timeout.loop_is_drain [OF d])
  have old: "node_older T st1 h = (node_stamp (fst st1) h \<le> T)" if "h \<in> set ?R" for h T
    using that m by (auto simp: node_older_def node_stamp_def split: option.split)
  let ?T = "now - DNS_QUERY_TIMEOUT_MS"
  have "dropWhile (node_older ?T st1) ?R = dropWhile (\<lambda>h. node_stamp (fst st1) h \<le> ?T) ?R"
    using old by (intro dropWhile_cong) auto
  also have "\<dots> = filter (\<lambda>h. \<not> node_stamp (fst st1) h \<le> ?T) ?R"
    by (rule dropWhile_sorted_stamps [OF s])
  finally have rest: "dn_CacheRequestTimeoutList (fst (dns_Tick now st)) =
      filter (\<lambda>h. \<not> node_stamp (fst st1) h \<le> ?T) ?R"
    by (simp add: tick ProcessRequestTimeout_frame t1)
  have "now - DNS_QUERY_TIMEOUT_MS < cn_TimestampMS N"
    if N: "dn_CacheMap (fst (dns_Tick now st)) h = Some N" "\<not> cn_QueryFinished N" for h N
  proof -
    have "cache_inv [] (fst (dns_Tick now st))"
      using dns_inv_tick(1) [OF assms] by (simp add: dns_inv_def)
    from cache_invD [OF this N(1)] N(2) have h: "h \<in> set ?R" "\<not> node_stamp (fst st1) h \<le> ?T"
      by (simp_all add: node_inv_def rest)
    then have "h \<notin> set (takeWhile (node_older ?T st1) ?R)"
      using old by (auto dest: set_takeWhileD)
    then have "dn_CacheMap (fst st1) h = Some N"
      using N(1) by (simp add: tick ProcessRequestTimeout_frame(3) t1)
    with h(2) show ?thesis
      by (simp add: node_stamp_def not_le)
  qed
  with run show ?thesis
    unfolding st1_def by blast
qed

lemma dns_query_timeout_witness:
  "\<not> (\<exists>N. dn_CacheMap (fst (dns_Tick 9000000 (snd (ResolveDns two_slot_alloc two_slot_alloc (str ''host'') 1
       (fresh_dns_service, new_manager 0 :: unit dns_futures))))) (str ''host'') = Some N \<and>
     \<not> cn_QueryFinished N \<and> cn_TimestampMS N \<le> 9000000 - DNS_QUERY_TIMEOUT_MS)"
proof -
  let ?s0 = "(fresh_dns_service, new_manager 0 :: unit dns_futures)"
  let ?st = "snd (ResolveDns two_slot_alloc two_slot_alloc (str ''host'') 1 ?s0)"
  have "(dns_step two_slot_alloc two_slot_alloc)\<^sup>*\<^sup>* ?s0 ?st"
    by (rule r_into_rtranclp, rule dns_step.resolve)
  then have "dns_inv [] [] (fst ?st)"
    using dns_inv_steps [OF _ two_slot_alloc_ok two_slot_alloc_ok, of ?s0 ?st] by (simp add: dns_inv_fresh)
  moreover have "dn_LocalTicker (fst ?st) = 0"
    by (simp add: ResolveDns_def fresh_dns_service_def two_slot_alloc_def Let_def)
  moreover have "DNS_CACHE_TIMEOUT_MS \<le> 9000000"
    by (simp add: DNS_CACHE_TIMEOUT_MS_def)
  ultimately have "\<forall>h N. dn_CacheMap (fst (dns_Tick 9000000 ?st)) h = Some N \<longrightarrow> \<not> cn_QueryFinished N \<longrightarrow>
      9000000 - DNS_QUERY_TIMEOUT_MS < cn_TimestampMS N"
    by (intro conjunct2 [OF dns_query_timeout]) simp_all
  then show ?thesis
    by (auto simp only: linorder_not_le [symmetric])
qed

text \<open>
  The cached result of a host never expires. No tick changes a finished node for which no
  request is in flight, however old its time stamp is, and a later resolution of the host is
  answered from it without a new query. (The loop meant to expire the nodes pops the list of the
  unfinished ones.)
\<close>

theorem dns_cache_never_expires:
  assumes "dns_inv [] [] (fst st)" and "dn_LocalTicker (fst st) \<le> now" and "DNS_CACHE_TIMEOUT_MS \<le> now"
    and "dn_CacheMap (fst st) h = Some N" and "cn_QueryFinished N" and "h \<notin> requested (fst st)"
  shows "dn_CacheMap (fst (dns_Tick now st)) h = Some N \<and>
    fst (ResolveDns asrc areq h F (dns_Tick now st)) \<and>
    dn_RequestPool (fst (snd (ResolveDns asrc areq h F (dns_Tick now st)))) =
      dn_RequestPool (fst (dns_Tick now st))"
proof -
  define st0 where "st0 = ((fst st)\<lparr>dn_LocalTicker := now\<rparr>, snd st)"
  define st1 where "st1 = DispatchResolveResults st0"
  note tick = dns_inv_tick(2) [OF assms(1-3), folded st0_def st1_def]
  have keep: "dn_CacheMap (fst (fold dispatch_request Q s)) h = dn_CacheMap (fst s) h"
    if "h \<notin> requested (fst s)" for Q and s :: "'a dns_state"
    using that
  proof (induction Q arbitrary: s)
    case (Cons i Q)
    have "request_host (fst s) i \<noteq> Some h"
      using Cons.prems by (auto simp: requested_by_host)
    moreover have "h \<notin> requested (fst (dispatch_request i s))"
      using Cons.prems by (auto simp: requested_iff dispatch_request_frame)
    ultimately show ?case
      by (simp add: Cons.IH dispatch_request_frame)
  qed simp
  have "h \<notin> requested ((fst st0)\<lparr>dn_RequestFinishedList := []\<rparr>)"
    using assms(6) by (simp add: st0_def requested_def)
  then have n1: "dn_CacheMap (fst st1) h = Some N"
    using keep [of "((fst st0)\<lparr>dn_RequestFinishedList := []\<rparr>, snd st0)" "dn_RequestFinishedList (fst st0)"] assms(4)
    by (simp add: st1_def DispatchResolveResults_def st0_def)
  have c: "cache_inv [] (fst st1)"
    using dns_inv_dispatched(1) [OF assms(1,2)] by (simp add: dns_inv_def st1_def st0_def)
  have "h \<notin> set (dn_CacheRequestTimeoutList (fst st1))"
    using cache_invD [OF c n1] c assms(5) by (auto simp: cache_inv_def Let_def node_inv_def)
  then have n: "dn_CacheMap (fst (dns_Tick now st)) h = Some N"
    unfolding tick by (subst ProcessRequestTimeout_frame(3)) (auto simp: n1 dest: set_takeWhileD)
  then show ?thesis
    using assms(5) by (auto simp: ResolveDns_def Let_def answer_from_cache_def upd_node_def split: option.split prod.split)
qed

definition cached_result :: dns_cache_result where
  "cached_result = \<lparr>dc_A4List = [no_address\<lparr>na_ip := IPV4 [1, 1, 1, 1]\<rparr>, no_address\<lparr>na_ip := IPV4 [2, 2, 2, 2]\<rparr>],
     dc_A6List = [], dc_LastA4ResultIndex = 0, dc_LastA6ResultIndex = 0\<rparr>"

definition cached_node :: dns_cache_node where
  "cached_node = \<lparr>cn_QueryFinished = True, cn_TimestampMS = 7, cn_Pending = [], cn_Result = Some cached_result\<rparr>"

definition cached_example :: "unit dns_state" where
  "cached_example = (fresh_dns_service
     \<lparr>dn_LocalTicker := 7, dn_CacheMap := [[104] \<mapsto> cached_node], dn_CacheTimeoutList := [[104]]\<rparr>,
     new_manager 0\<lparr>fm_pool := [1 \<mapsto> new_future (), 2 \<mapsto> new_future ()]\<rparr>)"

lemma dns_cache_never_expires_witness:
  "dn_CacheMap (fst (dns_Tick 900000000 cached_example)) [104] = Some cached_node"
proof -
  have "dns_inv [] [] (fst cached_example)"
    by (simp add: dns_inv_defs cached_example_def fresh_dns_service_def node_inv_def cached_node_def
        pending_of_def requested_def index_ok_def cached_result_def split: if_splits)
  moreover have "dn_LocalTicker (fst cached_example) \<le> 900000000" "DNS_CACHE_TIMEOUT_MS \<le> 900000000"
    "dn_CacheMap (fst cached_example) [104] = Some cached_node" "cn_QueryFinished cached_node"
    "[104] \<notin> requested (fst cached_example)"
    by (simp_all add: cached_example_def fresh_dns_service_def DNS_CACHE_TIMEOUT_MS_def cached_node_def
        requested_def)
  ultimately show ?thesis
    using dns_cache_never_expires by blast
qed

definition resolve_each ::
    "(uint64 set \<Rightarrow> uint64) \<Rightarrow> (uint64 set \<Rightarrow> uint64) \<Rightarrow> bytes \<Rightarrow> uint64 list \<Rightarrow> 'o dns_state \<Rightarrow> 'o dns_state" where
  "resolve_each asrc areq h Fs st = fold (\<lambda>F st. snd (ResolveDns asrc areq h F st)) Fs st"

definition given_A4 :: "'o dns_state \<Rightarrow> uint64 \<Rightarrow> xNetAddress option" where
  "given_A4 st F = (case fm_pool (snd st) F of
     None \<Rightarrow> None
   | Some G \<Rightarrow> if fu_ready G then map_option dr_A4 (fu_result G) else None)"

lemma resolve_cached:
  assumes "dn_CacheMap (fst st) h = Some N" and "cn_QueryFinished N" and "cn_Result N = Some C"
    and "index_ok C" and "dc_A4List C \<noteq> []" and "fm_pool (snd st) F = Some G"
  shows "let st' = snd (ResolveDns asrc areq h F st); C' = snd (PickDnsResult C) in
    dn_CacheMap (fst st') h = Some (N\<lparr>cn_Result := Some C'\<rparr>) \<and>
    given_A4 st' F = Some (dc_A4List C ! (Suc (dc_LastA4ResultIndex C) mod length (dc_A4List C))) \<and>
    (\<forall>E. E \<noteq> F \<longrightarrow> fm_pool (snd st') E = fm_pool (snd st) E)"
proof -
  have P: "PickDnsResult C = (fst (PickDnsResult C), snd (PickDnsResult C))"
    by simp
  from assms PickDnsResult_index(4) [OF P assms(4,5)] show ?thesis
    by (simp add: ResolveDns_def Let_def fst_answer_from_cache given_A4_def SetReady_def SetResult_def
        upd_future_def)
qed

lemma resolve_each_others:
  assumes "dn_CacheMap (fst st) h = Some N" and "cn_QueryFinished N" and "cn_Result N = Some C"
    and "E \<notin> set Fs"
  shows "fm_pool (snd (resolve_each asrc areq h Fs st)) E = fm_pool (snd st) E"
  using assms
proof (induction Fs arbitrary: st N C)
  case Nil
  then show ?case by (simp add: resolve_each_def)
next
  case (Cons F Fs)
  let ?st = "snd (ResolveDns asrc areq h F st)"
  have "dn_CacheMap (fst ?st) h = Some (N\<lparr>cn_Result := Some (snd (PickDnsResult C))\<rparr>)"
    and s: "snd ?st = SetReady F (SetResult F (fst (PickDnsResult C)) (snd st))"
    using Cons.prems by (simp_all add: ResolveDns_def fst_answer_from_cache)
  from Cons.IH [OF this(1)] Cons.prems
  have "fm_pool (snd (resolve_each asrc areq h Fs ?st)) E = fm_pool (snd ?st) E"
    by simp
  also have "\<dots> = fm_pool (snd st) E"
    using Cons.prems(4) by (simp add: s SetReady_def SetResult_def upd_future_def split: option.split)
  finally show ?case
    by (simp add: resolve_each_def)
qed

text \<open>
  A cached host is served round robin. The clients that resolve it one after the other get
  the IPv4 addresses of the cached list in turn, starting behind the last one given out, and each
  of them is ready at once.
\<close>

theorem dns_round_robin:
  assumes "dn_CacheMap (fst st) h = Some N" and "cn_QueryFinished N" and "cn_Result N = Some C"
    and "index_ok C" and "dc_A4List C \<noteq> []" and "distinct Fs" and "\<forall>F \<in> set Fs. fm_pool (snd st) F \<noteq> None"
    and "k < length Fs"
  shows "given_A4 (resolve_each asrc areq h Fs st) (Fs ! k) =
    Some (dc_A4List C ! ((dc_LastA4ResultIndex C + Suc k) mod length (dc_A4List C)))"
  using assms
proof (induction Fs arbitrary: st N C k)
  case (Cons F Fs)
  let ?st = "snd (ResolveDns asrc areq h F st)" and ?C = "snd (PickDnsResult C)"
  from Cons.prems(7) obtain G where "fm_pool (snd st) F = Some G"
    by auto
  from resolve_cached [OF Cons.prems(1-5) this]
  have m: "dn_CacheMap (fst ?st) h = Some (N\<lparr>cn_Result := Some ?C\<rparr>)"
    and g: "given_A4 ?st F = Some (dc_A4List C ! (Suc (dc_LastA4ResultIndex C) mod length (dc_A4List C)))"
    and o: "\<And>E. E \<noteq> F \<Longrightarrow> fm_pool (snd ?st) E = fm_pool (snd st) E"
    by (simp_all add: Let_def)
  have P: "PickDnsResult C = (fst (PickDnsResult C), ?C)"
    by simp
  note C' = PickDnsResult_index(1-3,5) [OF P Cons.prems(4)]
  have each: "resolve_each asrc areq h (F # Fs) st = resolve_each asrc areq h Fs ?st"
    by (simp add: resolve_each_def)
  have fin: "cn_QueryFinished (N\<lparr>cn_Result := Some ?C\<rparr>)" and res: "cn_Result (N\<lparr>cn_Result := Some ?C\<rparr>) = Some ?C"
    using Cons.prems(2) by simp_all
  show ?case
  proof (cases k)
    case 0
    have "given_A4 (resolve_each asrc areq h Fs ?st) F = given_A4 ?st F"
      using Cons.prems(6) by (simp add: given_A4_def resolve_each_others [OF m fin res])
    with g 0 show ?thesis
      by (simp add: each)
  next
    case (Suc j)
    have live: "\<forall>E \<in> set Fs. fm_pool (snd ?st) E \<noteq> None"
      using Cons.prems(6,7) o by (metis distinct.simps(2) list.set_intros(2))
    have "given_A4 (resolve_each asrc areq h Fs ?st) (Fs ! j) =
        Some (dc_A4List ?C ! ((dc_LastA4ResultIndex ?C + Suc j) mod length (dc_A4List ?C)))"
      using Cons.prems(5,6,8) C' Suc live by (intro Cons.IH [OF m fin res]) simp_all
    moreover have "(dc_LastA4ResultIndex ?C + Suc j) mod length (dc_A4List C)
        = (dc_LastA4ResultIndex C + Suc k) mod length (dc_A4List C)"
      using C'(4) [OF Cons.prems(5)] Suc
        mod_add_left_eq [of "Suc (dc_LastA4ResultIndex C)" "length (dc_A4List C)" "Suc j"] by simp
    ultimately show ?thesis
      using C'(2) Suc by (simp add: each)
  qed
qed simp

lemma dns_round_robin_witness:
  "given_A4 (resolve_each two_slot_alloc two_slot_alloc [104] [1, 2] cached_example) 2 =
    Some (no_address\<lparr>na_ip := IPV4 [1, 1, 1, 1]\<rparr>)"
  using dns_round_robin [of cached_example "[104]" cached_node cached_result "[1, 2]" 1]
  by (simp add: cached_example_def cached_node_def cached_result_def index_ok_def new_manager_def)

end
