(* ===== verification/Relay_Local.thy ===== *)
theory Relay_Local
  imports PP_Common Dns_Service "HOL-Library.AList"
begin

text \<open>
  \<open>lib_component/relay_local_device_service\<close>: devices that are local addresses, the outgoing
  connections and UDP channels bound to them, and host names resolved before connecting. The
  state holds what the service reaches: its pools and lists, the resolver (of any type \<open>'d\<close>,
  behind the function that \<open>ResolveDns\<close> is) with the futures made for it, and the futures of the
  proxy that it completes. A connection counts as connected from the callback \<open>OnConnected\<close> on.
  What it sends to the proxy service and to its peers is appended to \<open>rl_Out\<close>.
\<close>

section \<open>State\<close>

record relay_dns_request =
  rd_RelayServerId :: uint64
  rd_RelaySideDeviceId :: uint64
  rd_ProxySideConnectionId :: uint64
  rd_CreateConnectionFutureHandle :: xFutureHandle
  rd_TargetPort :: uint16

record xRelayLocalDevice =
  dv_DeviceId :: uint64
  dv_BindAddress :: xNetAddress
  dv_ExportAddress :: xNetAddress
  dv_EnableTcp :: bool
  dv_EnableUdp :: bool

record relay_connection =
  rc_TimestampMS :: uint64
  rc_ProxySideConnectionId :: uint64
  rc_CreateConnectionFutureHandle :: xFutureHandle
  rc_DeleteMark :: bool
  rc_IsConnected :: bool

record relay_udp_channel =
  rv_TimestampMS :: uint64
  rv_DeviceId :: uint64
  rv_ProxySideUdpChannelId :: uint64
  rv_DeleteMark :: bool

record binding_option =
  bo_BindAddress :: xNetAddress
  bo_ExportAddress :: xNetAddress
  bo_EnableTcp :: bool
  bo_EnableUdp :: bool

record xDeviceReference =
  dr_RelayServerId :: uint64
  dr_RelaySideDeviceId :: uint64

record xDeviceRequest =
  rq_Flag :: uint32
  rq_LastDeviceId :: uint64
  rq_ExportAddress :: xNetAddress
  rq_Strategy :: uint16

datatype relay_output =
    Proxy_PostData uint64 bytes
  | Proxy_PostUdp uint64 xNetAddress bytes
  | Proxy_CloseConnection uint64
  | Peer_Send uint64 bytes
  | Peer_SendUdp uint64 xNetAddress bytes

type_synonym 'o create_futures = "('o, uint64) future_manager"
type_synonym 'o device_futures = "('o, xDeviceReference) future_manager"
type_synonym relay_dns_futures = "relay_dns_request dns_futures"

record ('d, 'o) relay =
  rl_LocalTicker :: uint64
  rl_LocalRelayServerId :: uint64
  rl_DefaultBufferSize :: uint64
  rl_LocalDeviceList :: "xRelayLocalDevice list"
  rl_LocalDeviceExportAddressMap :: "(xNetAddress \<times> uint64) list"
  rl_LocalConnectionPool :: "uint64 \<Rightarrow> relay_connection option"
  rl_LocalUdpChannelPool :: "uint64 \<Rightarrow> relay_udp_channel option"
  rl_ConnectionEstablishTimeoutList :: "uint64 list"
  rl_ConnectionIdleTimeoutList :: "uint64 list"
  rl_ConnectionKillList :: "uint64 list"
  rl_UdpChannelIdleTimeoutList :: "uint64 list"
  rl_UdpChannelKillList :: "uint64 list"
  rl_ConnectionCount :: uint64
  rl_UdpChannelCount :: uint64
  rl_ProxyService :: bool
  rl_DnsService :: bool
  rl_Dns :: "'d"
  rl_DnsFutureManager :: relay_dns_futures
  rl_ConnectionFutures :: "'o create_futures"
  rl_UdpFutures :: "'o create_futures"
  rl_DeviceFutures :: "'o device_futures"
  rl_Out :: "relay_output list"

definition DEVICE_ID_HIGH32_MAGIC :: uint32 where "DEVICE_ID_HIGH32_MAGIC = 0xCDEF7788"
definition IDLE_CONNECTION_TIMEOUT_MS :: uint64 where "IDLE_CONNECTION_TIMEOUT_MS = 125000"
definition MAX_MANAGED_CONNECTION_SIZE :: nat where "MAX_MANAGED_CONNECTION_SIZE = 150000"
definition MAX_MANAGED_UDPCHANNEL_SIZE :: nat where "MAX_MANAGED_UDPCHANNEL_SIZE = 100000"
definition LOCAL_DEVICE_DEFAULT_BUFFER_SIZE :: uint64 where "LOCAL_DEVICE_DEFAULT_BUFFER_SIZE = 16000"
definition DSS_STATIC_EXPORT_ADDRESS :: uint16 where "DSS_STATIC_EXPORT_ADDRESS = push_bit 6 1"

section \<open>Devices\<close>

text \<open>An assertion of the service runtime that fails is fatal: \<open>None\<close>.\<close>

definition MakeLocalDeviceId :: "nat \<Rightarrow> uint64 option" where
  "MakeLocalDeviceId Index =
     (if Index < 2 ^ 32 - 1 then Some (Make64 DEVICE_ID_HIGH32_MAGIC (of_nat Index)) else None)"

definition ExtractIndexFromDeviceId :: "uint64 \<Rightarrow> nat" where
  "ExtractIndexFromDeviceId DeviceId = unat (DeviceId AND 0xFFFFFFFF)"

definition EstimateMaxConnectionPoolSize :: "nat \<Rightarrow> nat" where
  "EstimateMaxConnectionPoolSize LocalAddressSize = min (40000 * LocalAddressSize) MAX_MANAGED_CONNECTION_SIZE"

definition EstimateMaxUdpChannelPoolSize :: "nat \<Rightarrow> nat" where
  "EstimateMaxUdpChannelPoolSize LocalAddressSize = min (60000 * LocalAddressSize) MAX_MANAGED_UDPCHANNEL_SIZE"

text \<open>The loop over the options; the map must be new at every export address.\<close>

fun add_local_devices ::
    "nat \<Rightarrow> binding_option list \<Rightarrow> ('d, 'o) relay \<Rightarrow> ('d, 'o) relay option" where
  "add_local_devices IndexCount [] s = Some s"
| "add_local_devices IndexCount (Opt # OptionList) s =
     (case MakeLocalDeviceId IndexCount of
        None \<Rightarrow> None
      | Some DeviceId \<Rightarrow>
          let DInfo = \<lparr>dv_DeviceId = DeviceId, dv_BindAddress = bo_BindAddress Opt,
                       dv_ExportAddress = bo_ExportAddress Opt, dv_EnableTcp = bo_EnableTcp Opt,
                       dv_EnableUdp = bo_EnableUdp Opt\<rparr>
          in if map_of (rl_LocalDeviceExportAddressMap s) (dv_ExportAddress DInfo) \<notin> {None, Some 0} then None
             else add_local_devices (Suc IndexCount) OptionList
               (s\<lparr>rl_LocalDeviceExportAddressMap :=
                    AList.update (dv_ExportAddress DInfo) DeviceId (rl_LocalDeviceExportAddressMap s),
                  rl_LocalDeviceList := rl_LocalDeviceList s @ [DInfo]\<rparr>))"

definition CreateLocalDeviceList :: "binding_option list \<Rightarrow> ('d, 'o) relay \<Rightarrow> ('d, 'o) relay option" where
  "CreateLocalDeviceList OptionList s =
     (if rl_LocalDeviceList s \<noteq> [] then None
      else case add_local_devices 0 OptionList s of
        None \<Rightarrow> None
      | Some s \<Rightarrow>
          if length (rl_LocalDeviceList s) = length (rl_LocalDeviceExportAddressMap s) then Some s else None)"

definition DestroyLocalDeviceList :: "('d, 'o) relay \<Rightarrow> ('d, 'o) relay" where
  "DestroyLocalDeviceList s = s\<lparr>rl_LocalDeviceList := [], rl_LocalDeviceExportAddressMap := []\<rparr>"

definition GetDevice :: "('d, 'o) relay \<Rightarrow> uint64 \<Rightarrow> xRelayLocalDevice option" where
  "GetDevice s DeviceId =
     (let H32 = High32 DeviceId; L32 = Low32 DeviceId in
      if H32 \<noteq> DEVICE_ID_HIGH32_MAGIC then None
      else if unat L32 \<ge> length (rl_LocalDeviceList s) then None
      else Some (rl_LocalDeviceList s ! unat L32))"

definition FindDeviceByExportAddress :: "('d, 'o) relay \<Rightarrow> xNetAddress \<Rightarrow> xRelayLocalDevice option" where
  "FindDeviceByExportAddress s ExportAddress =
     (case map_of (rl_LocalDeviceExportAddressMap s) ExportAddress of
        None \<Rightarrow> None
      | Some DeviceId \<Rightarrow> Some (rl_LocalDeviceList s ! ExtractIndexFromDeviceId DeviceId))"

text \<open>
  \<open>Init\<close> with the outcomes of the three storages. The options come from the lines of a file;
  \<open>Trim\<close>, \<open>Split\<close> and the address parser are \<open>xel\<close>'s.
\<close>

definition relay_Init ::
    "bool \<Rightarrow> bool \<Rightarrow> bool \<Rightarrow> uint64 \<Rightarrow> binding_option list \<Rightarrow> ('d, 'o) relay \<Rightarrow> (bool \<times> ('d, 'o) relay) option" where
  "relay_Init connections_ok channels_ok dns_ok ServerId BindAddressPairList s =
     (if ServerId = 0 then None
      else case CreateLocalDeviceList BindAddressPairList s of
        None \<Rightarrow> None
      | Some s \<Rightarrow>
          if \<not> connections_ok then Some (False, DestroyLocalDeviceList s)
          else if \<not> channels_ok then Some (False, DestroyLocalDeviceList s)
          else if \<not> dns_ok then Some (False, DestroyLocalDeviceList s)
          else Some (True, s\<lparr>rl_LocalRelayServerId := ServerId,
                             rl_DefaultBufferSize := LOCAL_DEVICE_DEFAULT_BUFFER_SIZE\<rparr>))"

fun option_functions :: "(bytes \<Rightarrow> bytes) \<Rightarrow> bytes list \<Rightarrow> binding_option \<Rightarrow> binding_option option" where
  "option_functions Trim [] Opt = Some Opt"
| "option_functions Trim (F # FN) Opt =
     (let F = takeWhile (\<lambda>c. c \<noteq> 0) (Trim F) in
      if F = str ''tcp'' \<and> bo_EnableTcp Opt then None
      else
        let Opt = (if F = str ''tcp'' then Opt\<lparr>bo_EnableTcp := True\<rparr> else Opt) in
        if F = str ''udp'' \<and> bo_EnableUdp Opt then None
        else
          let Opt = (if F = str ''udp'' then Opt\<lparr>bo_EnableUdp := True\<rparr> else Opt) in
          if \<not> (bo_EnableTcp Opt \<or> bo_EnableUdp Opt) then None
          else option_functions Trim FN Opt)"

text \<open>One line: \<open>None\<close> is fatal, \<open>Some None\<close> an invalid line, on which \<open>Init\<close> gives up.\<close>

definition parse_option ::
    "xel_text \<Rightarrow> (bytes \<Rightarrow> bytes) \<Rightarrow> bytes \<Rightarrow> binding_option option option" where
  "parse_option X Trim L =
     (let Segs = Split X L (str ''|'') in
      if length Segs \<noteq> 2 then Some None
      else
        let AM = Split X (Segs ! 0) (str ''->''); FN = Split X (Segs ! 1) (str '','') in
        if length AM \<noteq> 2 then None
        else
          let B = AddrParse X (Trim (AM ! 0)); E = AddrParse X (Trim (AM ! 1)) in
          if \<not> (addr_ok B \<and> addr_ok E) then None
          else map_option Some (option_functions Trim FN
                 \<lparr>bo_BindAddress = B, bo_ExportAddress = E, bo_EnableTcp = False, bo_EnableUdp = False\<rparr>))"

fun parse_options ::
    "xel_text \<Rightarrow> (bytes \<Rightarrow> bytes) \<Rightarrow> bytes list \<Rightarrow> binding_option list option option" where
  "parse_options X Trim [] = Some (Some [])"
| "parse_options X Trim (L # Lines) =
     (let L = Trim L in
      if L = [] then parse_options X Trim Lines
      else case parse_option X Trim L of
        None \<Rightarrow> None
      | Some None \<Rightarrow> Some None
      | Some (Some Opt) \<Rightarrow>
          (case parse_options X Trim Lines of
             None \<Rightarrow> None
           | Some None \<Rightarrow> Some None
           | Some (Some Opts) \<Rightarrow> Some (Some (Opt # Opts))))"

definition relay_Init_file ::
    "xel_text \<Rightarrow> (bytes \<Rightarrow> bytes) \<Rightarrow> bool \<Rightarrow> bool \<Rightarrow> bool \<Rightarrow> uint64 \<Rightarrow> bytes list \<Rightarrow> ('d, 'o) relay \<Rightarrow>
     (bool \<times> ('d, 'o) relay) option" where
  "relay_Init_file X Trim connections_ok channels_ok dns_ok ServerId Lines s =
     (case parse_options X Trim Lines of
        None \<Rightarrow> None
      | Some None \<Rightarrow> Some (False, s)
      | Some (Some Opts) \<Rightarrow> relay_Init connections_ok channels_ok dns_ok ServerId Opts s)"

definition AcquireDevice :: "xDeviceRequest \<Rightarrow> uint64 \<Rightarrow> ('d, 'o) relay \<Rightarrow> ('d, 'o) relay" where
  "AcquireDevice Request FutureId s =
     (let s = s\<lparr>rl_DeviceFutures := SetReady FutureId (rl_DeviceFutures s)\<rparr> in
      if rq_Strategy Request AND DSS_STATIC_EXPORT_ADDRESS = 0 then s
      else case map_of (rl_LocalDeviceExportAddressMap s) (rq_ExportAddress Request) of
        None \<Rightarrow> s
      | Some DeviceId \<Rightarrow>
          s\<lparr>rl_DeviceFutures := SetResult FutureId
              \<lparr>dr_RelayServerId = 0, dr_RelaySideDeviceId = DeviceId\<rparr> (rl_DeviceFutures s)\<rparr>)"

section \<open>Connections\<close>

definition ready_connection_future :: "uint64 \<Rightarrow> ('d, 'o) relay \<Rightarrow> ('d, 'o) relay" where
  "ready_connection_future FutureId s =
     s\<lparr>rl_ConnectionFutures := SetReady FutureId (rl_ConnectionFutures s)\<rparr>"

definition upd_connection ::
    "uint64 \<Rightarrow> (relay_connection \<Rightarrow> relay_connection) \<Rightarrow> ('d, 'o) relay \<Rightarrow> ('d, 'o) relay" where
  "upd_connection i f s =
     s\<lparr>rl_LocalConnectionPool := (rl_LocalConnectionPool s)(i := map_option f (rl_LocalConnectionPool s i))\<rparr>"

text \<open>\<open>GrabTail\<close> takes the node from whatever list it is linked in.\<close>

definition link_idle :: "uint64 \<Rightarrow> ('d, 'o) relay \<Rightarrow> ('d, 'o) relay" where
  "link_idle i s =
     s\<lparr>rl_ConnectionIdleTimeoutList := grab_tail (rl_ConnectionIdleTimeoutList s) i,
       rl_ConnectionEstablishTimeoutList := removeAll i (rl_ConnectionEstablishTimeoutList s),
       rl_ConnectionKillList := removeAll i (rl_ConnectionKillList s)\<rparr>"

definition link_kill :: "uint64 \<Rightarrow> ('d, 'o) relay \<Rightarrow> ('d, 'o) relay" where
  "link_kill i s =
     s\<lparr>rl_ConnectionIdleTimeoutList := removeAll i (rl_ConnectionIdleTimeoutList s),
       rl_ConnectionEstablishTimeoutList := removeAll i (rl_ConnectionEstablishTimeoutList s),
       rl_ConnectionKillList := grab_tail (rl_ConnectionKillList s) i\<rparr>"

definition KeepAlive_connection :: "uint64 \<Rightarrow> ('d, 'o) relay \<Rightarrow> bool \<times> ('d, 'o) relay" where
  "KeepAlive_connection i s =
     (case rl_LocalConnectionPool s i of
        None \<Rightarrow> (False, s)
      | Some C \<Rightarrow>
          if rc_DeleteMark C then (False, s)
          else (True, link_idle i (upd_connection i (\<lambda>C. C\<lparr>rc_TimestampMS := rl_LocalTicker s\<rparr>) s)))"

definition DeferDestroyConnection :: "uint64 \<Rightarrow> ('d, 'o) relay \<Rightarrow> ('d, 'o) relay" where
  "DeferDestroyConnection i s =
     (case rl_LocalConnectionPool s i of
        None \<Rightarrow> s
      | Some C \<Rightarrow>
          if rc_DeleteMark C then s
          else
            let s = upd_connection i (\<lambda>C. C\<lparr>rc_DeleteMark := True, rc_CreateConnectionFutureHandle := None\<rparr>) s;
                s = (case handle_Get (rl_ConnectionFutures s) (rc_CreateConnectionFutureHandle C) of
                       None \<Rightarrow> s
                     | Some _ \<Rightarrow> ready_connection_future (the (rc_CreateConnectionFutureHandle C)) s)
            in link_kill i s)"

text \<open>\<open>init_ok\<close> is the outcome of opening the socket and starting to connect.\<close>

definition CreateConnection_bound ::
    "(uint64 set \<Rightarrow> uint64) \<Rightarrow> bool \<Rightarrow> uint64 \<Rightarrow> uint64 \<Rightarrow> ('d, 'o) relay \<Rightarrow> ('d, 'o) relay" where
  "CreateConnection_bound alloc init_ok ProxySideConnectionId FutureId s =
     (let ConnectionId = alloc (dom (rl_LocalConnectionPool s)) in
      if ConnectionId = 0 then ready_connection_future FutureId s
      else if \<not> init_ok then ready_connection_future FutureId s
      else s\<lparr>rl_LocalConnectionPool := (rl_LocalConnectionPool s)(ConnectionId \<mapsto>
               \<lparr>rc_TimestampMS = 0, rc_ProxySideConnectionId = ProxySideConnectionId,
                rc_CreateConnectionFutureHandle = Some FutureId, rc_DeleteMark = False,
                rc_IsConnected = False\<rparr>),
             rl_ConnectionCount := rl_ConnectionCount s + 1\<rparr>)"

text \<open>\<open>connect\<close> tells, for the bind and the target address, whether the connection can be started.\<close>

definition CreateConnection_address ::
    "(uint64 set \<Rightarrow> uint64) \<Rightarrow> (xNetAddress \<Rightarrow> xNetAddress \<Rightarrow> bool) \<Rightarrow> uint64 \<Rightarrow> uint64 \<Rightarrow> uint64 \<Rightarrow>
     xNetAddress \<Rightarrow> uint64 \<Rightarrow> ('d, 'o) relay \<Rightarrow> ('d, 'o) relay" where
  "CreateConnection_address alloc connect RelayServerId DeviceId ProxySideConnectionId TargetAddress FutureId s =
     (case GetDevice s DeviceId of
        None \<Rightarrow> ready_connection_future FutureId s
      | Some Device \<Rightarrow>
          CreateConnection_bound alloc (connect (dv_BindAddress Device) TargetAddress)
            ProxySideConnectionId FutureId s)"

text \<open>
  With a host name: a future of the resolver is acquired and the resolver asked; the handle of
  the creation's future is stored in the resolver's future.
\<close>

type_synonym 'd resolver = "bytes \<Rightarrow> uint64 \<Rightarrow> 'd \<times> relay_dns_futures \<Rightarrow> bool \<times> ('d \<times> relay_dns_futures)"

definition CreateConnection_host ::
    "(uint64 set \<Rightarrow> uint64) \<Rightarrow> 'd resolver \<Rightarrow> uint64 \<Rightarrow> uint64 \<Rightarrow> uint64 \<Rightarrow> bytes \<Rightarrow> uint16 \<Rightarrow> uint64 \<Rightarrow>
     ('d, 'o) relay \<Rightarrow> ('d, 'o) relay" where
  "CreateConnection_host alloc resolve RelayServerId DeviceId ProxySideConnectionId TargetHostname
      TargetPort FutureId s =
     (let (DnsFuture, fm) = AcquireFuture alloc
        \<lparr>rd_RelayServerId = RelayServerId, rd_RelaySideDeviceId = DeviceId,
         rd_ProxySideConnectionId = ProxySideConnectionId, rd_CreateConnectionFutureHandle = None,
         rd_TargetPort = TargetPort\<rparr> (rl_DnsFutureManager s)
      in if DnsFuture = 0 then ready_connection_future FutureId s
         else
           let (accepted, d, fm) = resolve TargetHostname DnsFuture (rl_Dns s, fm) in
           if \<not> accepted
           then ready_connection_future FutureId
                  (s\<lparr>rl_Dns := d, rl_DnsFutureManager := ReleaseFuture DnsFuture fm\<rparr>)
           else s\<lparr>rl_Dns := d, rl_DnsFutureManager := upd_future DnsFuture
                    (\<lambda>F. F\<lparr>fu_owner := (fu_owner F)\<lparr>rd_CreateConnectionFutureHandle := Some FutureId\<rparr>\<rparr>) fm\<rparr>)"

definition CreateConnectionWithDnsResult ::
    "(uint64 set \<Rightarrow> uint64) \<Rightarrow> (xNetAddress \<Rightarrow> xNetAddress \<Rightarrow> bool) \<Rightarrow>
     (relay_dns_request, xDnsResult) future \<Rightarrow> ('d, 'o) relay \<Rightarrow> ('d, 'o) relay" where
  "CreateConnectionWithDnsResult alloc connect DnsFuture s =
     (let R = fu_owner DnsFuture in
      case handle_Get (rl_ConnectionFutures s) (rd_CreateConnectionFutureHandle R) of
        None \<Rightarrow> s
      | Some _ \<Rightarrow>
          let FutureId = the (rd_CreateConnectionFutureHandle R) in
          (case fu_result DnsFuture of
             None \<Rightarrow> ready_connection_future FutureId s
           | Some Result \<Rightarrow>
               (case GetDevice s (rd_RelaySideDeviceId R) of
                  None \<Rightarrow> ready_connection_future FutureId s
                | Some Device \<Rightarrow>
                    let TargetAddress = (if Is4 (dv_BindAddress Device) then dr_A4 Result else dr_A6 Result) in
                    if \<not> addr_ok TargetAddress then ready_connection_future FutureId s
                    else CreateConnection_address alloc connect (rd_RelayServerId R) (rd_RelaySideDeviceId R)
                           (rd_ProxySideConnectionId R) (TargetAddress\<lparr>na_port := rd_TargetPort R\<rparr>)
                           FutureId s)))"

text \<open>The loop over the ready futures; each of them is handled and released.\<close>

definition process_dns_result ::
    "(uint64 set \<Rightarrow> uint64) \<Rightarrow> (xNetAddress \<Rightarrow> xNetAddress \<Rightarrow> bool) \<Rightarrow> uint64 \<Rightarrow> ('d, 'o) relay \<Rightarrow> ('d, 'o) relay" where
  "process_dns_result alloc connect i s =
     (case fm_pool (rl_DnsFutureManager s) i of
        None \<Rightarrow> s
      | Some DnsFuture \<Rightarrow>
          let s = (case handle_Get (rl_ConnectionFutures s)
                          (rd_CreateConnectionFutureHandle (fu_owner DnsFuture)) of
                     None \<Rightarrow> s
                   | Some _ \<Rightarrow> CreateConnectionWithDnsResult alloc connect DnsFuture s)
          in s\<lparr>rl_DnsFutureManager := ReleaseFuture i (rl_DnsFutureManager s)\<rparr>)"

abbreviation dns_ready_list :: "('d, 'o) relay \<Rightarrow> uint64 list" where
  "dns_ready_list s \<equiv> fm_ready (rl_DnsFutureManager s)"

abbreviation set_dns_ready_list :: "uint64 list \<Rightarrow> ('d, 'o) relay \<Rightarrow> ('d, 'o) relay" where
  "set_dns_ready_list q s \<equiv> s\<lparr>rl_DnsFutureManager := (rl_DnsFutureManager s)\<lparr>fm_ready := q\<rparr>\<rparr>"

definition ProcessDnsResults ::
    "(uint64 set \<Rightarrow> uint64) \<Rightarrow> (xNetAddress \<Rightarrow> xNetAddress \<Rightarrow> bool) \<Rightarrow> ('d, 'o) relay \<Rightarrow> ('d, 'o) relay" where
  "ProcessDnsResults alloc connect s =
     drain dns_ready_list set_dns_ready_list (\<lambda>_ _. True) (process_dns_result alloc connect) s"

definition DestroyConnection :: "uint64 \<Rightarrow> uint64 \<Rightarrow> ('d, 'o) relay \<Rightarrow> ('d, 'o) relay" where
  "DestroyConnection RelayServerId ConnectionId s =
     (case rl_LocalConnectionPool s ConnectionId of
        None \<Rightarrow> s
      | Some _ \<Rightarrow> DeferDestroyConnection ConnectionId
                   (upd_connection ConnectionId (\<lambda>C. C\<lparr>rc_CreateConnectionFutureHandle := None\<rparr>) s))"

section \<open>UDP channels\<close>

definition upd_udp_channel ::
    "uint64 \<Rightarrow> (relay_udp_channel \<Rightarrow> relay_udp_channel) \<Rightarrow> ('d, 'o) relay \<Rightarrow> ('d, 'o) relay" where
  "upd_udp_channel i f s =
     s\<lparr>rl_LocalUdpChannelPool := (rl_LocalUdpChannelPool s)(i := map_option f (rl_LocalUdpChannelPool s i))\<rparr>"

text \<open>The channel's \<open>DeviceId\<close> keeps its initial value, and the channel is linked in no list.\<close>

definition CreateUdpChannel ::
    "(uint64 set \<Rightarrow> uint64) \<Rightarrow> (xNetAddress \<Rightarrow> bool) \<Rightarrow> uint64 \<Rightarrow> uint64 \<Rightarrow> uint64 \<Rightarrow> uint64 \<Rightarrow>
     ('d, 'o) relay \<Rightarrow> ('d, 'o) relay" where
  "CreateUdpChannel alloc bind RelayServerId DeviceId ProxySideUdpChannelId FutureId s =
     (let s = s\<lparr>rl_UdpFutures := SetReady FutureId (rl_UdpFutures s)\<rparr> in
      case GetDevice s DeviceId of
        None \<Rightarrow> s
      | Some Device \<Rightarrow>
          let UdpChannelId = alloc (dom (rl_LocalUdpChannelPool s)) in
          if UdpChannelId = 0 then s
          else if \<not> bind (dv_BindAddress Device) then s
          else s\<lparr>rl_LocalUdpChannelPool := (rl_LocalUdpChannelPool s)(UdpChannelId \<mapsto>
                   \<lparr>rv_TimestampMS = 0, rv_DeviceId = 0, rv_ProxySideUdpChannelId = ProxySideUdpChannelId,
                    rv_DeleteMark = False\<rparr>),
                 rl_UdpFutures := SetResult FutureId UdpChannelId (rl_UdpFutures s),
                 rl_UdpChannelCount := rl_UdpChannelCount s + 1\<rparr>)"

definition KeepAlive_udp :: "uint64 \<Rightarrow> ('d, 'o) relay \<Rightarrow> bool \<times> ('d, 'o) relay" where
  "KeepAlive_udp i s =
     (case rl_LocalUdpChannelPool s i of
        None \<Rightarrow> (False, s)
      | Some C \<Rightarrow>
          if rv_DeleteMark C then (False, s)
          else
            let s = upd_udp_channel i (\<lambda>C. C\<lparr>rv_TimestampMS := rl_LocalTicker s\<rparr>) s
            in (True, s\<lparr>rl_UdpChannelIdleTimeoutList := grab_tail (rl_UdpChannelIdleTimeoutList s) i,
                        rl_UdpChannelKillList := removeAll i (rl_UdpChannelKillList s)\<rparr>))"

definition KeepUdpChannelAlive :: "uint64 \<Rightarrow> uint64 \<Rightarrow> ('d, 'o) relay \<Rightarrow> ('d, 'o) relay" where
  "KeepUdpChannelAlive RelayServerId UdpChannelId s =
     (case rl_LocalUdpChannelPool s UdpChannelId of
        None \<Rightarrow> s
      | Some _ \<Rightarrow> snd (KeepAlive_udp UdpChannelId s))"

definition DeferDestroyUdpChannel :: "uint64 \<Rightarrow> ('d, 'o) relay \<Rightarrow> ('d, 'o) relay" where
  "DeferDestroyUdpChannel i s =
     (let s = upd_udp_channel i (\<lambda>C. C\<lparr>rv_DeleteMark := True\<rparr>) s
      in s\<lparr>rl_UdpChannelIdleTimeoutList := removeAll i (rl_UdpChannelIdleTimeoutList s),
           rl_UdpChannelKillList := grab_tail (rl_UdpChannelKillList s) i\<rparr>)"

definition DestroyUdpChannel :: "uint64 \<Rightarrow> uint64 \<Rightarrow> ('d, 'o) relay \<Rightarrow> ('d, 'o) relay" where
  "DestroyUdpChannel RelayServerId UdpChannelId s =
     (case rl_LocalUdpChannelPool s UdpChannelId of
        None \<Rightarrow> s
      | Some _ \<Rightarrow> DeferDestroyUdpChannel UdpChannelId s)"

section \<open>The periodic work\<close>

abbreviation set_idle_connections :: "uint64 list \<Rightarrow> ('d, 'o) relay \<Rightarrow> ('d, 'o) relay" where
  "set_idle_connections q s \<equiv> s\<lparr>rl_ConnectionIdleTimeoutList := q\<rparr>"

definition idle_connection :: "uint64 \<Rightarrow> ('d, 'o) relay \<Rightarrow> uint64 \<Rightarrow> bool" where
  "idle_connection KillTimepoint s i \<longleftrightarrow>
     (case rl_LocalConnectionPool s i of Some C \<Rightarrow> rc_TimestampMS C \<le> KillTimepoint | None \<Rightarrow> False)"

definition DeferDestroyIdleConnections :: "('d, 'o) relay \<Rightarrow> ('d, 'o) relay" where
  "DeferDestroyIdleConnections s =
     drain rl_ConnectionIdleTimeoutList set_idle_connections
       (idle_connection (rl_LocalTicker s - IDLE_CONNECTION_TIMEOUT_MS)) DeferDestroyConnection s"

abbreviation set_idle_channels :: "uint64 list \<Rightarrow> ('d, 'o) relay \<Rightarrow> ('d, 'o) relay" where
  "set_idle_channels q s \<equiv> s\<lparr>rl_UdpChannelIdleTimeoutList := q\<rparr>"

definition idle_channel :: "uint64 \<Rightarrow> ('d, 'o) relay \<Rightarrow> uint64 \<Rightarrow> bool" where
  "idle_channel KillTimepoint s i \<longleftrightarrow>
     (case rl_LocalUdpChannelPool s i of Some C \<Rightarrow> rv_TimestampMS C \<le> KillTimepoint | None \<Rightarrow> False)"

definition DeferDestroyIdleUdpChannels :: "('d, 'o) relay \<Rightarrow> ('d, 'o) relay" where
  "DeferDestroyIdleUdpChannels s =
     drain rl_UdpChannelIdleTimeoutList set_idle_channels
       (idle_channel (rl_LocalTicker s - IDLE_CONNECTION_TIMEOUT_MS)) DeferDestroyUdpChannel s"

abbreviation set_dying_connections :: "uint64 list \<Rightarrow> ('d, 'o) relay \<Rightarrow> ('d, 'o) relay" where
  "set_dying_connections q s \<equiv> s\<lparr>rl_ConnectionKillList := q\<rparr>"

definition clean_connection :: "uint64 \<Rightarrow> ('d, 'o) relay \<Rightarrow> ('d, 'o) relay" where
  "clean_connection i s =
     s\<lparr>rl_LocalConnectionPool := (rl_LocalConnectionPool s)(i := None),
       rl_ConnectionCount := rl_ConnectionCount s - 1\<rparr>"

definition CleanDyingConnections :: "('d, 'o) relay \<Rightarrow> ('d, 'o) relay" where
  "CleanDyingConnections s =
     drain rl_ConnectionKillList set_dying_connections (\<lambda>_ _. True) clean_connection s"

abbreviation set_dying_channels :: "uint64 list \<Rightarrow> ('d, 'o) relay \<Rightarrow> ('d, 'o) relay" where
  "set_dying_channels q s \<equiv> s\<lparr>rl_UdpChannelKillList := q\<rparr>"

definition clean_channel :: "uint64 \<Rightarrow> ('d, 'o) relay \<Rightarrow> ('d, 'o) relay" where
  "clean_channel i s =
     s\<lparr>rl_LocalUdpChannelPool := (rl_LocalUdpChannelPool s)(i := None),
       rl_UdpChannelCount := rl_UdpChannelCount s - 1\<rparr>"

definition CleanDyingUdpChannels :: "('d, 'o) relay \<Rightarrow> ('d, 'o) relay" where
  "CleanDyingUdpChannels s =
     drain rl_UdpChannelKillList set_dying_channels (\<lambda>_ _. True) clean_channel s"

definition CleanAllConnections :: "('d, 'o) relay \<Rightarrow> ('d, 'o) relay" where
  "CleanAllConnections s = CleanDyingConnections
     (s\<lparr>rl_ConnectionKillList := rl_ConnectionKillList s @ rl_ConnectionEstablishTimeoutList s @
                                rl_ConnectionIdleTimeoutList s,
        rl_ConnectionEstablishTimeoutList := [], rl_ConnectionIdleTimeoutList := []\<rparr>)"

definition CleanAllUdpChannels :: "('d, 'o) relay \<Rightarrow> ('d, 'o) relay" where
  "CleanAllUdpChannels s = CleanDyingUdpChannels
     (s\<lparr>rl_UdpChannelKillList := rl_UdpChannelKillList s @ rl_UdpChannelIdleTimeoutList s,
        rl_UdpChannelIdleTimeoutList := []\<rparr>)"

definition relay_Clean :: "('d, 'o) relay \<Rightarrow> ('d, 'o) relay" where
  "relay_Clean s =
     (let s = s\<lparr>rl_DnsFutureManager := (rl_DnsFutureManager s)\<lparr>fm_pool := Map.empty, fm_ready := []\<rparr>,
                rl_DnsService := False\<rparr>;
          s = CleanAllUdpChannels (CleanAllConnections s);
          s = s\<lparr>rl_LocalUdpChannelPool := Map.empty, rl_UdpChannelKillList := [],
                rl_UdpChannelIdleTimeoutList := [], rl_LocalConnectionPool := Map.empty,
                rl_ConnectionKillList := [], rl_ConnectionIdleTimeoutList := [],
                rl_ConnectionEstablishTimeoutList := []\<rparr>
      in (DestroyLocalDeviceList s)\<lparr>rl_DefaultBufferSize := 0, rl_ConnectionCount := 0, rl_UdpChannelCount := 0\<rparr>)"

definition relay_SetDeviceBufferSize :: "uint64 \<Rightarrow> ('d, 'o) relay \<Rightarrow> ('d, 'o) relay" where
  "relay_SetDeviceBufferSize Size s = s\<lparr>rl_DefaultBufferSize := Size\<rparr>"

text \<open>
  The pointers to the two services, of which the flags say whether they are set: binding over one
  that is set is fatal. The calls themselves are the outputs and the resolver of the operations.
\<close>

definition BindProxyService :: "bool \<Rightarrow> ('d, 'o) relay \<Rightarrow> ('d, 'o) relay option" where
  "BindProxyService ProxyService s =
     (if rl_ProxyService s then None else Some (s\<lparr>rl_ProxyService := ProxyService\<rparr>))"

definition BindDnsService :: "bool \<Rightarrow> ('d, 'o) relay \<Rightarrow> ('d, 'o) relay option" where
  "BindDnsService DnsService s =
     (if rl_DnsService s then None else Some (s\<lparr>rl_DnsService := DnsService\<rparr>))"

definition relay_Tick ::
    "(uint64 set \<Rightarrow> uint64) \<Rightarrow> (xNetAddress \<Rightarrow> xNetAddress \<Rightarrow> bool) \<Rightarrow> uint64 \<Rightarrow> ('d, 'o) relay \<Rightarrow> ('d, 'o) relay" where
  "relay_Tick alloc connect NowMS s =
     CleanDyingUdpChannels (CleanDyingConnections (DeferDestroyIdleUdpChannels
       (DeferDestroyIdleConnections (ProcessDnsResults alloc connect (s\<lparr>rl_LocalTicker := NowMS\<rparr>)))))"

section \<open>Callbacks and data\<close>

definition relay_OnConnected :: "uint64 \<Rightarrow> ('d, 'o) relay \<Rightarrow> ('d, 'o) relay" where
  "relay_OnConnected i s =
     (case rl_LocalConnectionPool s i of
        None \<Rightarrow> s
      | Some C \<Rightarrow>
          let h = rc_CreateConnectionFutureHandle C;
              s = upd_connection i (\<lambda>C. C\<lparr>rc_IsConnected := True\<rparr>) s
          in if \<not> handle_ok h then s
             else
               let s = upd_connection i (\<lambda>C. C\<lparr>rc_CreateConnectionFutureHandle := None\<rparr>) s in
               (case handle_Get (rl_ConnectionFutures s) h of
                  None \<Rightarrow> s
                | Some _ \<Rightarrow>
                    snd (KeepAlive_connection i
                      (s\<lparr>rl_ConnectionFutures :=
                           SetReady (the h) (SetResult (the h) i (rl_ConnectionFutures s))\<rparr>))))"

definition relay_OnPeerClose :: "uint64 \<Rightarrow> ('d, 'o) relay \<Rightarrow> ('d, 'o) relay" where
  "relay_OnPeerClose i s =
     (case rl_LocalConnectionPool s i of
        None \<Rightarrow> s
      | Some C \<Rightarrow> DeferDestroyConnection i
          (s\<lparr>rl_Out := rl_Out s @ [Proxy_CloseConnection (rc_ProxySideConnectionId C)]\<rparr>))"

definition relay_OnData :: "uint64 \<Rightarrow> bytes \<Rightarrow> ('d, 'o) relay \<Rightarrow> nat \<times> ('d, 'o) relay" where
  "relay_OnData i Data s =
     (let (alive, s) = KeepAlive_connection i s in
      if \<not> alive then (0, s)
      else case rl_LocalConnectionPool s i of
        None \<Rightarrow> (0, s)
      | Some C \<Rightarrow>
          (length Data, s\<lparr>rl_Out := rl_Out s @ [Proxy_PostData (rc_ProxySideConnectionId C) Data]\<rparr>))"

definition relay_OnUdpData :: "uint64 \<Rightarrow> bytes \<Rightarrow> xNetAddress \<Rightarrow> ('d, 'o) relay \<Rightarrow> ('d, 'o) relay" where
  "relay_OnUdpData i Data RemoteAddress s =
     (case rl_LocalUdpChannelPool s i of
        None \<Rightarrow> s
      | Some C \<Rightarrow> s\<lparr>rl_Out := rl_Out s @ [Proxy_PostUdp (rv_ProxySideUdpChannelId C) RemoteAddress Data]\<rparr>)"

definition relay_PostData :: "uint64 \<Rightarrow> uint64 \<Rightarrow> bytes \<Rightarrow> ('d, 'o) relay \<Rightarrow> ('d, 'o) relay" where
  "relay_PostData RelayServerId ConnectionId Payload s =
     (case rl_LocalConnectionPool s ConnectionId of
        None \<Rightarrow> s
      | Some C \<Rightarrow>
          if rc_DeleteMark C \<or> \<not> rc_IsConnected C then s
          else s\<lparr>rl_Out := rl_Out s @ [Peer_Send ConnectionId Payload]\<rparr>)"

definition relay_PostUdpData :: "uint64 \<Rightarrow> uint64 \<Rightarrow> xNetAddress \<Rightarrow> bytes \<Rightarrow> ('d, 'o) relay \<Rightarrow> ('d, 'o) relay" where
  "relay_PostUdpData RelayServerId UdpChannelId TargetAddress Payload s =
     (case rl_LocalUdpChannelPool s UdpChannelId of
        None \<Rightarrow> s
      | Some C \<Rightarrow>
          if rv_DeleteMark C then s
          else s\<lparr>rl_Out := rl_Out s @ [Peer_SendUdp UdpChannelId TargetAddress Payload]\<rparr>)"

section \<open>The connections' invariant\<close>

text \<open>
  Linked connections are live and linked once, the marked ones are those on the kill list (or
  just taken off it: \<open>L\<close>), a marked one waits for nothing, idle connections are queued by their
  time stamps, and the audit counts the live ones. A connection may be in no list.
\<close>

definition connection_stamp :: "('d, 'o) relay \<Rightarrow> uint64 \<Rightarrow> uint64" where
  "connection_stamp s i =
     (case rl_LocalConnectionPool s i of Some C \<Rightarrow> rc_TimestampMS C | None \<Rightarrow> 0)"

definition conn_inv :: "uint64 list \<Rightarrow> ('d, 'o) relay \<Rightarrow> bool" where
  "conn_inv L s \<longleftrightarrow>
     (let I = rl_ConnectionIdleTimeoutList s; K = L @ rl_ConnectionKillList s in
      rl_ConnectionEstablishTimeoutList s = [] \<and>
      distinct I \<and> distinct K \<and> set I \<inter> set K = {} \<and>
      set I \<union> set K \<subseteq> dom (rl_LocalConnectionPool s) \<and>
      sorted (map (connection_stamp s) I) \<and>
      (\<forall>i C. rl_LocalConnectionPool s i = Some C \<longrightarrow>
         (rc_DeleteMark C \<longleftrightarrow> i \<in> set K) \<and> (rc_DeleteMark C \<longrightarrow> rc_CreateConnectionFutureHandle C = None) \<and>
         rc_TimestampMS C \<le> rl_LocalTicker s) \<and>
      rl_LocalConnectionPool s 0 = None \<and>
      rl_ConnectionCount s = count_live (rl_LocalConnectionPool s))"

lemma conn_inv_cong:
  assumes "rl_LocalConnectionPool s' = rl_LocalConnectionPool s"
    and "rl_ConnectionIdleTimeoutList s' = rl_ConnectionIdleTimeoutList s"
    and "rl_ConnectionKillList s' = rl_ConnectionKillList s"
    and "rl_ConnectionEstablishTimeoutList s' = rl_ConnectionEstablishTimeoutList s"
    and "rl_LocalTicker s' = rl_LocalTicker s" and "rl_ConnectionCount s' = rl_ConnectionCount s"
  shows "conn_inv L s' = conn_inv L s"
proof -
  have "connection_stamp s' = connection_stamp s"
    by (simp add: connection_stamp_def assms fun_eq_iff)
  then show ?thesis
    by (simp add: conn_inv_def assms)
qed

lemma conn_inv_update:
  assumes inv: "conn_inv L s" and C: "rl_LocalConnectionPool s i = Some C"
    and C': "rc_DeleteMark C' = rc_DeleteMark C" "rc_TimestampMS C' = rc_TimestampMS C"
      "rc_CreateConnectionFutureHandle C' \<in> {None, rc_CreateConnectionFutureHandle C}"
  shows "conn_inv L (s\<lparr>rl_LocalConnectionPool := (rl_LocalConnectionPool s)(i \<mapsto> C')\<rparr>)"
proof -
  let ?s' = "s\<lparr>rl_LocalConnectionPool := (rl_LocalConnectionPool s)(i \<mapsto> C')\<rparr>"
  have eq: "connection_stamp ?s' = connection_stamp s"
    using C C' by (simp add: connection_stamp_def fun_eq_iff)
  show ?thesis
    using inv C C' unfolding conn_inv_def Let_def eq by (auto simp: pool_simps)
qed

lemma conn_inv_new:
  assumes inv: "conn_inv L s" and i: "rl_LocalConnectionPool s i = None" "i \<noteq> 0"
    and C: "\<not> rc_DeleteMark C" "rc_TimestampMS C = 0"
  shows "conn_inv L (s\<lparr>rl_LocalConnectionPool := (rl_LocalConnectionPool s)(i \<mapsto> C),
                      rl_ConnectionCount := rl_ConnectionCount s + 1\<rparr>)" (is "conn_inv L ?s'")
proof -
  have eq: "connection_stamp ?s' = connection_stamp s"
    using i C by (simp add: connection_stamp_def fun_eq_iff)
  have "i \<notin> dom (rl_LocalConnectionPool s)"
    using i by auto
  then have "i \<notin> set (L @ rl_ConnectionKillList s)"
    using inv by (auto simp: conn_inv_def Let_def)
  then show ?thesis
    using inv i C unfolding conn_inv_def Let_def eq by (auto simp: pool_simps)
qed

lemma conn_inv_KeepAlive:
  assumes "conn_inv [] s"
  shows "conn_inv [] (snd (KeepAlive_connection i s))"
proof (cases "rl_LocalConnectionPool s i")
  case None
  with assms show ?thesis
    by (simp add: KeepAlive_connection_def)
next
  case (Some C)
  show ?thesis
  proof (cases "rc_DeleteMark C")
    case True
    with Some assms show ?thesis
      by (simp add: KeepAlive_connection_def)
  next
    case False
    let ?s' = "snd (KeepAlive_connection i s)"
    let ?I = "removeAll i (rl_ConnectionIdleTimeoutList s)"
    have i: "i \<notin> set (rl_ConnectionKillList s)"
      using assms Some False by (auto simp: conn_inv_def Let_def)
    have s': "?s' = s\<lparr>rl_LocalConnectionPool := (rl_LocalConnectionPool s)(i \<mapsto> C\<lparr>rc_TimestampMS := rl_LocalTicker s\<rparr>),
        rl_ConnectionIdleTimeoutList := ?I @ [i],
        rl_ConnectionEstablishTimeoutList := []\<rparr>"
      using Some False i assms
      by (simp add: KeepAlive_connection_def link_idle_def upd_connection_def grab_tail_def conn_inv_def Let_def removeAll_id)
    have eq: "map (connection_stamp ?s') ?I = map (connection_stamp s) ?I"
      by (simp add: connection_stamp_def s')
    have "sorted (map (connection_stamp s) ?I)"
      using assms by (simp add: conn_inv_def Let_def removeAll_filter_not_eq sorted_filter)
    moreover have "connection_stamp s j \<le> rl_LocalTicker s" for j
      using assms by (auto simp: conn_inv_def Let_def connection_stamp_def split: option.split)
    moreover have "connection_stamp ?s' i = rl_LocalTicker s"
      by (simp add: connection_stamp_def s')
    ultimately have "sorted (map (connection_stamp ?s') (?I @ [i]))"
      unfolding map_append eq sorted_append by simp
    then show ?thesis
      using assms i Some False unfolding conn_inv_def Let_def
      by (simp add: s') (auto simp: pool_simps)
  qed
qed

text \<open>What destroying does to the connections; the futures are dealt with separately.\<close>

lemma DeferDestroyConnection_fields:
  assumes "rl_LocalConnectionPool s i = Some C" and "\<not> rc_DeleteMark C"
  shows "rl_LocalConnectionPool (DeferDestroyConnection i s) = (rl_LocalConnectionPool s)(i \<mapsto>
           C\<lparr>rc_DeleteMark := True, rc_CreateConnectionFutureHandle := None\<rparr>)"
    and "rl_ConnectionIdleTimeoutList (DeferDestroyConnection i s) = removeAll i (rl_ConnectionIdleTimeoutList s)"
    and "rl_ConnectionKillList (DeferDestroyConnection i s) = grab_tail (rl_ConnectionKillList s) i"
    and "rl_ConnectionEstablishTimeoutList (DeferDestroyConnection i s) =
           removeAll i (rl_ConnectionEstablishTimeoutList s)"
    and "rl_LocalTicker (DeferDestroyConnection i s) = rl_LocalTicker s"
    and "rl_ConnectionCount (DeferDestroyConnection i s) = rl_ConnectionCount s"
  using assms
  by (simp_all add: DeferDestroyConnection_def Let_def link_kill_def upd_connection_def ready_connection_future_def
      split: option.split)

lemma DeferDestroyConnection_idle:
  "rl_LocalConnectionPool s i = None \<or> (\<exists>C. rl_LocalConnectionPool s i = Some C \<and> rc_DeleteMark C) \<Longrightarrow>
   DeferDestroyConnection i s = s"
  by (auto simp: DeferDestroyConnection_def)

lemma conn_inv_DeferDestroy:
  assumes "conn_inv [] s"
  shows "conn_inv [] (DeferDestroyConnection i s)"
proof (cases "\<exists>C. rl_LocalConnectionPool s i = Some C \<and> \<not> rc_DeleteMark C")
  case False
  then have "DeferDestroyConnection i s = s"
    by (intro DeferDestroyConnection_idle) (cases "rl_LocalConnectionPool s i"; auto)
  with assms show ?thesis by simp
next
  case True
  then obtain C where C: "rl_LocalConnectionPool s i = Some C" "\<not> rc_DeleteMark C"
    by blast
  note f = DeferDestroyConnection_fields [OF C]
  have i: "i \<notin> set (rl_ConnectionKillList s)"
    using assms C by (auto simp: conn_inv_def Let_def)
  have eq: "map (connection_stamp (DeferDestroyConnection i s)) xs = map (connection_stamp s) xs" for xs
    using C by (simp add: connection_stamp_def f)
  have "sorted (map (connection_stamp s) (removeAll i (rl_ConnectionIdleTimeoutList s)))"
    using assms by (simp add: conn_inv_def Let_def removeAll_filter_not_eq sorted_filter)
  then show ?thesis
    using assms C i unfolding conn_inv_def Let_def f eq
    by (auto simp: pool_simps grab_tail_def removeAll_id)
qed

lemma conn_inv_DeferDestroys:
  "conn_inv [] s \<Longrightarrow> conn_inv [] (fold DeferDestroyConnection is s)"
  by (induction "is" arbitrary: s) (simp_all add: conn_inv_DeferDestroy)

lemma conn_inv_shrink_idle:
  assumes "conn_inv L s" and "rl_ConnectionIdleTimeoutList s = p @ q"
  shows "conn_inv L (set_idle_connections q s)"
proof -
  have "connection_stamp (set_idle_connections q s) = connection_stamp s"
    by (simp add: connection_stamp_def fun_eq_iff)
  with assms show ?thesis
    by (auto simp: conn_inv_def Let_def sorted_append)
qed

lemma conn_inv_DeferDestroyIdle:
  "conn_inv [] s \<Longrightarrow> conn_inv [] (DeferDestroyIdleConnections s)"
  unfolding DeferDestroyIdleConnections_def drain_def
  by (intro conn_inv_DeferDestroys, erule conn_inv_shrink_idle, rule takeWhile_dropWhile_id [symmetric])

lemma conn_inv_clean:
  assumes inv: "conn_inv (i # L) s"
  shows "conn_inv L (clean_connection i s)"
proof -
  have i: "i \<in> dom (rl_LocalConnectionPool s)" "i \<notin> set (rl_ConnectionIdleTimeoutList s)"
    using inv by (auto simp: conn_inv_def Let_def)
  then have eq: "map (connection_stamp (clean_connection i s)) (rl_ConnectionIdleTimeoutList s) =
      map (connection_stamp s) (rl_ConnectionIdleTimeoutList s)"
    by (auto simp: connection_stamp_def clean_connection_def)
  have "sorted (map (connection_stamp (clean_connection i s)) (rl_ConnectionIdleTimeoutList s))"
    unfolding eq using inv by (simp add: conn_inv_def Let_def)
  then show ?thesis
    using inv i unfolding conn_inv_def Let_def by (auto simp: clean_connection_def pool_simps)
qed

lemma conn_inv_cleans: "conn_inv (is @ L) s \<Longrightarrow> conn_inv L (fold clean_connection is s)"
  by (induction "is" arbitrary: s) (simp_all add: conn_inv_clean)

lemma CleanDyingConnections_eq:
  "CleanDyingConnections s = fold clean_connection (rl_ConnectionKillList s) (set_dying_connections [] s)"
  by (simp add: CleanDyingConnections_def drain_def)

lemma conn_inv_CleanDying:
  assumes "conn_inv [] s"
  shows "conn_inv [] (CleanDyingConnections s)"
proof -
  have "connection_stamp (set_dying_connections [] s) = connection_stamp s"
    by (simp add: connection_stamp_def fun_eq_iff)
  then have "conn_inv (rl_ConnectionKillList s) (set_dying_connections [] s)"
    using assms by (simp add: conn_inv_def Let_def)
  then show ?thesis
    unfolding CleanDyingConnections_eq by (intro conn_inv_cleans) simp
qed

lemma conn_inv_ready [simp]: "conn_inv L (ready_connection_future F s) = conn_inv L s"
  by (rule conn_inv_cong) (simp_all add: ready_connection_future_def)

lemma conn_inv_Create_bound:
  assumes inv: "conn_inv [] s" and ok: "storage_ok alloc"
  shows "conn_inv [] (CreateConnection_bound alloc init_ok P F s)"
proof -
  let ?i = "alloc (dom (rl_LocalConnectionPool s))"
  show ?thesis
  proof (cases "?i = 0 \<or> \<not> init_ok")
    case True
    with inv show ?thesis
      by (auto simp: CreateConnection_bound_def Let_def)
  next
    case False
    then have "rl_LocalConnectionPool s ?i = None"
      using storage_okD [OF ok] by blast
    from conn_inv_new [OF inv this] False show ?thesis
      by (simp add: CreateConnection_bound_def Let_def)
  qed
qed

lemma conn_inv_Create_address:
  assumes "conn_inv [] s" and "storage_ok alloc"
  shows "conn_inv [] (CreateConnection_address alloc connect r d P A F s)"
  using assms by (simp add: CreateConnection_address_def conn_inv_Create_bound split: option.split)

lemma conn_inv_process_dns:
  assumes "conn_inv [] s" and "storage_ok alloc"
  shows "conn_inv [] (process_dns_result alloc connect i s)"
proof -
  have *: "conn_inv L (s\<lparr>rl_DnsFutureManager := fm\<rparr>) = conn_inv L s" for L s fm
    by (rule conn_inv_cong) simp_all
  have "conn_inv [] (CreateConnectionWithDnsResult alloc connect D s)" for D
    using assms by (simp add: CreateConnectionWithDnsResult_def Let_def conn_inv_Create_address split: option.split)
  with assms show ?thesis
    by (simp add: process_dns_result_def Let_def * split: option.split)
qed

section \<open>The channels' invariant\<close>

definition udp_inv :: "uint64 list \<Rightarrow> ('d, 'o) relay \<Rightarrow> bool" where
  "udp_inv L s \<longleftrightarrow>
     (let I = rl_UdpChannelIdleTimeoutList s; K = L @ rl_UdpChannelKillList s in
      distinct I \<and> distinct K \<and> set I \<inter> set K = {} \<and>
      set I \<union> set K \<subseteq> dom (rl_LocalUdpChannelPool s) \<and>
      (\<forall>i C. rl_LocalUdpChannelPool s i = Some C \<longrightarrow> (rv_DeleteMark C \<longleftrightarrow> i \<in> set K)) \<and>
      rl_LocalUdpChannelPool s 0 = None \<and>
      rl_UdpChannelCount s = count_live (rl_LocalUdpChannelPool s))"

lemma udp_inv_KeepAlive:
  assumes "udp_inv [] s"
  shows "udp_inv [] (snd (KeepAlive_udp i s))"
proof (cases "\<exists>C. rl_LocalUdpChannelPool s i = Some C \<and> \<not> rv_DeleteMark C")
  case True
  then obtain C where C: "rl_LocalUdpChannelPool s i = Some C" "\<not> rv_DeleteMark C"
    by blast
  then have "i \<notin> set (rl_UdpChannelKillList s)"
    using assms by (auto simp: udp_inv_def Let_def)
  with assms C show ?thesis
    unfolding udp_inv_def Let_def
    by (auto simp: KeepAlive_udp_def upd_udp_channel_def Let_def grab_tail_def pool_simps removeAll_id)
next
  case False
  then have "snd (KeepAlive_udp i s) = s"
    by (auto simp: KeepAlive_udp_def split: option.split)
  with assms show ?thesis by simp
qed

lemma udp_inv_DeferDestroy:
  assumes "udp_inv [] s" and "rl_LocalUdpChannelPool s i \<noteq> None"
  shows "udp_inv [] (DeferDestroyUdpChannel i s)"
proof -
  obtain C where C: "rl_LocalUdpChannelPool s i = Some C"
    using assms(2) by blast
  with assms(1) show ?thesis
    unfolding udp_inv_def Let_def
    by (auto simp: DeferDestroyUdpChannel_def upd_udp_channel_def Let_def grab_tail_def pool_simps)
qed

lemma DeferDestroyUdpChannel_dom [simp]:
  "dom (rl_LocalUdpChannelPool (DeferDestroyUdpChannel i s)) = dom (rl_LocalUdpChannelPool s)"
  by (auto simp: DeferDestroyUdpChannel_def upd_udp_channel_def Let_def dom_def)

lemma udp_inv_DeferDestroys:
  "udp_inv [] s \<Longrightarrow> set is \<subseteq> dom (rl_LocalUdpChannelPool s) \<Longrightarrow>
   udp_inv [] (fold DeferDestroyUdpChannel is s)"
proof (induction "is" arbitrary: s)
  case (Cons i "is")
  then have "udp_inv [] (DeferDestroyUdpChannel i s)"
    by (intro udp_inv_DeferDestroy) auto
  with Cons show ?case by simp
qed simp

lemma udp_inv_DeferDestroyIdle:
  assumes "udp_inv [] s"
  shows "udp_inv [] (DeferDestroyIdleUdpChannels s)"
proof -
  let ?p = "idle_channel (rl_LocalTicker s - IDLE_CONNECTION_TIMEOUT_MS) s"
  let ?I = "rl_UdpChannelIdleTimeoutList s"
  have "distinct (dropWhile ?p ?I)" and "set (dropWhile ?p ?I) \<subseteq> set ?I" and "set (takeWhile ?p ?I) \<subseteq> set ?I"
    using assms by (auto simp: udp_inv_def Let_def dest: set_dropWhileD set_takeWhileD)
  with assms have "udp_inv [] (set_idle_channels (dropWhile ?p ?I) s)"
    and "set (takeWhile ?p ?I) \<subseteq> dom (rl_LocalUdpChannelPool s)"
    unfolding udp_inv_def Let_def by auto
  then show ?thesis
    unfolding DeferDestroyIdleUdpChannels_def drain_def by (intro udp_inv_DeferDestroys) simp_all
qed

lemma udp_inv_cleans: "udp_inv (is @ L) s \<Longrightarrow> udp_inv L (fold clean_channel is s)"
proof (induction "is" arbitrary: s)
  case (Cons i "is")
  then have "i \<in> dom (rl_LocalUdpChannelPool s)"
    by (auto simp: udp_inv_def Let_def)
  with Cons.prems have "udp_inv (is @ L) (clean_channel i s)"
    unfolding udp_inv_def Let_def by (auto simp: clean_channel_def pool_simps)
  with Cons.IH show ?case by simp
qed simp

lemma CleanDyingUdpChannels_eq:
  "CleanDyingUdpChannels s = fold clean_channel (rl_UdpChannelKillList s) (set_dying_channels [] s)"
  by (simp add: CleanDyingUdpChannels_def drain_def)

lemma udp_inv_CleanDying:
  assumes "udp_inv [] s"
  shows "udp_inv [] (CleanDyingUdpChannels s)"
proof -
  have "udp_inv (rl_UdpChannelKillList s) (set_dying_channels [] s)"
    using assms by (simp add: udp_inv_def Let_def)
  then show ?thesis
    unfolding CleanDyingUdpChannels_eq by (intro udp_inv_cleans) simp
qed

lemma udp_inv_Create:
  assumes inv: "udp_inv [] s" and ok: "storage_ok alloc"
  shows "udp_inv [] (CreateUdpChannel alloc bind r d P F s)"
proof -
  let ?i = "alloc (dom (rl_LocalUdpChannelPool s))"
  have n: "rl_LocalUdpChannelPool s ?i = None" if "?i \<noteq> 0"
    using storage_okD [OF ok that] .
  have k: "i \<notin> set (rl_UdpChannelKillList s)" if "rl_LocalUdpChannelPool s i = None" for i
    using inv that by (auto simp: udp_inv_def Let_def)
  show ?thesis
  proof (cases "GetDevice s d = None \<or> ?i = 0 \<or> \<not> bind (dv_BindAddress (the (GetDevice s d)))")
    case True
    then show ?thesis
      using inv by (auto simp: CreateUdpChannel_def GetDevice_def Let_def udp_inv_def split: option.splits if_splits)
  next
    case False
    let ?C = "\<lparr>rv_TimestampMS = 0, rv_DeviceId = 0, rv_ProxySideUdpChannelId = P, rv_DeleteMark = False\<rparr>"
    have eq: "rl_LocalUdpChannelPool (CreateUdpChannel alloc bind r d P F s) = (rl_LocalUdpChannelPool s)(?i \<mapsto> ?C)"
      "rl_UdpChannelIdleTimeoutList (CreateUdpChannel alloc bind r d P F s) = rl_UdpChannelIdleTimeoutList s"
      "rl_UdpChannelKillList (CreateUdpChannel alloc bind r d P F s) = rl_UdpChannelKillList s"
      "rl_UdpChannelCount (CreateUdpChannel alloc bind r d P F s) = rl_UdpChannelCount s + 1"
      using False by (auto simp: CreateUdpChannel_def GetDevice_def Let_def split: if_splits)
    from n k False inv show ?thesis
      unfolding udp_inv_def Let_def eq by (auto simp: pool_simps)
  qed
qed

text \<open>Operations on one kind leave the other alone.\<close>

lemma udp_inv_cong:
  assumes "rl_LocalUdpChannelPool s' = rl_LocalUdpChannelPool s"
    and "rl_UdpChannelIdleTimeoutList s' = rl_UdpChannelIdleTimeoutList s"
    and "rl_UdpChannelKillList s' = rl_UdpChannelKillList s" and "rl_UdpChannelCount s' = rl_UdpChannelCount s"
  shows "udp_inv L s' = udp_inv L s"
  by (simp add: udp_inv_def assms)

definition udp_view :: "('d, 'o) relay \<Rightarrow> _" where
  "udp_view s = (rl_LocalUdpChannelPool s, rl_UdpChannelIdleTimeoutList s, rl_UdpChannelKillList s, rl_UdpChannelCount s)"

definition conn_view :: "('d, 'o) relay \<Rightarrow> _" where
  "conn_view s = (rl_LocalConnectionPool s, rl_ConnectionIdleTimeoutList s, rl_ConnectionKillList s,
     rl_ConnectionEstablishTimeoutList s, rl_LocalTicker s, rl_ConnectionCount s)"

lemma udp_inv_view: "udp_view s' = udp_view s \<Longrightarrow> udp_inv L s' = udp_inv L s"
  by (rule udp_inv_cong) (simp_all add: udp_view_def)

lemma conn_inv_view: "conn_view s' = conn_view s \<Longrightarrow> conn_inv L s' = conn_inv L s"
  by (rule conn_inv_cong) (simp_all add: conn_view_def)

lemma udp_view_ops [simp]:
  "udp_view (ready_connection_future F s) = udp_view s"
  "udp_view (upd_connection i f s) = udp_view s"
  "udp_view (link_idle i s) = udp_view s"
  "udp_view (link_kill i s) = udp_view s"
  "udp_view (clean_connection i s) = udp_view s"
  "udp_view (CreateConnection_bound alloc ok P F s) = udp_view s"
  by (simp_all add: udp_view_def ready_connection_future_def upd_connection_def link_idle_def link_kill_def
      clean_connection_def CreateConnection_bound_def Let_def)

lemma udp_view_updates [simp]:
  "udp_view (s\<lparr>rl_DnsFutureManager := fm\<rparr>) = udp_view s"
  "udp_view (s\<lparr>rl_Dns := d\<rparr>) = udp_view s"
  "udp_view (s\<lparr>rl_ConnectionFutures := cf\<rparr>) = udp_view s"
  "udp_view (s\<lparr>rl_ConnectionIdleTimeoutList := q\<rparr>) = udp_view s"
  "udp_view (s\<lparr>rl_ConnectionKillList := q\<rparr>) = udp_view s"
  "udp_view (s\<lparr>rl_LocalTicker := now\<rparr>) = udp_view s"
  "udp_view (s\<lparr>rl_Out := out\<rparr>) = udp_view s"
  by (simp_all add: udp_view_def)

lemma udp_view_conn_ops [simp]:
  "udp_view (CreateConnection_address alloc connect r d P A F s) = udp_view s"
  "udp_view (snd (KeepAlive_connection i s)) = udp_view s"
  "udp_view (DeferDestroyConnection i s) = udp_view s"
  "udp_view (CreateConnectionWithDnsResult alloc connect D s) = udp_view s"
  "udp_view (process_dns_result alloc connect i s) = udp_view s"
proof -
  show a: "udp_view (CreateConnection_address alloc connect r d P A F s) = udp_view s" for r d P A F
    by (simp add: CreateConnection_address_def split: option.split)
  show "udp_view (snd (KeepAlive_connection i s)) = udp_view s"
    by (simp add: KeepAlive_connection_def split: option.split)
  show "udp_view (DeferDestroyConnection i s) = udp_view s"
    by (simp add: DeferDestroyConnection_def Let_def split: option.split)
  show d: "udp_view (CreateConnectionWithDnsResult alloc connect D s) = udp_view s" for D
    by (simp add: CreateConnectionWithDnsResult_def Let_def a split: option.split)
  show "udp_view (process_dns_result alloc connect i s) = udp_view s"
    by (simp add: process_dns_result_def Let_def d split: option.split)
qed

lemma udp_view_folds [simp]:
  "udp_view (fold DeferDestroyConnection is s) = udp_view s"
  "udp_view (fold clean_connection is s) = udp_view s"
  "udp_view (fold (process_dns_result alloc connect) is s) = udp_view s"
  by (induction "is" arbitrary: s) simp_all

lemma udp_view_loops [simp]:
  "udp_view (DeferDestroyIdleConnections s) = udp_view s"
  "udp_view (CleanDyingConnections s) = udp_view s"
  "udp_view (ProcessDnsResults alloc connect s) = udp_view s"
  by (simp_all add: DeferDestroyIdleConnections_def CleanDyingConnections_def ProcessDnsResults_def drain_def)

lemma conn_view_ops [simp]:
  "conn_view (snd (KeepAlive_udp i s)) = conn_view s"
  "conn_view (DeferDestroyUdpChannel i s) = conn_view s"
  "conn_view (clean_channel i s) = conn_view s"
  "conn_view (CreateUdpChannel alloc bind r d P F s) = conn_view s"
  "conn_view (s\<lparr>rl_UdpChannelIdleTimeoutList := q\<rparr>) = conn_view s"
  "conn_view (s\<lparr>rl_UdpChannelKillList := q\<rparr>) = conn_view s"
  "conn_view (s\<lparr>rl_DnsFutureManager := fm\<rparr>) = conn_view s"
  "conn_view (s\<lparr>rl_Dns := d'\<rparr>) = conn_view s"
  "conn_view (s\<lparr>rl_ConnectionFutures := cf\<rparr>) = conn_view s"
  "conn_view (s\<lparr>rl_Out := out\<rparr>) = conn_view s"
  by (simp_all add: conn_view_def KeepAlive_udp_def DeferDestroyUdpChannel_def upd_udp_channel_def
      clean_channel_def CreateUdpChannel_def Let_def split: option.split)

lemma conn_view_folds [simp]:
  "conn_view (fold DeferDestroyUdpChannel is s) = conn_view s"
  "conn_view (fold clean_channel is s) = conn_view s"
  by (induction "is" arbitrary: s) simp_all

lemma conn_view_loops [simp]:
  "conn_view (DeferDestroyIdleUdpChannels s) = conn_view s"
  "conn_view (CleanDyingUdpChannels s) = conn_view s"
  by (simp_all add: DeferDestroyIdleUdpChannels_def CleanDyingUdpChannels_def drain_def)

section \<open>Every operation preserves the invariant\<close>

definition relay_inv :: "('d, 'o) relay \<Rightarrow> bool" where
  "relay_inv s \<longleftrightarrow> conn_inv [] s \<and> udp_inv [] s"

lemma relay_inv_conn:
  "relay_inv s \<Longrightarrow> conn_inv [] s' \<Longrightarrow> udp_view s' = udp_view s \<Longrightarrow> relay_inv s'"
  using udp_inv_view [of s' s "[]"] by (simp add: relay_inv_def)

lemma relay_inv_udp:
  "relay_inv s \<Longrightarrow> udp_inv [] s' \<Longrightarrow> conn_view s' = conn_view s \<Longrightarrow> relay_inv s'"
  using conn_inv_view [of s' s "[]"] by (simp add: relay_inv_def)

lemma relay_inv_view:
  "relay_inv s \<Longrightarrow> conn_view s' = conn_view s \<Longrightarrow> udp_view s' = udp_view s \<Longrightarrow> relay_inv s'"
  using conn_inv_view [of s' s "[]"] udp_inv_view [of s' s "[]"] by (simp add: relay_inv_def)

lemma conn_inv_ticker:
  assumes "conn_inv L s" and "rl_LocalTicker s \<le> now"
  shows "conn_inv L (s\<lparr>rl_LocalTicker := now\<rparr>)"
proof -
  have "connection_stamp (s\<lparr>rl_LocalTicker := now\<rparr>) = connection_stamp s"
    by (simp add: connection_stamp_def fun_eq_iff)
  with assms show ?thesis
    by (fastforce simp: conn_inv_def Let_def)
qed

lemma conn_inv_ProcessDns:
  assumes "conn_inv [] s" and "storage_ok alloc"
  shows "conn_inv [] (ProcessDnsResults alloc connect s)"
proof -
  have "conn_inv [] t \<Longrightarrow> conn_inv [] (fold (process_dns_result alloc connect) is t)" for "is" t
    by (induction "is" arbitrary: t) (simp_all add: conn_inv_process_dns assms(2))
  moreover have "conn_inv [] (set_dns_ready_list [] s)"
    using assms(1) conn_inv_view [of "set_dns_ready_list [] s" s] by simp
  ultimately show ?thesis
    by (simp add: ProcessDnsResults_def drain_def)
qed

lemma conn_inv_udp_loops [simp]:
  "conn_inv L (DeferDestroyIdleUdpChannels s) = conn_inv L s"
  "conn_inv L (CleanDyingUdpChannels s) = conn_inv L s"
  by (rule conn_inv_view, simp)+

lemma udp_inv_conn_loops [simp]:
  "udp_inv L (CleanDyingConnections s) = udp_inv L s"
  "udp_inv L (DeferDestroyIdleConnections s) = udp_inv L s"
  "udp_inv L (ProcessDnsResults alloc connect s) = udp_inv L s"
  "udp_inv L (s\<lparr>rl_LocalTicker := now\<rparr>) = udp_inv L s"
  by (rule udp_inv_view, simp)+

lemma relay_inv_Tick:
  assumes "relay_inv s" and "storage_ok alloc" and "rl_LocalTicker s \<le> now"
  shows "relay_inv (relay_Tick alloc connect now s)"
proof -
  have "conn_inv [] (DeferDestroyIdleConnections (ProcessDnsResults alloc connect (s\<lparr>rl_LocalTicker := now\<rparr>)))"
    using assms by (intro conn_inv_DeferDestroyIdle conn_inv_ProcessDns conn_inv_ticker) (simp_all add: relay_inv_def)
  moreover have "udp_inv [] (ProcessDnsResults alloc connect (s\<lparr>rl_LocalTicker := now\<rparr>))"
    using assms by (simp add: relay_inv_def)
  ultimately show ?thesis
    by (simp add: relay_inv_def relay_Tick_def conn_inv_CleanDying udp_inv_CleanDying udp_inv_DeferDestroyIdle)
qed

lemma relay_inv_OnConnected:
  assumes inv: "relay_inv s"
  shows "relay_inv (relay_OnConnected i s)"
proof (cases "rl_LocalConnectionPool s i")
  case None
  with inv show ?thesis by (simp add: relay_OnConnected_def)
next
  case (Some C)
  have upd: "conn_inv [] (upd_connection i f t)"
    if "conn_inv [] t" "rl_LocalConnectionPool t i = Some D"
      "rc_DeleteMark (f D) = rc_DeleteMark D" "rc_TimestampMS (f D) = rc_TimestampMS D"
      "rc_CreateConnectionFutureHandle (f D) \<in> {None, rc_CreateConnectionFutureHandle D}" for t f D
    using conn_inv_update [OF that(1,2), of "f D"] that by (simp add: upd_connection_def)
  have c1: "conn_inv [] (upd_connection i (\<lambda>C. C\<lparr>rc_IsConnected := True\<rparr>) s)"
    using inv Some by (intro upd [of s C]) (simp_all add: relay_inv_def)
  have p1: "rl_LocalConnectionPool (upd_connection i (\<lambda>C. C\<lparr>rc_IsConnected := True\<rparr>) s) i =
      Some (C\<lparr>rc_IsConnected := True\<rparr>)"
    using Some by (simp add: upd_connection_def)
  have c2: "conn_inv [] (upd_connection i (\<lambda>C. C\<lparr>rc_CreateConnectionFutureHandle := None\<rparr>)
      (upd_connection i (\<lambda>C. C\<lparr>rc_IsConnected := True\<rparr>) s))"
    by (rule upd [OF c1 p1]) simp_all
  have c3: "conn_inv [] (t\<lparr>rl_ConnectionFutures := cf\<rparr>) = conn_inv [] t" for t :: "('a, 'b) relay" and cf
    by (rule conn_inv_view) simp
  show ?thesis
  proof (rule relay_inv_conn [OF inv])
    show "conn_inv [] (relay_OnConnected i s)"
      using c1 c2 Some by (simp add: relay_OnConnected_def Let_def conn_inv_KeepAlive c3 split: option.split)
    show "udp_view (relay_OnConnected i s) = udp_view s"
      using Some by (simp add: relay_OnConnected_def Let_def split: option.split)
  qed
qed

lemma relay_inv_OnPeerClose: "relay_inv s \<Longrightarrow> relay_inv (relay_OnPeerClose i s)"
proof -
  assume inv: "relay_inv s"
  have "conn_inv [] (s\<lparr>rl_Out := out\<rparr>)" for out
    using inv conn_inv_view [of "s\<lparr>rl_Out := out\<rparr>" s "[]"] by (simp add: relay_inv_def)
  then show ?thesis
    using inv by (intro relay_inv_conn [OF inv])
      (simp_all add: relay_OnPeerClose_def conn_inv_DeferDestroy relay_inv_def split: option.split)
qed

lemma relay_inv_OnData: "relay_inv s \<Longrightarrow> relay_inv (snd (relay_OnData i D s))"
proof -
  assume inv: "relay_inv s"
  have k: "relay_inv (snd (KeepAlive_connection i s))"
    using inv by (intro relay_inv_conn [OF inv]) (simp_all add: relay_inv_def conn_inv_KeepAlive)
  show ?thesis
    by (rule relay_inv_view [OF k]) (simp_all add: relay_OnData_def case_prod_beta split: option.split)
qed

lemma relay_inv_Destroy:
  assumes inv: "relay_inv s"
  shows "relay_inv (DestroyConnection r i s)" and "relay_inv (DestroyUdpChannel r i s)"
    and "relay_inv (KeepUdpChannelAlive r i s)"
proof -
  have "conn_inv [] (upd_connection i (\<lambda>C. C\<lparr>rc_CreateConnectionFutureHandle := None\<rparr>) s)"
    if "rl_LocalConnectionPool s i = Some C" for C
    using inv that conn_inv_update [of "[]" s i C "C\<lparr>rc_CreateConnectionFutureHandle := None\<rparr>"]
    by (simp add: upd_connection_def relay_inv_def)
  then show "relay_inv (DestroyConnection r i s)"
    using inv by (intro relay_inv_conn [OF inv])
      (simp_all add: DestroyConnection_def relay_inv_def conn_inv_DeferDestroy split: option.split)
  show "relay_inv (DestroyUdpChannel r i s)"
    using inv by (intro relay_inv_udp [OF inv])
      (simp_all add: DestroyUdpChannel_def relay_inv_def udp_inv_DeferDestroy split: option.split)
  show "relay_inv (KeepUdpChannelAlive r i s)"
    using inv by (intro relay_inv_udp [OF inv])
      (simp_all add: KeepUdpChannelAlive_def relay_inv_def udp_inv_KeepAlive split: option.split)
qed

lemma CreateConnection_host_view:
  "conn_view (CreateConnection_host alloc resolve r d P h p F s) = conn_view s"
  "udp_view (CreateConnection_host alloc resolve r d P h p F s) = udp_view s"
  by (simp_all add: CreateConnection_host_def Let_def ready_connection_future_def split: prod.split)

section \<open>The service as a transition system\<close>

text \<open>
  The steps: what the proxy asks for, the callbacks of the sockets, the ticks, and any work of the
  proxy and of the resolver on the futures (\<open>client\<close>). The storages, sockets and resolver are
  arbitrary, the clock does not go back.
\<close>

inductive relay_step ::
    "(uint64 set \<Rightarrow> uint64) \<Rightarrow> (uint64 set \<Rightarrow> uint64) \<Rightarrow> (uint64 set \<Rightarrow> uint64) \<Rightarrow> 'd resolver \<Rightarrow>
     ('d, 'o) relay \<Rightarrow> ('d, 'o) relay \<Rightarrow> bool"
  for alloc_connection alloc_channel alloc_dns resolve where
  client: "relay_step alloc_connection alloc_channel alloc_dns resolve s
     (s\<lparr>rl_Dns := d, rl_DnsFutureManager := fm, rl_ConnectionFutures := cf\<rparr>)"
| create: "relay_step alloc_connection alloc_channel alloc_dns resolve s
     (CreateConnection_address alloc_connection connect r d P A F s)"
| create_host: "relay_step alloc_connection alloc_channel alloc_dns resolve s
     (CreateConnection_host alloc_dns resolve r d P h p F s)"
| create_udp: "relay_step alloc_connection alloc_channel alloc_dns resolve s
     (CreateUdpChannel alloc_channel bind r d P F s)"
| destroy: "relay_step alloc_connection alloc_channel alloc_dns resolve s (DestroyConnection r i s)"
| destroy_udp: "relay_step alloc_connection alloc_channel alloc_dns resolve s (DestroyUdpChannel r i s)"
| keep_udp: "relay_step alloc_connection alloc_channel alloc_dns resolve s (KeepUdpChannelAlive r i s)"
| connected: "relay_step alloc_connection alloc_channel alloc_dns resolve s (relay_OnConnected i s)"
| peer_close: "relay_step alloc_connection alloc_channel alloc_dns resolve s (relay_OnPeerClose i s)"
| data: "relay_step alloc_connection alloc_channel alloc_dns resolve s (snd (relay_OnData i D s))"
| tick: "rl_LocalTicker s \<le> now \<Longrightarrow> relay_step alloc_connection alloc_channel alloc_dns resolve s
     (relay_Tick alloc_connection connect now s)"

lemma relay_inv_step:
  assumes "relay_step ac au ad resolve s s'" and "storage_ok ac" and "storage_ok au" and inv: "relay_inv s"
  shows "relay_inv s'"
  using assms(1-3) inv
proof (induction rule: relay_step.induct)
  case (client s d fm cf)
  then show ?case by (elim relay_inv_view) simp_all
next
  case (create s connect r d P A F)
  then show ?case
    by (intro relay_inv_conn [OF create(3)]) (simp_all add: relay_inv_def conn_inv_Create_address)
next
  case (create_host s r d P h p F)
  then show ?case by (elim relay_inv_view) (simp_all add: CreateConnection_host_view)
next
  case (create_udp s bind r d P F)
  then show ?case
    by (intro relay_inv_udp [OF create_udp(3)]) (simp_all add: relay_inv_def udp_inv_Create)
qed (simp_all add: relay_inv_Destroy relay_inv_OnConnected relay_inv_OnPeerClose relay_inv_OnData relay_inv_Tick)

section \<open>The loops\<close>

lemma DeferDestroyConnection_queue:
  assumes "i \<notin> set q" and "i \<notin> set (rl_ConnectionIdleTimeoutList s)"
  shows "DeferDestroyConnection i (set_idle_connections q s) = set_idle_connections q (DeferDestroyConnection i s)"
  using assms
  by (simp add: DeferDestroyConnection_def upd_connection_def link_kill_def ready_connection_future_def Let_def
      removeAll_id split: option.split)

interpretation relay_idle: pop_loop
  rl_ConnectionIdleTimeoutList set_idle_connections "idle_connection T" DeferDestroyConnection for T
proof (unfold_locales, goal_cases)
  case (5 i s)
  then show ?case
    by (simp add: DeferDestroyConnection_def upd_connection_def link_kill_def ready_connection_future_def Let_def
        removeAll_id split: option.split)
next
  case (6 i j s)
  then show ?case
    by (simp add: idle_connection_def DeferDestroyConnection_def upd_connection_def link_kill_def
        ready_connection_future_def Let_def split: option.split)
next
  case (7 i q s)
  then show ?case by (rule DeferDestroyConnection_queue)
qed (simp_all add: idle_connection_def)

interpretation relay_dying: pop_loop
  rl_ConnectionKillList set_dying_connections "\<lambda>_ _. True" clean_connection
  by unfold_locales (simp_all add: clean_connection_def)

interpretation relay_idle_udp: pop_loop
  rl_UdpChannelIdleTimeoutList set_idle_channels "idle_channel T" DeferDestroyUdpChannel for T
  by unfold_locales (auto simp: idle_channel_def DeferDestroyUdpChannel_def upd_udp_channel_def Let_def removeAll_id)

interpretation relay_dying_udp: pop_loop
  rl_UdpChannelKillList set_dying_channels "\<lambda>_ _. True" clean_channel
  by unfold_locales (simp_all add: clean_channel_def)

lemma Create_dns_manager:
  "CreateConnectionWithDnsResult alloc connect D (s\<lparr>rl_DnsFutureManager := fm\<rparr>) =
   (CreateConnectionWithDnsResult alloc connect D s)\<lparr>rl_DnsFutureManager := fm\<rparr>"
  by (simp add: CreateConnectionWithDnsResult_def CreateConnection_address_def CreateConnection_bound_def
      GetDevice_def ready_connection_future_def Let_def split: option.split)

lemma Create_keeps_dns_manager [simp]:
  "rl_DnsFutureManager (CreateConnectionWithDnsResult alloc connect D s) = rl_DnsFutureManager s"
  by (simp add: CreateConnectionWithDnsResult_def CreateConnection_address_def CreateConnection_bound_def
      GetDevice_def ready_connection_future_def Let_def split: option.split)

interpretation relay_dns: pop_loop
  dns_ready_list set_dns_ready_list "\<lambda>_ _. True" "process_dns_result alloc connect" for alloc connect
proof (unfold_locales, goal_cases)
  case (5 i s)
  then show ?case
    by (simp add: process_dns_result_def ReleaseFuture_def Let_def removeAll_id split: option.split)
next
  case (7 i q s)
  then show ?case
    by (simp add: process_dns_result_def ReleaseFuture_def Let_def removeAll_id Create_dns_manager split: option.split)
qed simp_all

section \<open>Devices\<close>

definition devices_inv :: "('d, 'o) relay \<Rightarrow> bool" where
  "devices_inv s \<longleftrightarrow> length (rl_LocalDeviceList s) < 2 ^ 32 \<and>
     (\<forall>k < length (rl_LocalDeviceList s).
        map_of (rl_LocalDeviceExportAddressMap s) (dv_ExportAddress (rl_LocalDeviceList s ! k)) =
          Some (Make64 DEVICE_ID_HIGH32_MAGIC (of_nat k)))"

lemma Make64_not_0: "Make64 DEVICE_ID_HIGH32_MAGIC l \<noteq> 0"
proof
  assume "Make64 DEVICE_ID_HIGH32_MAGIC l = 0"
  then have "DEVICE_ID_HIGH32_MAGIC = High32 0"
    by (metis High32_Make64)
  then show False
    by (simp add: DEVICE_ID_HIGH32_MAGIC_def High32_def)
qed

lemma add_local_devices_inv:
  assumes "add_local_devices n Opts s = Some s'" and "devices_inv s" and "n = length (rl_LocalDeviceList s)"
  shows "devices_inv s' \<and>
    map (\<lambda>D. (dv_BindAddress D, dv_ExportAddress D)) (rl_LocalDeviceList s') =
      map (\<lambda>D. (dv_BindAddress D, dv_ExportAddress D)) (rl_LocalDeviceList s) @
      map (\<lambda>Opt. (bo_BindAddress Opt, bo_ExportAddress Opt)) Opts"
  using assms
proof (induction n Opts s rule: add_local_devices.induct)
  case (1 n s)
  then show ?case by simp
next
  case (2 n Opt Opts s)
  let ?M = "rl_LocalDeviceExportAddressMap s" and ?E = "bo_ExportAddress Opt"
  from 2(2) have n: "n < 2 ^ 32 - 1" and new: "map_of ?M ?E \<in> {None, Some 0}"
    by (auto simp: MakeLocalDeviceId_def Let_def split: if_splits)
  let ?id = "Make64 DEVICE_ID_HIGH32_MAGIC (of_nat n)"
  let ?D = "\<lparr>dv_DeviceId = ?id, dv_BindAddress = bo_BindAddress Opt, dv_ExportAddress = ?E,
    dv_EnableTcp = bo_EnableTcp Opt, dv_EnableUdp = bo_EnableUdp Opt\<rparr>"
  let ?s = "s\<lparr>rl_LocalDeviceExportAddressMap := AList.update ?E ?id ?M, rl_LocalDeviceList := rl_LocalDeviceList s @ [?D]\<rparr>"
  have old: "dv_ExportAddress (rl_LocalDeviceList s ! k) \<noteq> ?E" if "k < n" for k
  proof
    assume eq: "dv_ExportAddress (rl_LocalDeviceList s ! k) = ?E"
    have "map_of ?M (dv_ExportAddress (rl_LocalDeviceList s ! k)) = Some (Make64 DEVICE_ID_HIGH32_MAGIC (of_nat k))"
      using 2(3,4) that by (simp add: devices_inv_def)
    with new Make64_not_0 show False
      unfolding eq by auto
  qed
  have "devices_inv ?s"
    using 2(3,4) n old by (auto simp: devices_inv_def nth_append update_conv' less_Suc_eq)
  moreover have step: "add_local_devices (Suc n) Opts ?s = Some s'"
    using 2(2) n new by (auto simp: MakeLocalDeviceId_def Let_def split: if_splits)
  ultimately show ?case
    using 2(1) [of ?id ?D] 2(4) n new by (simp add: MakeLocalDeviceId_def)
qed

lemma GetDevice_index:
  assumes "k < length (rl_LocalDeviceList s)" and "length (rl_LocalDeviceList s) < 2 ^ 32"
  shows "GetDevice s (Make64 DEVICE_ID_HIGH32_MAGIC (of_nat k)) = Some (rl_LocalDeviceList s ! k)"
    and "ExtractIndexFromDeviceId (Make64 DEVICE_ID_HIGH32_MAGIC (of_nat k)) = k"
proof -
  have k: "unat (of_nat k :: uint32) = k"
    using assms by (simp add: unat_of_nat)
  then show "GetDevice s (Make64 DEVICE_ID_HIGH32_MAGIC (of_nat k)) = Some (rl_LocalDeviceList s ! k)"
    using assms by (simp add: GetDevice_def Let_def)
  have m: "(0xFFFFFFFF :: uint64) = mask 32"
    by (simp add: mask_eq_exp_minus_1)
  have "x AND 0xFFFFFFFF = take_bit 32 x" for x :: uint64
    unfolding m by (rule take_bit_eq_mask [symmetric])
  then have "unat (x AND 0xFFFFFFFF) = unat (Low32 x)" for x :: uint64
    by (metis unat_Low32 unsigned_take_bit_eq take_bit_eq_mod)
  then show "ExtractIndexFromDeviceId (Make64 DEVICE_ID_HIGH32_MAGIC (of_nat k)) = k"
    by (simp only: ExtractIndexFromDeviceId_def Low32_Make64 k)
qed

section \<open>What a tick does to the connections\<close>

lemma process_dns_keeps:
  assumes "storage_ok alloc"
  shows "rl_LocalConnectionPool s i = Some C \<Longrightarrow> rl_LocalConnectionPool (process_dns_result alloc connect j s) i = Some C"
    and "rl_ConnectionIdleTimeoutList (process_dns_result alloc connect j s) = rl_ConnectionIdleTimeoutList s"
    and "rl_ConnectionKillList (process_dns_result alloc connect j s) = rl_ConnectionKillList s"
    and "rl_LocalTicker (process_dns_result alloc connect j s) = rl_LocalTicker s"
  using storage_okD [OF assms, of "rl_LocalConnectionPool s"]
  by (auto simp: process_dns_result_def CreateConnectionWithDnsResult_def CreateConnection_address_def
      CreateConnection_bound_def GetDevice_def ready_connection_future_def Let_def split: option.split)

lemma ProcessDns_keeps:
  assumes "storage_ok alloc"
  shows "rl_LocalConnectionPool s i = Some C \<Longrightarrow> rl_LocalConnectionPool (ProcessDnsResults alloc connect s) i = Some C"
    and "rl_ConnectionIdleTimeoutList (ProcessDnsResults alloc connect s) = rl_ConnectionIdleTimeoutList s"
    and "rl_ConnectionKillList (ProcessDnsResults alloc connect s) = rl_ConnectionKillList s"
    and "rl_LocalTicker (ProcessDnsResults alloc connect s) = rl_LocalTicker s"
proof -
  have "(rl_LocalConnectionPool t i = Some C \<longrightarrow>
        rl_LocalConnectionPool (fold (process_dns_result alloc connect) js t) i = Some C) \<and>
      rl_ConnectionIdleTimeoutList (fold (process_dns_result alloc connect) js t) = rl_ConnectionIdleTimeoutList t \<and>
      rl_ConnectionKillList (fold (process_dns_result alloc connect) js t) = rl_ConnectionKillList t \<and>
      rl_LocalTicker (fold (process_dns_result alloc connect) js t) = rl_LocalTicker t" for js and t :: "('a, 'b) relay"
    by (induction js arbitrary: t) (simp_all add: process_dns_keeps [OF assms])
  from this [of "set_dns_ready_list [] s"]
  show "rl_LocalConnectionPool s i = Some C \<Longrightarrow> rl_LocalConnectionPool (ProcessDnsResults alloc connect s) i = Some C"
    and "rl_ConnectionIdleTimeoutList (ProcessDnsResults alloc connect s) = rl_ConnectionIdleTimeoutList s"
    and "rl_ConnectionKillList (ProcessDnsResults alloc connect s) = rl_ConnectionKillList s"
    and "rl_LocalTicker (ProcessDnsResults alloc connect s) = rl_LocalTicker s"
    by (simp_all add: ProcessDnsResults_def drain_def)
qed

lemma DeferDestroy_others:
  "j \<noteq> i \<Longrightarrow> rl_LocalConnectionPool (DeferDestroyConnection i s) j = rl_LocalConnectionPool s j"
  "set (rl_ConnectionKillList s) \<subseteq> set (rl_ConnectionKillList (DeferDestroyConnection i s))"
  "set (rl_ConnectionKillList (DeferDestroyConnection i s)) \<subseteq> insert i (set (rl_ConnectionKillList s))"
  "rl_LocalConnectionPool (DeferDestroyConnection i s) j = None \<longleftrightarrow> rl_LocalConnectionPool s j = None"
  by (auto simp: DeferDestroyConnection_def upd_connection_def link_kill_def ready_connection_future_def Let_def
      split: option.split)

lemma DeferDestroys_kill:
  assumes "conn_inv [] s" and "set is \<subseteq> dom (rl_LocalConnectionPool s)"
  shows "set (rl_ConnectionKillList (fold DeferDestroyConnection is s)) = set (rl_ConnectionKillList s) \<union> set is"
  using assms
proof (induction "is" arbitrary: s)
  case (Cons i "is")
  let ?s = "DeferDestroyConnection i s"
  have d: "dom (rl_LocalConnectionPool ?s) = dom (rl_LocalConnectionPool s)"
    using DeferDestroy_others(4) [of i s] by (auto simp: dom_def)
  obtain C where C: "rl_LocalConnectionPool s i = Some C"
    using Cons.prems(2) by auto
  have "i \<in> set (rl_ConnectionKillList ?s)"
  proof (cases "rc_DeleteMark C")
    case True
    with C Cons.prems(1) have "i \<in> set (rl_ConnectionKillList s)"
      by (auto simp: conn_inv_def Let_def)
    then show ?thesis
      using DeferDestroy_others(2) by blast
  next
    case False
    then show ?thesis
      using DeferDestroyConnection_fields(3) [OF C] by simp
  qed
  then have "set (rl_ConnectionKillList ?s) = insert i (set (rl_ConnectionKillList s))"
    using DeferDestroy_others(2,3) [where i = i and s = s] by blast
  then show ?case
    using Cons.IH [of ?s] Cons.prems conn_inv_DeferDestroy [of s i] d by auto
qed simp

lemma cleans_pool:
  "rl_LocalConnectionPool (fold clean_connection is s) i =
     (if i \<in> set is then None else rl_LocalConnectionPool s i)"
  "rl_ConnectionIdleTimeoutList (fold clean_connection is s) = rl_ConnectionIdleTimeoutList s"
  "rl_ConnectionKillList (fold clean_connection is s) = rl_ConnectionKillList s"
  by (induction "is" arbitrary: s) (auto simp: clean_connection_def)

lemma DeferDestroys_idle:
  "set is \<inter> set (rl_ConnectionIdleTimeoutList s) = {} \<Longrightarrow>
   rl_ConnectionIdleTimeoutList (fold DeferDestroyConnection is s) = rl_ConnectionIdleTimeoutList s"
proof (induction "is" arbitrary: s)
  case (Cons i "is")
  have "rl_ConnectionIdleTimeoutList (DeferDestroyConnection i s) = rl_ConnectionIdleTimeoutList s"
    using Cons.prems relay_idle.queue_body [of i s] by simp
  with Cons show ?case by simp
qed simp

text \<open>The idle connections that are due are marked, and the rest stay where they are.\<close>

lemma DeferDestroyIdle_effect:
  assumes inv: "conn_inv [] s"
  shows "rl_ConnectionIdleTimeoutList (DeferDestroyIdleConnections s) =
      filter (\<lambda>i. rl_LocalTicker s - IDLE_CONNECTION_TIMEOUT_MS < connection_stamp s i) (rl_ConnectionIdleTimeoutList s)"
    and "set (rl_ConnectionKillList (DeferDestroyIdleConnections s)) = set (rl_ConnectionKillList s) \<union>
      {i \<in> set (rl_ConnectionIdleTimeoutList s). connection_stamp s i \<le> rl_LocalTicker s - IDLE_CONNECTION_TIMEOUT_MS}"
proof -
  let ?T = "rl_LocalTicker s - IDLE_CONNECTION_TIMEOUT_MS" and ?I = "rl_ConnectionIdleTimeoutList s"
  have d: "set ?I \<subseteq> dom (rl_LocalConnectionPool s)" "distinct ?I" "sorted (map (connection_stamp s) ?I)"
    using inv by (simp_all add: conn_inv_def Let_def)
  have c: "idle_connection ?T s i = (connection_stamp s i \<le> ?T)" if "i \<in> set ?I" for i
    using that d by (auto simp: idle_connection_def connection_stamp_def split: option.split)
  have t: "takeWhile (idle_connection ?T s) ?I = filter (\<lambda>i. connection_stamp s i \<le> ?T) ?I"
    by (rule trans [OF takeWhile_cong [OF refl c] takeWhile_sorted_stamps [OF d(3)]])
  have w: "dropWhile (idle_connection ?T s) ?I = filter (\<lambda>i. \<not> connection_stamp s i \<le> ?T) ?I"
    by (rule trans [OF dropWhile_cong [OF refl c] dropWhile_sorted_stamps [OF d(3)]])
  let ?s = "set_idle_connections (filter (\<lambda>i. \<not> connection_stamp s i \<le> ?T) ?I) s"
  have eq: "DeferDestroyIdleConnections s = fold DeferDestroyConnection (filter (\<lambda>i. connection_stamp s i \<le> ?T) ?I) ?s"
    by (simp only: DeferDestroyIdleConnections_def drain_def t w)
  show "rl_ConnectionIdleTimeoutList (DeferDestroyIdleConnections s) = filter (\<lambda>i. ?T < connection_stamp s i) ?I"
  proof -
    have "rl_ConnectionIdleTimeoutList ?s = filter (\<lambda>i. \<not> connection_stamp s i \<le> ?T) ?I"
      by simp
    moreover have "set (filter (\<lambda>i. connection_stamp s i \<le> ?T) ?I) \<inter>
        set (filter (\<lambda>i. \<not> connection_stamp s i \<le> ?T) ?I) = {}"
      by auto
    ultimately have "rl_ConnectionIdleTimeoutList (DeferDestroyIdleConnections s) =
        filter (\<lambda>i. \<not> connection_stamp s i \<le> ?T) ?I"
      unfolding eq by (metis DeferDestroys_idle)
    then show ?thesis
      by (simp only: not_le)
  qed
  have "?I = filter (\<lambda>i. connection_stamp s i \<le> ?T) ?I @ filter (\<lambda>i. \<not> connection_stamp s i \<le> ?T) ?I"
    using takeWhile_dropWhile_id [of "idle_connection ?T s" ?I] unfolding t w by (rule sym)
  then have "conn_inv [] ?s"
    by (rule conn_inv_shrink_idle [OF inv])
  then show "set (rl_ConnectionKillList (DeferDestroyIdleConnections s)) = set (rl_ConnectionKillList s) \<union>
      {i \<in> set ?I. connection_stamp s i \<le> ?T}"
    unfolding eq using d(1) by (subst DeferDestroys_kill) auto
qed

section \<open>Connections in no list\<close>

definition unlinked :: "uint64 \<Rightarrow> ('d, 'o) relay \<Rightarrow> bool" where
  "unlinked i s \<longleftrightarrow> rl_LocalConnectionPool s i \<noteq> None \<and>
     i \<notin> set (rl_ConnectionIdleTimeoutList s) \<and> i \<notin> set (rl_ConnectionKillList s)"

lemma unlinked_view: "conn_view s' = conn_view s \<Longrightarrow> unlinked i s' = unlinked i s"
  by (simp add: unlinked_def conn_view_def)

lemma unlinked_DeferDestroys:
  "unlinked i s \<Longrightarrow> i \<notin> set is \<Longrightarrow> unlinked i (fold DeferDestroyConnection is s)"
proof (induction "is" arbitrary: s)
  case (Cons j "is")
  have "unlinked i (DeferDestroyConnection j s)"
    using Cons.prems DeferDestroy_others(1,3) [where i = j and s = s]
    by (auto simp: unlinked_def DeferDestroyConnection_def link_kill_def upd_connection_def ready_connection_future_def
        Let_def split: option.splits if_splits)
  with Cons show ?case by simp
qed simp

lemma unlinked_Tick:
  assumes "storage_ok ac" and "unlinked i s"
  shows "unlinked i (relay_Tick ac connect now s)"
proof -
  let ?s1 = "ProcessDnsResults ac connect (s\<lparr>rl_LocalTicker := now\<rparr>)"
  let ?p = "idle_connection (rl_LocalTicker ?s1 - IDLE_CONNECTION_TIMEOUT_MS) ?s1"
  have 1: "unlinked i ?s1"
    using assms(2) ProcessDns_keeps(1) [OF assms(1), of "s\<lparr>rl_LocalTicker := now\<rparr>" i _ connect]
    by (auto simp: unlinked_def ProcessDns_keeps(2,3) [OF assms(1)])
  then have "unlinked i (set_idle_connections (dropWhile ?p (rl_ConnectionIdleTimeoutList ?s1)) ?s1)"
    and "i \<notin> set (takeWhile ?p (rl_ConnectionIdleTimeoutList ?s1))"
    by (auto simp: unlinked_def dest: set_takeWhileD set_dropWhileD)
  then have "unlinked i (DeferDestroyIdleConnections ?s1)"
    unfolding DeferDestroyIdleConnections_def drain_def by (rule unlinked_DeferDestroys)
  then have "unlinked i (DeferDestroyIdleUdpChannels (DeferDestroyIdleConnections ?s1))"
    by (simp add: unlinked_view [of "DeferDestroyIdleUdpChannels (DeferDestroyIdleConnections ?s1)" "DeferDestroyIdleConnections ?s1"])
  then have "unlinked i (CleanDyingConnections (DeferDestroyIdleUdpChannels (DeferDestroyIdleConnections ?s1)))"
    by (simp add: unlinked_def CleanDyingConnections_eq cleans_pool)
  then show ?thesis
    unfolding relay_Tick_def by (subst unlinked_view [OF conn_view_loops(2)])
qed

section \<open>The resolver the relay relies on\<close>

text \<open>
  The contract: a refused resolution leaves the futures as they were, an accepted one neither
  creates nor destroys a future nor changes what its owner wrote in it, and the manager's
  invariant is kept.
\<close>

locale dns_resolver =
  fixes resolve :: "'d resolver"
  assumes refused: "resolve h F (d, fm) = (False, d', fm') \<Longrightarrow> fm' = fm"
    and same_live: "resolve h F (d, fm) = (b, d', fm') \<Longrightarrow> fm_pool fm' E = None \<longleftrightarrow> fm_pool fm E = None"
    and same_owner: "resolve h F (d, fm) = (b, d', fm') \<Longrightarrow> fm_pool fm E = Some G \<Longrightarrow>
      \<exists>G'. fm_pool fm' E = Some G' \<and> fu_owner G' = fu_owner G"
    and keeps_inv: "resolve h F (d, fm) = (b, d', fm') \<Longrightarrow> fm_inv n fm \<Longrightarrow> fm_inv n fm'"
begin

lemma creation_by_name:
  assumes ok: "storage_ok alloc" and inv: "fm_inv n (rl_DnsFutureManager s)"
    and s': "s' = CreateConnection_host alloc resolve r d P h p F s"
  shows "fm_inv n (rl_DnsFutureManager s') \<and>
    (rl_ConnectionFutures s' = SetReady F (rl_ConnectionFutures s) \<and>
       (\<forall>E. fm_pool (rl_DnsFutureManager s') E = None \<longleftrightarrow> fm_pool (rl_DnsFutureManager s) E = None) \<or>
     rl_ConnectionFutures s' = rl_ConnectionFutures s \<and>
       (\<exists>D G. fm_pool (rl_DnsFutureManager s) D = None \<and> fm_pool (rl_DnsFutureManager s') D = Some G \<and>
          fu_owner G = \<lparr>rd_RelayServerId = r, rd_RelaySideDeviceId = d, rd_ProxySideConnectionId = P,
            rd_CreateConnectionFutureHandle = Some F, rd_TargetPort = p\<rparr>))"
proof -
  let ?R = "\<lparr>rd_RelayServerId = r, rd_RelaySideDeviceId = d, rd_ProxySideConnectionId = P,
            rd_CreateConnectionFutureHandle = None, rd_TargetPort = p\<rparr>"
  obtain D fm where acq: "AcquireFuture alloc ?R (rl_DnsFutureManager s) = (D, fm)"
    by fastforce
  have fi: "fm_inv n fm"
    using fm_inv_Acquire [OF ok inv acq] .
  show ?thesis
  proof (cases "D = 0")
    case True
    then show ?thesis
      using acq inv AcquireFuture_0 [of alloc ?R] by (simp add: s' CreateConnection_host_def ready_connection_future_def)
  next
    case False
    note D = AcquireFuture_id [OF ok acq False]
    obtain b d' fm' where res: "resolve h D (rl_Dns s, fm) = (b, d', fm')"
      by (metis prod_cases3)
    show ?thesis
    proof (cases b)
      case True
      obtain G where G: "fm_pool fm' D = Some G" "fu_owner G = ?R"
        using same_owner [OF res, of D "new_future ?R"] D(2) by (auto simp: new_future_def)
      have "fm_inv n (upd_future D (\<lambda>F'. F'\<lparr>fu_owner := (fu_owner F')\<lparr>rd_CreateConnectionFutureHandle := Some F\<rparr>\<rparr>) fm')"
        using keeps_inv [OF res fi] by (intro fm_inv_upd) simp_all
      with acq False res True G D(1) show ?thesis
        by (simp add: s' CreateConnection_host_def upd_future_def) (intro disjI2 exI [of _ D], simp)
    next
      case False
      have fm': "fm' = fm"
        using refused res False by simp
      have Dfm: "fm_pool fm D = Some (new_future ?R)"
        by (simp add: D(2))
      have "fm_inv n (ReleaseFuture D fm)"
        by (rule fm_inv_Release [OF fi Dfm])
      moreover have "fm_pool (ReleaseFuture D fm) E = None \<longleftrightarrow> fm_pool (rl_DnsFutureManager s) E = None" for E
        using D by (simp add: ReleaseFuture_def)
      ultimately show ?thesis
        using acq \<open>D \<noteq> 0\<close> res False fm' by (simp add: s' CreateConnection_host_def ready_connection_future_def)
    qed
  qed
qed

end

lemma answer_from_cache_futures:
  "(fm_pool (snd (answer_from_cache h F st)) E = None) = (fm_pool (snd st) E = None)"
  "fm_pool (snd st) E = Some G \<Longrightarrow>
   \<exists>G'. fm_pool (snd (answer_from_cache h F st)) E = Some G' \<and> fu_owner G' = fu_owner G"
  "fm_inv n (snd st) \<Longrightarrow> fm_inv n (snd (answer_from_cache h F st))"
proof -
  show "(fm_pool (snd (answer_from_cache h F st)) E = None) = (fm_pool (snd st) E = None)"
    and "fm_pool (snd st) E = Some G \<Longrightarrow>
     \<exists>G'. fm_pool (snd (answer_from_cache h F st)) E = Some G' \<and> fu_owner G' = fu_owner G"
    by (auto simp: answer_from_cache_def SetReady_def SetResult_def upd_future_def Let_def
        split: option.split prod.split)
  assume "fm_inv n (snd st)"
  then have "fm_inv n (SetReady F (SetResult F R (snd st)))" for R
    unfolding SetResult_def by (intro fm_inv_SetReady fm_inv_upd) simp_all
  with \<open>fm_inv n (snd st)\<close> show "fm_inv n (snd (answer_from_cache h F st))"
    by (simp add: answer_from_cache_def Let_def split: option.split prod.split)
qed

lemma ResolveDns_futures:
  assumes "ResolveDns asrc areq h F st = (b, st')"
  shows "snd st' = snd st \<or> (b \<and> snd st' = snd (answer_from_cache h F st))"
  using assms by (auto simp: ResolveDns_def Let_def split: option.splits if_splits)

interpretation dns_local: dns_resolver "ResolveDns asrc areq" for asrc areq
proof (unfold_locales, goal_cases)
  case (1 h F d fm d' fm')
  then show ?case using ResolveDns_futures [OF 1] by simp
next
  case (2 h F d fm b d' fm' E)
  then show ?case using ResolveDns_futures [OF 2] answer_from_cache_futures(1) [of h F "(d, fm)" E] by auto
next
  case (3 h F d fm b d' fm' E G)
  then show ?case using ResolveDns_futures [OF 3(1)] answer_from_cache_futures(2) [of "(d, fm)" E G h F] by auto
next
  case (4 h F d fm b d' fm' n)
  then show ?case using ResolveDns_futures [OF 4(1)] answer_from_cache_futures(3) [of n "(d, fm)" h F] by auto
qed

section \<open>Binding the services\<close>

lemma cleans_keep_services [simp]:
  "rl_ProxyService (fold clean_connection q s) = rl_ProxyService s"
  "rl_DnsService (fold clean_connection q s) = rl_DnsService s"
  "rl_ProxyService (fold clean_channel q s) = rl_ProxyService s"
  "rl_DnsService (fold clean_channel q s) = rl_DnsService s"
  by (induction q arbitrary: s) (simp_all add: clean_connection_def clean_channel_def)

text \<open>
  Cleaning forgets the resolver but not the proxy service, so a relay that was bound, cleaned and
  initialised again may be bound to a resolver and dies of binding the proxy service.
\<close>

lemma relay_Clean_services:
  "rl_ProxyService (relay_Clean s) = rl_ProxyService s" "\<not> rl_DnsService (relay_Clean s)"
  by (simp_all add: relay_Clean_def Let_def DestroyLocalDeviceList_def CleanAllUdpChannels_def CleanAllConnections_def
      CleanDyingUdpChannels_def CleanDyingConnections_def drain_def)

lemma relay_rebind_after_Clean:
  assumes "BindProxyService True s = Some s'"
  shows "BindProxyService p (relay_Clean s') = None"
    and "BindDnsService d (relay_Clean s') = Some ((relay_Clean s')\<lparr>rl_DnsService := d\<rparr>)"
  using assms relay_Clean_services [of s'] by (auto simp: BindProxyService_def BindDnsService_def split: if_splits)

section \<open>Properties\<close>

definition fresh_relay ::
    "'d \<Rightarrow> relay_dns_futures \<Rightarrow> 'o create_futures \<Rightarrow> 'o create_futures \<Rightarrow> 'o device_futures \<Rightarrow> ('d, 'o) relay" where
  "fresh_relay d fm cf uf df =
     \<lparr>rl_LocalTicker = 0, rl_LocalRelayServerId = 0, rl_DefaultBufferSize = 0, rl_LocalDeviceList = [],
      rl_LocalDeviceExportAddressMap = [], rl_LocalConnectionPool = Map.empty, rl_LocalUdpChannelPool = Map.empty,
      rl_ConnectionEstablishTimeoutList = [], rl_ConnectionIdleTimeoutList = [], rl_ConnectionKillList = [],
      rl_UdpChannelIdleTimeoutList = [], rl_UdpChannelKillList = [], rl_ConnectionCount = 0,
      rl_UdpChannelCount = 0, rl_ProxyService = False, rl_DnsService = False, rl_Dns = d, rl_DnsFutureManager = fm, rl_ConnectionFutures = cf,
      rl_UdpFutures = uf, rl_DeviceFutures = df, rl_Out = []\<rparr>"


definition example_relay :: "(unit, unit) relay" where
  "example_relay = (fresh_relay () (new_manager 0) (new_manager 0) (new_manager 0) (new_manager 0))
     \<lparr>rl_LocalDeviceList := [\<lparr>dv_DeviceId = Make64 DEVICE_ID_HIGH32_MAGIC 0,
        dv_BindAddress = \<lparr>na_ip = IPV4 [10, 0, 0, 1], na_port = 0\<rparr>,
        dv_ExportAddress = \<lparr>na_ip = IPV4 [1, 2, 3, 4], na_port = 0\<rparr>, dv_EnableTcp = True, dv_EnableUdp = False\<rparr>],
      rl_LocalDeviceExportAddressMap := [(\<lparr>na_ip = IPV4 [1, 2, 3, 4], na_port = 0\<rparr>, Make64 DEVICE_ID_HIGH32_MAGIC 0)]\<rparr>"


text \<open>
  A tick destroys every connection that has been idle for 125 seconds and every marked
  one, keeps the younger ones in their order, and its loops end.
\<close>

theorem relay_tick_reclaims:
  assumes "storage_ok ac" and "relay_inv s" and "rl_LocalTicker s \<le> now"
  shows "let T = now - IDLE_CONNECTION_TIMEOUT_MS; s1 = ProcessDnsResults ac connect (s\<lparr>rl_LocalTicker := now\<rparr>);
      s' = relay_Tick ac connect now s in
    pop_loop_run rl_ConnectionIdleTimeoutList set_idle_connections (idle_connection T) DeferDestroyConnection s1
      = Some (DeferDestroyIdleConnections s1) \<and>
    rl_ConnectionIdleTimeoutList s' = filter (\<lambda>i. T < connection_stamp s i) (rl_ConnectionIdleTimeoutList s) \<and>
    rl_ConnectionKillList s' = [] \<and>
    (\<forall>i C. rl_LocalConnectionPool s' i = Some C \<longrightarrow> \<not> rc_DeleteMark C) \<and>
    (\<forall>i \<in> set (rl_ConnectionIdleTimeoutList s). connection_stamp s i \<le> T \<longrightarrow> rl_LocalConnectionPool s' i = None)"
proof -
  let ?T = "now - IDLE_CONNECTION_TIMEOUT_MS"
  define s1 where "s1 = ProcessDnsResults ac connect (s\<lparr>rl_LocalTicker := now\<rparr>)"
  define s2 where "s2 = DeferDestroyIdleConnections s1"
  define s3 where "s3 = DeferDestroyIdleUdpChannels s2"
  have s': "relay_Tick ac connect now s = CleanDyingUdpChannels (CleanDyingConnections s3)"
    by (simp add: relay_Tick_def s1_def s2_def s3_def)
  have "conn_inv [] (s\<lparr>rl_LocalTicker := now\<rparr>)"
    using assms(2,3) by (intro conn_inv_ticker) (simp_all add: relay_inv_def)
  then have c1: "conn_inv [] s1"
    unfolding s1_def using assms(1) by (rule conn_inv_ProcessDns)
  have idle1: "rl_ConnectionIdleTimeoutList s1 = rl_ConnectionIdleTimeoutList s" and now: "rl_LocalTicker s1 = now"
    by (simp_all add: s1_def ProcessDns_keeps [OF assms(1)])
  have st: "connection_stamp s1 i = connection_stamp s i" if i: "i \<in> set (rl_ConnectionIdleTimeoutList s)" for i
  proof -
    have "i \<in> dom (rl_LocalConnectionPool s)"
      using assms(2) i by (auto simp: relay_inv_def conn_inv_def Let_def)
    then show ?thesis
      using ProcessDns_keeps(1) [OF assms(1), of "s\<lparr>rl_LocalTicker := now\<rparr>" i _ connect]
      by (auto simp: connection_stamp_def s1_def)
  qed
  note eff = DeferDestroyIdle_effect [OF c1, folded s2_def, unfolded now idle1]
  have v: "conn_view s3 = conn_view s2"
    by (simp add: s3_def)
  have inv': "relay_inv (relay_Tick ac connect now s)"
    by (rule relay_inv_Tick [OF assms(2,1,3)])
  have v': "conn_view (relay_Tick ac connect now s) = conn_view (CleanDyingConnections s3)"
    by (simp add: s')
  have kill: "rl_ConnectionKillList (relay_Tick ac connect now s) = []"
    using v' by (simp add: conn_view_def CleanDyingConnections_eq cleans_pool)
  have idle: "rl_ConnectionIdleTimeoutList (relay_Tick ac connect now s) =
      filter (\<lambda>i. ?T < connection_stamp s i) (rl_ConnectionIdleTimeoutList s)"
  proof -
    have "rl_ConnectionIdleTimeoutList (relay_Tick ac connect now s) = rl_ConnectionIdleTimeoutList s2"
      using v v' by (simp add: conn_view_def CleanDyingConnections_eq cleans_pool)
    also have "\<dots> = filter (\<lambda>i. ?T < connection_stamp s i) (rl_ConnectionIdleTimeoutList s)"
      unfolding eff(1) using st by (intro filter_cong) simp_all
    finally show ?thesis .
  qed
  have marks: "\<not> rc_DeleteMark C" if "rl_LocalConnectionPool (relay_Tick ac connect now s) i = Some C" for i C
    using inv' kill that by (auto simp: relay_inv_def conn_inv_def Let_def)
  have gone: "rl_LocalConnectionPool (relay_Tick ac connect now s) i = None"
    if "i \<in> set (rl_ConnectionIdleTimeoutList s)" "connection_stamp s i \<le> ?T" for i
  proof -
    have "i \<in> set (rl_ConnectionKillList s3)"
      using eff(2) st [OF that(1)] that v by (simp add: conn_view_def)
    then show ?thesis
      using v' by (simp add: conn_view_def CleanDyingConnections_eq cleans_pool)
  qed
  have "distinct (rl_ConnectionIdleTimeoutList s1)"
    using c1 by (simp add: conn_inv_def Let_def)
  from relay_idle.loop_is_drain [OF this, of ?T]
  have "pop_loop_run rl_ConnectionIdleTimeoutList set_idle_connections (idle_connection ?T) DeferDestroyConnection s1
      = Some (DeferDestroyIdleConnections s1)"
    by (simp add: DeferDestroyIdleConnections_def now)
  then show ?thesis
    unfolding Let_def s1_def [symmetric] using kill idle marks gone by blast
qed

lemma relay_tick_reclaims_witness:
  "rl_ConnectionKillList (relay_Tick two_slot_alloc (\<lambda>_ _. True) 200000 example_relay) = []"
proof -
  have "relay_inv example_relay"
    by (simp add: relay_inv_def conn_inv_def udp_inv_def example_relay_def fresh_relay_def)
  moreover have "rl_LocalTicker example_relay \<le> 200000"
    by (simp add: example_relay_def fresh_relay_def)
  ultimately show ?thesis
    using relay_tick_reclaims [OF two_slot_alloc_ok, of example_relay 200000 "\<lambda>_ _. True"] by (simp add: Let_def)
qed

text \<open>
  A connection whose creator is gone by the time it connects is never reclaimed. It is in no
  list from its creation on, connecting links it only for a live future, and no number of ticks
  destroys it.
\<close>

theorem relay_orphan_never_reclaimed:
  assumes "storage_ok ac" and "relay_inv s" and "i = ac (dom (rl_LocalConnectionPool s))" and "i \<noteq> 0"
    and "fm_pool (rl_ConnectionFutures s) F = None"
  shows "rl_LocalConnectionPool (fold (relay_Tick ac connect) nows
     (relay_OnConnected i (CreateConnection_bound ac True P F s))) i \<noteq> None"
proof -
  let ?s = "CreateConnection_bound ac True P F s"
  have n: "rl_LocalConnectionPool s i = None"
    using storage_okD [OF assms(1), of "rl_LocalConnectionPool s"] assms(3,4) by simp
  then have "i \<notin> set (rl_ConnectionIdleTimeoutList s)" "i \<notin> set (rl_ConnectionKillList s)"
    using assms(2) by (auto simp: relay_inv_def conn_inv_def Let_def)
  then have "unlinked i (relay_OnConnected i ?s)"
    using assms(3-5) by (simp add: unlinked_def CreateConnection_bound_def relay_OnConnected_def upd_connection_def
        handle_Get_def GetFuture_def Let_def)
  moreover have "unlinked i t \<Longrightarrow> unlinked i (fold (relay_Tick ac connect) nows t)" for t
    by (induction nows arbitrary: t) (simp_all add: unlinked_Tick [OF assms(1)])
  ultimately have "unlinked i (fold (relay_Tick ac connect) nows (relay_OnConnected i ?s))"
    by blast
  then show ?thesis
    by (simp add: unlinked_def)
qed

lemma relay_orphan_never_reclaimed_witness:
  "rl_LocalConnectionPool (fold (relay_Tick two_slot_alloc (\<lambda>_ _. True)) [200000, 900000]
     (relay_OnConnected 1 (CreateConnection_bound two_slot_alloc True 5 1 example_relay))) 1 \<noteq> None"
proof (rule relay_orphan_never_reclaimed [OF two_slot_alloc_ok])
  show "relay_inv example_relay"
    by (simp add: relay_inv_def conn_inv_def udp_inv_def example_relay_def fresh_relay_def)
qed (simp_all add: example_relay_def fresh_relay_def two_slot_alloc_def new_manager_def)

text \<open>
  C37: how the future of a creation ends. When the connection is made the future becomes ready
  with the connection's identifier and the connection is queued as idle; when the peer closes it
  first the future becomes ready without a result and the proxy is told; when the proxy destroys
  the connection the future is left alone. In the last two cases the connection is on the kill list.
\<close>

theorem relay_creation_outcomes:
  assumes "rl_LocalConnectionPool s i = Some C" and "\<not> rc_DeleteMark C"
    and "rc_CreateConnectionFutureHandle C = Some F" and "F \<noteq> 0"
    and "fm_pool (rl_ConnectionFutures s) F = Some G"
  shows "(let s' = relay_OnConnected i s in
      fm_pool (rl_ConnectionFutures s') F = Some (G\<lparr>fu_ready := True, fu_result := Some i\<rparr>) \<and>
      F \<in> set (fm_ready (rl_ConnectionFutures s')) \<and> last (rl_ConnectionIdleTimeoutList s') = i) \<and>
    (let s' = relay_OnPeerClose i s in
      fm_pool (rl_ConnectionFutures s') F = Some (G\<lparr>fu_ready := True\<rparr>) \<and>
      F \<in> set (fm_ready (rl_ConnectionFutures s')) \<and> i \<in> set (rl_ConnectionKillList s') \<and>
      last (rl_Out s') = Proxy_CloseConnection (rc_ProxySideConnectionId C)) \<and>
    (let s' = DestroyConnection r i s in
      rl_ConnectionFutures s' = rl_ConnectionFutures s \<and> i \<in> set (rl_ConnectionKillList s'))"
proof (intro conjI)
  show "let s' = relay_OnConnected i s in
      fm_pool (rl_ConnectionFutures s') F = Some (G\<lparr>fu_ready := True, fu_result := Some i\<rparr>) \<and>
      F \<in> set (fm_ready (rl_ConnectionFutures s')) \<and> last (rl_ConnectionIdleTimeoutList s') = i"
    using assms
    by (simp add: relay_OnConnected_def upd_connection_def handle_Get_def handle_ok_def GetFuture_def
        KeepAlive_connection_def link_idle_def SetReady_def SetResult_def upd_future_def Let_def)
  show "let s' = relay_OnPeerClose i s in
      fm_pool (rl_ConnectionFutures s') F = Some (G\<lparr>fu_ready := True\<rparr>) \<and>
      F \<in> set (fm_ready (rl_ConnectionFutures s')) \<and> i \<in> set (rl_ConnectionKillList s') \<and>
      last (rl_Out s') = Proxy_CloseConnection (rc_ProxySideConnectionId C)"
    using assms
    by (simp add: relay_OnPeerClose_def DeferDestroyConnection_def upd_connection_def handle_Get_def GetFuture_def
        ready_connection_future_def link_kill_def SetReady_def Let_def)
  show "let s' = DestroyConnection r i s in
      rl_ConnectionFutures s' = rl_ConnectionFutures s \<and> i \<in> set (rl_ConnectionKillList s')"
    using assms
    by (simp add: DestroyConnection_def DeferDestroyConnection_def upd_connection_def handle_Get_def link_kill_def Let_def)
qed

definition connecting_relay :: "(unit, unit) relay" where
  "connecting_relay = CreateConnection_bound two_slot_alloc True 5 2
     (example_relay\<lparr>rl_ConnectionFutures := new_manager 0\<lparr>fm_pool := [2 \<mapsto> new_future ()]\<rparr>\<rparr>)"

lemma relay_creation_outcomes_witness:
  "fm_pool (rl_ConnectionFutures (relay_OnConnected 1 connecting_relay)) 2 =
     Some ((new_future ())\<lparr>fu_ready := True, fu_result := Some 1\<rparr>)"
  using relay_creation_outcomes [of connecting_relay 1 "\<lparr>rc_TimestampMS = 0, rc_ProxySideConnectionId = 5,
      rc_CreateConnectionFutureHandle = Some 2, rc_DeleteMark = False, rc_IsConnected = False\<rparr>" 2 "new_future ()"]
  by (simp add: connecting_relay_def CreateConnection_bound_def example_relay_def fresh_relay_def two_slot_alloc_def
      new_manager_def Let_def)

text \<open>
  Devices are found by their export address. After the devices of a list of options are
  created, acquiring a device with the export address of one of the options gives a reference
  that the relay resolves to the device with the option's bind address.
\<close>

theorem relay_device_roundtrip:
  assumes "CreateLocalDeviceList Opts s = Some s'" and "rl_LocalDeviceExportAddressMap s = []"
    and "Opt \<in> set Opts" and "fm_pool (rl_DeviceFutures s') F \<noteq> None"
    and "rq_Strategy Request AND DSS_STATIC_EXPORT_ADDRESS \<noteq> 0" and "rq_ExportAddress Request = bo_ExportAddress Opt"
  shows "\<exists>G R D. fm_pool (rl_DeviceFutures (AcquireDevice Request F s')) F = Some G \<and> fu_ready G \<and>
    fu_result G = Some R \<and> GetDevice s' (dr_RelaySideDeviceId R) = Some D \<and>
    FindDeviceByExportAddress s' (bo_ExportAddress Opt) = Some D \<and>
    dv_BindAddress D = bo_BindAddress Opt \<and> dv_ExportAddress D = bo_ExportAddress Opt"
proof -
  let ?f = "\<lambda>D. (dv_BindAddress D, dv_ExportAddress D)" and ?g = "\<lambda>Opt. (bo_BindAddress Opt, bo_ExportAddress Opt)"
  from assms(1) have e: "rl_LocalDeviceList s = []" and add: "add_local_devices 0 Opts s = Some s'"
    by (auto simp: CreateLocalDeviceList_def split: if_splits option.splits)
  have "devices_inv s"
    by (simp add: devices_inv_def e)
  from add_local_devices_inv [OF add this] e
  have inv: "devices_inv s'" and m: "map ?f (rl_LocalDeviceList s') = map ?g Opts"
    by simp_all
  obtain k where k: "k < length Opts" "Opts ! k = Opt"
    using assms(3) by (auto simp: in_set_conv_nth)
  have len: "length (rl_LocalDeviceList s') = length Opts"
    using arg_cong [OF m, of length] by simp
  have D: "?f (rl_LocalDeviceList s' ! k) = ?g Opt"
    using arg_cong [OF m, of "\<lambda>xs. xs ! k"] k len by simp
  have id: "map_of (rl_LocalDeviceExportAddressMap s') (bo_ExportAddress Opt) = Some (Make64 DEVICE_ID_HIGH32_MAGIC (of_nat k))"
    using inv k(1) len D by (metis devices_inv_def prod.inject)
  have "length (rl_LocalDeviceList s') < 2 ^ 32"
    using inv by (simp add: devices_inv_def)
  note dev = GetDevice_index [OF _ this, of k]
  show ?thesis
    using assms(4-6) id dev D k(1) len
    by (auto simp: AcquireDevice_def SetReady_def SetResult_def upd_future_def FindDeviceByExportAddress_def)
qed

lemma relay_device_roundtrip_witness:
  "\<exists>s' G. CreateLocalDeviceList [\<lparr>bo_BindAddress = no_address, bo_ExportAddress = no_address, bo_EnableTcp = True,
      bo_EnableUdp = False\<rparr>] (fresh_relay () (new_manager 0) (new_manager 0) (new_manager 0)
        (new_manager 0\<lparr>fm_pool := [1 \<mapsto> new_future ()]\<rparr>) :: (unit, unit) relay) = Some s' \<and>
    fm_pool (rl_DeviceFutures (AcquireDevice \<lparr>rq_Flag = 0, rq_LastDeviceId = 0, rq_ExportAddress = no_address,
      rq_Strategy = 64\<rparr> 1 s')) 1 = Some G \<and> fu_ready G"
proof -
  let ?Opt = "\<lparr>bo_BindAddress = no_address, bo_ExportAddress = no_address, bo_EnableTcp = True, bo_EnableUdp = False\<rparr>"
  let ?s = "fresh_relay () (new_manager 0) (new_manager 0) (new_manager 0)
        (new_manager 0\<lparr>fm_pool := [1 \<mapsto> new_future ()]\<rparr>) :: (unit, unit) relay"
  obtain s' where s': "CreateLocalDeviceList [?Opt] ?s = Some s'"
    by (simp add: CreateLocalDeviceList_def fresh_relay_def MakeLocalDeviceId_def)
  have "fm_pool (rl_DeviceFutures s') 1 \<noteq> None"
    using s' by (auto simp: CreateLocalDeviceList_def fresh_relay_def MakeLocalDeviceId_def)
  with relay_device_roundtrip [OF s', of ?Opt 1 "\<lparr>rq_Flag = 0, rq_LastDeviceId = 0, rq_ExportAddress = no_address,
      rq_Strategy = 64\<rparr>"] s' show ?thesis
    by (auto simp: fresh_relay_def DSS_STATIC_EXPORT_ADDRESS_def)
qed

text \<open>
  A creation by host name keeps track of its future. With the caching resolver, either the
  future is ready at once, because no resolution could be started, and the resolver's futures are
  as before, or one new future of the resolver holds the handle, the target port and the device.
\<close>

theorem relay_creation_by_name:
  assumes "storage_ok alloc" and "fm_inv n (rl_DnsFutureManager s)"
  shows "let s' = CreateConnection_host alloc (ResolveDns asrc areq) r d P h p F s in
    fm_inv n (rl_DnsFutureManager s') \<and>
    (rl_ConnectionFutures s' = SetReady F (rl_ConnectionFutures s) \<and>
       (\<forall>E. fm_pool (rl_DnsFutureManager s') E = None \<longleftrightarrow> fm_pool (rl_DnsFutureManager s) E = None) \<or>
     rl_ConnectionFutures s' = rl_ConnectionFutures s \<and>
       (\<exists>D G. fm_pool (rl_DnsFutureManager s) D = None \<and> fm_pool (rl_DnsFutureManager s') D = Some G \<and>
          fu_owner G = \<lparr>rd_RelayServerId = r, rd_RelaySideDeviceId = d, rd_ProxySideConnectionId = P,
            rd_CreateConnectionFutureHandle = Some F, rd_TargetPort = p\<rparr>))"
  using dns_local.creation_by_name [OF assms refl] by (simp only: Let_def)

lemma relay_creation_by_name_witness:
  "fm_inv 0 (rl_DnsFutureManager (CreateConnection_host two_slot_alloc (ResolveDns two_slot_alloc two_slot_alloc)
     0 0 5 [104] 80 1 (fresh_relay fresh_dns_service (new_manager 0) (new_manager 0) (new_manager 0)
        (new_manager 0) :: (dns_service, unit) relay)))"
  using relay_creation_by_name [OF two_slot_alloc_ok, of 0 "fresh_relay fresh_dns_service (new_manager 0)
      (new_manager 0) (new_manager 0) (new_manager 0) :: (dns_service, unit) relay"]
  by (simp add: Let_def fresh_relay_def fm_inv_new)

end
