(* ===== verification/Pa_Core.thy ===== *)
theory Pa_Core
  imports PP_Future PP_Common Auth_Service Relay_Local
begin

text \<open>
  \<open>lib_component/pa_service\<close>, first part: the state of \<open>xProxyAccessService\<close>, its connections and
  UDP channels, the calls it makes to other services, keeping alive, killing and destroying.

  Connections, channels and futures are named by their identifiers in the storages; the pointer
  from a future to its connection is the owner of the future. The services behind the abstract
  interfaces are the functions of a \<open>pa_env\<close> on a world \<open>'w\<close>: a call that takes a future gets the
  world and the manager of that future, and gives both back. What is sent to the clients is
  appended to \<open>pa_Out\<close>.
\<close>

section \<open>State\<close>

datatype eType = UNDETERMINED | S5_CHALLENGE | S5_TCP | S5_UDP | HTTP_RAW | HTTP_NORMAL

datatype xPA_TcpDataProcessor =
    P_KillConnectionOnData | P_OnGuessProxyType | P_OnS5AuthInfo | P_OnS5Target | P_OnRawData
  | P_OnHttpRawHeaderProcessor | P_OnHttpNormalHeaderProcessor | P_OnHttpBody

record xHttpData =
  ht_TargetHost :: bytes
  ht_TargetPort :: uint16
  ht_Content :: bytes
  ht_TempHeaderLine :: bytes
  ht_ContentLengthLeft :: uint64

record pa_connection =
  pc_TimestampMS :: uint64
  pc_ExportIp :: xNetAddress
  pc_BindUdpChannel :: "uint64 option"
  pc_DeleteMark :: bool
  pc_NoAuth :: bool
  pc_EnableUdpTarget :: bool
  pc_DataProcessor :: xPA_TcpDataProcessor
  pc_Type :: eType
  pc_AuthFuture :: "uint64 option"
  pc_AcquireDeviceFuture :: "uint64 option"
  pc_AcquireDeviceConnectionFuture :: "uint64 option"
  pc_AcquireDeviceUdpChannelFuture :: "uint64 option"
  pc_LocalAuthId :: uint64
  pc_GlobalAuthId :: uint64
  pc_DeviceReference :: xDeviceReference
  pc_RelaySideConnectionId :: uint64
  pc_TotalTcpBytesFromClient :: uint64
  pc_TotalTcpBytesToClient :: uint64
  pc_TotalUdpBytesFromClient :: uint64
  pc_TotalUdpBytesToClient :: uint64
  pc_Http :: xHttpData
  pc_StartupTimestampMS :: uint64
  pc_RemoteAddress :: xNetAddress
  pc_LocalAddress :: xNetAddress

record pa_udp_channel =
  pu_ParentConnection :: uint64
  pu_RelaySideUdpChannelId :: uint64
  pu_ClientIpCheckAddress :: xNetAddress
  pu_LastClientIpAddress :: xNetAddress
  pu_BindAddress :: xNetAddress

datatype pa_output =
    Client_Send uint64 bytes
  | Client_SendUdp uint64 xNetAddress bytes

record pa_audit =
  InvalidS5AuthTypeCount :: uint64
  InvalidS5AuthInfo :: uint64
  InvalidS5AuthResult :: uint64
  InvalidS5Target :: uint64
  LocalBindUdpChannelCount :: uint64
  RequestAuthenticationOOM :: uint64
  InitConnectionTimeoutCount :: uint64

type_synonym pa_auth_futures = "(uint64, xAuthResult) future_manager"
type_synonym pa_device_futures = "(uint64, xDeviceReference) future_manager"
type_synonym pa_relay_futures = "(uint64, uint64) future_manager"

record 'w pa =
  pa_LocalTicker :: uint64
  pa_DefaultBufferSize :: uint64
  pa_ClientEntryServerList :: "(xNetAddress \<times> xNetAddress) list"
  pa_ClientConnectionPool :: "uint64 \<Rightarrow> pa_connection option"
  pa_ClientUdpChannelPool :: "uint64 \<Rightarrow> pa_udp_channel option"
  pa_InitTimeoutList :: "uint64 list"
  pa_IdleTimeoutList :: "uint64 list"
  pa_KillList :: "uint64 list"
  pa_GracefulKillList :: "uint64 list"
  pa_AuthFutures :: pa_auth_futures
  pa_DeviceFutures :: pa_device_futures
  pa_ConnectionFutures :: pa_relay_futures
  pa_UdpFutures :: pa_relay_futures
  pa_AuthFutureTimeoutList :: "uint64 list"
  pa_DeviceFutureTimeoutList :: "uint64 list"
  pa_ConnectionFutureTimeoutList :: "uint64 list"
  pa_UdpFutureTimeoutList :: "uint64 list"
  pa_Audit :: pa_audit
  pa_World :: 'w
  pa_Out :: "pa_output list"

text \<open>
  The services, and the functions of \<open>xel\<close>: \<open>R2\<close> and \<open>W2\<close> read and write a port in a stream. \<open>sv_ReportTarget\<close> is \<open>None\<close> when no reporter is bound.
  \<open>Bind\<close> is the outcome of binding a UDP channel (its address), \<open>Behind\<close> what lies in the receive
  buffer behind the received bytes, where \<open>atoi\<close> may read on.
\<close>

record 'w pa_env =
  pa_alloc :: "uint64 set \<Rightarrow> uint64"
  sv_AcquireAuthInfo :: "bytes \<Rightarrow> uint64 \<Rightarrow> 'w \<times> pa_auth_futures \<Rightarrow> 'w \<times> pa_auth_futures"
  sv_ReleaseAuthInfo :: "uint64 \<Rightarrow> xLocalUsage \<Rightarrow> 'w \<Rightarrow> 'w"
  sv_AcquireDevice :: "xDeviceRequest \<Rightarrow> uint64 \<Rightarrow> 'w \<times> pa_device_futures \<Rightarrow> 'w \<times> pa_device_futures"
  sv_CreateConnection_address ::
    "uint64 \<Rightarrow> uint64 \<Rightarrow> uint64 \<Rightarrow> xNetAddress \<Rightarrow> uint64 \<Rightarrow> 'w \<times> pa_relay_futures \<Rightarrow> 'w \<times> pa_relay_futures"
  sv_CreateConnection_host ::
    "uint64 \<Rightarrow> uint64 \<Rightarrow> uint64 \<Rightarrow> bytes \<Rightarrow> uint16 \<Rightarrow> uint64 \<Rightarrow> 'w \<times> pa_relay_futures \<Rightarrow> 'w \<times> pa_relay_futures"
  sv_CreateUdpChannel ::
    "uint64 \<Rightarrow> uint64 \<Rightarrow> uint64 \<Rightarrow> uint64 \<Rightarrow> 'w \<times> pa_relay_futures \<Rightarrow> 'w \<times> pa_relay_futures"
  sv_PostData :: "uint64 \<Rightarrow> uint64 \<Rightarrow> bytes \<Rightarrow> 'w \<Rightarrow> 'w"
  sv_PostUdpData :: "uint64 \<Rightarrow> uint64 \<Rightarrow> xNetAddress \<Rightarrow> bytes \<Rightarrow> 'w \<Rightarrow> 'w"
  sv_DestroyConnection :: "uint64 \<Rightarrow> uint64 \<Rightarrow> 'w \<Rightarrow> 'w"
  sv_DestroyUdpChannel :: "uint64 \<Rightarrow> uint64 \<Rightarrow> 'w \<Rightarrow> 'w"
  sv_ReportTarget :: "(uint64 \<Rightarrow> xNetAddress \<Rightarrow> bytes \<Rightarrow> nat \<Rightarrow> 'w \<Rightarrow> 'w) option"
  IpToString :: "xNetAddress \<Rightarrow> bytes"
  Base64Decode :: "bytes \<Rightarrow> bytes"
  R2 :: "byte \<Rightarrow> byte \<Rightarrow> uint16"
  W2 :: "uint16 \<Rightarrow> bytes"
  Bind :: "xNetAddress \<Rightarrow> xNetAddress option"
  Behind :: bytes

text \<open>
  What a data processor returns: \<open>InvalidDataSize\<close>, the number of bytes it consumed, or an access
  outside of an object, after which C++ promises nothing.
\<close>

datatype processed = InvalidDataSize | Consumed nat | Undefined

definition S5_CONNECTION_ESTABLISHED :: bytes where
  "S5_CONNECTION_ESTABLISHED = [5, 0, 0, 1, 0, 0, 0, 0, 0, 0]"
definition S5_CONNECTION_GENERIC_ERROR :: bytes where
  "S5_CONNECTION_GENERIC_ERROR = [5, 1, 0, 1, 0, 0, 0, 0, 0, 0]"
definition S5_UDPCHANNEL_GENERIC_ERROR :: bytes where
  "S5_UDPCHANNEL_GENERIC_ERROR = [5, 1, 0, 1, 0, 0, 0, 0, 0, 0]"

definition crlf :: bytes where "crlf = [13, 10]"

definition HTTP_200 :: bytes where
  "HTTP_200 = str ''HTTP/1.1 200 Connection Established'' @ crlf @ crlf"
definition HTTP_404 :: bytes where
  "HTTP_404 = str ''HTTP/1.1 404 Not Found'' @ crlf @ crlf"
definition HTTP_407 :: bytes where
  "HTTP_407 = str ''HTTP/1.1 407 Proxy Authentication Required'' @ crlf @
     str ''Proxy-Authenticate: Basic realm='' @ [34] @ str ''generic'' @ [34] @ crlf @
     str ''Connection: close'' @ crlf @ crlf"
definition HTTP_500 :: bytes where
  "HTTP_500 = str ''HTTP/1.1 500 Server Error'' @ crlf @ crlf"
definition HTTP_502 :: bytes where
  "HTTP_502 = str ''HTTP/1.1 502 Bad Gateway'' @ crlf @ crlf"
definition HTTP_503 :: bytes where
  "HTTP_503 = str ''HTTP/1.1 503 Service Unavailable'' @ crlf @
     str ''X-Proxy-Error-Code: RESOURCE_EXHAUSTED'' @ crlf @ str ''Retry-After: 600'' @ crlf @ crlf"

definition CLIENT_CONNECTION_IDLE_TIMEOUT_MS :: uint64 where "CLIENT_CONNECTION_IDLE_TIMEOUT_MS = 125000"
definition PA_CLIENT_AUTH_TIMEOUT_MS :: uint64 where "PA_CLIENT_AUTH_TIMEOUT_MS = 5000"
definition PA_FUTURE_TIMEOUT_MS :: uint64 where "PA_FUTURE_TIMEOUT_MS = 2000"
definition PA_GRACEFUL_KILL_TIMEOUT_MS :: uint64 where "PA_GRACEFUL_KILL_TIMEOUT_MS = 60000"
definition PA_MAX_UDP_PACKET_SIZE :: nat where "PA_MAX_UDP_PACKET_SIZE = 4200"
definition PA_CLIENT_DEFAULT_BUFFER_SIZE :: uint64 where "PA_CLIENT_DEFAULT_BUFFER_SIZE = 16000"

definition no_http :: xHttpData where
  "no_http = \<lparr>ht_TargetHost = [], ht_TargetPort = 0, ht_Content = [], ht_TempHeaderLine = [],
              ht_ContentLengthLeft = 0\<rparr>"

definition no_audit :: pa_audit where
  "no_audit = \<lparr>InvalidS5AuthTypeCount = 0, InvalidS5AuthInfo = 0, InvalidS5AuthResult = 0, InvalidS5Target = 0,
               LocalBindUdpChannelCount = 0,
               RequestAuthenticationOOM = 0, InitConnectionTimeoutCount = 0\<rparr>"

definition fresh_pa :: "uint64 \<Rightarrow> 'w \<Rightarrow> 'w pa" where
  "fresh_pa n w =
     \<lparr>pa_LocalTicker = 0, pa_DefaultBufferSize = 0, pa_ClientEntryServerList = [],
      pa_ClientConnectionPool = Map.empty, pa_ClientUdpChannelPool = Map.empty,
      pa_InitTimeoutList = [], pa_IdleTimeoutList = [], pa_KillList = [], pa_GracefulKillList = [],
      pa_AuthFutures = new_manager n, pa_DeviceFutures = new_manager n,
      pa_ConnectionFutures = new_manager n, pa_UdpFutures = new_manager n,
      pa_AuthFutureTimeoutList = [], pa_DeviceFutureTimeoutList = [],
      pa_ConnectionFutureTimeoutList = [], pa_UdpFutureTimeoutList = [],
      pa_Audit = no_audit, pa_World = w, pa_Out = []\<rparr>"

section \<open>Writing to connections and clients\<close>

definition upd_conn :: "uint64 \<Rightarrow> (pa_connection \<Rightarrow> pa_connection) \<Rightarrow> 'w pa \<Rightarrow> 'w pa" where
  "upd_conn i f s =
     s\<lparr>pa_ClientConnectionPool := (pa_ClientConnectionPool s)(i := map_option f (pa_ClientConnectionPool s i))\<rparr>"

definition conn :: "uint64 \<Rightarrow> 'w pa \<Rightarrow> pa_connection" where
  "conn i s = the (pa_ClientConnectionPool s i)"

definition on_world :: "('w \<Rightarrow> 'w) \<Rightarrow> 'w pa \<Rightarrow> 'w pa" where
  "on_world f s = s\<lparr>pa_World := f (pa_World s)\<rparr>"

definition Connection_PostData :: "uint64 \<Rightarrow> bytes \<Rightarrow> 'w pa \<Rightarrow> 'w pa" where
  "Connection_PostData i Data s = s\<lparr>pa_Out := pa_Out s @ [Client_Send i Data]\<rparr>"

abbreviation set_processor :: "uint64 \<Rightarrow> xPA_TcpDataProcessor \<Rightarrow> 'w pa \<Rightarrow> 'w pa" where
  "set_processor i p \<equiv> upd_conn i (\<lambda>C. C\<lparr>pc_DataProcessor := p\<rparr>)"

abbreviation set_type :: "uint64 \<Rightarrow> eType \<Rightarrow> 'w pa \<Rightarrow> 'w pa" where
  "set_type i t \<equiv> upd_conn i (\<lambda>C. C\<lparr>pc_Type := t\<rparr>)"

abbreviation upd_audit :: "(pa_audit \<Rightarrow> pa_audit) \<Rightarrow> 'w pa \<Rightarrow> 'w pa" where
  "upd_audit f s \<equiv> s\<lparr>pa_Audit := f (pa_Audit s)\<rparr>"

definition SendS5AuthLimited :: "uint64 \<Rightarrow> 'w pa \<Rightarrow> 'w pa" where
  "SendS5AuthLimited i = Connection_PostData i [5, 0xFF]"

definition SendS5AuthError :: "uint64 \<Rightarrow> 'w pa \<Rightarrow> 'w pa" where
  "SendS5AuthError i s =
     (if pc_NoAuth (conn i s) then Connection_PostData i [5, 0xFF] s
      else Connection_PostData i [1, 1] s)"

definition SendS5AuthAccepted :: "uint64 \<Rightarrow> 'w pa \<Rightarrow> 'w pa" where
  "SendS5AuthAccepted i s =
     (if pc_NoAuth (conn i s) then Connection_PostData i [5, 0] s
      else Connection_PostData i [1, 0] s)"

definition Send200 :: "uint64 \<Rightarrow> 'w pa \<Rightarrow> 'w pa" where "Send200 i = Connection_PostData i HTTP_200"
definition Send404 :: "uint64 \<Rightarrow> 'w pa \<Rightarrow> 'w pa" where "Send404 i = Connection_PostData i HTTP_404"
definition Send407 :: "uint64 \<Rightarrow> 'w pa \<Rightarrow> 'w pa" where "Send407 i = Connection_PostData i HTTP_407"
definition Send500 :: "uint64 \<Rightarrow> 'w pa \<Rightarrow> 'w pa" where "Send500 i = Connection_PostData i HTTP_500"
definition Send502 :: "uint64 \<Rightarrow> 'w pa \<Rightarrow> 'w pa" where "Send502 i = Connection_PostData i HTTP_502"
definition Send503 :: "uint64 \<Rightarrow> 'w pa \<Rightarrow> 'w pa" where "Send503 i = Connection_PostData i HTTP_503"

section \<open>Keeping alive and killing\<close>

text \<open>The timeout lists share the node of a connection: linking it in one takes it from the others.\<close>

definition unlink :: "uint64 \<Rightarrow> 'w pa \<Rightarrow> 'w pa" where
  "unlink i s =
     s\<lparr>pa_InitTimeoutList := removeAll i (pa_InitTimeoutList s),
       pa_IdleTimeoutList := removeAll i (pa_IdleTimeoutList s),
       pa_KillList := removeAll i (pa_KillList s),
       pa_GracefulKillList := removeAll i (pa_GracefulKillList s)\<rparr>"

definition KeepAlive :: "uint64 \<Rightarrow> 'w pa \<Rightarrow> bool \<times> 'w pa" where
  "KeepAlive i s =
     (if pc_DeleteMark (conn i s) then (False, s)
      else
        let s = unlink i (upd_conn i (\<lambda>C. C\<lparr>pc_TimestampMS := pa_LocalTicker s\<rparr>) s)
        in (True, s\<lparr>pa_IdleTimeoutList := add_tail (pa_IdleTimeoutList s) i\<rparr>))"

definition DeferKill :: "uint64 \<Rightarrow> 'w pa \<Rightarrow> 'w pa" where
  "DeferKill i s =
     (let s = unlink i (upd_conn i (\<lambda>C. C\<lparr>pc_DeleteMark := True\<rparr>) s)
      in s\<lparr>pa_KillList := add_tail (pa_KillList s) i\<rparr>)"

text \<open>\<open>HasPendingWrites\<close> is the state of the socket's send buffer.\<close>

definition DeferGracefulKill :: "bool \<Rightarrow> uint64 \<Rightarrow> 'w pa \<Rightarrow> 'w pa" where
  "DeferGracefulKill HasPendingWrites i s =
     (if pc_DeleteMark (conn i s) then s
      else
        let s = upd_conn i (\<lambda>C. C\<lparr>pc_DeleteMark := True\<rparr>) s in
        if HasPendingWrites
        then
          let s = unlink i (upd_conn i (\<lambda>C. C\<lparr>pc_TimestampMS := pa_LocalTicker s\<rparr>) s)
          in s\<lparr>pa_GracefulKillList := add_tail (pa_GracefulKillList s) i\<rparr>
        else s)"

section \<open>Futures and requests\<close>

text \<open>A released future is destroyed, which unlinks it from the ready and the timeout list.\<close>

definition ReleaseAuthFuture :: "uint64 \<Rightarrow> 'w pa \<Rightarrow> 'w pa" where
  "ReleaseAuthFuture i s =
     (case pc_AuthFuture (conn i s) of
        None \<Rightarrow> s
      | Some F \<Rightarrow>
          let s = upd_conn i (\<lambda>C. C\<lparr>pc_AuthFuture := None\<rparr>) s
          in s\<lparr>pa_AuthFutures := ReleaseFuture F (pa_AuthFutures s),
               pa_AuthFutureTimeoutList := removeAll F (pa_AuthFutureTimeoutList s)\<rparr>)"

definition ReleaseAcquireDeviceFuture :: "uint64 \<Rightarrow> 'w pa \<Rightarrow> 'w pa" where
  "ReleaseAcquireDeviceFuture i s =
     (case pc_AcquireDeviceFuture (conn i s) of
        None \<Rightarrow> s
      | Some F \<Rightarrow>
          let s = upd_conn i (\<lambda>C. C\<lparr>pc_AcquireDeviceFuture := None\<rparr>) s
          in s\<lparr>pa_DeviceFutures := ReleaseFuture F (pa_DeviceFutures s),
               pa_DeviceFutureTimeoutList := removeAll F (pa_DeviceFutureTimeoutList s)\<rparr>)"

definition ReleaseAcquireDeviceConnectionFuture :: "uint64 \<Rightarrow> 'w pa \<Rightarrow> 'w pa" where
  "ReleaseAcquireDeviceConnectionFuture i s =
     (case pc_AcquireDeviceConnectionFuture (conn i s) of
        None \<Rightarrow> s
      | Some F \<Rightarrow>
          let s = upd_conn i (\<lambda>C. C\<lparr>pc_AcquireDeviceConnectionFuture := None\<rparr>) s
          in s\<lparr>pa_ConnectionFutures := ReleaseFuture F (pa_ConnectionFutures s),
               pa_ConnectionFutureTimeoutList := removeAll F (pa_ConnectionFutureTimeoutList s)\<rparr>)"

definition ReleaseAcquireDeviceUdpChannelFuture :: "uint64 \<Rightarrow> 'w pa \<Rightarrow> 'w pa" where
  "ReleaseAcquireDeviceUdpChannelFuture i s =
     (case pc_AcquireDeviceUdpChannelFuture (conn i s) of
        None \<Rightarrow> s
      | Some F \<Rightarrow>
          let s = upd_conn i (\<lambda>C. C\<lparr>pc_AcquireDeviceUdpChannelFuture := None\<rparr>) s
          in s\<lparr>pa_UdpFutures := ReleaseFuture F (pa_UdpFutures s),
               pa_UdpFutureTimeoutList := removeAll F (pa_UdpFutureTimeoutList s)\<rparr>)"

definition ReportTarget_address :: "'w pa_env \<Rightarrow> uint64 \<Rightarrow> xNetAddress \<Rightarrow> 'w pa \<Rightarrow> 'w pa" where
  "ReportTarget_address E GlobalAuthId Address s =
     (case sv_ReportTarget E of
        None \<Rightarrow> s
      | Some Report \<Rightarrow> on_world (Report GlobalAuthId Address [] 1) s)"

definition ReportTarget_host :: "'w pa_env \<Rightarrow> uint64 \<Rightarrow> bytes \<Rightarrow> 'w pa \<Rightarrow> 'w pa" where
  "ReportTarget_host E GlobalAuthId TargetHost s =
     (case sv_ReportTarget E of
        None \<Rightarrow> s
      | Some Report \<Rightarrow> on_world (Report GlobalAuthId no_address TargetHost 1) s)"

definition RequestAuthentication :: "'w pa_env \<Rightarrow> uint64 \<Rightarrow> bytes \<Rightarrow> 'w pa \<Rightarrow> uint64 option \<times> 'w pa" where
  "RequestAuthentication E i AuthView s =
     (let (F, fm) = AcquireFuture (pa_alloc E) i (pa_AuthFutures s) in
      if F = 0 then (None, s)
      else
        let (w, fm) = sv_AcquireAuthInfo E AuthView F (pa_World s, fm)
        in (Some F, s\<lparr>pa_World := w, pa_AuthFutures := fm\<rparr>))"

definition RequestDevice :: "'w pa_env \<Rightarrow> uint64 \<Rightarrow> xDeviceRequest \<Rightarrow> 'w pa \<Rightarrow> uint64 option \<times> 'w pa" where
  "RequestDevice E i Request s =
     (let (F, fm) = AcquireFuture (pa_alloc E) i (pa_DeviceFutures s) in
      if F = 0 then (None, s)
      else
        let (w, fm) = sv_AcquireDevice E Request F (pa_World s, fm)
        in (Some F, s\<lparr>pa_World := w, pa_DeviceFutures := fm\<rparr>))"

definition RequestDeviceConnection_address ::
    "'w pa_env \<Rightarrow> uint64 \<Rightarrow> xNetAddress \<Rightarrow> 'w pa \<Rightarrow> uint64 option \<times> 'w pa" where
  "RequestDeviceConnection_address E i TargetAddress s =
     (let C = conn i s;
          s = ReportTarget_address E (pc_GlobalAuthId C) (addr_Ip TargetAddress) s;
          (F, fm) = AcquireFuture (pa_alloc E) i (pa_ConnectionFutures s) in
      if F = 0 then (None, s)
      else
        let (w, fm) = sv_CreateConnection_address E (dr_RelayServerId (pc_DeviceReference C))
              (dr_RelaySideDeviceId (pc_DeviceReference C)) i TargetAddress F (pa_World s, fm)
        in (Some F, s\<lparr>pa_World := w, pa_ConnectionFutures := fm\<rparr>))"

definition RequestDeviceConnection_host ::
    "'w pa_env \<Rightarrow> uint64 \<Rightarrow> bytes \<Rightarrow> uint16 \<Rightarrow> 'w pa \<Rightarrow> uint64 option \<times> 'w pa" where
  "RequestDeviceConnection_host E i TargetHostname TargetPort s =
     (let C = conn i s;
          s = ReportTarget_host E (pc_GlobalAuthId C) TargetHostname s;
          (F, fm) = AcquireFuture (pa_alloc E) i (pa_ConnectionFutures s) in
      if F = 0 then (None, s)
      else
        let (w, fm) = sv_CreateConnection_host E (dr_RelayServerId (pc_DeviceReference C))
              (dr_RelaySideDeviceId (pc_DeviceReference C)) i TargetHostname TargetPort F (pa_World s, fm)
        in (Some F, s\<lparr>pa_World := w, pa_ConnectionFutures := fm\<rparr>))"

definition RequestDeviceUdpChannel :: "'w pa_env \<Rightarrow> uint64 \<Rightarrow> 'w pa \<Rightarrow> uint64 option \<times> 'w pa" where
  "RequestDeviceUdpChannel E i s =
     (let C = conn i s;
          (F, fm) = AcquireFuture (pa_alloc E) i (pa_UdpFutures s) in
      if F = 0 then (None, s)
      else
        let (w, fm) = sv_CreateUdpChannel E (dr_RelayServerId (pc_DeviceReference C))
              (dr_RelaySideDeviceId (pc_DeviceReference C)) (the (pc_BindUdpChannel C)) F (pa_World s, fm)
        in (Some F, s\<lparr>pa_World := w, pa_UdpFutures := fm\<rparr>))"

section \<open>Destroying\<close>

definition connection_usage :: "pa_connection \<Rightarrow> xLocalUsage" where
  "connection_usage C =
     \<lparr>lu_Dirty = False, lu_TotalTcpConnections = 1,
      lu_TotalTcpBytesFromClient = pc_TotalTcpBytesFromClient C,
      lu_TotalTcpBytesToClient = pc_TotalTcpBytesToClient C,
      lu_TotalUdpChannels = (if pc_BindUdpChannel C \<noteq> None then 1 else 0),
      lu_TotalUdpBytesFromClient = pc_TotalUdpBytesFromClient C,
      lu_TotalUdpBytesToClient = pc_TotalUdpBytesToClient C\<rparr>"

definition release_bound_channel :: "uint64 \<Rightarrow> 'w pa \<Rightarrow> 'w pa" where
  "release_bound_channel i s =
     (case pc_BindUdpChannel (conn i s) of
        None \<Rightarrow> s
      | Some u \<Rightarrow>
          let s = upd_conn i (\<lambda>C. C\<lparr>pc_BindUdpChannel := None\<rparr>) s
          in s\<lparr>pa_ClientUdpChannelPool := (pa_ClientUdpChannelPool s)(u := None)\<rparr>)"

definition pa_DestroyConnection :: "'w pa_env \<Rightarrow> uint64 \<Rightarrow> 'w pa \<Rightarrow> 'w pa" where
  "pa_DestroyConnection E i s =
     (let C = conn i s;
          s = (if pc_LocalAuthId C \<noteq> 0
               then on_world (sv_ReleaseAuthInfo E (pc_LocalAuthId C) (connection_usage C)) s else s);
          s = ReleaseAuthFuture i s;
          s = ReleaseAcquireDeviceFuture i s;
          s = ReleaseAcquireDeviceConnectionFuture i s;
          s = ReleaseAcquireDeviceUdpChannelFuture i s;
          s = release_bound_channel i s;
          s = unlink i s
      in s\<lparr>pa_ClientConnectionPool := (pa_ClientConnectionPool s)(i := None)\<rparr>)"

abbreviation set_init_list :: "uint64 list \<Rightarrow> 'w pa \<Rightarrow> 'w pa" where
  "set_init_list q s \<equiv> s\<lparr>pa_InitTimeoutList := q\<rparr>"
abbreviation set_idle_list :: "uint64 list \<Rightarrow> 'w pa \<Rightarrow> 'w pa" where
  "set_idle_list q s \<equiv> s\<lparr>pa_IdleTimeoutList := q\<rparr>"
abbreviation set_graceful_list :: "uint64 list \<Rightarrow> 'w pa \<Rightarrow> 'w pa" where
  "set_graceful_list q s \<equiv> s\<lparr>pa_GracefulKillList := q\<rparr>"
abbreviation set_kill_list :: "uint64 list \<Rightarrow> 'w pa \<Rightarrow> 'w pa" where
  "set_kill_list q s \<equiv> s\<lparr>pa_KillList := q\<rparr>"

definition conn_older :: "uint64 \<Rightarrow> 'w pa \<Rightarrow> uint64 \<Rightarrow> bool" where
  "conn_older KillTimepoint s i \<longleftrightarrow> pc_TimestampMS (conn i s) \<le> KillTimepoint"

definition move_to_kill :: "uint64 \<Rightarrow> 'w pa \<Rightarrow> 'w pa" where
  "move_to_kill i s = s\<lparr>pa_KillList := add_tail (pa_KillList s) i\<rparr>"

definition init_timeout :: "uint64 \<Rightarrow> 'w pa \<Rightarrow> 'w pa" where
  "init_timeout i s =
     upd_audit (\<lambda>A. A\<lparr>InitConnectionTimeoutCount := InitConnectionTimeoutCount A + 1\<rparr>) (move_to_kill i s)"

definition DeferKillInitTimeoutConnection :: "'w pa \<Rightarrow> 'w pa" where
  "DeferKillInitTimeoutConnection s =
     (let KillTimepoint = pa_LocalTicker s - PA_CLIENT_AUTH_TIMEOUT_MS
      in pop_all pa_InitTimeoutList set_init_list (conn_older KillTimepoint) init_timeout s)"

definition DeferKillIdleTimeoutConnection :: "'w pa \<Rightarrow> 'w pa" where
  "DeferKillIdleTimeoutConnection s =
     (let KillTimepoint = pa_LocalTicker s - CLIENT_CONNECTION_IDLE_TIMEOUT_MS
      in pop_all pa_IdleTimeoutList set_idle_list (conn_older KillTimepoint) move_to_kill s)"

definition DeferGracefulKillConnection :: "'w pa \<Rightarrow> 'w pa" where
  "DeferGracefulKillConnection s =
     (let KillTimepoint = pa_LocalTicker s - PA_GRACEFUL_KILL_TIMEOUT_MS
      in pop_all pa_GracefulKillList set_graceful_list (conn_older KillTimepoint) move_to_kill s)"

definition ExcuteKillConnection :: "'w pa_env \<Rightarrow> 'w pa \<Rightarrow> 'w pa" where
  "ExcuteKillConnection E s =
     pop_all pa_KillList set_kill_list (\<lambda>_ _. True) (pa_DestroyConnection E) s"

section \<open>Listeners of the TCP connections\<close>

definition new_pa_connection :: "xNetAddress \<Rightarrow> xNetAddress \<Rightarrow> xNetAddress \<Rightarrow> uint64 \<Rightarrow> pa_connection" where
  "new_pa_connection ExportIp Remote Local NowMS =
     \<lparr>pc_TimestampMS = NowMS, pc_ExportIp = ExportIp, pc_BindUdpChannel = None, pc_DeleteMark = False,
      pc_NoAuth = False, pc_EnableUdpTarget = False, pc_DataProcessor = P_OnGuessProxyType,
      pc_Type = UNDETERMINED, pc_AuthFuture = None, pc_AcquireDeviceFuture = None,
      pc_AcquireDeviceConnectionFuture = None, pc_AcquireDeviceUdpChannelFuture = None,
      pc_LocalAuthId = 0, pc_GlobalAuthId = 0,
      pc_DeviceReference = \<lparr>dr_RelayServerId = 0, dr_RelaySideDeviceId = 0\<rparr>,
      pc_RelaySideConnectionId = 0, pc_TotalTcpBytesFromClient = 0, pc_TotalTcpBytesToClient = 0,
      pc_TotalUdpBytesFromClient = 0, pc_TotalUdpBytesToClient = 0, pc_Http = no_http,
      pc_StartupTimestampMS = NowMS, pc_RemoteAddress = Remote, pc_LocalAddress = Local\<rparr>"

text \<open>\<open>socket\<close> gives the two ends of the accepted socket, or the failure of its initialisation.\<close>

definition OnNewConnection ::
    "'w pa_env \<Rightarrow> xNetAddress \<Rightarrow> (xNetAddress \<times> xNetAddress) option \<Rightarrow> 'w pa \<Rightarrow> 'w pa" where
  "OnNewConnection E ExportIp socket s =
     (let i = pa_alloc E (dom (pa_ClientConnectionPool s)) in
      if i = 0 then s
      else case socket of
        None \<Rightarrow> s
      | Some (Remote, Local) \<Rightarrow>
          s\<lparr>pa_ClientConnectionPool := (pa_ClientConnectionPool s)
              (i \<mapsto> new_pa_connection ExportIp Remote Local (pa_LocalTicker s)),
            pa_InitTimeoutList := add_tail (pa_InitTimeoutList s) i\<rparr>)"

definition pa_OnPeerClose :: "'w pa_env \<Rightarrow> uint64 \<Rightarrow> 'w pa \<Rightarrow> 'w pa" where
  "pa_OnPeerClose E i s =
     (let C = conn i s in
      if pc_DeleteMark C then s
      else
        let Server = dr_RelayServerId (pc_DeviceReference C);
            s = (if pc_RelaySideConnectionId C \<noteq> 0
                 then on_world (sv_DestroyConnection E Server (pc_RelaySideConnectionId C)) s
                 else case (pc_Type C, pc_BindUdpChannel C) of
                   (S5_UDP, Some u) \<Rightarrow>
                     on_world (sv_DestroyUdpChannel E Server
                       (pu_RelaySideUdpChannelId (the (pa_ClientUdpChannelPool s u)))) s
                 | _ \<Rightarrow> s)
        in DeferKill i s)"

definition pa_OnFlush :: "uint64 \<Rightarrow> 'w pa \<Rightarrow> 'w pa" where
  "pa_OnFlush i s = (if pc_DeleteMark (conn i s) then DeferKill i s else s)"

definition KillConnectionOnData :: "uint64 \<Rightarrow> bytes \<Rightarrow> 'w pa \<Rightarrow> processed \<times> 'w pa" where
  "KillConnectionOnData i Data s = (InvalidDataSize, s)"

definition OnRawData :: "'w pa_env \<Rightarrow> uint64 \<Rightarrow> bytes \<Rightarrow> 'w pa \<Rightarrow> processed \<times> 'w pa" where
  "OnRawData E i Data s =
     (let (alive, s) = KeepAlive i s in
      if \<not> alive then (Consumed 0, s)
      else
        let C = conn i s
        in (Consumed (length Data),
            on_world (sv_PostData E (dr_RelayServerId (pc_DeviceReference C)) (pc_RelaySideConnectionId C) Data) s))"

end
