(* ===== verification/Pa_Results.thy ===== *)
theory Pa_Results
  imports Pa_Core
begin

text \<open>
  \<open>lib_component/pa_service\<close>, second part: the results of the futures (authentication, device,
  connection, UDP channel), and the calls the relay makes to the proxy service.
\<close>

section \<open>Results of futures\<close>

text \<open>
  The handlers get the future's identifier. \<open>owner\<close> is the connection it points to, and the scope
  guards release the future that the connection holds when the handler is left.
\<close>

definition auth_owner :: "uint64 \<Rightarrow> 'w pa \<Rightarrow> uint64" where
  "auth_owner F s = fu_owner (the (fm_pool (pa_AuthFutures s) F))"
definition auth_result :: "uint64 \<Rightarrow> 'w pa \<Rightarrow> xAuthResult option" where
  "auth_result F s = fu_result (the (fm_pool (pa_AuthFutures s) F))"
definition device_owner :: "uint64 \<Rightarrow> 'w pa \<Rightarrow> uint64" where
  "device_owner F s = fu_owner (the (fm_pool (pa_DeviceFutures s) F))"
definition device_result :: "uint64 \<Rightarrow> 'w pa \<Rightarrow> xDeviceReference option" where
  "device_result F s = fu_result (the (fm_pool (pa_DeviceFutures s) F))"
definition connection_owner :: "uint64 \<Rightarrow> 'w pa \<Rightarrow> uint64" where
  "connection_owner F s = fu_owner (the (fm_pool (pa_ConnectionFutures s) F))"
definition connection_result :: "uint64 \<Rightarrow> 'w pa \<Rightarrow> uint64 option" where
  "connection_result F s = fu_result (the (fm_pool (pa_ConnectionFutures s) F))"
definition udp_owner :: "uint64 \<Rightarrow> 'w pa \<Rightarrow> uint64" where
  "udp_owner F s = fu_owner (the (fm_pool (pa_UdpFutures s) F))"
definition udp_result :: "uint64 \<Rightarrow> 'w pa \<Rightarrow> uint64 option" where
  "udp_result F s = fu_result (the (fm_pool (pa_UdpFutures s) F))"

definition export_request :: "xNetAddress \<Rightarrow> xDeviceRequest" where
  "export_request ExportAddress =
     \<lparr>rq_Flag = 0, rq_LastDeviceId = 0, rq_ExportAddress = ExportAddress, rq_Strategy = DSS_STATIC_EXPORT_ADDRESS\<rparr>"

definition OnS5AuthResult :: "'w pa_env \<Rightarrow> uint64 \<Rightarrow> uint64 \<Rightarrow> 'w pa \<Rightarrow> 'w pa" where
  "OnS5AuthResult E i F s =
     (case auth_result F s of
        None \<Rightarrow> SendS5AuthError i s
      | Some Result \<Rightarrow>
          let s = upd_conn i (\<lambda>C. C\<lparr>pc_LocalAuthId := as_LocalAuthId Result, pc_GlobalAuthId := as_GlobalAuthId Result,
                                     pc_EnableUdpTarget := as_EnableUdp Result\<rparr>) s;
              (D, s) = RequestDevice E i (export_request (as_ExportAddress Result)) s;
              s = upd_conn i (\<lambda>C. C\<lparr>pc_AcquireDeviceFuture := D\<rparr>) s
          in if D = None then SendS5AuthError i s else s)"

definition OnHttpAuthResult :: "'w pa_env \<Rightarrow> uint64 \<Rightarrow> uint64 \<Rightarrow> 'w pa \<Rightarrow> 'w pa" where
  "OnHttpAuthResult E i F s =
     (case auth_result F s of
        None \<Rightarrow> Send407 i s
      | Some Result \<Rightarrow>
          let s = upd_conn i (\<lambda>C. C\<lparr>pc_LocalAuthId := as_LocalAuthId Result, pc_GlobalAuthId := as_GlobalAuthId Result\<rparr>) s;
              (D, s) = RequestDevice E i (export_request (as_ExportAddress Result)) s;
              s = upd_conn i (\<lambda>C. C\<lparr>pc_AcquireDeviceFuture := D\<rparr>) s
          in if D = None then Send407 i s else s)"

definition OnAuthResult :: "'w pa_env \<Rightarrow> uint64 \<Rightarrow> 'w pa \<Rightarrow> 'w pa" where
  "OnAuthResult E F s =
     (let i = auth_owner F s;
          s = (case pc_Type (conn i s) of
                 S5_CHALLENGE \<Rightarrow> OnS5AuthResult E i F s
               | HTTP_RAW \<Rightarrow> OnHttpAuthResult E i F s
               | HTTP_NORMAL \<Rightarrow> OnHttpAuthResult E i F s
               | _ \<Rightarrow> s)
      in ReleaseAuthFuture i s)"

definition OnS5AcquireDeviceResult :: "uint64 \<Rightarrow> uint64 \<Rightarrow> 'w pa \<Rightarrow> 'w pa" where
  "OnS5AcquireDeviceResult i F s =
     (case device_result F s of
        None \<Rightarrow> SendS5AuthError i s
      | Some Result \<Rightarrow>
          SendS5AuthAccepted i
            (upd_conn i (\<lambda>C. C\<lparr>pc_DeviceReference := Result, pc_DataProcessor := P_OnS5Target\<rparr>) s))"

definition OnHttpAcquireDeviceResult :: "'w pa_env \<Rightarrow> uint64 \<Rightarrow> uint64 \<Rightarrow> 'w pa \<Rightarrow> 'w pa" where
  "OnHttpAcquireDeviceResult E i F s =
     (case device_result F s of
        None \<Rightarrow> Send500 i s
      | Some Result \<Rightarrow>
          let s = upd_conn i (\<lambda>C. C\<lparr>pc_DeviceReference := Result\<rparr>) s;
              Http = pc_Http (conn i s);
              (R, s) = RequestDeviceConnection_host E i (ht_TargetHost Http) (ht_TargetPort Http) s;
              s = upd_conn i (\<lambda>C. C\<lparr>pc_AcquireDeviceConnectionFuture := R\<rparr>) s
          in if R = None then Send500 i s else s)"

definition OnAcquireDeviceResult :: "'w pa_env \<Rightarrow> uint64 \<Rightarrow> 'w pa \<Rightarrow> 'w pa" where
  "OnAcquireDeviceResult E F s =
     (let i = device_owner F s;
          s = (case pc_Type (conn i s) of
                 S5_CHALLENGE \<Rightarrow> OnS5AcquireDeviceResult i F s
               | HTTP_RAW \<Rightarrow> OnHttpAcquireDeviceResult E i F s
               | HTTP_NORMAL \<Rightarrow> OnHttpAcquireDeviceResult E i F s
               | _ \<Rightarrow> s)
      in ReleaseAcquireDeviceFuture i s)"

definition OnS5AcquireDeviceConnectionResult :: "uint64 \<Rightarrow> uint64 \<Rightarrow> 'w pa \<Rightarrow> 'w pa" where
  "OnS5AcquireDeviceConnectionResult i F s =
     (case connection_result F s of
        None \<Rightarrow> Connection_PostData i S5_CONNECTION_GENERIC_ERROR s
      | Some Result \<Rightarrow>
          Connection_PostData i S5_CONNECTION_ESTABLISHED
            (upd_conn i (\<lambda>C. C\<lparr>pc_RelaySideConnectionId := Result, pc_DataProcessor := P_OnRawData\<rparr>) s))"

definition OnHttpRawAcquireDeviceConnectionResult :: "uint64 \<Rightarrow> uint64 \<Rightarrow> 'w pa \<Rightarrow> 'w pa" where
  "OnHttpRawAcquireDeviceConnectionResult i F s =
     (case connection_result F s of
        None \<Rightarrow> Send502 i s
      | Some Result \<Rightarrow>
          Send200 i
            (upd_conn i (\<lambda>C. C\<lparr>pc_RelaySideConnectionId := Result, pc_DataProcessor := P_OnRawData\<rparr>) s))"

definition OnHttpNormalAcquireDeviceConnectionResult :: "'w pa_env \<Rightarrow> uint64 \<Rightarrow> uint64 \<Rightarrow> 'w pa \<Rightarrow> 'w pa" where
  "OnHttpNormalAcquireDeviceConnectionResult E i F s =
     (case connection_result F s of
        None \<Rightarrow> Send502 i s
      | Some Result \<Rightarrow>
          let s = upd_conn i (\<lambda>C. C\<lparr>pc_RelaySideConnectionId := Result\<rparr>) s;
              C = conn i s;
              s = on_world (sv_PostData E (dr_RelayServerId (pc_DeviceReference C)) (pc_RelaySideConnectionId C)
                    (ht_Content (pc_Http C))) s
          in upd_conn i (\<lambda>C. C\<lparr>pc_Http := (pc_Http C)\<lparr>ht_Content := []\<rparr>\<rparr>) s)"

definition OnAcquireDeviceConnectionResult :: "'w pa_env \<Rightarrow> uint64 \<Rightarrow> 'w pa \<Rightarrow> 'w pa" where
  "OnAcquireDeviceConnectionResult E F s =
     (let i = connection_owner F s;
          s = (case pc_Type (conn i s) of
                 S5_TCP \<Rightarrow> OnS5AcquireDeviceConnectionResult i F s
               | HTTP_RAW \<Rightarrow> OnHttpRawAcquireDeviceConnectionResult i F s
               | HTTP_NORMAL \<Rightarrow> OnHttpNormalAcquireDeviceConnectionResult E i F s
               | _ \<Rightarrow> s)
      in ReleaseAcquireDeviceConnectionFuture i s)"

text \<open>The answer to a UDP request carries the address the channel is bound to.\<close>

definition s5_udp_answer :: "'w pa_env \<Rightarrow> xNetAddress \<Rightarrow> bytes" where
  "s5_udp_answer E UdpBindAddress =
     (case na_ip UdpBindAddress of
        IPV4 SA4 \<Rightarrow> [5, 0, 0, 1] @ SA4 @ W2 E (na_port UdpBindAddress)
      | IPV6 SA6 \<Rightarrow> [5, 0, 0, 4] @ SA6 @ W2 E (na_port UdpBindAddress)
      | UNKNOWN \<Rightarrow> [5, 0, 0, 4])"

definition upd_channel :: "uint64 \<Rightarrow> (pa_udp_channel \<Rightarrow> pa_udp_channel) \<Rightarrow> 'w pa \<Rightarrow> 'w pa" where
  "upd_channel u f s =
     s\<lparr>pa_ClientUdpChannelPool := (pa_ClientUdpChannelPool s)(u := map_option f (pa_ClientUdpChannelPool s u))\<rparr>"

definition OnAcquireDeviceUdpChannelResult :: "'w pa_env \<Rightarrow> uint64 \<Rightarrow> 'w pa \<Rightarrow> 'w pa" where
  "OnAcquireDeviceUdpChannelResult E F s =
     (let i = udp_owner F s;
          u = the (pc_BindUdpChannel (conn i s));
          s = (case udp_result F s of
                 None \<Rightarrow> Connection_PostData i S5_UDPCHANNEL_GENERIC_ERROR s
               | Some Result \<Rightarrow>
                   let s = upd_channel u (\<lambda>U. U\<lparr>pu_RelaySideUdpChannelId := Result\<rparr>) s;
                       s = Connection_PostData i
                             (s5_udp_answer E (pu_BindAddress (the (pa_ClientUdpChannelPool s u)))) s
                   in snd (KeepAlive i s))
      in ReleaseAcquireDeviceUdpChannelFuture i s)"

text \<open>The loops over the ready futures.\<close>

abbreviation auth_ready :: "'w pa \<Rightarrow> uint64 list" where "auth_ready s \<equiv> fm_ready (pa_AuthFutures s)"
abbreviation set_auth_ready :: "uint64 list \<Rightarrow> 'w pa \<Rightarrow> 'w pa" where
  "set_auth_ready q s \<equiv> s\<lparr>pa_AuthFutures := (pa_AuthFutures s)\<lparr>fm_ready := q\<rparr>\<rparr>"
abbreviation device_ready :: "'w pa \<Rightarrow> uint64 list" where "device_ready s \<equiv> fm_ready (pa_DeviceFutures s)"
abbreviation set_device_ready :: "uint64 list \<Rightarrow> 'w pa \<Rightarrow> 'w pa" where
  "set_device_ready q s \<equiv> s\<lparr>pa_DeviceFutures := (pa_DeviceFutures s)\<lparr>fm_ready := q\<rparr>\<rparr>"
abbreviation connection_ready :: "'w pa \<Rightarrow> uint64 list" where "connection_ready s \<equiv> fm_ready (pa_ConnectionFutures s)"
abbreviation set_connection_ready :: "uint64 list \<Rightarrow> 'w pa \<Rightarrow> 'w pa" where
  "set_connection_ready q s \<equiv> s\<lparr>pa_ConnectionFutures := (pa_ConnectionFutures s)\<lparr>fm_ready := q\<rparr>\<rparr>"
abbreviation udp_ready :: "'w pa \<Rightarrow> uint64 list" where "udp_ready s \<equiv> fm_ready (pa_UdpFutures s)"
abbreviation set_udp_ready :: "uint64 list \<Rightarrow> 'w pa \<Rightarrow> 'w pa" where
  "set_udp_ready q s \<equiv> s\<lparr>pa_UdpFutures := (pa_UdpFutures s)\<lparr>fm_ready := q\<rparr>\<rparr>"

definition ProcessReadyAuthFuture :: "'w pa_env \<Rightarrow> 'w pa \<Rightarrow> 'w pa" where
  "ProcessReadyAuthFuture E = pop_all auth_ready set_auth_ready (\<lambda>_ _. True) (OnAuthResult E)"

definition ProcessReadyAcquireDeviceFuture :: "'w pa_env \<Rightarrow> 'w pa \<Rightarrow> 'w pa" where
  "ProcessReadyAcquireDeviceFuture E =
     pop_all device_ready set_device_ready (\<lambda>_ _. True) (OnAcquireDeviceResult E)"

definition ProcessReadyAcquireDeviceConnectionFuture :: "'w pa_env \<Rightarrow> 'w pa \<Rightarrow> 'w pa" where
  "ProcessReadyAcquireDeviceConnectionFuture E =
     pop_all connection_ready set_connection_ready (\<lambda>_ _. True) (OnAcquireDeviceConnectionResult E)"

definition ProcessReadyAcquireDeviceUdpChannelFuture :: "'w pa_env \<Rightarrow> 'w pa \<Rightarrow> 'w pa" where
  "ProcessReadyAcquireDeviceUdpChannelFuture E =
     pop_all udp_ready set_udp_ready (\<lambda>_ _. True) (OnAcquireDeviceUdpChannelResult E)"

text \<open>The loops over the futures that timed out, in the lists where futures wait for a result.\<close>

definition future_older :: "(uint64 \<Rightarrow> 'w pa \<Rightarrow> uint64) \<Rightarrow> uint64 \<Rightarrow> 'w pa \<Rightarrow> uint64 \<Rightarrow> bool" where
  "future_older start KillTimepoint s F \<longleftrightarrow> start F s \<le> KillTimepoint"

definition ClearTimeoutFuture :: "'w pa_env \<Rightarrow> 'w pa \<Rightarrow> 'w pa" where
  "ClearTimeoutFuture E s =
     (let KillTimepoint = pa_LocalTicker s - PA_FUTURE_TIMEOUT_MS;
          s = pop_all pa_AuthFutureTimeoutList (\<lambda>q s. s\<lparr>pa_AuthFutureTimeoutList := q\<rparr>)
                (future_older (\<lambda>F s. fu_start (the (fm_pool (pa_AuthFutures s) F))) KillTimepoint)
                (OnAuthResult E) s;
          s = pop_all pa_DeviceFutureTimeoutList (\<lambda>q s. s\<lparr>pa_DeviceFutureTimeoutList := q\<rparr>)
                (future_older (\<lambda>F s. fu_start (the (fm_pool (pa_DeviceFutures s) F))) KillTimepoint)
                (OnAcquireDeviceResult E) s;
          s = pop_all pa_ConnectionFutureTimeoutList (\<lambda>q s. s\<lparr>pa_ConnectionFutureTimeoutList := q\<rparr>)
                (future_older (\<lambda>F s. fu_start (the (fm_pool (pa_ConnectionFutures s) F))) KillTimepoint)
                (OnAcquireDeviceConnectionResult E) s
      in pop_all pa_UdpFutureTimeoutList (\<lambda>q s. s\<lparr>pa_UdpFutureTimeoutList := q\<rparr>)
           (future_older (\<lambda>F s. fu_start (the (fm_pool (pa_UdpFutures s) F))) KillTimepoint)
           (OnAcquireDeviceUdpChannelResult E) s)"

definition pa_Tick :: "'w pa_env \<Rightarrow> uint64 \<Rightarrow> 'w pa \<Rightarrow> 'w pa" where
  "pa_Tick E NowMS s =
     (let s = s\<lparr>pa_LocalTicker := NowMS\<rparr>;
          s = ProcessReadyAuthFuture E s;
          s = ProcessReadyAcquireDeviceFuture E s;
          s = ProcessReadyAcquireDeviceConnectionFuture E s;
          s = ProcessReadyAcquireDeviceUdpChannelFuture E s;
          s = DeferKillInitTimeoutConnection s;
          s = DeferKillIdleTimeoutConnection s;
          s = DeferGracefulKillConnection s;
          s = ExcuteKillConnection E s
      in ClearTimeoutFuture E s)"

section \<open>Calls of the relay\<close>

definition pa_PostData :: "uint64 \<Rightarrow> bytes \<Rightarrow> 'w pa \<Rightarrow> 'w pa" where
  "pa_PostData i Data s =
     (if pa_ClientConnectionPool s i = None then s
      else
        let (alive, s) = KeepAlive i s in
        if \<not> alive then s
        else
          upd_conn i (\<lambda>C. C\<lparr>pc_TotalTcpBytesToClient := pc_TotalTcpBytesToClient C + of_nat (length Data)\<rparr>)
            (Connection_PostData i Data s))"

text \<open>The header of a datagram; an address of unknown type has none.\<close>

definition udp_header :: "'w pa_env \<Rightarrow> xNetAddress \<Rightarrow> bytes option" where
  "udp_header E SourceAddress =
     (case na_ip SourceAddress of
        IPV4 SA4 \<Rightarrow> Some (W2 E 0 @ [0] @ [1] @ SA4 @ W2 E (na_port SourceAddress))
      | IPV6 SA6 \<Rightarrow> Some (W2 E 0 @ [0] @ [4] @ SA6 @ W2 E (na_port SourceAddress))
      | UNKNOWN \<Rightarrow> None)"

definition pa_PostUdpData :: "'w pa_env \<Rightarrow> uint64 \<Rightarrow> xNetAddress \<Rightarrow> bytes \<Rightarrow> 'w pa \<Rightarrow> 'w pa" where
  "pa_PostUdpData E u SourceAddress Data s =
     (case pa_ClientUdpChannelPool s u of
        None \<Rightarrow> s
      | Some U \<Rightarrow>
          if length Data \<ge> PA_MAX_UDP_PACKET_SIZE then s
          else if \<not> addr_ok (pu_LastClientIpAddress U) then s
          else
            let i = pu_ParentConnection U;
                (alive, s) = KeepAlive i s in
            if \<not> alive then s
            else case udp_header E SourceAddress of
              None \<Rightarrow> s
            | Some Header \<Rightarrow>
                let Buffer = Header @ Data;
                    s = s\<lparr>pa_Out := pa_Out s @ [Client_SendUdp u (pu_LastClientIpAddress U) Buffer]\<rparr>
                in upd_conn i (\<lambda>C. C\<lparr>pc_TotalUdpBytesToClient :=
                     pc_TotalUdpBytesToClient C + of_nat (length Buffer)\<rparr>) s)"

definition pa_CloseConnection :: "bool \<Rightarrow> uint64 \<Rightarrow> 'w pa \<Rightarrow> 'w pa" where
  "pa_CloseConnection HasPendingWrites i s =
     (if pa_ClientConnectionPool s i = None then s else DeferGracefulKill HasPendingWrites i s)"

end
