(* ===== verification/Pa_Socks.thy ===== *)
theory Pa_Socks
  imports Pa_Results
begin

text \<open>
  \<open>lib_component/pa_service\<close>, third part: the SOCKS5 front end. The processors get the received
  bytes and answer how many they consumed; the UDP listener unpacks the datagrams of the clients.
\<close>

section \<open>Reading\<close>

definition slice :: "nat \<Rightarrow> nat \<Rightarrow> bytes \<Rightarrow> bytes" where
  "slice k n D = take n (drop k D)"

definition read_port :: "'w pa_env \<Rightarrow> bytes \<Rightarrow> nat \<Rightarrow> uint16" where
  "read_port E D k = R2 E (D ! k) (D ! Suc k)"

lemma length_slice [simp]: "length (slice k n D) = min n (length D - k)"
  by (simp add: slice_def)

lemma slice_append [simp]: "length A = k \<Longrightarrow> length B = n \<Longrightarrow> slice k n (A @ B @ C) = B"
  by (simp add: slice_def)

section \<open>Challenge and authentication\<close>

definition offers_user_pass :: "bytes \<Rightarrow> nat \<Rightarrow> bool" where
  "offers_user_pass D NM \<longleftrightarrow> 2 \<in> set (slice 2 NM D)"

definition OnS5Challenge :: "'w pa_env \<Rightarrow> uint64 \<Rightarrow> bytes \<Rightarrow> 'w pa \<Rightarrow> processed \<times> 'w pa" where
  "OnS5Challenge E i D s =
     (let NM = unat (D ! 1); HeaderSize = 2 + NM in
      if NM = 0 then (InvalidDataSize, s)
      else if length D < HeaderSize then (InvalidDataSize, s)
      else
        let s = set_type i S5_CHALLENGE s in
        if \<not> offers_user_pass D NM
        then
          let Auth = 0 # IpToString E (pc_RemoteAddress (conn i s));
              s = upd_conn i (\<lambda>C. C\<lparr>pc_NoAuth := True, pc_DataProcessor := P_KillConnectionOnData\<rparr>) s;
              (F, s) = RequestAuthentication E i Auth s;
              s = upd_conn i (\<lambda>C. C\<lparr>pc_AuthFuture := F\<rparr>) s
          in if F = None
             then (Consumed HeaderSize,
                   Connection_PostData i [5, 0xFF]
                     (upd_audit (\<lambda>A. A\<lparr>RequestAuthenticationOOM := RequestAuthenticationOOM A + 1\<rparr>) s))
             else (Consumed HeaderSize, s)
        else (Consumed HeaderSize, set_processor i P_OnS5AuthInfo (Connection_PostData i [5, 2] s)))"

definition OnS5AuthInfo :: "'w pa_env \<Rightarrow> uint64 \<Rightarrow> bytes \<Rightarrow> 'w pa \<Rightarrow> processed \<times> 'w pa" where
  "OnS5AuthInfo E i D s =
     (if length D < 3 then (Consumed 0, s)
      else if D ! 0 \<noteq> 1
      then (InvalidDataSize,
            upd_audit (\<lambda>A. A\<lparr>InvalidS5AuthTypeCount := InvalidS5AuthTypeCount A + 1\<rparr>) s)
      else
        let NameLen = unat (D ! 1) in
        if length D < 3 + NameLen then (Consumed 0, s)
        else
          let PassLen = unat (D ! (2 + NameLen)) in
          if length D < 3 + NameLen + PassLen then (Consumed 0, s)
          else
            let D = D[2 + NameLen := 0] in
            if NameLen = 0 \<or> PassLen = 0
            then (InvalidDataSize, upd_audit (\<lambda>A. A\<lparr>InvalidS5AuthInfo := InvalidS5AuthInfo A + 1\<rparr>) s)
            else
              let s = set_processor i P_KillConnectionOnData s;
                  KeyView = slice 2 (NameLen + 1 + PassLen) D;
                  (F, s) = RequestAuthentication E i KeyView s;
                  s = upd_conn i (\<lambda>C. C\<lparr>pc_AuthFuture := F\<rparr>) s;
                  Offset = 3 + NameLen + PassLen
              in if F = None
                 then (Consumed Offset,
                       Connection_PostData i [1, 1]
                         (upd_audit (\<lambda>A. A\<lparr>RequestAuthenticationOOM := RequestAuthenticationOOM A + 1\<rparr>) s))
                 else (Consumed Offset, s))"

section \<open>Target\<close>

text \<open>
  The target of a request: the address (for a domain name, its port only), the name and the number
  of bytes read. \<open>None\<close> asks for more bytes.
\<close>

definition read_target :: "'w pa_env \<Rightarrow> bytes \<Rightarrow> (xNetAddress \<times> bytes \<times> nat) option" where
  "read_target E D =
     (let AddrType = D ! 3 in
      if AddrType = 1
      then Some (\<lparr>na_ip = IPV4 (slice 4 4 D), na_port = read_port E D 8\<rparr>, [], 10)
      else if AddrType = 4
      then
        if length D < 4 + 16 + 2 then None
        else Some (\<lparr>na_ip = IPV6 (slice 4 16 D), na_port = read_port E D 20\<rparr>, [], 22)
      else if AddrType = 3
      then
        let DomainNameLength = unat (D ! 4) in
        if length D < 4 + 1 + DomainNameLength + 2 then None
        else Some (no_address\<lparr>na_port := read_port E D (5 + DomainNameLength)\<rparr>,
                   slice 5 DomainNameLength D, 4 + 1 + DomainNameLength + 2)
      else Some (no_address, [], 4))"

definition OnS5TcpTarget ::
    "'w pa_env \<Rightarrow> uint64 \<Rightarrow> byte \<Rightarrow> xNetAddress \<Rightarrow> bytes \<Rightarrow> nat \<Rightarrow> 'w pa \<Rightarrow> processed \<times> 'w pa" where
  "OnS5TcpTarget E i AddrType TargetAddress DomainName Offset s =
     (if AddrType = 1 \<or> AddrType = 4 \<or> AddrType = 3
      then
        let (F, s) = (if AddrType = 3 then RequestDeviceConnection_host E i DomainName (na_port TargetAddress) s
                      else RequestDeviceConnection_address E i TargetAddress s);
            s = upd_conn i (\<lambda>C. C\<lparr>pc_AcquireDeviceConnectionFuture := F\<rparr>) s
        in if F = None then (Consumed 0, Connection_PostData i S5_CONNECTION_GENERIC_ERROR s)
           else (Consumed Offset, set_type i S5_TCP s)
      else
        (case pc_AcquireDeviceConnectionFuture (conn i s) of
           None \<Rightarrow> (Undefined, s)
         | Some _ \<Rightarrow>
             (Consumed 0, Connection_PostData i S5_CONNECTION_GENERIC_ERROR
                (ReleaseAcquireDeviceConnectionFuture i s))))"

text \<open>The address a UDP channel is bound to: the local one, if the target has the same family.\<close>

definition udp_bind_address :: "byte \<Rightarrow> xNetAddress \<Rightarrow> xNetAddress" where
  "udp_bind_address AddrType BindIp =
     (if AddrType = 1 \<and> Is4 BindIp \<or> AddrType = 4 \<and> Is6 BindIp then BindIp else no_address)"

definition OnS5UdpTarget ::
    "'w pa_env \<Rightarrow> uint64 \<Rightarrow> byte \<Rightarrow> nat \<Rightarrow> 'w pa \<Rightarrow> processed \<times> 'w pa" where
  "OnS5UdpTarget E i AddrType Offset s =
     (let C = conn i s;
          refuse = Connection_PostData i S5_UDPCHANNEL_GENERIC_ERROR;
          UdpBindAddress = udp_bind_address AddrType (addr_Ip (pc_LocalAddress C));
          u = pa_alloc E (dom (pa_ClientUdpChannelPool s)) in
      if \<not> pc_EnableUdpTarget C then (Consumed 0, refuse s)
      else if \<not> addr_ok UdpBindAddress then (Consumed 0, refuse s)
      else if u = 0 then (Consumed 0, refuse s)
      else case Bind E UdpBindAddress of
        None \<Rightarrow> (Consumed 0, refuse s)
      | Some Bound \<Rightarrow>
          let s = s\<lparr>pa_ClientUdpChannelPool := (pa_ClientUdpChannelPool s)(u \<mapsto>
                      \<lparr>pu_ParentConnection = i, pu_RelaySideUdpChannelId = 0,
                       pu_ClientIpCheckAddress = addr_Ip (pc_RemoteAddress C),
                       pu_LastClientIpAddress = no_address, pu_BindAddress = Bound\<rparr>)\<rparr>;
              s = upd_conn i (\<lambda>C. C\<lparr>pc_BindUdpChannel := Some u\<rparr>) s;
              (F, s) = RequestDeviceUdpChannel E i s;
              s = upd_conn i (\<lambda>C. C\<lparr>pc_AcquireDeviceUdpChannelFuture := F\<rparr>) s
          in if F = None then (Consumed 0, refuse s) else (Consumed Offset, set_type i S5_UDP s))"

definition OnS5Target :: "'w pa_env \<Rightarrow> uint64 \<Rightarrow> bytes \<Rightarrow> 'w pa \<Rightarrow> processed \<times> 'w pa" where
  "OnS5Target E i D s =
     (if length D < 10 then (Consumed 0, s)
      else if length D \<ge> 6 + 256
      then (InvalidDataSize, upd_audit (\<lambda>A. A\<lparr>InvalidS5Target := InvalidS5Target A + 1\<rparr>) s)
      else
        let Version = D ! 0; Operation = D ! 1; Reserved = D ! 2; AddrType = D ! 3 in
        if Version \<noteq> 5 \<or> Reserved \<noteq> 0
        then (InvalidDataSize, upd_audit (\<lambda>A. A\<lparr>InvalidS5Target := InvalidS5Target A + 1\<rparr>) s)
        else case read_target E D of
          None \<Rightarrow> (Consumed 0, s)
        | Some (TargetAddress, DomainName, Offset) \<Rightarrow>
            let s = set_processor i P_KillConnectionOnData s in
            if Operation = 1 then OnS5TcpTarget E i AddrType TargetAddress DomainName Offset s
            else if Operation = 3 then OnS5UdpTarget E i AddrType Offset s
            else (Consumed 0, Connection_PostData i ([5, 1, 0] @ slice 3 (Offset - 3) D) s))"

section \<open>Datagrams of the clients\<close>

definition pa_OnUdpData :: "'w pa_env \<Rightarrow> uint64 \<Rightarrow> bytes \<Rightarrow> xNetAddress \<Rightarrow> 'w pa \<Rightarrow> 'w pa" where
  "pa_OnUdpData E u D SourceAddress s =
     (case pa_ClientUdpChannelPool s u of
        None \<Rightarrow> s
      | Some U \<Rightarrow>
          if pu_RelaySideUdpChannelId U = 0 then s
          else if addr_Ip SourceAddress \<noteq> pu_ClientIpCheckAddress U then s
          else
            let s = upd_channel u (\<lambda>U. U\<lparr>pu_LastClientIpAddress := SourceAddress\<rparr>) s;
                i = pu_ParentConnection U;
                s = upd_conn i (\<lambda>C. C\<lparr>pc_TotalUdpBytesFromClient :=
                      pc_TotalUdpBytesFromClient C + of_nat (length D)\<rparr>) s;
                s = snd (KeepAlive i s);
                AType = D ! 3;
                post = (\<lambda>TargetAddress Offset.
                  if length D - Offset = 0 then s
                  else on_world (sv_PostUdpData E (dr_RelayServerId (pc_DeviceReference (conn i s)))
                         (pu_RelaySideUdpChannelId U) TargetAddress (drop Offset D)) s)
            in if length D < 4 then s
               else if R2 E (D ! 0) (D ! 1) \<noteq> 0 then s
               else if D ! 2 \<noteq> 0 then s
               else if AType = 1
               then
                 if length D < 10 then s
                 else post \<lparr>na_ip = IPV4 (slice 4 4 D), na_port = read_port E D 8\<rparr> 10
               else if AType = 4
               then
                 if length D < 22 then s
                 else post \<lparr>na_ip = IPV6 (slice 4 16 D), na_port = read_port E D 20\<rparr> 22
               else s)"

end
