(* ===== verification/Pa_Http.thy ===== *)
theory Pa_Http
  imports Pa_Results
begin

text \<open>
  \<open>lib_component/pa_service\<close>, fourth part: the HTTP front end. A request is either a \<open>CONNECT\<close>,
  after whose header the connection carries raw data, or a request with an absolute URL, which is
  rebuilt for the origin server. \<open>Base64Decode\<close> is \<open>xel\<close>'s.
\<close>

section \<open>Searching\<close>

fun find_byte :: "byte \<Rightarrow> bytes \<Rightarrow> nat option" where
  "find_byte c [] = None"
| "find_byte c (x # xs) = (if x = c then Some 0 else map_option Suc (find_byte c xs))"

text \<open>\<open>find(c, k)\<close> of a string view.\<close>

definition find_from :: "byte \<Rightarrow> nat \<Rightarrow> bytes \<Rightarrow> nat option" where
  "find_from c k D = map_option (\<lambda>n. k + n) (find_byte c (drop k D))"

fun find_crlf :: "bytes \<Rightarrow> nat option" where
  "find_crlf (x # y # xs) = (if x = 13 \<and> y = 10 then Some 0 else map_option Suc (find_crlf (y # xs)))"
| "find_crlf xs = None"

text \<open>\<open>strncasecmp\<close> with a text, over its length; the texts have no zero byte.\<close>

definition ci_prefix :: "bytes \<Rightarrow> bytes \<Rightarrow> bool" where
  "ci_prefix P D \<longleftrightarrow> map tolower_char (take (length P) D) = map tolower_char P"

lemma find_crlf_bound: "find_crlf D = Some k \<Longrightarrow> k + 2 \<le> length D"
proof (induction D arbitrary: k rule: find_crlf.induct)
  case (1 x y xs)
  then show ?case
    by (fastforce split: if_splits)
qed simp_all

lemma find_crlf_append:
  "13 \<notin> set L \<Longrightarrow> find_crlf (L @ 13 # 10 # R) = Some (length L)"
proof (induction L)
  case (Cons x L)
  then show ?case
    by (cases L) auto
qed simp

lemma find_byte_append: "c \<notin> set L \<Longrightarrow> find_byte c (L @ c # R) = Some (length L)"
  by (induction L) auto

lemma find_byte_None: "find_byte c D = None \<longleftrightarrow> c \<notin> set D"
  by (induction D) auto

section \<open>The first line\<close>

text \<open>
  A host up to a colon or the byte \<open>stop\<close>, within the first \<open>limit\<close> bytes, with its port: the
  number behind the colon, or 80. Without either byte there is no host.
\<close>

definition scan_target :: "'w pa_env \<Rightarrow> byte \<Rightarrow> nat \<Rightarrow> bytes \<Rightarrow> bytes \<times> uint16" where
  "scan_target E stop limit D =
     (let V = take limit D;
          H = takeWhile (\<lambda>C. C \<noteq> 58 \<and> C \<noteq> stop) V
      in if length H = length V then ([], 0)
         else if V ! length H = 58 then (H, word_of_int (atoi (drop (Suc (length H)) D @ Behind E)))
         else (H, 80))"

abbreviation upd_http :: "uint64 \<Rightarrow> (xHttpData \<Rightarrow> xHttpData) \<Rightarrow> 'w pa \<Rightarrow> 'w pa" where
  "upd_http i f \<equiv> upd_conn i (\<lambda>C. C\<lparr>pc_Http := f (pc_Http C)\<rparr>)"

abbreviation append_content :: "uint64 \<Rightarrow> bytes \<Rightarrow> 'w pa \<Rightarrow> 'w pa" where
  "append_content i D \<equiv> upd_http i (\<lambda>H. H\<lparr>ht_Content := ht_Content H @ D\<rparr>)"

definition OnHttpConnect :: "'w pa_env \<Rightarrow> uint64 \<Rightarrow> nat \<Rightarrow> bytes \<Rightarrow> 'w pa \<Rightarrow> processed \<times> 'w pa" where
  "OnHttpConnect E i LineLength D s =
     (let (Hostname, Port) = scan_target E 32 (LineLength - 8) (drop 8 D) in
      if Hostname = [] then (InvalidDataSize, s)
      else
        (Consumed (LineLength + 2),
         upd_conn i (\<lambda>C. C\<lparr>pc_Type := HTTP_RAW, pc_DataProcessor := P_OnHttpRawHeaderProcessor\<rparr>)
           (upd_http i (\<lambda>H. H\<lparr>ht_TargetHost := Hostname, ht_TargetPort := Port\<rparr>) s)))"

text \<open>Where the host starts, and from where the slash of the path is searched.\<close>

definition url_start :: "nat \<Rightarrow> bytes \<Rightarrow> nat \<times> nat" where
  "url_start URLStartIndex D =
     (let URL = drop URLStartIndex D in
      if ci_prefix (str ''http://'') URL then (URLStartIndex + 7, URLStartIndex + 7)
      else if ci_prefix (str ''https://'') URL then (URLStartIndex + 8, URLStartIndex + 7)
      else (URLStartIndex, URLStartIndex))"

definition OnHttpUrl :: "'w pa_env \<Rightarrow> uint64 \<Rightarrow> nat \<Rightarrow> bytes \<Rightarrow> 'w pa \<Rightarrow> processed \<times> 'w pa" where
  "OnHttpUrl E i LineLength D s =
     (let Line = take LineLength D in
      case find_from 32 0 Line of
        None \<Rightarrow> (InvalidDataSize, s)
      | Some Space \<Rightarrow>
          let s = append_content i (take (Suc Space) D) s in
          case find_from 32 (Suc Space) Line of
            None \<Rightarrow> (InvalidDataSize, s)
          | Some URLEndIndex \<Rightarrow>
              let (URLStart, URLStartIndex) = url_start (Suc Space) D in
              case find_from 47 URLStartIndex Line of
                None \<Rightarrow> (InvalidDataSize, s)
              | Some PathStartIndex \<Rightarrow>
                  let (Hostname, Port) = scan_target E 47 (Suc PathStartIndex - URLStart) (drop URLStart D);
                      s = upd_http i (\<lambda>H. H\<lparr>ht_TargetHost := Hostname, ht_TargetPort := Port\<rparr>) s;
                      s = append_content i (take (LineLength - PathStartIndex + 2) (drop PathStartIndex D)) s
                  in (Consumed (LineLength + 2),
                      upd_conn i (\<lambda>C. C\<lparr>pc_Type := HTTP_NORMAL,
                        pc_DataProcessor := P_OnHttpNormalHeaderProcessor\<rparr>) s))"

definition OnHttpChallenge :: "'w pa_env \<Rightarrow> uint64 \<Rightarrow> bytes \<Rightarrow> 'w pa \<Rightarrow> processed \<times> 'w pa" where
  "OnHttpChallenge E i D s =
     (case find_crlf D of
        None \<Rightarrow> (Consumed 0, s)
      | Some LineLength \<Rightarrow>
          if LineLength = 0 then (InvalidDataSize, s)
          else if ci_prefix (str ''CONNECT '') D then OnHttpConnect E i LineLength D s
          else OnHttpUrl E i LineLength D s)"

section \<open>The header of a \<open>CONNECT\<close>\<close>

text \<open>
  The account key of an authorization text: the colon of the decoded text becomes a zero byte.
  Without a colon the code writes to the position \<open>npos\<close>.
\<close>

datatype auth_key = Key bytes | No_Account | Out_Of_Bounds

definition account_key :: "bytes \<Rightarrow> auth_key" where
  "account_key Decoded =
     (case find_byte 58 Decoded of
        None \<Rightarrow> Out_Of_Bounds
      | Some PassStart \<Rightarrow> if PassStart = 0 then No_Account else Key (Decoded[PassStart := 0]))"

definition is_authorization :: "nat \<Rightarrow> bytes \<Rightarrow> bool" where
  "is_authorization n D \<longleftrightarrow> n > 21 \<and> ci_prefix (str ''Proxy-Authorization: '') D"

definition finish_raw_header :: "'w pa_env \<Rightarrow> uint64 \<Rightarrow> bytes \<Rightarrow> nat \<Rightarrow> 'w pa \<Rightarrow> processed \<times> 'w pa" where
  "finish_raw_header E i AuthKey ConsumedSize s =
     (let s = set_processor i P_KillConnectionOnData s in
      if AuthKey = [] then (Consumed 0, Send407 i s)
      else
        let (F, s) = RequestAuthentication E i AuthKey s;
            s = upd_conn i (\<lambda>C. C\<lparr>pc_AuthFuture := F\<rparr>) s
        in if F = None then (Consumed 0, Send500 i s) else (Consumed (ConsumedSize + 2), s))"

function raw_header_loop ::
    "'w pa_env \<Rightarrow> uint64 \<Rightarrow> bytes \<Rightarrow> bytes \<Rightarrow> nat \<Rightarrow> 'w pa \<Rightarrow> processed \<times> 'w pa" where
  "raw_header_loop E i AuthKey Header ConsumedSize s =
     (case find_crlf Header of
        None \<Rightarrow> (Consumed ConsumedSize, s)
      | Some k \<Rightarrow>
          if k = 0 then finish_raw_header E i AuthKey ConsumedSize s
          else if is_authorization k Header
          then
            if k - 21 < 6 \<and> \<not> ci_prefix (str ''Basic '') (drop 21 Header) then (InvalidDataSize, s)
            else if k - 21 < 6 then (Undefined, s)
            else case account_key (Base64Decode E (take (k - 27) (drop 27 Header))) of
              Key Account \<Rightarrow> raw_header_loop E i Account (drop (k + 2) Header) (ConsumedSize + k + 2) s
            | No_Account \<Rightarrow> (Consumed 0, Send404 i s)
            | Out_Of_Bounds \<Rightarrow> (Undefined, s)
          else raw_header_loop E i AuthKey (drop (k + 2) Header) (ConsumedSize + k + 2) s)"
  by pat_completeness auto
termination
  by (relation "measure (\<lambda>(E, i, AuthKey, Header, ConsumedSize, s). length Header)")
     (auto dest!: find_crlf_bound)

declare raw_header_loop.simps [simp del]

definition OnHttpRawHeaderProcessor :: "'w pa_env \<Rightarrow> uint64 \<Rightarrow> bytes \<Rightarrow> 'w pa \<Rightarrow> processed \<times> 'w pa" where
  "OnHttpRawHeaderProcessor E i D s = raw_header_loop E i [] D 0 s"

section \<open>The header of a request with a URL\<close>

text \<open>
  One line of the header, with the position \<open>k\<close> at which the line ended in the received bytes:
  the code takes the length of the authorization text from \<open>k\<close>, and not from the line, which may
  have begun in earlier bytes. The result is the account key for the rest of the header, or what
  the processor returns.
\<close>

definition header_line ::
    "'w pa_env \<Rightarrow> uint64 \<Rightarrow> nat \<Rightarrow> bytes \<Rightarrow> bytes \<Rightarrow> 'w pa \<Rightarrow> (processed + bytes) \<times> 'w pa" where
  "header_line E i k Line AuthKey s =
     (if length Line > 18 \<and> ci_prefix (str ''Proxy-Connection: '') Line then (Inr AuthKey, s)
      else if length Line > 12 \<and> ci_prefix (str ''Connection: '') Line
      then (Inr AuthKey, append_content i (str ''Connection: close'' @ crlf) s)
      else if is_authorization (length Line) Line
      then
        let AuthLength = of_nat k - 21 :: uint64 in
        if AuthLength < 6 \<and> \<not> ci_prefix (str ''Basic '') (drop 21 Line) then (Inl (Consumed 0), Send407 i s)
        else if unat (AuthLength - 6) + 27 > length Line then (Inl Undefined, s)
        else case account_key (Base64Decode E (take (unat (AuthLength - 6)) (drop 27 Line))) of
          Key Account \<Rightarrow> (Inr Account, s)
        | No_Account \<Rightarrow> (Inl (Consumed 0), Send404 i s)
        | Out_Of_Bounds \<Rightarrow> (Inl Undefined, s)
      else if length Line > 16 \<and> ci_prefix (str ''Content-Length: '') Line
      then (Inr AuthKey,
            append_content i (Line @ crlf)
              (upd_http i (\<lambda>H. H\<lparr>ht_ContentLengthLeft := word_of_int (atoi (drop 16 Line))\<rparr>) s))
      else (Inr AuthKey, append_content i (Line @ crlf) s))"

definition finish_normal_header :: "'w pa_env \<Rightarrow> uint64 \<Rightarrow> bytes \<Rightarrow> nat \<Rightarrow> 'w pa \<Rightarrow> processed \<times> 'w pa" where
  "finish_normal_header E i AuthKey ConsumedSize s =
     (let s = append_content i crlf s;
          (F, s) = RequestAuthentication E i AuthKey s;
          s = upd_conn i (\<lambda>C. C\<lparr>pc_AuthFuture := F\<rparr>) s
      in if F = None then (Consumed 0, Send500 i s)
         else (Consumed ConsumedSize, set_processor i P_OnHttpBody s))"

abbreviation header_text :: "uint64 \<Rightarrow> 'w pa \<Rightarrow> bytes" where
  "header_text i s \<equiv> ht_TempHeaderLine (pc_Http (conn i s))"

abbreviation set_header_text :: "uint64 \<Rightarrow> bytes \<Rightarrow> 'w pa \<Rightarrow> 'w pa" where
  "set_header_text i L \<equiv> upd_http i (\<lambda>H. H\<lparr>ht_TempHeaderLine := L\<rparr>)"

function normal_header_loop ::
    "'w pa_env \<Rightarrow> uint64 \<Rightarrow> nat \<Rightarrow> bytes \<Rightarrow> bytes \<Rightarrow> nat \<Rightarrow> 'w pa \<Rightarrow> processed \<times> 'w pa" where
  "normal_header_loop E i DataSize AuthKey Data ConsumedSize s =
     (case find_crlf Data of
        None \<Rightarrow> (Consumed DataSize, set_header_text i (header_text i s @ Data) s)
      | Some k \<Rightarrow>
          if k = 0 \<and> header_text i s = [] then finish_normal_header E i AuthKey (ConsumedSize + 2) s
          else
            let Line = header_text i s @ take k Data;
                s = set_header_text i Line s
            in case header_line E i k Line AuthKey s of
                 (Inl R, s) \<Rightarrow> (R, s)
               | (Inr AuthKey, s) \<Rightarrow>
                   normal_header_loop E i DataSize AuthKey (drop (k + 2) Data) (ConsumedSize + k + 2)
                     (set_header_text i [] s))"
  by pat_completeness auto
termination
  by (relation "measure (\<lambda>(E, i, DataSize, AuthKey, Data, ConsumedSize, s). length Data)")
     (auto dest!: find_crlf_bound)

declare normal_header_loop.simps [simp del]

definition OnHttpNormalHeaderProcessor :: "'w pa_env \<Rightarrow> uint64 \<Rightarrow> bytes \<Rightarrow> 'w pa \<Rightarrow> processed \<times> 'w pa" where
  "OnHttpNormalHeaderProcessor E i D s = normal_header_loop E i (length D) [] D 0 s"

text \<open>
  The body: collected behind the header until the relay is connected, which empties the content,
  then passed on.
\<close>

definition OnHttpBody :: "'w pa_env \<Rightarrow> uint64 \<Rightarrow> bytes \<Rightarrow> 'w pa \<Rightarrow> processed \<times> 'w pa" where
  "OnHttpBody E i D s =
     (let (alive, s) = KeepAlive i s in
      if \<not> alive then (Consumed 0, s)
      else if ht_Content (pc_Http (conn i s)) \<noteq> [] then (Consumed (length D), append_content i D s)
      else
        let C = conn i s
        in (Consumed (length D),
            on_world (sv_PostData E (dr_RelayServerId (pc_DeviceReference C)) (pc_RelaySideConnectionId C) D) s))"

end
