(* ===== verification/Pa_Service.thy ===== *)
theory Pa_Service
  imports Pa_Socks Pa_Http
begin

text \<open>
  \<open>lib_component/pa_service\<close>, last part: \<open>Init\<close> and \<open>Clean\<close>, the dispatch of received data to
  the processor of a connection, the step relation of the service and its invariant.
\<close>

section \<open>Init and Clean\<close>

record xExportBindAddress =
  eb_BindAddress :: xNetAddress
  eb_ExportIp :: xNetAddress

fun start_servers ::
    "(xNetAddress \<Rightarrow> bool) \<Rightarrow> xExportBindAddress list \<Rightarrow> 'w pa \<Rightarrow> (bool \<times> 'w pa) option" where
  "start_servers listen [] s = Some (True, s)"
| "start_servers listen (Entry # AddressList) s =
     (if \<not> (addr_ok (eb_BindAddress Entry) \<and> na_port (eb_BindAddress Entry) \<noteq> 0) then None
      else if \<not> (addr_ok (eb_ExportIp Entry) \<and> na_port (eb_ExportIp Entry) = 0) then None
      else if \<not> listen (eb_BindAddress Entry) then Some (False, s)
      else start_servers listen AddressList
        (s\<lparr>pa_ClientEntryServerList :=
             pa_ClientEntryServerList s @ [(eb_BindAddress Entry, eb_ExportIp Entry)]\<rparr>))"

text \<open>
  The outcomes of the two storages, of listening and of the four future managers are parameters.
  The scope cleaners undo what was started when the initialisation fails.
\<close>

definition pa_Init ::
    "bool \<Rightarrow> bool \<Rightarrow> (xNetAddress \<Rightarrow> bool) \<Rightarrow> bool list \<Rightarrow> xExportBindAddress list \<Rightarrow> 'w pa \<Rightarrow> (bool \<times> 'w pa) option" where
  "pa_Init connections_ok channels_ok listen futures_ok AddressList s =
     (if AddressList = [] then None
      else if \<not> connections_ok then Some (False, s)
      else if \<not> channels_ok then Some (False, s)
      else case start_servers listen AddressList s of
        None \<Rightarrow> None
      | Some (False, s) \<Rightarrow> Some (False, s\<lparr>pa_ClientEntryServerList := []\<rparr>)
      | Some (True, s) \<Rightarrow>
          if \<not> list_all (\<lambda>b. b) futures_ok then Some (False, s\<lparr>pa_ClientEntryServerList := []\<rparr>)
          else Some (True, s\<lparr>pa_DefaultBufferSize := PA_CLIENT_DEFAULT_BUFFER_SIZE\<rparr>))"

text \<open>\<open>None\<close> is an invalid configuration line.\<close>

fun parse_addresses ::
    "xel_text \<Rightarrow> (bytes \<Rightarrow> bytes) \<Rightarrow> bytes list \<Rightarrow> xExportBindAddress list option" where
  "parse_addresses X Trim [] = Some []"
| "parse_addresses X Trim (L # Lines) =
     (let L = Trim L in
      if L = [] then parse_addresses X Trim Lines
      else
        let Segs = Split X L (str ''->'') in
        if length Segs \<noteq> 2 then None
        else
          let BindAddress = AddrParse X (Trim (Segs ! 0)); ExportIp = AddrParse X (Trim (Segs ! 1)) in
          if \<not> addr_ok BindAddress \<or> na_port BindAddress = 0 \<or> \<not> addr_ok ExportIp \<or> na_port ExportIp \<noteq> 0
          then None
          else map_option ((#) \<lparr>eb_BindAddress = BindAddress, eb_ExportIp = ExportIp\<rparr>)
                 (parse_addresses X Trim Lines))"

definition pa_Init_file ::
    "xel_text \<Rightarrow> (bytes \<Rightarrow> bytes) \<Rightarrow> bool \<Rightarrow> bool \<Rightarrow> (xNetAddress \<Rightarrow> bool) \<Rightarrow> bool list \<Rightarrow> bytes list \<Rightarrow> 'w pa \<Rightarrow>
     (bool \<times> 'w pa) option" where
  "pa_Init_file X Trim connections_ok channels_ok listen futures_ok Lines s =
     (case parse_addresses X Trim Lines of
        None \<Rightarrow> Some (False, s)
      | Some AddressList \<Rightarrow> pa_Init connections_ok channels_ok listen futures_ok AddressList s)"

text \<open>Cleaning a manager or a storage destroys its objects, which unlinks them from every list.\<close>

definition pa_Clean :: "'w pa \<Rightarrow> 'w pa" where
  "pa_Clean s =
     s\<lparr>pa_AuthFutures := (pa_AuthFutures s)\<lparr>fm_pool := Map.empty, fm_ready := []\<rparr>,
       pa_DeviceFutures := (pa_DeviceFutures s)\<lparr>fm_pool := Map.empty, fm_ready := []\<rparr>,
       pa_ConnectionFutures := (pa_ConnectionFutures s)\<lparr>fm_pool := Map.empty, fm_ready := []\<rparr>,
       pa_UdpFutures := (pa_UdpFutures s)\<lparr>fm_pool := Map.empty, fm_ready := []\<rparr>,
       pa_AuthFutureTimeoutList := [], pa_DeviceFutureTimeoutList := [],
       pa_ConnectionFutureTimeoutList := [], pa_UdpFutureTimeoutList := [],
       pa_ClientUdpChannelPool := Map.empty, pa_ClientConnectionPool := Map.empty,
       pa_InitTimeoutList := [], pa_IdleTimeoutList := [], pa_KillList := [], pa_GracefulKillList := [],
       pa_DefaultBufferSize := 0, pa_Audit := no_audit, pa_ClientEntryServerList := []\<rparr>"

definition pa_SetClientBufferSize :: "uint64 \<Rightarrow> 'w pa \<Rightarrow> 'w pa" where
  "pa_SetClientBufferSize Size s = s\<lparr>pa_DefaultBufferSize := Size\<rparr>"

text \<open>
  The numbers of the audit text, in their order: the counters since the last one, and the active
  futures of the four kinds.
\<close>

definition pa_OutputAudit :: "'w pa \<Rightarrow> (pa_audit \<times> uint64 list) \<times> 'w pa" where
  "pa_OutputAudit s =
     (let counts = pa_Audit s; s = s\<lparr>pa_Audit := no_audit\<rparr> in
      ((counts, [fm_in_use (pa_AuthFutures s), fm_in_use (pa_DeviceFutures s),
                 fm_in_use (pa_ConnectionFutures s), fm_in_use (pa_UdpFutures s)]), s))"

section \<open>Received data\<close>

definition OnGuessProxyType :: "'w pa_env \<Rightarrow> uint64 \<Rightarrow> bytes \<Rightarrow> 'w pa \<Rightarrow> processed \<times> 'w pa" where
  "OnGuessProxyType E i D s =
     (if length D < 3 then (InvalidDataSize, s)
      else if D ! 0 = 5 then OnS5Challenge E i D s
      else if D ! 0 = 0x16 then (Consumed 0, Connection_PostData i [0x15, 3, 1, 0, 2, 2, 0x28] s)
      else OnHttpChallenge E i D s)"

fun run_processor ::
    "'w pa_env \<Rightarrow> xPA_TcpDataProcessor \<Rightarrow> uint64 \<Rightarrow> bytes \<Rightarrow> 'w pa \<Rightarrow> processed \<times> 'w pa" where
  "run_processor E P_KillConnectionOnData i D s = KillConnectionOnData i D s"
| "run_processor E P_OnGuessProxyType i D s = OnGuessProxyType E i D s"
| "run_processor E P_OnS5AuthInfo i D s = OnS5AuthInfo E i D s"
| "run_processor E P_OnS5Target i D s = OnS5Target E i D s"
| "run_processor E P_OnRawData i D s = OnRawData E i D s"
| "run_processor E P_OnHttpRawHeaderProcessor i D s = OnHttpRawHeaderProcessor E i D s"
| "run_processor E P_OnHttpNormalHeaderProcessor i D s = OnHttpNormalHeaderProcessor E i D s"
| "run_processor E P_OnHttpBody i D s = OnHttpBody E i D s"

definition pa_OnData :: "'w pa_env \<Rightarrow> uint64 \<Rightarrow> bytes \<Rightarrow> 'w pa \<Rightarrow> processed \<times> 'w pa" where
  "pa_OnData E i D s =
     (let (ConsumedSize, s) = run_processor E (pc_DataProcessor (conn i s)) i D s in
      if ConsumedSize \<noteq> InvalidDataSize
      then (ConsumedSize, upd_conn i (\<lambda>C. C\<lparr>pc_TotalTcpBytesFromClient :=
              pc_TotalTcpBytesFromClient C + of_nat (length D)\<rparr>) s)
      else (ConsumedSize, s))"

end
