(* ===== verification/Pa_Ownership.thy ===== *)
theory Pa_Ownership
  imports Pa_Service
begin

text \<open>
  What belongs to whom in the proxy service. Every live future and every UDP channel belongs to
  one live connection that points back at it (\<open>own_inv\<close>), and every live connection is linked in
  exactly one timeout list, in the order of the time stamps (\<open>lists_inv\<close>). The lemmas give the
  effect of every primitive of \<open>Pa_Core\<close> on both; the handlers' proofs compose them.
\<close>

named_theorems pa_simps \<open>effects of the primitives on the fields of the state\<close>

section \<open>Back pointers\<close>

definition owns :: "(uint64 \<Rightarrow> uint64 option) \<Rightarrow> ('c \<Rightarrow> uint64 option) \<Rightarrow> (uint64 \<Rightarrow> 'c option) \<Rightarrow> bool" where
  "owns owner sel pool \<longleftrightarrow>
     (\<forall>F i. owner F = Some i \<longleftrightarrow> (\<exists>C. pool i = Some C \<and> sel C = Some F))"

lemma ownsD: "owns owner sel pool \<Longrightarrow> pool i = Some C \<Longrightarrow> sel C = Some F \<Longrightarrow> owner F = Some i"
  by (auto simp: owns_def)

lemma owns_owner: "owns owner sel pool \<Longrightarrow> owner F = Some i \<Longrightarrow> \<exists>C. pool i = Some C \<and> sel C = Some F"
  by (auto simp: owns_def)

lemma owns_empty: "owns Map.empty sel Map.empty"
  by (simp add: owns_def)

lemma owns_same:
  "owns owner sel pool \<Longrightarrow> pool i = Some C \<Longrightarrow> sel C' = sel C \<Longrightarrow> owns owner sel (pool(i \<mapsto> C'))"
  by (auto simp: owns_def)

lemma owns_update:
  "owns owner sel pool \<Longrightarrow> (\<And>C. sel (f C) = sel C) \<Longrightarrow> owns owner sel (pool(i := map_option f (pool i)))"
  by (cases "pool i") (auto simp: owns_def)

lemma owns_acquire:
  assumes own: "owns owner sel pool" and "owner F = None" and "pool i = Some C" and "sel C = None"
    and "sel C' = Some F"
  shows "owns (owner(F \<mapsto> i)) sel (pool(i \<mapsto> C'))"
  unfolding owns_def
proof (intro allI)
  fix G j
  show "((owner(F \<mapsto> i)) G = Some j) = (\<exists>B. (pool(i \<mapsto> C')) j = Some B \<and> sel B = Some G)"
    using own [unfolded owns_def, rule_format, of G j] own [unfolded owns_def, rule_format, of G i] assms(2-)
    by (cases "G = F"; cases "j = i") auto
qed

lemma owns_release:
  assumes own: "owns owner sel pool" and "pool i = Some C" and "sel C = Some F" and "sel C' = None"
  shows "owns (owner(F := None)) sel (pool(i \<mapsto> C'))"
  unfolding owns_def
proof (intro allI)
  fix G j
  show "((owner(F := None)) G = Some j) = (\<exists>B. (pool(i \<mapsto> C')) j = Some B \<and> sel B = Some G)"
    using own [unfolded owns_def, rule_format, of G j] own [unfolded owns_def, rule_format, of G i] assms(2-)
    by (cases "G = F"; cases "j = i") auto
qed

lemma owns_new:
  assumes own: "owns owner sel pool" and "pool i = None" and "sel C = None"
  shows "owns owner sel (pool(i \<mapsto> C))"
  unfolding owns_def
proof (intro allI)
  fix G j
  show "(owner G = Some j) = (\<exists>B. (pool(i \<mapsto> C)) j = Some B \<and> sel B = Some G)"
    using own [unfolded owns_def, rule_format, of G j] assms(2-) by (cases "j = i") auto
qed

lemma owns_remove:
  assumes own: "owns owner sel pool" and "pool i = Some C" and "sel C = None"
  shows "owns owner sel (pool(i := None))"
  unfolding owns_def
proof (intro allI)
  fix G j
  show "(owner G = Some j) = (\<exists>B. (pool(i := None)) j = Some B \<and> sel B = Some G)"
    using own [unfolded owns_def, rule_format, of G j] assms(2-) by (cases "j = i") auto
qed

section \<open>Futures under the services\<close>

definition owners :: "(uint64, 'r) future_manager \<Rightarrow> uint64 \<Rightarrow> uint64 option" where
  "owners fm F = map_option fu_owner (fm_pool fm F)"

text \<open>What a service may do to a manager: complete its futures, but neither make nor release any.\<close>

definition fm_progress :: "(uint64, 'r) future_manager \<Rightarrow> (uint64, 'r) future_manager \<Rightarrow> bool" where
  "fm_progress fm fm' \<longleftrightarrow> owners fm' = owners fm \<and> (\<forall>n. fm_inv n fm \<longrightarrow> fm_inv n fm')"

lemma fm_progress_refl [intro, simp]: "fm_progress fm fm"
  by (simp add: fm_progress_def)

lemma fm_progress_trans: "fm_progress fm1 fm2 \<Longrightarrow> fm_progress fm2 fm3 \<Longrightarrow> fm_progress fm1 fm3"
  by (simp add: fm_progress_def)

lemma fm_progress_SetReady: "fm_progress fm (SetReady F fm)"
proof -
  have "owners (SetReady F fm) = owners fm"
    by (auto simp: owners_def SetReady_def fun_eq_iff split: option.splits)
  then show ?thesis
    by (simp add: fm_progress_def fm_inv_SetReady)
qed

lemma fm_progress_SetResult: "fm_progress fm (SetResult F R fm)"
proof -
  have "owners (SetResult F R fm) = owners fm"
    by (auto simp: owners_def SetResult_def upd_future_def fun_eq_iff map_option_case split: option.splits)
  moreover have "fm_inv n fm \<longrightarrow> fm_inv n (SetResult F R fm)" for n
    unfolding SetResult_def by (auto intro: fm_inv_upd)
  ultimately show ?thesis
    by (simp add: fm_progress_def)
qed

lemma owners_Acquire:
  assumes "storage_ok alloc" and "AcquireFuture alloc i fm = (F, fm')" and "F \<noteq> 0"
  shows "owners fm' = (owners fm)(F \<mapsto> i)" and "owners fm F = None"
  using AcquireFuture_id [OF assms] by (auto simp: owners_def new_future_def fun_eq_iff)

lemma owners_Release: "owners (ReleaseFuture F fm) = (owners fm)(F := None)"
  by (auto simp: owners_def ReleaseFuture_def fun_eq_iff)

lemma owners_ready [simp]: "owners (fm\<lparr>fm_ready := q\<rparr>) = owners fm"
  by (simp add: owners_def fun_eq_iff)

lemma owners_new_manager [simp]: "owners (new_manager n) = Map.empty"
  by (simp add: owners_def new_manager_def fun_eq_iff)

lemma fm_inv_pop: "fm_inv n fm \<Longrightarrow> fm_ready fm = F # q \<Longrightarrow> fm_inv n (fm\<lparr>fm_ready := q\<rparr>)"
  by (auto simp: fm_inv_def)

lemma fm_inv_ready_owner: "fm_inv n fm \<Longrightarrow> F \<in> set (fm_ready fm) \<Longrightarrow> \<exists>i. owners fm F = Some i"
  by (auto simp: fm_inv_def owners_def)

lemma owners_Some: "owners fm F = Some i \<longleftrightarrow> (\<exists>G. fm_pool fm F = Some G \<and> fu_owner G = i)"
  by (auto simp: owners_def)

section \<open>The service's own invariant of ownership\<close>

definition channel_owners :: "'w pa \<Rightarrow> uint64 \<Rightarrow> uint64 option" where
  "channel_owners s u = map_option pu_ParentConnection (pa_ClientUdpChannelPool s u)"

definition own_inv :: "uint64 \<Rightarrow> 'w pa \<Rightarrow> bool" where
  "own_inv n s \<longleftrightarrow>
     fm_inv n (pa_AuthFutures s) \<and> fm_inv n (pa_DeviceFutures s) \<and>
     fm_inv n (pa_ConnectionFutures s) \<and> fm_inv n (pa_UdpFutures s) \<and>
     owns (owners (pa_AuthFutures s)) pc_AuthFuture (pa_ClientConnectionPool s) \<and>
     owns (owners (pa_DeviceFutures s)) pc_AcquireDeviceFuture (pa_ClientConnectionPool s) \<and>
     owns (owners (pa_ConnectionFutures s)) pc_AcquireDeviceConnectionFuture (pa_ClientConnectionPool s) \<and>
     owns (owners (pa_UdpFutures s)) pc_AcquireDeviceUdpChannelFuture (pa_ClientConnectionPool s) \<and>
     owns (channel_owners s) pc_BindUdpChannel (pa_ClientConnectionPool s) \<and>
     pa_AuthFutureTimeoutList s = [] \<and> pa_DeviceFutureTimeoutList s = [] \<and>
     pa_ConnectionFutureTimeoutList s = [] \<and> pa_UdpFutureTimeoutList s = []"

lemma own_inv_cong:
  assumes "pa_AuthFutures s' = pa_AuthFutures s" and "pa_DeviceFutures s' = pa_DeviceFutures s"
    and "pa_ConnectionFutures s' = pa_ConnectionFutures s" and "pa_UdpFutures s' = pa_UdpFutures s"
    and "pa_ClientConnectionPool s' = pa_ClientConnectionPool s"
    and "pa_ClientUdpChannelPool s' = pa_ClientUdpChannelPool s"
    and "pa_AuthFutureTimeoutList s' = pa_AuthFutureTimeoutList s"
    and "pa_DeviceFutureTimeoutList s' = pa_DeviceFutureTimeoutList s"
    and "pa_ConnectionFutureTimeoutList s' = pa_ConnectionFutureTimeoutList s"
    and "pa_UdpFutureTimeoutList s' = pa_UdpFutureTimeoutList s"
  shows "own_inv n s' = own_inv n s"
proof -
  have "channel_owners s' = channel_owners s"
    by (simp add: channel_owners_def assms fun_eq_iff)
  then show ?thesis
    by (simp add: own_inv_def assms)
qed

text \<open>Writes that concern nothing of it.\<close>

lemma own_inv_frame [simp]:
  "own_inv n (s\<lparr>pa_World := w\<rparr>) = own_inv n s" "own_inv n (s\<lparr>pa_Out := out\<rparr>) = own_inv n s"
  "own_inv n (s\<lparr>pa_Audit := a\<rparr>) = own_inv n s" "own_inv n (s\<lparr>pa_LocalTicker := t\<rparr>) = own_inv n s"
  "own_inv n (s\<lparr>pa_DefaultBufferSize := b\<rparr>) = own_inv n s"
  "own_inv n (s\<lparr>pa_InitTimeoutList := l\<rparr>) = own_inv n s" "own_inv n (s\<lparr>pa_IdleTimeoutList := l\<rparr>) = own_inv n s"
  "own_inv n (s\<lparr>pa_KillList := l\<rparr>) = own_inv n s" "own_inv n (s\<lparr>pa_GracefulKillList := l\<rparr>) = own_inv n s"
  "own_inv n (on_world f s) = own_inv n s" "own_inv n (unlink i s) = own_inv n s"
  "own_inv n (Connection_PostData i D s) = own_inv n s"
  by (rule own_inv_cong; simp add: on_world_def unlink_def Connection_PostData_def)+

section \<open>Timeout lists\<close>

definition stamps :: "'w pa \<Rightarrow> uint64 \<Rightarrow> uint64 option" where
  "stamps s i = map_option pc_TimestampMS (pa_ClientConnectionPool s i)"

definition lists_ok ::
    "(uint64 \<Rightarrow> uint64 option) \<Rightarrow> uint64 \<Rightarrow> uint64 list \<Rightarrow> uint64 list \<Rightarrow> uint64 list \<Rightarrow> uint64 list \<Rightarrow> bool" where
  "lists_ok st now I A K G \<longleftrightarrow>
     distinct (I @ A @ K @ G) \<and> set (I @ A @ K @ G) = dom st \<and>
     sorted (map (\<lambda>i. the (st i)) I) \<and> sorted (map (\<lambda>i. the (st i)) A) \<and> sorted (map (\<lambda>i. the (st i)) G) \<and>
     (\<forall>i t. st i = Some t \<longrightarrow> t \<le> now)"

definition lists_inv :: "'w pa \<Rightarrow> bool" where
  "lists_inv s \<longleftrightarrow> lists_ok (stamps s) (pa_LocalTicker s) (pa_InitTimeoutList s) (pa_IdleTimeoutList s)
     (pa_KillList s) (pa_GracefulKillList s)"

lemma sorted_stamps_removeAll:
  "sorted (map (\<lambda>i. the (st i)) xs) \<Longrightarrow> sorted (map (\<lambda>j. the ((st(i := t)) j)) (removeAll i xs))"
proof -
  assume "sorted (map (\<lambda>i. the (st i)) xs)"
  then have "sorted (map (\<lambda>i. the (st i)) (filter (\<lambda>j. j \<noteq> i) xs))"
    by (rule sorted_filter)
  moreover have "removeAll i xs = filter (\<lambda>j. j \<noteq> i) xs"
    by (induction xs) auto
  moreover have "map (\<lambda>j. the ((st(i := t)) j)) (filter (\<lambda>j. j \<noteq> i) xs) = map (\<lambda>i. the (st i)) (filter (\<lambda>j. j \<noteq> i) xs)"
    by (rule map_cong) auto
  ultimately show ?thesis
    by (simp only:)
qed

lemma sorted_stamps_tail:
  assumes "sorted (map (\<lambda>i. the (st i)) xs)" and "\<forall>i t. st i = Some t \<longrightarrow> t \<le> now" and "set xs \<subseteq> dom st"
  shows "sorted (map (\<lambda>j. the ((st(i \<mapsto> now)) j)) (removeAll i xs @ [i]))"
proof -
  have "\<forall>j \<in> set xs. the (st j) \<le> now"
    using assms(2,3) by fastforce
  then show ?thesis
    using sorted_stamps_removeAll [OF assms(1), of i "Some now"]
    by (auto simp: sorted_append)
qed

lemma lists_ok_touch:
  assumes ok: "lists_ok st now I A K G" and "st i \<noteq> None"
  shows "lists_ok (st(i \<mapsto> now)) now (removeAll i I) (removeAll i A @ [i]) (removeAll i K) (removeAll i G)"
    and "lists_ok (st(i \<mapsto> now)) now (removeAll i I) (removeAll i A) (removeAll i K) (removeAll i G @ [i])"
proof -
  have d: "distinct (I @ A @ K @ G)" and dom: "set (I @ A @ K @ G) = dom st"
    and srt: "sorted (map (\<lambda>i. the (st i)) I)" "sorted (map (\<lambda>i. the (st i)) A)" "sorted (map (\<lambda>i. the (st i)) G)"
    and le: "\<forall>i t. st i = Some t \<longrightarrow> t \<le> now"
    using ok by (simp_all add: lists_ok_def)
  have d': "distinct (removeAll i I @ (removeAll i A @ [i]) @ removeAll i K @ removeAll i G)"
    "distinct (removeAll i I @ removeAll i A @ removeAll i K @ (removeAll i G @ [i]))"
    using d by auto
  have m: "insert i (set (I @ A @ K @ G)) = insert i (dom st)"
    using dom by simp
  have dom': "set (removeAll i I @ (removeAll i A @ [i]) @ removeAll i K @ removeAll i G) = dom (st(i \<mapsto> now))"
    "set (removeAll i I @ removeAll i A @ removeAll i K @ (removeAll i G @ [i])) = dom (st(i \<mapsto> now))"
    using m by auto
  have le': "\<forall>j t. (st(i \<mapsto> now)) j = Some t \<longrightarrow> t \<le> now"
    using le by simp
  have sub: "set A \<subseteq> dom st" "set G \<subseteq> dom st"
    using dom by auto
  note tails = sorted_stamps_tail [OF srt(2) le sub(1), of i] sorted_stamps_tail [OF srt(3) le sub(2), of i]
  note rest = srt [THEN sorted_stamps_removeAll, of i "Some now"]
  show "lists_ok (st(i \<mapsto> now)) now (removeAll i I) (removeAll i A @ [i]) (removeAll i K) (removeAll i G)"
    unfolding lists_ok_def by (intro conjI d'(1) dom'(1) rest(1) tails(1) rest(3) le')
  show "lists_ok (st(i \<mapsto> now)) now (removeAll i I) (removeAll i A) (removeAll i K) (removeAll i G @ [i])"
    unfolding lists_ok_def by (intro conjI d'(2) dom'(2) rest(1) rest(2) tails(2) le')
qed

lemma lists_ok_kill:
  assumes ok: "lists_ok st now I A K G" and "st i \<noteq> None"
  shows "lists_ok st now (removeAll i I) (removeAll i A) (removeAll i K @ [i]) (removeAll i G)"
proof -
  have "st(i := st i) = st"
    by simp
  then have "sorted (map (\<lambda>i. the (st i)) (removeAll i xs))" if "sorted (map (\<lambda>i. the (st i)) xs)" for xs
    using sorted_stamps_removeAll [OF that, of i "st i"] by simp
  then show ?thesis
    using ok assms(2) by (auto simp: lists_ok_def)
qed

lemma lists_ok_new:
  assumes ok: "lists_ok st now I A K G" and "st i = None"
  shows "lists_ok (st(i \<mapsto> now)) now (I @ [i]) A K G"
proof -
  have "set (I @ A @ K @ G) = dom st"
    using ok by (simp add: lists_ok_def)
  then have "i \<notin> set (I @ A @ K @ G)"
    using assms(2) by (simp add: domIff)
  then have i: "i \<notin> set I" "i \<notin> set A" "i \<notin> set K" "i \<notin> set G"
    by simp_all
  have "sorted (map (\<lambda>i. the (st i)) I)" and "\<forall>i t. st i = Some t \<longrightarrow> t \<le> now" and "set I \<subseteq> dom st"
    using ok unfolding lists_ok_def by auto
  from sorted_stamps_tail [OF this, of i] have "sorted (map (\<lambda>j. the ((st(i \<mapsto> now)) j)) (I @ [i]))"
    by (simp only: removeAll_id [OF i(1)])
  moreover have "sorted (map (\<lambda>j. the ((st(i \<mapsto> now)) j)) xs)"
    if "sorted (map (\<lambda>j. the (st j)) xs)" "i \<notin> set xs" for xs
    using sorted_stamps_removeAll [OF that(1), of i "Some now"] by (simp only: removeAll_id [OF that(2)])
  then have "sorted (map (\<lambda>j. the ((st(i \<mapsto> now)) j)) A)" "sorted (map (\<lambda>j. the ((st(i \<mapsto> now)) j)) G)"
    using ok i unfolding lists_ok_def by blast+
  ultimately show ?thesis
    using ok i by (auto simp: lists_ok_def)
qed

lemma lists_ok_remove:
  assumes ok: "lists_ok st now I A K G"
  shows "lists_ok (st(i := None)) now (removeAll i I) (removeAll i A) (removeAll i K) (removeAll i G)"
proof -
  have d: "distinct (I @ A @ K @ G)" and dom: "set (I @ A @ K @ G) = dom st"
    and srt: "sorted (map (\<lambda>i. the (st i)) I)" "sorted (map (\<lambda>i. the (st i)) A)" "sorted (map (\<lambda>i. the (st i)) G)"
    and le: "\<forall>i t. st i = Some t \<longrightarrow> t \<le> now"
    using ok by (simp_all add: lists_ok_def)
  have d': "distinct (removeAll i I @ removeAll i A @ removeAll i K @ removeAll i G)"
    using d by auto
  have "set (removeAll i I @ removeAll i A @ removeAll i K @ removeAll i G) = set (I @ A @ K @ G) - {i}"
    by auto
  then have dom': "set (removeAll i I @ removeAll i A @ removeAll i K @ removeAll i G) = dom (st(i := None))"
    by (simp add: dom del: set_append)
  have le': "\<forall>j t. (st(i := None)) j = Some t \<longrightarrow> t \<le> now"
    using le by simp
  note rest = srt [THEN sorted_stamps_removeAll, of i None]
  show ?thesis
    unfolding lists_ok_def by (intro conjI d' dom' rest le')
qed

lemma lists_ok_tick: "lists_ok st now I A K G \<Longrightarrow> now \<le> now' \<Longrightarrow> lists_ok st now' I A K G"
  by (fastforce simp: lists_ok_def)

lemma lists_ok_move:
  assumes "lists_ok st now (i # I) A K G" shows "lists_ok st now I A (K @ [i]) G"
  using assms by (auto simp: lists_ok_def)

lemma lists_ok_move_idle:
  assumes "lists_ok st now I (i # A) K G" shows "lists_ok st now I A (K @ [i]) G"
  using assms by (auto simp: lists_ok_def)

lemma lists_ok_move_graceful:
  assumes "lists_ok st now I A K (i # G)" shows "lists_ok st now I A (K @ [i]) G"
  using assms by (auto simp: lists_ok_def)

end
