(* ===== verification/Pa_Handlers.thy ===== *)
theory Pa_Handlers
  imports Pa_Ownership
begin

text \<open>
  The handlers of the proxy service keep its invariant. \<open>holds n P i C s\<close> says that ownership and
  lists are in order, and that connection \<open>i\<close> is \<open>C\<close> now while the others are as in \<open>P\<close>; every
  primitive has a rule that tells what becomes of \<open>C\<close>. At the end of a handler \<open>C\<close> must fit its
  phase (\<open>conn_ok\<close>).
\<close>

section \<open>What the service relies on\<close>

text \<open>
  The other services complete the futures they are given, at once or later, and do nothing else to
  the managers; the storage gives out fresh identifiers.
\<close>

locale proxy_services =
  fixes E :: "'w pa_env"
  assumes alloc: "storage_ok (pa_alloc E)"
    and auth: "fm_progress fma (snd (sv_AcquireAuthInfo E v F (w, fma)))"
    and device: "fm_progress fmd (snd (sv_AcquireDevice E q F (w, fmd)))"
    and connection_address: "fm_progress fmc (snd (sv_CreateConnection_address E r d i T F (w, fmc)))"
    and connection_host: "fm_progress fmc (snd (sv_CreateConnection_host E r d i h p F (w, fmc)))"
    and udp_channel: "fm_progress fmc (snd (sv_CreateUdpChannel E r d u F (w, fmc)))"
begin

lemma request_cases:
  assumes req: "(let (F, fm) = AcquireFuture (pa_alloc E) i fm0 in
      if F = 0 then (None, s) else let (w, fm) = call F (w0, fm) in (Some F, put w fm)) = (R, s')"
    and progress: "\<And>F fm. fm_progress fm (snd (call F (w0, fm)))"
  obtains (none) "R = None" "s' = s"
  | (some) F w fm where "R = Some F" "s' = put w fm" "owners fm0 F = None"
      "owners fm = (owners fm0)(F \<mapsto> i)" "\<And>n. fm_inv n fm0 \<Longrightarrow> fm_inv n fm"
proof -
  obtain F fm1 where A: "AcquireFuture (pa_alloc E) i fm0 = (F, fm1)"
    by fastforce
  obtain w fm where C: "call F (w0, fm1) = (w, fm)"
    by fastforce
  show ?thesis
  proof (cases "F = 0")
    case True
    with req A none show ?thesis by simp
  next
    case False
    note own = owners_Acquire [OF alloc A False]
    from progress [of fm1 F] C have p: "owners fm = owners fm1" "\<And>n. fm_inv n fm1 \<Longrightarrow> fm_inv n fm"
      by (auto simp: fm_progress_def)
    show ?thesis
    proof (rule some [of F w fm])
      show "R = Some F" "s' = put w fm"
        using req A C False by simp_all
      show "owners fm0 F = None" "owners fm = (owners fm0)(F \<mapsto> i)"
        using own p(1) by simp_all
      show "fm_inv n fm" if "fm_inv n fm0" for n
        by (rule p(2)) (rule fm_inv_Acquire [OF alloc that A])
    qed
  qed
qed

end

section \<open>Tracking one connection\<close>

definition holds ::
    "uint64 \<Rightarrow> (uint64 \<Rightarrow> pa_connection option) \<Rightarrow> uint64 \<Rightarrow> pa_connection \<Rightarrow> 'w pa \<Rightarrow> bool" where
  "holds n P i C s \<longleftrightarrow> own_inv n s \<and> lists_inv s \<and> pa_ClientConnectionPool s = P(i \<mapsto> C)"

lemma holds_conn: "holds n P i C s \<Longrightarrow> conn i s = C"
  by (simp add: holds_def conn_def)

lemma holds_pool: "holds n P i C s \<Longrightarrow> pa_ClientConnectionPool s i = Some C"
  by (simp add: holds_def)

lemma lists_inv_cong:
  assumes "pa_ClientConnectionPool s' = pa_ClientConnectionPool s" and "pa_LocalTicker s' = pa_LocalTicker s"
    and "pa_InitTimeoutList s' = pa_InitTimeoutList s" and "pa_IdleTimeoutList s' = pa_IdleTimeoutList s"
    and "pa_KillList s' = pa_KillList s" and "pa_GracefulKillList s' = pa_GracefulKillList s"
  shows "lists_inv s' = lists_inv s"
proof -
  have "stamps s' = stamps s"
    by (simp add: stamps_def assms fun_eq_iff)
  then show ?thesis
    by (simp add: lists_inv_def assms)
qed

lemma lists_inv_frame [simp]:
  "lists_inv (s\<lparr>pa_World := w\<rparr>) = lists_inv s" "lists_inv (s\<lparr>pa_Out := out\<rparr>) = lists_inv s"
  "lists_inv (s\<lparr>pa_Audit := a\<rparr>) = lists_inv s" "lists_inv (s\<lparr>pa_DefaultBufferSize := b\<rparr>) = lists_inv s"
  "lists_inv (s\<lparr>pa_AuthFutures := fa\<rparr>) = lists_inv s" "lists_inv (s\<lparr>pa_DeviceFutures := fd\<rparr>) = lists_inv s"
  "lists_inv (s\<lparr>pa_ConnectionFutures := fc\<rparr>) = lists_inv s" "lists_inv (s\<lparr>pa_UdpFutures := fu\<rparr>) = lists_inv s"
  "lists_inv (s\<lparr>pa_AuthFutureTimeoutList := l\<rparr>) = lists_inv s"
  "lists_inv (s\<lparr>pa_DeviceFutureTimeoutList := l\<rparr>) = lists_inv s"
  "lists_inv (s\<lparr>pa_ConnectionFutureTimeoutList := l\<rparr>) = lists_inv s"
  "lists_inv (s\<lparr>pa_UdpFutureTimeoutList := l\<rparr>) = lists_inv s"
  "lists_inv (s\<lparr>pa_ClientUdpChannelPool := U\<rparr>) = lists_inv s"
  "lists_inv (on_world f s) = lists_inv s" "lists_inv (Connection_PostData i D s) = lists_inv s"
  by (rule lists_inv_cong; simp add: on_world_def Connection_PostData_def)+

lemma pool_frame [simp]:
  "pa_ClientConnectionPool (on_world g s) = pa_ClientConnectionPool s"
  "pa_ClientConnectionPool (Connection_PostData i D s) = pa_ClientConnectionPool s"
  "pa_ClientConnectionPool (unlink i s) = pa_ClientConnectionPool s"
  "pa_ClientConnectionPool (upd_conn i f s) =
     (pa_ClientConnectionPool s)(i := map_option f (pa_ClientConnectionPool s i))"
  by (simp_all add: on_world_def Connection_PostData_def unlink_def upd_conn_def)

lemma stamps_upd: "(\<And>C. pa_ClientConnectionPool s i = Some C \<Longrightarrow> pc_TimestampMS (f C) = pc_TimestampMS C) \<Longrightarrow>
    stamps (upd_conn i f s) = stamps s"
  by (auto simp: stamps_def fun_eq_iff map_option_case split: option.splits)

lemma lists_inv_upd:
  assumes "lists_inv s" and "\<And>C. pa_ClientConnectionPool s i = Some C \<Longrightarrow> pc_TimestampMS (f C) = pc_TimestampMS C"
  shows "lists_inv (upd_conn i f s)"
proof -
  have "pa_LocalTicker (upd_conn i f s) = pa_LocalTicker s" "pa_InitTimeoutList (upd_conn i f s) = pa_InitTimeoutList s"
    "pa_IdleTimeoutList (upd_conn i f s) = pa_IdleTimeoutList s" "pa_KillList (upd_conn i f s) = pa_KillList s"
    "pa_GracefulKillList (upd_conn i f s) = pa_GracefulKillList s"
    by (simp_all add: upd_conn_def)
  moreover have "stamps (upd_conn i f s) = stamps s"
    by (rule stamps_upd) (rule assms(2))
  ultimately show ?thesis
    using assms(1) by (simp add: lists_inv_def)
qed

text \<open>Writes that leave the pointers and the time stamp alone.\<close>

definition same_links :: "pa_connection \<Rightarrow> pa_connection \<Rightarrow> bool" where
  "same_links C C' \<longleftrightarrow>
     pc_AuthFuture C' = pc_AuthFuture C \<and> pc_AcquireDeviceFuture C' = pc_AcquireDeviceFuture C \<and>
     pc_AcquireDeviceConnectionFuture C' = pc_AcquireDeviceConnectionFuture C \<and>
     pc_AcquireDeviceUdpChannelFuture C' = pc_AcquireDeviceUdpChannelFuture C \<and>
     pc_BindUdpChannel C' = pc_BindUdpChannel C"

lemma own_inv_upd:
  assumes "own_inv n s" and "\<And>C. pa_ClientConnectionPool s i = Some C \<Longrightarrow> same_links C (f C)"
  shows "own_inv n (upd_conn i f s)"
proof (cases "pa_ClientConnectionPool s i")
  case None
  then have "upd_conn i f s = s"
    by (simp add: upd_conn_def fun_upd_idem)
  with assms(1) show ?thesis by simp
next
  case (Some C)
  with assms(2) have same: "same_links C (f C)"
    by simp
  have "channel_owners (upd_conn i f s) = channel_owners s"
    by (simp add: channel_owners_def upd_conn_def fun_eq_iff)
  then show ?thesis
    using assms(1) same Some unfolding own_inv_def same_links_def
    by (auto simp: upd_conn_def intro!: owns_same)
qed

lemma holds_upd:
  assumes "holds n P i C s" and "same_links C (f C)" and "pc_TimestampMS (f C) = pc_TimestampMS C"
  shows "holds n P i (f C) (upd_conn i f s)"
  using assms own_inv_upd [of n s i f] lists_inv_upd [of s i f] by (simp add: holds_def)

lemma holds_frame [simp]:
  "holds n P i C (s\<lparr>pa_World := w\<rparr>) = holds n P i C s" "holds n P i C (s\<lparr>pa_Out := out\<rparr>) = holds n P i C s"
  "holds n P i C (s\<lparr>pa_Audit := a\<rparr>) = holds n P i C s"
  "holds n P i C (on_world f s) = holds n P i C s" "holds n P i C (Connection_PostData j D s) = holds n P i C s"
  by (simp_all add: holds_def)

lemma stamps_holds: "holds n P i C s \<Longrightarrow> stamps s i = Some (pc_TimestampMS C)"
  by (simp add: stamps_def holds_def)

lemma holds_KeepAlive:
  assumes "holds n P i C s" and "\<not> pc_DeleteMark C"
  shows "fst (KeepAlive i s)"
    and "holds n P i (C\<lparr>pc_TimestampMS := pa_LocalTicker s\<rparr>) (snd (KeepAlive i s))"
proof -
  let ?s = "snd (KeepAlive i s)"
  have eq: "KeepAlive i s = (True,
      (unlink i (upd_conn i (\<lambda>C. C\<lparr>pc_TimestampMS := pa_LocalTicker s\<rparr>) s))
        \<lparr>pa_IdleTimeoutList := removeAll i (pa_IdleTimeoutList s) @ [i]\<rparr>)"
    using assms holds_conn [OF assms(1)] by (simp add: KeepAlive_def Let_def unlink_def upd_conn_def)
  then show "fst (KeepAlive i s)"
    by simp
  have pool: "pa_ClientConnectionPool ?s = P(i \<mapsto> C\<lparr>pc_TimestampMS := pa_LocalTicker s\<rparr>)"
    using assms(1) by (simp add: eq unlink_def upd_conn_def holds_def)
  have st: "stamps ?s = (stamps s)(i \<mapsto> pa_LocalTicker s)"
    using assms(1) by (simp add: stamps_def pool fun_eq_iff holds_def)
  have "lists_inv ?s"
    using lists_ok_touch(1) [of "stamps s" _ _ _ _ _ i] assms(1) stamps_holds [OF assms(1)]
    unfolding lists_inv_def st by (simp add: eq unlink_def upd_conn_def lists_inv_def holds_def)
  moreover have "own_inv n ?s"
    unfolding eq using assms(1) by (simp add: own_inv_upd same_links_def holds_def)
  ultimately show "holds n P i (C\<lparr>pc_TimestampMS := pa_LocalTicker s\<rparr>) ?s"
    by (simp add: holds_def pool)
qed

lemma KeepAlive_marked: "pc_DeleteMark (conn i s) \<Longrightarrow> KeepAlive i s = (False, s)"
  by (simp add: KeepAlive_def)

lemma holds_KeepAlive_any:
  assumes "holds n P i C s"
  shows "\<exists>t. holds n P i (C\<lparr>pc_TimestampMS := t\<rparr>) (snd (KeepAlive i s))"
proof (cases "pc_DeleteMark C")
  case True
  then have "holds n P i (C\<lparr>pc_TimestampMS := pc_TimestampMS C\<rparr>) (snd (KeepAlive i s))"
    using assms by (simp add: KeepAlive_marked holds_conn [OF assms])
  then show ?thesis by blast
next
  case False
  from holds_KeepAlive(2) [OF assms False] show ?thesis by blast
qed

lemma holds_DeferKill:
  assumes "holds n P i C s"
  shows "holds n P i (C\<lparr>pc_DeleteMark := True\<rparr>) (DeferKill i s)"
proof -
  let ?s = "DeferKill i s"
  have pool: "pa_ClientConnectionPool ?s = P(i \<mapsto> C\<lparr>pc_DeleteMark := True\<rparr>)"
    using assms by (simp add: DeferKill_def Let_def unlink_def upd_conn_def holds_def)
  have st: "stamps ?s = stamps s"
    using assms by (simp add: stamps_def pool fun_eq_iff holds_def)
  have "lists_inv ?s"
    using lists_ok_kill [of "stamps s" _ _ _ _ _ i] assms stamps_holds [OF assms]
    unfolding lists_inv_def st by (simp add: DeferKill_def Let_def unlink_def upd_conn_def lists_inv_def holds_def)
  moreover have "own_inv n ?s"
    using assms by (simp add: DeferKill_def Let_def own_inv_upd same_links_def holds_def)
  ultimately show ?thesis
    by (simp add: holds_def pool)
qed

lemma holds_grab_graceful:
  assumes "holds n P i C s"
  shows "holds n P i (C\<lparr>pc_TimestampMS := pa_LocalTicker s\<rparr>)
    ((unlink i (upd_conn i (\<lambda>C. C\<lparr>pc_TimestampMS := pa_LocalTicker s\<rparr>) s))
      \<lparr>pa_GracefulKillList := removeAll i (pa_GracefulKillList s) @ [i]\<rparr>)" (is "holds n P i ?C ?s")
proof -
  have pool: "pa_ClientConnectionPool ?s = P(i \<mapsto> ?C)"
    using assms by (simp add: unlink_def upd_conn_def holds_def)
  have st: "stamps ?s = (stamps s)(i \<mapsto> pa_LocalTicker s)"
    using assms by (simp add: stamps_def pool fun_eq_iff holds_def)
  have "lists_inv ?s"
    using lists_ok_touch(2) [of "stamps s" _ _ _ _ _ i] assms stamps_holds [OF assms]
    unfolding lists_inv_def st by (simp add: unlink_def upd_conn_def lists_inv_def holds_def)
  moreover have "own_inv n ?s"
    using assms by (simp add: own_inv_upd same_links_def holds_def)
  ultimately show ?thesis
    by (simp add: holds_def pool)
qed

lemma holds_DeferGracefulKill:
  assumes "holds n P i C s"
  shows "\<exists>t. holds n P i (C\<lparr>pc_DeleteMark := True, pc_TimestampMS := t\<rparr>) (DeferGracefulKill w i s)"
proof (cases "pc_DeleteMark C")
  case True
  then have eq: "C\<lparr>pc_DeleteMark := True, pc_TimestampMS := pc_TimestampMS C\<rparr> = C"
    by (intro pa_connection.equality) simp_all
  have "DeferGracefulKill w i s = s"
    using True by (simp add: DeferGracefulKill_def holds_conn [OF assms])
  then show ?thesis
    using assms by (intro exI [of _ "pc_TimestampMS C"]) (simp only: eq)
next
  case False
  let ?s1 = "upd_conn i (\<lambda>C. C\<lparr>pc_DeleteMark := True\<rparr>) s"
  let ?C1 = "C\<lparr>pc_DeleteMark := True\<rparr>"
  have h1: "holds n P i ?C1 ?s1"
    using holds_upd [OF assms, of "\<lambda>C. C\<lparr>pc_DeleteMark := True\<rparr>"] by (simp add: same_links_def)
  show ?thesis
  proof (cases w)
    case nw: False
    then have "DeferGracefulKill w i s = ?s1"
      using False by (simp add: DeferGracefulKill_def Let_def holds_conn [OF assms])
    moreover have "C\<lparr>pc_DeleteMark := True, pc_TimestampMS := pc_TimestampMS C\<rparr> = ?C1"
      by (intro pa_connection.equality) simp_all
    ultimately show ?thesis
      using h1 by (intro exI [of _ "pc_TimestampMS C"]) (simp only:)
  next
    case True
then have "DeferGracefulKill w i s =
        (unlink i (upd_conn i (\<lambda>C. C\<lparr>pc_TimestampMS := pa_LocalTicker ?s1\<rparr>) ?s1))
        \<lparr>pa_GracefulKillList := removeAll i (pa_GracefulKillList ?s1) @ [i]\<rparr>"
      using False by (simp add: DeferGracefulKill_def Let_def holds_conn [OF assms] unlink_def upd_conn_def)
    with holds_grab_graceful [OF h1] show ?thesis
      by metis
  qed
qed

section \<open>Taking and giving back futures\<close>

lemma owns_write: "owns ow sel (P(i \<mapsto> C)) \<Longrightarrow> sel C' = sel C \<Longrightarrow> owns ow sel (P(i \<mapsto> C'))"
  using owns_same [of ow sel "P(i \<mapsto> C)" i C C'] by simp

text \<open>
  A connection has a slot for each kind of future: the field that points to it, and the manager it
  comes from. Changing slot and manager together keeps the rest of the invariant.
\<close>

locale future_slot =
  fixes sel :: "pa_connection \<Rightarrow> uint64 option"
    and put :: "uint64 option \<Rightarrow> pa_connection \<Rightarrow> pa_connection"
    and mgr :: "'w pa \<Rightarrow> (uint64, 'r) future_manager"
    and set_mgr :: "(uint64, 'r) future_manager \<Rightarrow> 'w pa \<Rightarrow> 'w pa"
    and release :: "uint64 \<Rightarrow> 'w pa \<Rightarrow> 'w pa"
  assumes sel_put: "sel (put x C) = x"
    and put_sel: "put (sel C) C = C"
    and slot: "own_inv n s \<Longrightarrow> fm_inv n (mgr s) \<and> owns (owners (mgr s)) sel (pa_ClientConnectionPool s)"
    and change: "own_inv n s \<Longrightarrow> pa_ClientConnectionPool s = P(i \<mapsto> C) \<Longrightarrow> fm_inv n fm \<Longrightarrow>
      owns (owners fm) sel (P(i \<mapsto> put x C)) \<Longrightarrow> own_inv n (upd_conn i (put x) (set_mgr fm s))"
    and pool_set: "pa_ClientConnectionPool (set_mgr fm s) = pa_ClientConnectionPool s"
    and lists_set: "lists_inv (set_mgr fm s) = lists_inv s"
    and stamp_put: "pc_TimestampMS (put x C) = pc_TimestampMS C"
    and release: "own_inv n s \<Longrightarrow> release i s = (case sel (conn i s) of
        None \<Rightarrow> s | Some F \<Rightarrow> upd_conn i (put None) (set_mgr (ReleaseFuture F (mgr s)) s))"
begin

lemma holds_change:
  assumes "holds n P i C s" and "fm_inv n fm" and "owns (owners fm) sel (P(i \<mapsto> put x C))"
  shows "holds n P i (put x C) (upd_conn i (put x) (set_mgr fm s))"
proof -
  have "own_inv n s" and pool: "pa_ClientConnectionPool s = P(i \<mapsto> C)" and "lists_inv s"
    using assms(1) by (simp_all add: holds_def)
  then have "own_inv n (upd_conn i (put x) (set_mgr fm s))" and "lists_inv (upd_conn i (put x) (set_mgr fm s))"
    using assms(2,3) by (auto intro: change lists_inv_upd simp: lists_set stamp_put)
  then show ?thesis
    by (simp add: holds_def pool pool_set)
qed

lemma holds_release:
  assumes "holds n P i C s"
  shows "holds n P i (put None C) (release i s)"
proof -
  have own: "own_inv n s" and pool: "pa_ClientConnectionPool s = P(i \<mapsto> C)"
    using assms by (simp_all add: holds_def)
  note rel = release [OF own, of i] holds_conn [OF assms]
  show ?thesis
  proof (cases "sel C")
    case None
    with put_sel [of C] assms show ?thesis
      by (simp add: rel)
  next
    case (Some F)
    have ow: "owns (owners (mgr s)) sel (P(i \<mapsto> C))" and fm: "fm_inv n (mgr s)"
      using slot [OF own] pool by simp_all
    from ownsD [OF ow, of i C F] Some obtain G where "fm_pool (mgr s) F = Some G"
      by (auto simp: owners_Some)
    with fm have "fm_inv n (ReleaseFuture F (mgr s))"
      by (rule fm_inv_Release)
    moreover have "owns (owners (ReleaseFuture F (mgr s))) sel (P(i \<mapsto> put None C))"
      using owns_release [OF ow, of i C F "put None C"] Some by (simp add: owners_Release sel_put)
    ultimately show ?thesis
      using holds_change [OF assms] Some by (simp add: rel)
  qed
qed

lemma holds_assign:
  assumes "holds n P i C s" and "sel C = None" and "owners (mgr s) F = None"
    and "owners fm = (owners (mgr s))(F \<mapsto> i)" and "\<And>n. fm_inv n (mgr s) \<Longrightarrow> fm_inv n fm"
  shows "holds n P i (put (Some F) C) (upd_conn i (put (Some F)) (set_mgr fm s))"
proof -
  have own: "own_inv n s" and pool: "pa_ClientConnectionPool s = P(i \<mapsto> C)"
    using assms(1) by (simp_all add: holds_def)
  have "owns (owners (mgr s)) sel (P(i \<mapsto> C))" and "fm_inv n fm"
    using slot [OF own] pool assms(5) by simp_all
  with owns_acquire [of "owners (mgr s)" sel "P(i \<mapsto> C)" F i C "put (Some F) C"] assms(2-4) show ?thesis
    by (intro holds_change [OF assms(1)]) (simp_all add: sel_put)
qed

end

interpretation auth_slot: future_slot pc_AuthFuture "\<lambda>x C. C\<lparr>pc_AuthFuture := x\<rparr>" pa_AuthFutures "\<lambda>fm s. s\<lparr>pa_AuthFutures := fm\<rparr>" ReleaseAuthFuture
proof (unfold_locales, goal_cases)
  case (4 n s P i C fm x)
  then show ?case
    unfolding own_inv_def channel_owners_def by (auto simp: upd_conn_def elim!: owns_write)
next
  case (8 n s i)
  then have "pa_AuthFutureTimeoutList s = []"
    by (simp add: own_inv_def)
  then show ?case
    by (auto simp: ReleaseAuthFuture_def Let_def upd_conn_def intro!: pa.equality split: option.split)
qed (simp_all add: own_inv_def)

interpretation device_slot: future_slot pc_AcquireDeviceFuture "\<lambda>x C. C\<lparr>pc_AcquireDeviceFuture := x\<rparr>" pa_DeviceFutures "\<lambda>fm s. s\<lparr>pa_DeviceFutures := fm\<rparr>" ReleaseAcquireDeviceFuture
proof (unfold_locales, goal_cases)
  case (4 n s P i C fm x)
  then show ?case
    unfolding own_inv_def channel_owners_def by (auto simp: upd_conn_def elim!: owns_write)
next
  case (8 n s i)
  then have "pa_DeviceFutureTimeoutList s = []"
    by (simp add: own_inv_def)
  then show ?case
    by (auto simp: ReleaseAcquireDeviceFuture_def Let_def upd_conn_def intro!: pa.equality split: option.split)
qed (simp_all add: own_inv_def)

interpretation connection_slot: future_slot pc_AcquireDeviceConnectionFuture "\<lambda>x C. C\<lparr>pc_AcquireDeviceConnectionFuture := x\<rparr>" pa_ConnectionFutures "\<lambda>fm s. s\<lparr>pa_ConnectionFutures := fm\<rparr>" ReleaseAcquireDeviceConnectionFuture
proof (unfold_locales, goal_cases)
  case (4 n s P i C fm x)
  then show ?case
    unfolding own_inv_def channel_owners_def by (auto simp: upd_conn_def elim!: owns_write)
next
  case (8 n s i)
  then have "pa_ConnectionFutureTimeoutList s = []"
    by (simp add: own_inv_def)
  then show ?case
    by (auto simp: ReleaseAcquireDeviceConnectionFuture_def Let_def upd_conn_def intro!: pa.equality split: option.split)
qed (simp_all add: own_inv_def)

interpretation udp_slot: future_slot pc_AcquireDeviceUdpChannelFuture "\<lambda>x C. C\<lparr>pc_AcquireDeviceUdpChannelFuture := x\<rparr>" pa_UdpFutures "\<lambda>fm s. s\<lparr>pa_UdpFutures := fm\<rparr>" ReleaseAcquireDeviceUdpChannelFuture
proof (unfold_locales, goal_cases)
  case (4 n s P i C fm x)
  then show ?case
    unfolding own_inv_def channel_owners_def by (auto simp: upd_conn_def elim!: owns_write)
next
  case (8 n s i)
  then have "pa_UdpFutureTimeoutList s = []"
    by (simp add: own_inv_def)
  then show ?case
    by (auto simp: ReleaseAcquireDeviceUdpChannelFuture_def Let_def upd_conn_def intro!: pa.equality split: option.split)
qed (simp_all add: own_inv_def)

lemma ReportTarget_on_world:
  "\<exists>f. ReportTarget_address E g a s = on_world f s" "\<exists>f. ReportTarget_host E g h s = on_world f s"
proof -
  have "s = on_world (\<lambda>w. w) s"
    by (simp add: on_world_def)
  then show "\<exists>f. ReportTarget_address E g a s = on_world f s" "\<exists>f. ReportTarget_host E g h s = on_world f s"
    by (auto simp: ReportTarget_address_def ReportTarget_host_def split: option.split)
qed

context proxy_services begin

lemma holds_RequestAuthentication:
  assumes "holds n P i C s" and "pc_AuthFuture C = None" and "RequestAuthentication E i v s = (R, s')"
  shows "holds n P i (C\<lparr>pc_AuthFuture := R\<rparr>) (upd_conn i (\<lambda>C. C\<lparr>pc_AuthFuture := R\<rparr>) s')"
proof (rule request_cases [OF assms(3) [unfolded RequestAuthentication_def]])
  show "fm_progress fm (snd (sv_AcquireAuthInfo E v F (pa_World s, fm)))" for F fm
    by (rule auth)
  show ?thesis if "R = None" "s' = s"
    using holds_upd [OF assms(1), of "\<lambda>C. C\<lparr>pc_AuthFuture := None\<rparr>"] assms(2) that by (simp add: same_links_def)
  show ?thesis if "R = Some F" "s' = s\<lparr>pa_World := w, pa_AuthFutures := fm\<rparr>" "owners (pa_AuthFutures s) F = None"
    "owners fm = (owners (pa_AuthFutures s))(F \<mapsto> i)" "\<And>n. fm_inv n (pa_AuthFutures s) \<Longrightarrow> fm_inv n fm" for F w fm
    using auth_slot.holds_assign [of n P i C "s\<lparr>pa_World := w\<rparr>" F fm] assms(1,2) that by simp
qed

lemma holds_RequestDevice:
  assumes "holds n P i C s" and "pc_AcquireDeviceFuture C = None" and "RequestDevice E i q s = (R, s')"
  shows "holds n P i (C\<lparr>pc_AcquireDeviceFuture := R\<rparr>) (upd_conn i (\<lambda>C. C\<lparr>pc_AcquireDeviceFuture := R\<rparr>) s')"
proof (rule request_cases [OF assms(3) [unfolded RequestDevice_def]])
  show "fm_progress fm (snd (sv_AcquireDevice E q F (pa_World s, fm)))" for F fm
    by (rule device)
  show ?thesis if "R = None" "s' = s"
    using holds_upd [OF assms(1), of "\<lambda>C. C\<lparr>pc_AcquireDeviceFuture := None\<rparr>"] assms(2) that by (simp add: same_links_def)
  show ?thesis if "R = Some F" "s' = s\<lparr>pa_World := w, pa_DeviceFutures := fm\<rparr>" "owners (pa_DeviceFutures s) F = None"
    "owners fm = (owners (pa_DeviceFutures s))(F \<mapsto> i)" "\<And>n. fm_inv n (pa_DeviceFutures s) \<Longrightarrow> fm_inv n fm" for F w fm
    using device_slot.holds_assign [of n P i C "s\<lparr>pa_World := w\<rparr>" F fm] assms(1,2) that by simp
qed

lemma holds_relay_request:
  assumes "holds n P i C s" and "pc_AcquireDeviceConnectionFuture C = None"
    and "(let (F, fm) = AcquireFuture (pa_alloc E) i (pa_ConnectionFutures s) in
      if F = 0 then (None, s)
      else let (w, fm) = call F (pa_World s, fm) in (Some F, s\<lparr>pa_World := w, pa_ConnectionFutures := fm\<rparr>)) = (R, s')"
    and "\<And>F fm. fm_progress fm (snd (call F (pa_World s, fm)))"
  shows "holds n P i (C\<lparr>pc_AcquireDeviceConnectionFuture := R\<rparr>)
    (upd_conn i (\<lambda>C. C\<lparr>pc_AcquireDeviceConnectionFuture := R\<rparr>) s')"
proof (rule request_cases [OF assms(3,4)])
  show ?thesis if "R = None" "s' = s"
    using holds_upd [OF assms(1), of "\<lambda>C. C\<lparr>pc_AcquireDeviceConnectionFuture := None\<rparr>"] assms(2) that
    by (simp add: same_links_def)
  show ?thesis if "R = Some F" "s' = s\<lparr>pa_World := w, pa_ConnectionFutures := fm\<rparr>"
    "owners (pa_ConnectionFutures s) F = None" "owners fm = (owners (pa_ConnectionFutures s))(F \<mapsto> i)"
    "\<And>n. fm_inv n (pa_ConnectionFutures s) \<Longrightarrow> fm_inv n fm" for F w fm
    using connection_slot.holds_assign [of n P i C "s\<lparr>pa_World := w\<rparr>" F fm] assms(1,2) that by simp
qed

lemma holds_RequestDeviceConnection_address:
  assumes "holds n P i C s" and "pc_AcquireDeviceConnectionFuture C = None"
    and "RequestDeviceConnection_address E i T s = (R, s')"
  shows "holds n P i (C\<lparr>pc_AcquireDeviceConnectionFuture := R\<rparr>)
    (upd_conn i (\<lambda>C. C\<lparr>pc_AcquireDeviceConnectionFuture := R\<rparr>) s')"
proof -
  obtain f where f: "ReportTarget_address E (pc_GlobalAuthId C) (addr_Ip T) s = on_world f s"
    using ReportTarget_on_world(1) by blast
  show ?thesis
    using assms(3) unfolding RequestDeviceConnection_address_def Let_def holds_conn [OF assms(1)] f
    by (intro holds_relay_request [unfolded Let_def, of n P i C "on_world f s"
      "sv_CreateConnection_address E (dr_RelayServerId (pc_DeviceReference C)) (dr_RelaySideDeviceId (pc_DeviceReference C)) i T"])
       (use assms(1,2) in \<open>simp_all add: connection_address\<close>)
qed

lemma holds_RequestDeviceConnection_host:
  assumes "holds n P i C s" and "pc_AcquireDeviceConnectionFuture C = None"
    and "RequestDeviceConnection_host E i h p s = (R, s')"
  shows "holds n P i (C\<lparr>pc_AcquireDeviceConnectionFuture := R\<rparr>)
    (upd_conn i (\<lambda>C. C\<lparr>pc_AcquireDeviceConnectionFuture := R\<rparr>) s')"
proof -
  obtain f where f: "ReportTarget_host E (pc_GlobalAuthId C) h s = on_world f s"
    using ReportTarget_on_world(2) by blast
  show ?thesis
    using assms(3) unfolding RequestDeviceConnection_host_def Let_def holds_conn [OF assms(1)] f
    by (intro holds_relay_request [unfolded Let_def, of n P i C "on_world f s"
      "sv_CreateConnection_host E (dr_RelayServerId (pc_DeviceReference C)) (dr_RelaySideDeviceId (pc_DeviceReference C)) i h p"])
       (use assms(1,2) in \<open>simp_all add: connection_host\<close>)
qed

lemma holds_RequestDeviceUdpChannel:
  assumes "holds n P i C s" and "pc_AcquireDeviceUdpChannelFuture C = None"
    and "RequestDeviceUdpChannel E i s = (R, s')"
  shows "holds n P i (C\<lparr>pc_AcquireDeviceUdpChannelFuture := R\<rparr>)
    (upd_conn i (\<lambda>C. C\<lparr>pc_AcquireDeviceUdpChannelFuture := R\<rparr>) s')"
proof (rule request_cases [OF assms(3) [unfolded RequestDeviceUdpChannel_def Let_def [of "conn i s"]]])
  show "fm_progress fm (snd (sv_CreateUdpChannel E r d u F (w, fm)))" for r d u F w fm
    by (rule udp_channel)
  show ?thesis if "R = None" "s' = s"
    using holds_upd [OF assms(1), of "\<lambda>C. C\<lparr>pc_AcquireDeviceUdpChannelFuture := None\<rparr>"] assms(2) that
    by (simp add: same_links_def)
  show ?thesis if "R = Some F" "s' = s\<lparr>pa_World := w, pa_UdpFutures := fm\<rparr>"
    "owners (pa_UdpFutures s) F = None" "owners fm = (owners (pa_UdpFutures s))(F \<mapsto> i)"
    "\<And>n. fm_inv n (pa_UdpFutures s) \<Longrightarrow> fm_inv n fm" for F w fm
    using udp_slot.holds_assign [of n P i C "s\<lparr>pa_World := w\<rparr>" F fm] assms(1,2) that by simp
qed

end

section \<open>The phase of a connection\<close>

text \<open>
  How the type, the processor and the pointers of a connection fit together between two events: it
  waits for at most one future, of a kind its type allows; before it is authenticated its
  processor only reads challenges and headers, and it has no reference to an account; a relay
  connection is known only to the processors that pass data on; a bound UDP channel leaves no way
  to send data by TCP; the content of an HTTP request is kept until the relay is connected.
\<close>

definition conn_ok :: "pa_connection \<Rightarrow> bool" where
  "conn_ok C \<longleftrightarrow>
     (let a = (pc_AuthFuture C \<noteq> None); d = (pc_AcquireDeviceFuture C \<noteq> None);
          c = (pc_AcquireDeviceConnectionFuture C \<noteq> None); u = (pc_AcquireDeviceUdpChannelFuture C \<noteq> None);
          p = pc_DataProcessor C; t = pc_Type C
      in \<not> (a \<and> d) \<and> \<not> (a \<and> c) \<and> \<not> (a \<and> u) \<and> \<not> (d \<and> c) \<and> \<not> (d \<and> u) \<and> \<not> (c \<and> u) \<and>
         (a \<or> d \<longrightarrow> (t = S5_CHALLENGE \<or> t = HTTP_RAW) \<and> p = P_KillConnectionOnData \<or> t = HTTP_NORMAL \<and> p = P_OnHttpBody) \<and>
         (c \<longrightarrow> (t = S5_TCP \<or> t = HTTP_RAW) \<and> p = P_KillConnectionOnData \<or> t = HTTP_NORMAL \<and> p = P_OnHttpBody) \<and>
         (u \<longrightarrow> t = S5_UDP) \<and> (t = S5_UDP \<longrightarrow> pc_BindUdpChannel C \<noteq> None) \<and>
         (case p of
            P_KillConnectionOnData \<Rightarrow> t \<noteq> UNDETERMINED \<and> t \<noteq> HTTP_NORMAL
          | P_OnGuessProxyType \<Rightarrow> t = UNDETERMINED
          | P_OnS5AuthInfo \<Rightarrow> t = S5_CHALLENGE
          | P_OnS5Target \<Rightarrow> t = S5_CHALLENGE
          | P_OnRawData \<Rightarrow> t = S5_TCP \<or> t = HTTP_RAW
          | P_OnHttpRawHeaderProcessor \<Rightarrow> t = HTTP_RAW
          | P_OnHttpNormalHeaderProcessor \<Rightarrow> t = HTTP_NORMAL
          | P_OnHttpBody \<Rightarrow> t = HTTP_NORMAL) \<and>
         (pc_BindUdpChannel C \<noteq> None \<longrightarrow>
            p = P_KillConnectionOnData \<and> (t = S5_CHALLENGE \<or> t = S5_UDP) \<and> \<not> a \<and> \<not> d \<and> \<not> c) \<and>
         (pc_RelaySideConnectionId C \<noteq> 0 \<longrightarrow> (p = P_OnRawData \<or> p = P_OnHttpBody) \<and> \<not> a \<and> \<not> d \<and> \<not> c \<and> \<not> u) \<and>
         (p = P_OnHttpNormalHeaderProcessor \<or> p = P_OnHttpBody \<and> (a \<or> d \<or> c) \<longrightarrow> ht_Content (pc_Http C) \<noteq> []) \<and>
         (pc_LocalAuthId C \<noteq> 0 \<longrightarrow> \<not> a \<and> p \<noteq> P_OnGuessProxyType \<and> p \<noteq> P_OnS5AuthInfo \<and>
            p \<noteq> P_OnHttpRawHeaderProcessor \<and> p \<noteq> P_OnHttpNormalHeaderProcessor))"

definition phases_ok :: "(uint64 \<Rightarrow> pa_connection option) \<Rightarrow> bool" where
  "phases_ok P \<longleftrightarrow> (\<forall>i C. P i = Some C \<longrightarrow> conn_ok C)"

definition pa_inv :: "uint64 \<Rightarrow> 'w pa \<Rightarrow> bool" where
  "pa_inv n s \<longleftrightarrow> own_inv n s \<and> lists_inv s \<and> phases_ok (pa_ClientConnectionPool s)"

lemma pa_inv_begin: "pa_inv n s \<Longrightarrow> pa_ClientConnectionPool s i = Some C \<Longrightarrow> holds n (pa_ClientConnectionPool s) i C s"
  by (simp add: pa_inv_def holds_def fun_upd_idem)

lemma pa_inv_end: "holds n P i C s \<Longrightarrow> phases_ok P \<Longrightarrow> conn_ok C \<Longrightarrow> pa_inv n s"
  by (auto simp: pa_inv_def holds_def phases_ok_def)

lemma pa_inv_phases: "pa_inv n s \<Longrightarrow> phases_ok (pa_ClientConnectionPool s)"
  by (simp add: pa_inv_def)

lemma pa_inv_conn: "pa_inv n s \<Longrightarrow> pa_ClientConnectionPool s i = Some C \<Longrightarrow> conn_ok C"
  by (simp add: pa_inv_def phases_ok_def)

text \<open>What the phase says of a connection that waits for a future.\<close>

lemma conn_ok_authenticating:
  assumes "conn_ok C" and "pc_AuthFuture C = Some F"
  shows "pc_AcquireDeviceFuture C = None" "pc_AcquireDeviceConnectionFuture C = None"
    "pc_AcquireDeviceUdpChannelFuture C = None" "pc_BindUdpChannel C = None" "pc_RelaySideConnectionId C = 0"
    "pc_LocalAuthId C = 0"
    "pc_Type C = S5_CHALLENGE \<and> pc_DataProcessor C = P_KillConnectionOnData \<or>
     pc_Type C = HTTP_RAW \<and> pc_DataProcessor C = P_KillConnectionOnData \<or>
     pc_Type C = HTTP_NORMAL \<and> pc_DataProcessor C = P_OnHttpBody \<and> ht_Content (pc_Http C) \<noteq> []"
  using assms unfolding conn_ok_def Let_def by simp_all (elim conjE disjE; simp)+

lemma conn_ok_locating:
  assumes "conn_ok C" and "pc_AcquireDeviceFuture C = Some F"
  shows "pc_AuthFuture C = None" "pc_AcquireDeviceConnectionFuture C = None"
    "pc_AcquireDeviceUdpChannelFuture C = None" "pc_BindUdpChannel C = None" "pc_RelaySideConnectionId C = 0"
    "pc_Type C = S5_CHALLENGE \<and> pc_DataProcessor C = P_KillConnectionOnData \<or>
     pc_Type C = HTTP_RAW \<and> pc_DataProcessor C = P_KillConnectionOnData \<or>
     pc_Type C = HTTP_NORMAL \<and> pc_DataProcessor C = P_OnHttpBody \<and> ht_Content (pc_Http C) \<noteq> []"
  using assms unfolding conn_ok_def Let_def by simp_all (elim conjE disjE; simp)+

lemma conn_ok_connecting:
  assumes "conn_ok C" and "pc_AcquireDeviceConnectionFuture C = Some F"
  shows "pc_AuthFuture C = None" "pc_AcquireDeviceFuture C = None"
    "pc_AcquireDeviceUdpChannelFuture C = None" "pc_BindUdpChannel C = None" "pc_RelaySideConnectionId C = 0"
    "pc_Type C = S5_TCP \<and> pc_DataProcessor C = P_KillConnectionOnData \<or>
     pc_Type C = HTTP_RAW \<and> pc_DataProcessor C = P_KillConnectionOnData \<or>
     pc_Type C = HTTP_NORMAL \<and> pc_DataProcessor C = P_OnHttpBody \<and> ht_Content (pc_Http C) \<noteq> []"
  using assms unfolding conn_ok_def Let_def by simp_all (elim conjE disjE; simp)+

lemma conn_ok_associating:
  assumes "conn_ok C" and "pc_AcquireDeviceUdpChannelFuture C = Some F"
  shows "pc_AuthFuture C = None" "pc_AcquireDeviceFuture C = None" "pc_AcquireDeviceConnectionFuture C = None"
    "pc_RelaySideConnectionId C = 0" "pc_Type C = S5_UDP" "pc_DataProcessor C = P_KillConnectionOnData"
    "pc_BindUdpChannel C \<noteq> None"
  using assms unfolding conn_ok_def Let_def by simp_all

lemma conn_ok_new: "conn_ok (new_pa_connection X R L t)"
  by (simp add: conn_ok_def new_pa_connection_def)

text \<open>Counters, marks, time stamps and addresses do not matter to the phase.\<close>

lemma conn_ok_irrelevant [simp]:
  "conn_ok (C\<lparr>pc_TimestampMS := t\<rparr>) = conn_ok C" "conn_ok (C\<lparr>pc_DeleteMark := b\<rparr>) = conn_ok C"
  "conn_ok (C\<lparr>pc_TotalTcpBytesFromClient := x\<rparr>) = conn_ok C" "conn_ok (C\<lparr>pc_TotalTcpBytesToClient := x\<rparr>) = conn_ok C"
  "conn_ok (C\<lparr>pc_TotalUdpBytesFromClient := x\<rparr>) = conn_ok C" "conn_ok (C\<lparr>pc_TotalUdpBytesToClient := x\<rparr>) = conn_ok C"
  "conn_ok (C\<lparr>pc_NoAuth := b\<rparr>) = conn_ok C" "conn_ok (C\<lparr>pc_GlobalAuthId := x\<rparr>) = conn_ok C"
  "conn_ok (C\<lparr>pc_EnableUdpTarget := b\<rparr>) = conn_ok C" "conn_ok (C\<lparr>pc_DeviceReference := r\<rparr>) = conn_ok C"
  by (simp_all add: conn_ok_def)

lemma auth_owner_conn:
  assumes "pa_inv n s" and "owners (pa_AuthFutures s) F = Some i"
  shows "auth_owner F s = i"
    and "\<exists>C. pa_ClientConnectionPool s i = Some C \<and> pc_AuthFuture C = Some F"
  using assms owns_owner [of "owners (pa_AuthFutures s)" pc_AuthFuture "pa_ClientConnectionPool s" F i]
  by (auto simp: auth_owner_def owners_def pa_inv_def own_inv_def)

lemma device_owner_conn:
  assumes "pa_inv n s" and "owners (pa_DeviceFutures s) F = Some i"
  shows "device_owner F s = i"
    and "\<exists>C. pa_ClientConnectionPool s i = Some C \<and> pc_AcquireDeviceFuture C = Some F"
  using assms owns_owner [of "owners (pa_DeviceFutures s)" pc_AcquireDeviceFuture "pa_ClientConnectionPool s" F i]
  by (auto simp: device_owner_def owners_def pa_inv_def own_inv_def)

lemma connection_owner_conn:
  assumes "pa_inv n s" and "owners (pa_ConnectionFutures s) F = Some i"
  shows "connection_owner F s = i"
    and "\<exists>C. pa_ClientConnectionPool s i = Some C \<and> pc_AcquireDeviceConnectionFuture C = Some F"
  using assms owns_owner [of "owners (pa_ConnectionFutures s)" pc_AcquireDeviceConnectionFuture "pa_ClientConnectionPool s" F i]
  by (auto simp: connection_owner_def owners_def pa_inv_def own_inv_def)

lemma udp_owner_conn:
  assumes "pa_inv n s" and "owners (pa_UdpFutures s) F = Some i"
  shows "udp_owner F s = i"
    and "\<exists>C. pa_ClientConnectionPool s i = Some C \<and> pc_AcquireDeviceUdpChannelFuture C = Some F"
  using assms owns_owner [of "owners (pa_UdpFutures s)" pc_AcquireDeviceUdpChannelFuture "pa_ClientConnectionPool s" F i]
  by (auto simp: udp_owner_def owners_def pa_inv_def own_inv_def)

lemmas send_defs = SendS5AuthError_def SendS5AuthAccepted_def Send200_def Send404_def Send407_def Send500_def
  Send502_def

lemma holds_send [simp]:
  "holds n P i C (SendS5AuthError j s) = holds n P i C s" "holds n P i C (SendS5AuthAccepted j s) = holds n P i C s"
  "holds n P i C (Send200 j s) = holds n P i C s" "holds n P i C (Send404 j s) = holds n P i C s"
  "holds n P i C (Send407 j s) = holds n P i C s" "holds n P i C (Send500 j s) = holds n P i C s"
  "holds n P i C (Send502 j s) = holds n P i C s"
  by (simp_all add: send_defs)

end
