(* ===== verification/Pa_Invariant.thy ===== *)
theory Pa_Invariant
  imports Pa_Handlers
begin

text \<open>
  Every event of the proxy service keeps \<open>pa_inv\<close>: the handlers of results, the data processors,
  the timeouts and the calls of the relay; then the step relation and its reachable states.
\<close>

section \<open>Results\<close>

text \<open>The fields an authentication result writes.\<close>

definition auth_change :: "pa_connection \<Rightarrow> pa_connection \<Rightarrow> bool" where
  "auth_change C C' \<longleftrightarrow>
     C' = C \<or> (\<exists>l g b D. C' = C\<lparr>pc_LocalAuthId := l, pc_GlobalAuthId := g, pc_EnableUdpTarget := b,
                              pc_AcquireDeviceFuture := D\<rparr>)"

lemma auth_change_http:
  "auth_change C (C\<lparr>pc_LocalAuthId := l, pc_GlobalAuthId := g, pc_AcquireDeviceFuture := D\<rparr>)"
  unfolding auth_change_def
  by (intro disjI2 exI [of _ l] exI [of _ g] exI [of _ "pc_EnableUdpTarget C"] exI [of _ D] pa_connection.equality)
     simp_all

context proxy_services begin

lemma OnS5AuthResult_holds:
  assumes h: "holds n P i C s" and "pc_AcquireDeviceFuture C = None"
  shows "\<exists>C'. holds n P i C' (OnS5AuthResult E i F s) \<and> auth_change C C'"
proof (cases "auth_result F s")
  case None
  then show ?thesis
    using h by (auto simp: OnS5AuthResult_def auth_change_def)
next
  case (Some A)
  let ?f = "\<lambda>C. C\<lparr>pc_LocalAuthId := as_LocalAuthId A, pc_GlobalAuthId := as_GlobalAuthId A,
    pc_EnableUdpTarget := as_EnableUdp A\<rparr>"
  have h1: "holds n P i (?f C) (upd_conn i ?f s)"
    using holds_upd [OF h, of ?f] by (simp add: same_links_def)
  obtain D s' where D: "RequestDevice E i (export_request (as_ExportAddress A)) (upd_conn i ?f s) = (D, s')"
    by fastforce
  let ?C = "(?f C)\<lparr>pc_AcquireDeviceFuture := D\<rparr>"
  have "holds n P i ?C (upd_conn i (\<lambda>C. C\<lparr>pc_AcquireDeviceFuture := D\<rparr>) s')"
    by (rule holds_RequestDevice [OF h1 _ D]) (simp add: assms(2))
  then have "holds n P i ?C (OnS5AuthResult E i F s)"
    using Some by (cases D) (simp_all add: OnS5AuthResult_def D Let_def)
  moreover have "auth_change C ?C"
    unfolding auth_change_def by blast
  ultimately show ?thesis by blast
qed

lemma OnHttpAuthResult_holds:
  assumes h: "holds n P i C s" and "pc_AcquireDeviceFuture C = None"
  shows "\<exists>C'. holds n P i C' (OnHttpAuthResult E i F s) \<and> auth_change C C'"
proof (cases "auth_result F s")
  case None
  then show ?thesis
    using h by (auto simp: OnHttpAuthResult_def auth_change_def)
next
  case (Some A)
  let ?f = "\<lambda>C. C\<lparr>pc_LocalAuthId := as_LocalAuthId A, pc_GlobalAuthId := as_GlobalAuthId A\<rparr>"
  have h1: "holds n P i (?f C) (upd_conn i ?f s)"
    using holds_upd [OF h, of ?f] by (simp add: same_links_def)
  obtain D s' where D: "RequestDevice E i (export_request (as_ExportAddress A)) (upd_conn i ?f s) = (D, s')"
    by fastforce
  let ?C = "(?f C)\<lparr>pc_AcquireDeviceFuture := D\<rparr>"
  have "holds n P i ?C (upd_conn i (\<lambda>C. C\<lparr>pc_AcquireDeviceFuture := D\<rparr>) s')"
    by (rule holds_RequestDevice [OF h1 _ D]) (simp add: assms(2))
  then have "holds n P i ?C (OnHttpAuthResult E i F s)"
    using Some by (cases D) (simp_all add: OnHttpAuthResult_def D Let_def)
  then show ?thesis
    using auth_change_http by blast
qed

lemma OnAuthResult_inv:
  assumes inv: "pa_inv n s" and own: "owners (pa_AuthFutures s) F = Some i"
  shows "pa_inv n (OnAuthResult E F s)"
proof -
  obtain C where C: "pa_ClientConnectionPool s i = Some C" "pc_AuthFuture C = Some F"
    using auth_owner_conn(2) [OF inv own] by blast
  note h = pa_inv_begin [OF inv C(1)]
  have ok: "conn_ok C"
    using pa_inv_conn [OF inv C(1)] .
  note f = conn_ok_authenticating [OF ok C(2)]
  note d = f(1)
  have t: "pc_Type C = S5_CHALLENGE \<or> pc_Type C = HTTP_RAW \<or> pc_Type C = HTTP_NORMAL"
    using f(7) by blast
  define s1 where "s1 = (if pc_Type C = S5_CHALLENGE then OnS5AuthResult E i F s else OnHttpAuthResult E i F s)"
  have eq: "OnAuthResult E F s = ReleaseAuthFuture i s1"
    using t by (auto simp: OnAuthResult_def auth_owner_conn(1) [OF inv own] holds_conn [OF h] s1_def Let_def)
  obtain C' where C': "holds n (pa_ClientConnectionPool s) i C' s1" "auth_change C C'"
    using OnS5AuthResult_holds [OF h d, of F] OnHttpAuthResult_holds [OF h d, of F] unfolding s1_def by metis
  have "conn_ok (C'\<lparr>pc_AuthFuture := None\<rparr>)"
    using C'(2) f(7) unfolding auth_change_def
    by (elim disjE exE conjE) (simp_all add: conn_ok_def f(1-6))
  then show ?thesis
    using pa_inv_end [OF auth_slot.holds_release [OF C'(1)] pa_inv_phases [OF inv]] by (simp add: eq)
qed

lemma OnAcquireDeviceResult_inv:
  assumes inv: "pa_inv n s" and own: "owners (pa_DeviceFutures s) F = Some i"
  shows "pa_inv n (OnAcquireDeviceResult E F s)"
proof -
  obtain C where C: "pa_ClientConnectionPool s i = Some C" "pc_AcquireDeviceFuture C = Some F"
    using device_owner_conn(2) [OF inv own] by blast
  let ?P = "pa_ClientConnectionPool s"
  note h = pa_inv_begin [OF inv C(1)]
  have ok: "conn_ok C"
    using pa_inv_conn [OF inv C(1)] .
  note f = conn_ok_locating [OF ok C(2)]
  note c = f(2)
  have t: "pc_Type C = S5_CHALLENGE \<or> pc_Type C = HTTP_RAW \<or> pc_Type C = HTTP_NORMAL"
    using f(6) by blast
  define s1 where "s1 = (if pc_Type C = S5_CHALLENGE then OnS5AcquireDeviceResult i F s else OnHttpAcquireDeviceResult E i F s)"
  have eq: "OnAcquireDeviceResult E F s = ReleaseAcquireDeviceFuture i s1"
    using t by (auto simp: OnAcquireDeviceResult_def device_owner_conn(1) [OF inv own] holds_conn [OF h] s1_def Let_def)
  have "\<exists>C'. holds n ?P i C' s1 \<and> conn_ok (C'\<lparr>pc_AcquireDeviceFuture := None\<rparr>)"
  proof (cases "device_result F s")
    case None
    then have "holds n ?P i C s1"
      using h by (simp add: s1_def OnS5AcquireDeviceResult_def OnHttpAcquireDeviceResult_def)
    moreover have "conn_ok (C\<lparr>pc_AcquireDeviceFuture := None\<rparr>)"
      using f(6) by (elim disjE conjE) (simp_all add: conn_ok_def f(1-5))
    ultimately show ?thesis by blast
  next
    case (Some R)
    show ?thesis
    proof (cases "pc_Type C = S5_CHALLENGE")
      case True
      let ?f = "\<lambda>C. C\<lparr>pc_DeviceReference := R, pc_DataProcessor := P_OnS5Target\<rparr>"
      have "holds n ?P i (?f C) s1"
        using Some True holds_upd [OF h, of ?f] by (simp add: s1_def OnS5AcquireDeviceResult_def same_links_def)
      moreover have "conn_ok ((?f C)\<lparr>pc_AcquireDeviceFuture := None\<rparr>)"
        using True by (simp add: conn_ok_def f(1-5))
      ultimately show ?thesis by blast
    next
      case False
      let ?f = "\<lambda>C. C\<lparr>pc_DeviceReference := R\<rparr>"
      have h1: "holds n ?P i (?f C) (upd_conn i ?f s)"
        using holds_upd [OF h, of ?f] by (simp add: same_links_def)
      obtain D s' where D: "RequestDeviceConnection_host E i (ht_TargetHost (pc_Http C)) (ht_TargetPort (pc_Http C))
          (upd_conn i ?f s) = (D, s')"
        by fastforce
      let ?C = "(?f C)\<lparr>pc_AcquireDeviceConnectionFuture := D\<rparr>"
      have "holds n ?P i ?C (upd_conn i (\<lambda>C. C\<lparr>pc_AcquireDeviceConnectionFuture := D\<rparr>) s')"
        by (rule holds_RequestDeviceConnection_host [OF h1 _ D]) (simp add: c)
      then have "holds n ?P i ?C s1"
        using Some False
        by (cases D) (simp_all add: s1_def OnHttpAcquireDeviceResult_def holds_conn [OF h1] D Let_def)
      moreover have "conn_ok (?C\<lparr>pc_AcquireDeviceFuture := None\<rparr>)"
        using f(6) False by (elim disjE conjE) (simp_all add: conn_ok_def f(1-5))
      ultimately show ?thesis by blast
    qed
  qed
  then obtain C' where C': "holds n ?P i C' s1" "conn_ok (C'\<lparr>pc_AcquireDeviceFuture := None\<rparr>)"
    by blast
  then show ?thesis
    using pa_inv_end [OF device_slot.holds_release [OF C'(1)] pa_inv_phases [OF inv]] by (simp add: eq)
qed

lemma OnAcquireDeviceConnectionResult_inv:
  assumes inv: "pa_inv n s" and own: "owners (pa_ConnectionFutures s) F = Some i"
  shows "pa_inv n (OnAcquireDeviceConnectionResult E F s)"
proof -
  obtain C where C: "pa_ClientConnectionPool s i = Some C" "pc_AcquireDeviceConnectionFuture C = Some F"
    using connection_owner_conn(2) [OF inv own] by blast
  let ?P = "pa_ClientConnectionPool s"
  note h = pa_inv_begin [OF inv C(1)]
  note f = conn_ok_connecting [OF pa_inv_conn [OF inv C(1)] C(2)]
  have local: "pc_LocalAuthId C \<noteq> 0 \<longrightarrow> pc_AuthFuture C = None"
    using f(1) by simp
  define s1 where "s1 = (case pc_Type C of
      S5_TCP \<Rightarrow> OnS5AcquireDeviceConnectionResult i F s
    | HTTP_RAW \<Rightarrow> OnHttpRawAcquireDeviceConnectionResult i F s
    | HTTP_NORMAL \<Rightarrow> OnHttpNormalAcquireDeviceConnectionResult E i F s
    | _ \<Rightarrow> s)"
  have eq: "OnAcquireDeviceConnectionResult E F s = ReleaseAcquireDeviceConnectionFuture i s1"
    by (simp add: OnAcquireDeviceConnectionResult_def connection_owner_conn(1) [OF inv own] holds_conn [OF h] s1_def Let_def)
  have "\<exists>C'. holds n ?P i C' s1 \<and> conn_ok (C'\<lparr>pc_AcquireDeviceConnectionFuture := None\<rparr>)"
  proof (cases "connection_result F s")
    case None
    then have "holds n ?P i C s1"
      using h f(6) by (auto simp: s1_def OnS5AcquireDeviceConnectionResult_def
          OnHttpRawAcquireDeviceConnectionResult_def OnHttpNormalAcquireDeviceConnectionResult_def)
    moreover have "conn_ok (C\<lparr>pc_AcquireDeviceConnectionFuture := None\<rparr>)"
      using f(6) by (elim disjE conjE) (simp_all add: conn_ok_def f(1-5))
    ultimately show ?thesis by blast
  next
    case (Some R)
    let ?raw = "\<lambda>C. C\<lparr>pc_RelaySideConnectionId := R, pc_DataProcessor := P_OnRawData\<rparr>"
    let ?id = "\<lambda>C. C\<lparr>pc_RelaySideConnectionId := R\<rparr>"
    let ?clear = "\<lambda>C. C\<lparr>pc_Http := (pc_Http C)\<lparr>ht_Content := []\<rparr>\<rparr>"
    have raw: "holds n ?P i (?raw C) (upd_conn i ?raw s)"
      using holds_upd [OF h, of ?raw] by (simp add: same_links_def)
    have id: "holds n ?P i (?id C) (upd_conn i ?id s)"
      using holds_upd [OF h, of ?id] by (simp add: same_links_def)
    have clear: "holds n ?P i (?clear (?id C)) (upd_conn i ?clear (on_world g (upd_conn i ?id s)))" for g
      using holds_upd [of n ?P i "?id C" "on_world g (upd_conn i ?id s)" ?clear] id by (simp add: same_links_def)
    consider "pc_Type C = S5_TCP \<or> pc_Type C = HTTP_RAW" | "pc_Type C = HTTP_NORMAL" "pc_DataProcessor C = P_OnHttpBody"
      using f(6) by blast
    then show ?thesis
    proof cases
      case 1
      then have "holds n ?P i (?raw C) s1"
        using Some raw by (auto simp: s1_def OnS5AcquireDeviceConnectionResult_def OnHttpRawAcquireDeviceConnectionResult_def)
      moreover have "conn_ok ((?raw C)\<lparr>pc_AcquireDeviceConnectionFuture := None\<rparr>)"
        using 1 by (elim disjE) (simp_all add: conn_ok_def f(1-5))
      ultimately show ?thesis by blast
    next
      case 2
      then have "holds n ?P i (?clear (?id C)) s1"
        using Some clear by (simp add: s1_def OnHttpNormalAcquireDeviceConnectionResult_def holds_conn [OF id] Let_def)
      moreover have "conn_ok ((?clear (?id C))\<lparr>pc_AcquireDeviceConnectionFuture := None\<rparr>)"
        using 2 by (simp add: conn_ok_def f(1-5))
      ultimately show ?thesis by blast
    qed
  qed
  then obtain C' where C': "holds n ?P i C' s1" "conn_ok (C'\<lparr>pc_AcquireDeviceConnectionFuture := None\<rparr>)"
    by blast
  then show ?thesis
    using pa_inv_end [OF connection_slot.holds_release [OF C'(1)] pa_inv_phases [OF inv]] by (simp add: eq)
qed

lemma holds_upd_channel:
  assumes "holds n P i C s" and "\<And>U. pu_ParentConnection (f U) = pu_ParentConnection U"
  shows "holds n P i C (upd_channel u f s)"
proof -
  have "channel_owners (upd_channel u f s) = channel_owners s"
    by (auto simp: channel_owners_def upd_channel_def fun_eq_iff assms(2) map_option_case split: option.splits)
  then have "own_inv n (upd_channel u f s) = own_inv n s"
    by (simp add: own_inv_def upd_channel_def)
  then show ?thesis
    using assms(1) by (simp add: holds_def upd_channel_def)
qed

lemma OnAcquireDeviceUdpChannelResult_inv:
  assumes inv: "pa_inv n s" and own: "owners (pa_UdpFutures s) F = Some i"
  shows "pa_inv n (OnAcquireDeviceUdpChannelResult E F s)"
proof -
  obtain C where C: "pa_ClientConnectionPool s i = Some C" "pc_AcquireDeviceUdpChannelFuture C = Some F"
    using udp_owner_conn(2) [OF inv own] by blast
  let ?P = "pa_ClientConnectionPool s"
  note h = pa_inv_begin [OF inv C(1)]
  note f = conn_ok_associating [OF pa_inv_conn [OF inv C(1)] C(2)]
  define u where "u = the (pc_BindUdpChannel C)"
  define s1 where "s1 = (case udp_result F s of
      None \<Rightarrow> Connection_PostData i S5_UDPCHANNEL_GENERIC_ERROR s
    | Some Result \<Rightarrow>
        let s = upd_channel u (\<lambda>U. U\<lparr>pu_RelaySideUdpChannelId := Result\<rparr>) s;
            s = Connection_PostData i (s5_udp_answer E (pu_BindAddress (the (pa_ClientUdpChannelPool s u)))) s
        in snd (KeepAlive i s))"
  have eq: "OnAcquireDeviceUdpChannelResult E F s = ReleaseAcquireDeviceUdpChannelFuture i s1"
    unfolding OnAcquireDeviceUdpChannelResult_def udp_owner_conn(1) [OF inv own] Let_def holds_conn [OF h] s1_def u_def
    by (rule refl)
  have "\<exists>t. holds n ?P i (C\<lparr>pc_TimestampMS := t\<rparr>) s1"
  proof (cases "udp_result F s")
    case None
    have "holds n ?P i (C\<lparr>pc_TimestampMS := pc_TimestampMS C\<rparr>) s1"
      using None h by (simp add: s1_def)
    then show ?thesis by blast
  next
    case (Some R)
    define s2 where "s2 = Connection_PostData i
      (s5_udp_answer E (pu_BindAddress (the (pa_ClientUdpChannelPool
         (upd_channel u (\<lambda>U. U\<lparr>pu_RelaySideUdpChannelId := R\<rparr>) s) u))))
      (upd_channel u (\<lambda>U. U\<lparr>pu_RelaySideUdpChannelId := R\<rparr>) s)"
    have h2: "holds n ?P i C s2"
      unfolding s2_def by (simp add: holds_upd_channel [OF h])
    have "\<exists>t. holds n ?P i (C\<lparr>pc_TimestampMS := t\<rparr>) (snd (KeepAlive i s2))"
      by (rule holds_KeepAlive_any [OF h2])
    then show ?thesis
      using Some by (simp add: s1_def s2_def Let_def)
  qed
  then obtain t where t: "holds n ?P i (C\<lparr>pc_TimestampMS := t\<rparr>) s1"
    by blast
  have "conn_ok (C\<lparr>pc_TimestampMS := t, pc_AcquireDeviceUdpChannelFuture := None\<rparr>)"
    using f by (simp add: conn_ok_def)
  then show ?thesis
    using pa_inv_end [OF udp_slot.holds_release [OF t] pa_inv_phases [OF inv]] by (simp add: eq)
qed

end

section \<open>Received data\<close>

text \<open>What the phase says of a connection whose processor reads a challenge or a header.\<close>

lemma conn_ok_reading:
  assumes "conn_ok C"
    and "pc_DataProcessor C = P_OnGuessProxyType \<or> pc_DataProcessor C = P_OnS5AuthInfo \<or>
      pc_DataProcessor C = P_OnHttpRawHeaderProcessor \<or> pc_DataProcessor C = P_OnHttpNormalHeaderProcessor"
  shows "pc_AuthFuture C = None" "pc_AcquireDeviceFuture C = None" "pc_AcquireDeviceConnectionFuture C = None"
    "pc_AcquireDeviceUdpChannelFuture C = None" "pc_BindUdpChannel C = None" "pc_RelaySideConnectionId C = 0"
    "pc_LocalAuthId C = 0"
  using assms unfolding conn_ok_def Let_def by (elim conjE disjE; simp)+

lemma conn_ok_target:
  assumes "conn_ok C" and "pc_DataProcessor C = P_OnS5Target"
  shows "pc_AuthFuture C = None" "pc_AcquireDeviceFuture C = None" "pc_AcquireDeviceConnectionFuture C = None"
    "pc_AcquireDeviceUdpChannelFuture C = None" "pc_BindUdpChannel C = None" "pc_RelaySideConnectionId C = 0"
    "pc_Type C = S5_CHALLENGE"
proof -
  show t: "pc_Type C = S5_CHALLENGE"
    using assms unfolding conn_ok_def Let_def by simp
  show "pc_AcquireDeviceUdpChannelFuture C = None"
    using assms unfolding conn_ok_def Let_def by (simp add: t)
qed (use assms in \<open>simp_all add: conn_ok_def Let_def\<close>)

lemma conn_ok_content:
  assumes "conn_ok C" and "ht_Content H = ht_Content (pc_Http C) @ D"
  shows "conn_ok (C\<lparr>pc_Http := H\<rparr>)"
proof -
  have mono: "(X \<longrightarrow> ht_Content (pc_Http C) \<noteq> []) \<Longrightarrow> (X \<longrightarrow> ht_Content H \<noteq> [])" for X
    by (simp add: assms(2))
  have same: "pc_AuthFuture (C\<lparr>pc_Http := H\<rparr>) = pc_AuthFuture C"
    "pc_AcquireDeviceFuture (C\<lparr>pc_Http := H\<rparr>) = pc_AcquireDeviceFuture C"
    "pc_AcquireDeviceConnectionFuture (C\<lparr>pc_Http := H\<rparr>) = pc_AcquireDeviceConnectionFuture C"
    "pc_AcquireDeviceUdpChannelFuture (C\<lparr>pc_Http := H\<rparr>) = pc_AcquireDeviceUdpChannelFuture C"
    "pc_DataProcessor (C\<lparr>pc_Http := H\<rparr>) = pc_DataProcessor C" "pc_Type (C\<lparr>pc_Http := H\<rparr>) = pc_Type C"
    "pc_BindUdpChannel (C\<lparr>pc_Http := H\<rparr>) = pc_BindUdpChannel C" "pc_LocalAuthId (C\<lparr>pc_Http := H\<rparr>) = pc_LocalAuthId C"
    "pc_RelaySideConnectionId (C\<lparr>pc_Http := H\<rparr>) = pc_RelaySideConnectionId C" "pc_Http (C\<lparr>pc_Http := H\<rparr>) = H"
    by simp_all
  show ?thesis
    using assms(1) unfolding conn_ok_def Let_def same by (elim conjE, intro conjI) (assumption | erule mono)+
qed

lemma pa_inv_frame [simp]:
  "pa_inv n (s\<lparr>pa_World := w\<rparr>) = pa_inv n s" "pa_inv n (s\<lparr>pa_Out := out\<rparr>) = pa_inv n s"
  "pa_inv n (s\<lparr>pa_Audit := a\<rparr>) = pa_inv n s"
  "pa_inv n (on_world f s) = pa_inv n s" "pa_inv n (Connection_PostData i D s) = pa_inv n s"
  by (simp_all add: pa_inv_def)

lemma pa_inv_send [simp]:
  "pa_inv n (Send404 i s) = pa_inv n s" "pa_inv n (Send407 i s) = pa_inv n s" "pa_inv n (Send500 i s) = pa_inv n s"
  by (simp_all add: send_defs)

lemma pa_inv_upd:
  assumes inv: "pa_inv n s" and C: "pa_ClientConnectionPool s i = Some C"
    and "same_links C (f C)" "pc_TimestampMS (f C) = pc_TimestampMS C" "conn_ok (f C)"
  shows "pa_inv n (upd_conn i f s)"
  using pa_inv_end [OF holds_upd [OF pa_inv_begin [OF inv C]] pa_inv_phases [OF inv]] assms(3-5) by blast

lemma upd_conn_missing: "pa_ClientConnectionPool s i = None \<Longrightarrow> upd_conn i f s = s"
  by (simp add: upd_conn_def fun_upd_idem)

text \<open>The counters of traffic.\<close>

lemma pa_inv_count:
  assumes "pa_inv n s"
    and "\<And>C. same_links C (f C) \<and> pc_TimestampMS (f C) = pc_TimestampMS C \<and> (conn_ok C \<longrightarrow> conn_ok (f C))"
  shows "pa_inv n (upd_conn i f s)"
proof (cases "pa_ClientConnectionPool s i")
  case None
  then show ?thesis
    using assms(1) by (simp add: upd_conn_missing)
next
  case (Some C)
  then show ?thesis
    using pa_inv_upd [OF assms(1) Some] assms(2) pa_inv_conn [OF assms(1) Some] by blast
qed

lemma KeepAlive_pa_inv:
  assumes inv: "pa_inv n s" and C: "pa_ClientConnectionPool s i = Some C" and "KeepAlive i s = (alive, s')"
  shows "\<exists>t. pa_inv n s' \<and> holds n (pa_ClientConnectionPool s) i (C\<lparr>pc_TimestampMS := t\<rparr>) s'"
proof -
  obtain t where "holds n (pa_ClientConnectionPool s) i (C\<lparr>pc_TimestampMS := t\<rparr>) s'"
    using holds_KeepAlive_any [OF pa_inv_begin [OF inv C]] assms(3) by auto
  moreover from this have "pa_inv n s'"
    by (rule pa_inv_end [OF _ pa_inv_phases [OF inv]]) (simp add: pa_inv_conn [OF inv C])
  ultimately show ?thesis by blast
qed

lemma OnRawData_inv:
  assumes inv: "pa_inv n s" and C: "pa_ClientConnectionPool s i = Some C"
  shows "pa_inv n (snd (OnRawData E i D s))"
proof -
  obtain alive s1 where k: "KeepAlive i s = (alive, s1)"
    by fastforce
  have "pa_inv n s1"
    using KeepAlive_pa_inv [OF inv C k] by blast
  then show ?thesis
    by (simp add: OnRawData_def k Let_def)
qed

lemma OnHttpBody_inv:
  assumes inv: "pa_inv n s" and C: "pa_ClientConnectionPool s i = Some C"
  shows "pa_inv n (snd (OnHttpBody E i D s))"
proof -
  obtain alive s1 where k: "KeepAlive i s = (alive, s1)"
    by fastforce
  obtain t where inv1: "pa_inv n s1" and h: "holds n (pa_ClientConnectionPool s) i (C\<lparr>pc_TimestampMS := t\<rparr>) s1"
    using KeepAlive_pa_inv [OF inv C k] by blast
  have "pa_inv n (append_content i D s1)"
    by (rule pa_inv_upd [OF inv1 holds_pool [OF h]])
       (use pa_inv_conn [OF inv C] in \<open>simp_all add: same_links_def conn_ok_content\<close>)
  with inv1 show ?thesis
    by (simp add: OnHttpBody_def k Let_def)
qed

context proxy_services begin

lemma authenticate_inv:
  assumes "holds n P i C s" and "phases_ok P" and "RequestAuthentication E i v s = (R, s')" and "pc_AuthFuture C = None"
    and "conn_ok (C\<lparr>pc_AuthFuture := R\<rparr>)"
  shows "pa_inv n (upd_conn i (\<lambda>C. C\<lparr>pc_AuthFuture := R\<rparr>) s')"
  using pa_inv_end [OF holds_RequestAuthentication [OF assms(1,4,3)] assms(2,5)] .

lemma OnS5Challenge_inv:
  assumes inv: "pa_inv n s" and C: "pa_ClientConnectionPool s i = Some C" and p: "pc_DataProcessor C = P_OnGuessProxyType"
  shows "pa_inv n (snd (OnS5Challenge E i D s))"
proof -
  note f = conn_ok_reading [OF pa_inv_conn [OF inv C]]
  note h = pa_inv_begin [OF inv C]
  let ?t = "\<lambda>C. C\<lparr>pc_Type := S5_CHALLENGE\<rparr>" and ?n = "\<lambda>C. C\<lparr>pc_NoAuth := True, pc_DataProcessor := P_KillConnectionOnData\<rparr>"
  have h1: "holds n (pa_ClientConnectionPool s) i (?t C) (upd_conn i ?t s)"
    using holds_upd [OF h, of ?t] by (simp add: same_links_def)
  have h2: "holds n (pa_ClientConnectionPool s) i (?n (?t C)) (upd_conn i ?n (upd_conn i ?t s))"
    using holds_upd [OF h1, of ?n] by (simp add: same_links_def)
  have chosen: "pa_inv n (set_processor i P_OnS5AuthInfo (Connection_PostData i [5, 2] (upd_conn i ?t s)))"
    by (rule pa_inv_end [OF holds_upd [of n _ i "?t C"] pa_inv_phases [OF inv]])
       (use h1 f p in \<open>simp_all add: same_links_def conn_ok_def\<close>)
  obtain F s3 where F: "RequestAuthentication E i (0 # IpToString E (pc_RemoteAddress (conn i (upd_conn i ?t s))))
      (upd_conn i ?n (upd_conn i ?t s)) = (F, s3)"
    by fastforce
  have "pa_inv n (upd_conn i (\<lambda>C. C\<lparr>pc_AuthFuture := F\<rparr>) s3)"
    by (rule authenticate_inv [OF h2 pa_inv_phases [OF inv] F]) (use f p in \<open>simp_all add: conn_ok_def\<close>)
  with inv chosen show ?thesis
    by (cases F) (simp_all add: OnS5Challenge_def Let_def F)
qed

lemma OnS5AuthInfo_inv:
  assumes inv: "pa_inv n s" and C: "pa_ClientConnectionPool s i = Some C" and p: "pc_DataProcessor C = P_OnS5AuthInfo"
  shows "pa_inv n (snd (OnS5AuthInfo E i D s))"
proof -
  note ok = pa_inv_conn [OF inv C]
  have t: "pc_Type C = S5_CHALLENGE"
    using ok p by (simp add: conn_ok_def Let_def)
  note f = conn_ok_reading [OF ok]
  let ?k = "\<lambda>C. C\<lparr>pc_DataProcessor := P_KillConnectionOnData\<rparr>"
  have h1: "holds n (pa_ClientConnectionPool s) i (?k C) (upd_conn i ?k s)"
    using holds_upd [OF pa_inv_begin [OF inv C], of ?k] by (simp add: same_links_def)
  have auth: "pa_inv n (upd_conn i (\<lambda>C. C\<lparr>pc_AuthFuture := F\<rparr>) s')"
    if "RequestAuthentication E i v (upd_conn i ?k s) = (F, s')" for v F s'
    by (rule authenticate_inv [OF h1 pa_inv_phases [OF inv] that])
       (use f p t in \<open>simp_all add: conn_ok_def\<close>)
  from inv show ?thesis
    by (auto simp: OnS5AuthInfo_def Let_def dest: auth split: prod.split)
qed

end

lemma holds_bind:
  assumes h: "holds n P i C s" and "pc_BindUdpChannel C = None" and "pa_ClientUdpChannelPool s u = None"
    and "pu_ParentConnection U = i"
  shows "holds n P i (C\<lparr>pc_BindUdpChannel := Some u\<rparr>)
    (upd_conn i (\<lambda>C. C\<lparr>pc_BindUdpChannel := Some u\<rparr>)
      (s\<lparr>pa_ClientUdpChannelPool := (pa_ClientUdpChannelPool s)(u \<mapsto> U)\<rparr>))" (is "holds n P i ?C ?s")
proof -
  have own: "own_inv n s" and pool: "pa_ClientConnectionPool s = P(i \<mapsto> C)" and lists: "lists_inv s"
    using h by (simp_all add: holds_def)
  have ch: "channel_owners ?s = (channel_owners s)(u \<mapsto> i)"
    using assms(4) by (simp add: channel_owners_def upd_conn_def fun_eq_iff)
  have "owns (channel_owners s) pc_BindUdpChannel (P(i \<mapsto> C))"
    using own pool by (simp add: own_inv_def)
  with owns_acquire [of "channel_owners s" pc_BindUdpChannel "P(i \<mapsto> C)" u i C ?C] assms(2,3)
  have "owns ((channel_owners s)(u \<mapsto> i)) pc_BindUdpChannel (P(i \<mapsto> ?C))"
    by (simp add: channel_owners_def)
  with own have "own_inv n ?s"
    unfolding own_inv_def ch by (auto simp: upd_conn_def pool elim!: owns_write)
  moreover have "lists_inv ?s"
    by (rule lists_inv_upd) (simp_all add: lists)
  ultimately show ?thesis
    by (simp add: holds_def pool)
qed

lemma OnHttpConnect_inv:
  assumes inv: "pa_inv n s" and C: "pa_ClientConnectionPool s i = Some C" and p: "pc_DataProcessor C = P_OnGuessProxyType"
  shows "pa_inv n (snd (OnHttpConnect E i k D s))"
proof -
  note f = conn_ok_reading [OF pa_inv_conn [OF inv C]]
  obtain H T where t: "scan_target E 32 (k - 8) (drop 8 D) = (H, T)"
    by fastforce
  let ?h = "\<lambda>C. C\<lparr>pc_Http := (pc_Http C)\<lparr>ht_TargetHost := H, ht_TargetPort := T\<rparr>\<rparr>"
  let ?r = "\<lambda>C. C\<lparr>pc_Type := HTTP_RAW, pc_DataProcessor := P_OnHttpRawHeaderProcessor\<rparr>"
  have "holds n (pa_ClientConnectionPool s) i (?h C) (upd_conn i ?h s)"
    using holds_upd [OF pa_inv_begin [OF inv C], of ?h] by (simp add: same_links_def)
  from holds_upd [OF this, of ?r]
  have "holds n (pa_ClientConnectionPool s) i (?r (?h C)) (upd_conn i ?r (upd_conn i ?h s))"
    by (simp add: same_links_def)
  from pa_inv_end [OF this pa_inv_phases [OF inv]]
  have "pa_inv n (upd_conn i ?r (upd_conn i ?h s))"
    using f p by (simp add: conn_ok_def)
  with inv show ?thesis
    by (simp add: OnHttpConnect_def t)
qed

lemma OnHttpUrl_inv:
  assumes inv: "pa_inv n s" and C: "pa_ClientConnectionPool s i = Some C" and p: "pc_DataProcessor C = P_OnGuessProxyType"
  shows "pa_inv n (snd (OnHttpUrl E i k D s))"
proof (cases "find_from 32 0 (take k D)")
  case None
  then show ?thesis
    using inv by (simp add: OnHttpUrl_def Let_def)
next
  case (Some Space)
  then have "D \<noteq> []"
    by (auto simp: find_from_def)
  note f = conn_ok_reading [OF pa_inv_conn [OF inv C]]
  let ?a = "\<lambda>A C. C\<lparr>pc_Http := (pc_Http C)\<lparr>ht_Content := ht_Content (pc_Http C) @ A\<rparr>\<rparr>"
  let ?h = "\<lambda>H T C. C\<lparr>pc_Http := (pc_Http C)\<lparr>ht_TargetHost := H, ht_TargetPort := T\<rparr>\<rparr>"
  let ?n = "\<lambda>C. C\<lparr>pc_Type := HTTP_NORMAL, pc_DataProcessor := P_OnHttpNormalHeaderProcessor\<rparr>"
  let ?A = "take (Suc Space) D"
  let ?P = "pa_ClientConnectionPool s"
  have h1: "holds n ?P i (?a ?A C) (upd_conn i (?a ?A) s)"
    using holds_upd [OF pa_inv_begin [OF inv C], of "?a ?A"] by (simp add: same_links_def)
  have inv1: "pa_inv n (upd_conn i (?a ?A) s)"
    by (rule pa_inv_end [OF h1 pa_inv_phases [OF inv]]) (simp add: conn_ok_content pa_inv_conn [OF inv C])
  have h2: "holds n ?P i (?h H T (?a ?A C)) (upd_conn i (?h H T) (upd_conn i (?a ?A) s))" for H T
    using holds_upd [OF h1, of "?h H T"] by (simp add: same_links_def)
  have h3: "holds n ?P i (?a B (?h H T (?a ?A C))) (upd_conn i (?a B) (upd_conn i (?h H T) (upd_conn i (?a ?A) s)))" for H T B
    using holds_upd [OF h2, where f = "?a B"] by (simp add: same_links_def)
  have h4: "holds n ?P i (?n (?a B (?h H T (?a ?A C))))
      (upd_conn i ?n (upd_conn i (?a B) (upd_conn i (?h H T) (upd_conn i (?a ?A) s))))" for H T B
    using holds_upd [OF h3, where f = ?n] by (simp add: same_links_def)
  have "pa_inv n (upd_conn i ?n (upd_conn i (?a B) (upd_conn i (?h H T) (upd_conn i (?a ?A) s))))" for H T B
    by (rule pa_inv_end [OF h4 pa_inv_phases [OF inv]]) (use f p \<open>D \<noteq> []\<close> in \<open>simp add: conn_ok_def\<close>)
  with inv1 show ?thesis
    by (simp add: OnHttpUrl_def Some Let_def split_beta split: option.split)
qed

lemma OnHttpChallenge_inv:
  assumes "pa_inv n s" and "pa_ClientConnectionPool s i = Some C" and "pc_DataProcessor C = P_OnGuessProxyType"
  shows "pa_inv n (snd (OnHttpChallenge E i D s))"
  using assms OnHttpConnect_inv [OF assms] OnHttpUrl_inv [OF assms]
  by (simp add: OnHttpChallenge_def split: option.split)

context proxy_services begin

lemma OnS5TcpTarget_inv:
  assumes h: "holds n P i C s" and "phases_ok P" and "conn_ok C" and "pc_Type C = S5_CHALLENGE"
    and "pc_DataProcessor C = P_KillConnectionOnData" and "pc_BindUdpChannel C = None"
    and n: "pc_AuthFuture C = None" "pc_AcquireDeviceFuture C = None" "pc_AcquireDeviceConnectionFuture C = None"
  shows "pa_inv n (snd (OnS5TcpTarget E i AT T N k s))"
proof -
  define R where "R = (if AT = 3 then RequestDeviceConnection_host E i N (na_port T) s
    else RequestDeviceConnection_address E i T s)"
  obtain F s1 where F: "R = (F, s1)"
    by fastforce
  let ?F = "\<lambda>C. C\<lparr>pc_AcquireDeviceConnectionFuture := F\<rparr>" and ?t = "\<lambda>C. C\<lparr>pc_Type := S5_TCP\<rparr>"
  have h1: "holds n P i (?F C) (upd_conn i ?F s1)"
    using F holds_RequestDeviceConnection_host [OF h n(3)] holds_RequestDeviceConnection_address [OF h n(3)]
    by (simp add: R_def split: if_splits)
  from holds_upd [OF this, of ?t] have h2: "holds n P i (?t (?F C)) (upd_conn i ?t (upd_conn i ?F s1))"
    by (simp add: same_links_def)
  have ok: "pa_inv n s"
    using pa_inv_end [OF h assms(2,3)] .
  show ?thesis
  proof (cases F)
    case None
    have "C\<lparr>pc_AcquireDeviceConnectionFuture := None\<rparr> = C"
      using n(3) by (intro pa_connection.equality) simp_all
    with pa_inv_end [OF h1 assms(2)] None assms(3) have "pa_inv n (upd_conn i ?F s1)"
      by simp
    with ok None n(3) show ?thesis
      by (simp add: OnS5TcpTarget_def R_def [symmetric] F holds_conn [OF h])
  next
    case (Some G)
    have "pa_inv n (upd_conn i ?t (upd_conn i ?F s1))"
      by (rule pa_inv_end [OF h2 assms(2)]) (use assms(3-) in \<open>simp add: conn_ok_def Let_def Some\<close>)
    with ok Some n(3) show ?thesis
      by (simp add: OnS5TcpTarget_def R_def [symmetric] F holds_conn [OF h])
  qed
qed

lemma OnS5UdpTarget_inv:
  assumes h: "holds n P i C s" and "phases_ok P" and "conn_ok C" and "pc_Type C = S5_CHALLENGE"
    and "pc_DataProcessor C = P_KillConnectionOnData" and b: "pc_BindUdpChannel C = None"
    and n: "pc_AuthFuture C = None" "pc_AcquireDeviceFuture C = None" "pc_AcquireDeviceConnectionFuture C = None"
    "pc_AcquireDeviceUdpChannelFuture C = None"
  shows "pa_inv n (snd (OnS5UdpTarget E i AT k s))"
proof -
  have ok: "pa_inv n s"
    using pa_inv_end [OF h assms(2,3)] .
  define u where "u = pa_alloc E (dom (pa_ClientUdpChannelPool s))"
  show ?thesis
  proof (cases "u = 0 \<or> \<not> pc_EnableUdpTarget C \<or> \<not> addr_ok (udp_bind_address AT (addr_Ip (pc_LocalAddress C))) \<or>
      Bind E (udp_bind_address AT (addr_Ip (pc_LocalAddress C))) = None")
    case True
    with ok show ?thesis
      by (auto simp: OnS5UdpTarget_def Let_def holds_conn [OF h] u_def)
  next
    case False
    then obtain Bound where B: "Bind E (udp_bind_address AT (addr_Ip (pc_LocalAddress C))) = Some Bound"
      and u: "u \<noteq> 0"
      by blast
    let ?U = "\<lparr>pu_ParentConnection = i, pu_RelaySideUdpChannelId = 0,
                 pu_ClientIpCheckAddress = addr_Ip (pc_RemoteAddress C),
                 pu_LastClientIpAddress = no_address, pu_BindAddress = Bound\<rparr>"
    let ?b = "\<lambda>C. C\<lparr>pc_BindUdpChannel := Some u\<rparr>" and ?t = "\<lambda>C. C\<lparr>pc_Type := S5_UDP\<rparr>"
    let ?s = "upd_conn i ?b (s\<lparr>pa_ClientUdpChannelPool := (pa_ClientUdpChannelPool s)(u \<mapsto> ?U)\<rparr>)"
    have "pa_ClientUdpChannelPool s u = None"
      using storage_okD [OF alloc, of "pa_ClientUdpChannelPool s"] u by (simp add: u_def)
    from holds_bind [OF h b this, of ?U] have h1: "holds n P i (?b C) ?s"
      by simp
    obtain F s2 where F: "RequestDeviceUdpChannel E i ?s = (F, s2)"
      by fastforce
    let ?F = "\<lambda>C. C\<lparr>pc_AcquireDeviceUdpChannelFuture := F\<rparr>"
    have h2: "holds n P i (?F (?b C)) (upd_conn i ?F s2)"
      by (rule holds_RequestDeviceUdpChannel [OF h1 _ F]) (simp add: n)
    from holds_upd [OF this, of ?t] have h3: "holds n P i (?t (?F (?b C))) (upd_conn i ?t (upd_conn i ?F s2))"
      by (simp add: same_links_def)
    have "pa_inv n (upd_conn i ?F s2)" if "F = None"
      by (rule pa_inv_end [OF h2 assms(2)]) (use assms(3-) that in \<open>simp add: conn_ok_def Let_def\<close>)
    moreover have "pa_inv n (upd_conn i ?t (upd_conn i ?F s2))"
      by (rule pa_inv_end [OF h3 assms(2)]) (use assms(3-) in \<open>simp add: conn_ok_def Let_def\<close>)
    ultimately show ?thesis
      using False B F by (cases F) (simp_all add: OnS5UdpTarget_def Let_def holds_conn [OF h] u_def [symmetric])
  qed
qed

lemma OnS5Target_inv:
  assumes inv: "pa_inv n s" and C: "pa_ClientConnectionPool s i = Some C" and p: "pc_DataProcessor C = P_OnS5Target"
  shows "pa_inv n (snd (OnS5Target E i D s))"
proof -
  let ?k = "\<lambda>C. C\<lparr>pc_DataProcessor := P_KillConnectionOnData\<rparr>"
  note f = conn_ok_target [OF pa_inv_conn [OF inv C] p]
  have h: "holds n (pa_ClientConnectionPool s) i (?k C) (upd_conn i ?k s)"
    using holds_upd [OF pa_inv_begin [OF inv C], of ?k] by (simp add: same_links_def)
  have ok: "conn_ok (?k C)"
    using f by (simp add: conn_ok_def)
  have "pa_inv n (snd (OnS5TcpTarget E i AT T N k (upd_conn i ?k s)))" for AT T N k
    by (rule OnS5TcpTarget_inv [OF h pa_inv_phases [OF inv] ok]) (simp_all add: f)
  moreover have "pa_inv n (snd (OnS5UdpTarget E i AT k (upd_conn i ?k s)))" for AT k
    by (rule OnS5UdpTarget_inv [OF h pa_inv_phases [OF inv] ok]) (simp_all add: f)
  ultimately show ?thesis
    using inv pa_inv_end [OF h pa_inv_phases [OF inv] ok] by (auto simp: OnS5Target_def Let_def split: option.split)
qed

end

end
