(* ===== verification/Pa_Steps.thy ===== *)
theory Pa_Steps
  imports Pa_Invariant
begin

text \<open>
  The remaining events of the proxy service and its step relation: the HTTP headers, the dispatch
  of received data, datagrams, the calls of the relay, closing, timeouts and the tick. A state is
  reachable when it follows from the fresh service by events; every reachable state satisfies
  \<open>pa_inv\<close>.
\<close>

section \<open>HTTP headers\<close>

text \<open>While the header of a request with a URL is read.\<close>

definition reads_header :: "uint64 \<Rightarrow> (uint64 \<Rightarrow> pa_connection option) \<Rightarrow> uint64 \<Rightarrow> 'w pa \<Rightarrow> bool" where
  "reads_header n P i s \<longleftrightarrow>
     (\<exists>C. holds n P i C s \<and> conn_ok C \<and> pc_DataProcessor C = P_OnHttpNormalHeaderProcessor)"

lemma reads_header_inv: "reads_header n P i s \<Longrightarrow> phases_ok P \<Longrightarrow> pa_inv n s"
  unfolding reads_header_def using pa_inv_end by blast

lemma reads_header_upd:
  assumes "reads_header n P i s" and "\<And>H. \<exists>D. ht_Content (f H) = ht_Content H @ D"
  shows "reads_header n P i (upd_http i f s)"
proof -
  obtain C where h: "holds n P i C s" and C: "conn_ok C" "pc_DataProcessor C = P_OnHttpNormalHeaderProcessor"
    using assms(1) unfolding reads_header_def by blast
  let ?f = "\<lambda>C. C\<lparr>pc_Http := f (pc_Http C)\<rparr>"
  have "holds n P i (?f C) (upd_conn i ?f s)"
    using holds_upd [OF h, of ?f] by (simp add: same_links_def)
  moreover obtain D where "ht_Content (f (pc_Http C)) = ht_Content (pc_Http C) @ D"
    using assms(2) by blast
  then have "conn_ok (?f C)"
    by (rule conn_ok_content [OF C(1)])
  moreover have "pc_DataProcessor (?f C) = P_OnHttpNormalHeaderProcessor"
    using C(2) by simp
  ultimately show ?thesis
    unfolding reads_header_def by blast
qed

lemma reads_header_append: "reads_header n P i s \<Longrightarrow> reads_header n P i (append_content i D s)"
  by (rule reads_header_upd) auto

lemma reads_header_text: "reads_header n P i s \<Longrightarrow> reads_header n P i (set_header_text i L s)"
  by (rule reads_header_upd) auto

lemma reads_header_send [simp]:
  "reads_header n P i (Send404 j s) = reads_header n P i s" "reads_header n P i (Send407 j s) = reads_header n P i s"
  by (simp_all add: reads_header_def)

lemma header_line_reads:
  assumes "reads_header n P i s"
  shows "reads_header n P i (snd (header_line E i k Line AuthKey s))"
proof -
  have "reads_header n P i (upd_http i (\<lambda>H. H\<lparr>ht_ContentLengthLeft := c\<rparr>) s)" for c
    by (rule reads_header_upd [OF assms]) auto
  then show ?thesis
    using assms
    by (auto simp: header_line_def Let_def reads_header_append split: auth_key.split)
qed

text \<open>How the two loops end: in the step that closes the header, or without starting anything.\<close>

lemma normal_header_loop_outcome:
  assumes "reads_header n P i s"
  shows "(\<exists>AK l s'. reads_header n P i s' \<and> normal_header_loop E i N AuthKey D k s = finish_normal_header E i AK l s') \<or>
    reads_header n P i (snd (normal_header_loop E i N AuthKey D k s))"
  using assms
proof (induction E i N AuthKey D k s rule: normal_header_loop.induct)
  case (1 E i N AuthKey D k s)
  show ?case
  proof (cases "find_crlf D")
    case None
    then show ?thesis
      using reads_header_text [OF "1.prems"] by (simp add: normal_header_loop.simps)
  next
    case (Some l)
    show ?thesis
    proof (cases "l = 0 \<and> header_text i s = []")
      case True
      then have "normal_header_loop E i N AuthKey D k s = finish_normal_header E i AuthKey (k + 2) s"
        using Some by (subst normal_header_loop.simps) simp
      with "1.prems" show ?thesis by blast
    next
      case False
      let ?L = "header_text i s @ take l D"
      obtain R s' where line: "header_line E i l ?L AuthKey (set_header_text i ?L s) = (R, s')"
        by fastforce
      have reads: "reads_header n P i s'"
        using header_line_reads [OF reads_header_text [OF "1.prems"], of E l ?L AuthKey ?L] line by simp
      show ?thesis
      proof (cases R)
        case (Inl X)
        then have "normal_header_loop E i N AuthKey D k s = (X, s')"
          using Some line by (subst normal_header_loop.simps) (simp add: Let_def if_not_P [OF False])
        with reads show ?thesis by simp
      next
        case (Inr AK)
        then have eq: "normal_header_loop E i N AuthKey D k s =
            normal_header_loop E i N AK (drop (l + 2) D) (k + l + 2) (set_header_text i [] s')"
          using Some line by (subst normal_header_loop.simps) (simp add: Let_def if_not_P [OF False])
        show ?thesis
          unfolding eq
          by (rule "1.IH" [OF Some False refl refl line [symmetric] Inr reads_header_text [OF reads]])
      qed
    qed
  qed
qed

lemma raw_header_loop_outcome:
  "(\<exists>AK l. raw_header_loop E i AuthKey D k s = finish_raw_header E i AK l s) \<or>
   snd (raw_header_loop E i AuthKey D k s) = s \<or> snd (raw_header_loop E i AuthKey D k s) = Send404 i s"
proof (induction E i AuthKey D k s rule: raw_header_loop.induct)
  case (1 E i AuthKey D k s)
  show ?case
  proof (cases "find_crlf D")
    case None
    then show ?thesis
      by (subst (2) raw_header_loop.simps) simp
  next
    case (Some l)
    show ?thesis
      using Some "1.IH" [OF Some]
      by (subst (1 2 3) raw_header_loop.simps) (auto split: auth_key.split)
  qed
qed

context proxy_services begin

lemma finish_normal_header_inv:
  assumes "reads_header n P i s" and P: "phases_ok P"
  shows "pa_inv n (snd (finish_normal_header E i AuthKey k s))"
proof -
  obtain C where h: "holds n P i C (append_content i crlf s)" and ok: "conn_ok C"
    and p: "pc_DataProcessor C = P_OnHttpNormalHeaderProcessor"
    using reads_header_append [OF assms(1)] unfolding reads_header_def by blast
  note f = conn_ok_reading [OF ok]
  have t: "pc_Type C = HTTP_NORMAL" "ht_Content (pc_Http C) \<noteq> []"
    using ok p unfolding conn_ok_def Let_def by simp_all
  obtain F s1 where F: "RequestAuthentication E i AuthKey (append_content i crlf s) = (F, s1)"
    by fastforce
  let ?F = "\<lambda>C. C\<lparr>pc_AuthFuture := F\<rparr>" and ?b = "\<lambda>C. C\<lparr>pc_DataProcessor := P_OnHttpBody\<rparr>"
  have h1: "holds n P i (?F C) (upd_conn i ?F s1)"
    by (rule holds_RequestAuthentication [OF h _ F]) (simp add: f p)
  have h2: "holds n P i (?b (?F C)) (upd_conn i ?b (upd_conn i ?F s1))"
    using holds_upd [OF h1, of ?b] by (simp add: same_links_def)
  have "pa_inv n (upd_conn i ?F s1)" if "F = None"
    by (rule pa_inv_end [OF h1 P]) (use ok f p t that in \<open>simp add: conn_ok_def\<close>)
  moreover have "pa_inv n (upd_conn i ?b (upd_conn i ?F s1))"
    by (rule pa_inv_end [OF h2 P]) (use f p t in \<open>simp add: conn_ok_def\<close>)
  ultimately show ?thesis
    using F by (cases F) (simp_all add: finish_normal_header_def Let_def)
qed

lemma normal_header_inv:
  assumes inv: "pa_inv n s" and C: "pa_ClientConnectionPool s i = Some C"
    and p: "pc_DataProcessor C = P_OnHttpNormalHeaderProcessor"
  shows "pa_inv n (snd (OnHttpNormalHeaderProcessor E i D s))"
proof -
  have "reads_header n (pa_ClientConnectionPool s) i s"
    using pa_inv_begin [OF inv C] pa_inv_conn [OF inv C] p unfolding reads_header_def by blast
  from normal_header_loop_outcome [OF this, of E "length D" "[]" D 0] show ?thesis
    unfolding OnHttpNormalHeaderProcessor_def
    using finish_normal_header_inv [OF _ pa_inv_phases [OF inv]] reads_header_inv [OF _ pa_inv_phases [OF inv]]
    by (elim disjE exE conjE) simp_all
qed

lemma finish_raw_header_inv:
  assumes inv: "pa_inv n s" and C: "pa_ClientConnectionPool s i = Some C"
    and p: "pc_DataProcessor C = P_OnHttpRawHeaderProcessor"
  shows "pa_inv n (snd (finish_raw_header E i AuthKey k s))"
proof -
  note ok = pa_inv_conn [OF inv C]
  note f = conn_ok_reading [OF ok]
  have t: "pc_Type C = HTTP_RAW"
    using ok p by (simp add: conn_ok_def Let_def)
  let ?k = "\<lambda>C. C\<lparr>pc_DataProcessor := P_KillConnectionOnData\<rparr>"
  have h: "holds n (pa_ClientConnectionPool s) i (?k C) (upd_conn i ?k s)"
    using holds_upd [OF pa_inv_begin [OF inv C], of ?k] by (simp add: same_links_def)
  have killed: "pa_inv n (upd_conn i ?k s)"
    by (rule pa_inv_end [OF h pa_inv_phases [OF inv]]) (use f p t in \<open>simp add: conn_ok_def\<close>)
  obtain F s1 where F: "RequestAuthentication E i AuthKey (upd_conn i ?k s) = (F, s1)"
    by fastforce
  have "pa_inv n (upd_conn i (\<lambda>C. C\<lparr>pc_AuthFuture := F\<rparr>) s1)"
    by (rule authenticate_inv [OF h pa_inv_phases [OF inv] F]) (use f p t in \<open>simp_all add: conn_ok_def\<close>)
  with killed show ?thesis
    by (cases F) (simp_all add: finish_raw_header_def Let_def F)
qed

lemma raw_header_inv:
  assumes inv: "pa_inv n s" and C: "pa_ClientConnectionPool s i = Some C"
    and p: "pc_DataProcessor C = P_OnHttpRawHeaderProcessor"
  shows "pa_inv n (snd (OnHttpRawHeaderProcessor E i D s))"
  unfolding OnHttpRawHeaderProcessor_def
  using raw_header_loop_outcome [of E i "[]" D 0 s] finish_raw_header_inv [OF assms] inv
  by (elim disjE exE conjE) simp_all

text \<open>Any data, whatever the processor.\<close>

lemma pa_OnData_inv:
  assumes inv: "pa_inv n s" and C: "pa_ClientConnectionPool s i = Some C"
  shows "pa_inv n (snd (pa_OnData E i D s))"
proof -
  have "pa_inv n (snd (run_processor E (pc_DataProcessor C) i D s))"
  proof (cases "pc_DataProcessor C")
    case P_OnGuessProxyType
    then show ?thesis
      using inv OnS5Challenge_inv [OF inv C] OnHttpChallenge_inv [OF inv C] by (simp add: OnGuessProxyType_def)
  next
    case P_OnHttpRawHeaderProcessor
    then show ?thesis
      using raw_header_inv [OF inv C] by simp
  next
    case P_OnHttpNormalHeaderProcessor
    then show ?thesis
      using normal_header_inv [OF inv C] by simp
  qed (use inv C in \<open>simp_all add: KillConnectionOnData_def OnS5AuthInfo_inv OnS5Target_inv OnRawData_inv OnHttpBody_inv\<close>)
  moreover have "conn i s = C"
    using C by (simp add: conn_def)
  ultimately show ?thesis
    by (auto simp: pa_OnData_def same_links_def split_beta intro!: pa_inv_count)
qed

end

section \<open>Datagrams and calls of the relay\<close>

lemma channel_owner_conn:
  assumes "pa_inv n s" and "pa_ClientUdpChannelPool s u = Some U"
  obtains C where "pa_ClientConnectionPool s (pu_ParentConnection U) = Some C" "pc_BindUdpChannel C = Some u"
proof -
  have "owns (channel_owners s) pc_BindUdpChannel (pa_ClientConnectionPool s)"
    using assms(1) by (simp add: pa_inv_def own_inv_def)
  moreover have "channel_owners s u = Some (pu_ParentConnection U)"
    using assms(2) by (simp add: channel_owners_def)
  ultimately show ?thesis
    using owns_owner that by blast
qed

lemma pa_inv_upd_channel:
  assumes "pa_inv n s" and "\<And>U. pu_ParentConnection (f U) = pu_ParentConnection U"
  shows "pa_inv n (upd_channel u f s)"
proof -
  have "channel_owners (upd_channel u f s) = channel_owners s"
    by (auto simp: channel_owners_def upd_channel_def fun_eq_iff assms(2) map_option_case split: option.splits)
  then have "own_inv n (upd_channel u f s) = own_inv n s"
    by (simp add: own_inv_def upd_channel_def)
  then show ?thesis
    using assms(1) by (simp add: pa_inv_def upd_channel_def)
qed

lemma pool_upd_channel [simp]: "pa_ClientConnectionPool (upd_channel u f s) = pa_ClientConnectionPool s"
  by (simp add: upd_channel_def)

lemma KeepAlive_inv:
  assumes "pa_inv n s" and "pa_ClientConnectionPool s i = Some C"
  shows "pa_inv n (snd (KeepAlive i s))"
  using KeepAlive_pa_inv [OF assms, of "fst (KeepAlive i s)" "snd (KeepAlive i s)"] by simp

lemma pa_OnUdpData_inv:
  assumes inv: "pa_inv n s"
  shows "pa_inv n (pa_OnUdpData E u D A s)"
proof (cases "pa_ClientUdpChannelPool s u")
  case None
  then show ?thesis
    using inv by (simp add: pa_OnUdpData_def)
next
  case (Some U)
  let ?i = "pu_ParentConnection U"
  obtain C where C: "pa_ClientConnectionPool s ?i = Some C"
    by (rule channel_owner_conn [OF inv Some])
  let ?s1 = "upd_channel u (\<lambda>U. U\<lparr>pu_LastClientIpAddress := A\<rparr>) s"
  let ?f = "\<lambda>C. C\<lparr>pc_TotalUdpBytesFromClient := pc_TotalUdpBytesFromClient C + of_nat (length D)\<rparr>"
  have inv1: "pa_inv n ?s1"
    by (rule pa_inv_upd_channel [OF inv]) simp
  have inv2: "pa_inv n (upd_conn ?i ?f ?s1)"
    by (rule pa_inv_count [OF inv1]) (simp add: same_links_def)
  have "pa_ClientConnectionPool (upd_conn ?i ?f ?s1) ?i = Some (?f C)"
    by (simp add: C)
  from KeepAlive_inv [OF inv2 this] inv show ?thesis
    unfolding pa_OnUdpData_def Let_def by (auto simp: Some)
qed

lemma pa_PostData_inv:
  assumes inv: "pa_inv n s"
  shows "pa_inv n (pa_PostData i D s)"
proof (cases "pa_ClientConnectionPool s i")
  case None
  then show ?thesis
    using inv by (simp add: pa_PostData_def)
next
  case (Some C)
  from KeepAlive_inv [OF inv Some] show ?thesis
    by (auto simp: pa_PostData_def Some split_beta same_links_def intro!: pa_inv_count)
qed

lemma pa_PostUdpData_inv:
  assumes inv: "pa_inv n s"
  shows "pa_inv n (pa_PostUdpData E u A D s)"
proof (cases "pa_ClientUdpChannelPool s u")
  case None
  then show ?thesis
    using inv by (simp add: pa_PostUdpData_def)
next
  case (Some U)
  obtain C where C: "pa_ClientConnectionPool s (pu_ParentConnection U) = Some C"
    by (rule channel_owner_conn [OF inv Some])
  from KeepAlive_inv [OF inv C] inv show ?thesis
    by (auto simp: pa_PostUdpData_def Some split_beta same_links_def Let_def split: option.split intro!: pa_inv_count)
qed

section \<open>Opening and closing\<close>

lemma pa_inv_DeferKill:
  assumes inv: "pa_inv n s" and C: "pa_ClientConnectionPool s i = Some C"
  shows "pa_inv n (DeferKill i s)"
  using pa_inv_end [OF holds_DeferKill [OF pa_inv_begin [OF inv C]] pa_inv_phases [OF inv]] pa_inv_conn [OF inv C]
  by simp

lemma pa_CloseConnection_inv:
  assumes inv: "pa_inv n s"
  shows "pa_inv n (pa_CloseConnection w i s)"
proof (cases "pa_ClientConnectionPool s i")
  case None
  then show ?thesis
    using inv by (simp add: pa_CloseConnection_def)
next
  case (Some C)
  obtain t where h: "holds n (pa_ClientConnectionPool s) i (C\<lparr>pc_DeleteMark := True, pc_TimestampMS := t\<rparr>)
      (DeferGracefulKill w i s)"
    using holds_DeferGracefulKill [OF pa_inv_begin [OF inv Some]] by blast
  have "pa_inv n (DeferGracefulKill w i s)"
    by (rule pa_inv_end [OF h pa_inv_phases [OF inv]]) (simp add: pa_inv_conn [OF inv Some])
  then show ?thesis
    by (simp add: pa_CloseConnection_def Some)
qed

lemma pa_OnPeerClose_inv:
  assumes inv: "pa_inv n s" and C: "pa_ClientConnectionPool s i = Some C"
  shows "pa_inv n (pa_OnPeerClose E i s)"
proof -
  have "pa_inv n (DeferKill i (on_world f s))" for f
    by (rule pa_inv_DeferKill [of _ _ _ C]) (simp_all add: inv C)
  with inv pa_inv_DeferKill [OF inv C] show ?thesis
    by (auto simp: pa_OnPeerClose_def Let_def split: eType.split option.split)
qed

lemma pa_OnFlush_inv:
  assumes "pa_inv n s" and "pa_ClientConnectionPool s i = Some C"
  shows "pa_inv n (pa_OnFlush i s)"
  using assms pa_inv_DeferKill [OF assms] by (simp add: pa_OnFlush_def)

lemma stamps_new:
  "stamps (s\<lparr>pa_ClientConnectionPool := (pa_ClientConnectionPool s)(i \<mapsto> C), pa_InitTimeoutList := l\<rparr>) =
   (stamps s)(i \<mapsto> pc_TimestampMS C)"
  by (simp add: stamps_def fun_eq_iff)

lemma pa_inv_lists: "pa_inv n s \<Longrightarrow> lists_inv s"
  by (simp add: pa_inv_def)

lemma OnNewConnection_inv:
  assumes "storage_ok (pa_alloc E)" and inv: "pa_inv n s"
  shows "pa_inv n (OnNewConnection E X socket s)"
proof -
  define i where "i = pa_alloc E (dom (pa_ClientConnectionPool s))"
  show ?thesis
  proof (cases "i = 0 \<or> socket = None")
    case True
    then show ?thesis
      using inv by (auto simp: OnNewConnection_def Let_def i_def [symmetric] split: option.split)
  next
    case False
    then obtain R L where RL: "socket = Some (R, L)" and "i \<noteq> 0"
      by auto
    then have free: "pa_ClientConnectionPool s i = None"
      using storage_okD [OF assms(1), of "pa_ClientConnectionPool s"] by (simp add: i_def)
    let ?C = "new_pa_connection X R L (pa_LocalTicker s)"
    let ?s = "s\<lparr>pa_ClientConnectionPool := (pa_ClientConnectionPool s)(i \<mapsto> ?C),
               pa_InitTimeoutList := pa_InitTimeoutList s @ [i]\<rparr>"
    have "channel_owners ?s = channel_owners s"
      by (simp add: channel_owners_def fun_eq_iff)
    then have "own_inv n ?s"
      using inv free unfolding pa_inv_def own_inv_def
      by (auto simp: new_pa_connection_def intro!: owns_new)
    moreover have "lists_inv ?s"
      unfolding lists_inv_def stamps_new
      using lists_ok_new [OF pa_inv_lists [OF inv, unfolded lists_inv_def], of i] free
      by (simp add: stamps_def new_pa_connection_def)
    moreover have "phases_ok (pa_ClientConnectionPool ?s)"
      using pa_inv_phases [OF inv] by (simp add: phases_ok_def conn_ok_new)
    ultimately show ?thesis
      using RL \<open>i \<noteq> 0\<close> by (simp add: OnNewConnection_def Let_def i_def [symmetric] pa_inv_def)
  qed
qed

section \<open>Destroying\<close>

lemma on_world_kill_list: "on_world f (s\<lparr>pa_KillList := q\<rparr>) = (on_world f s)\<lparr>pa_KillList := q\<rparr>"
  by (simp add: on_world_def)

lemma conn_kill_list: "conn i (s\<lparr>pa_KillList := q\<rparr>) = conn i s"
  by (simp add: conn_def)

lemma release_kill_list:
  "ReleaseAuthFuture i (s\<lparr>pa_KillList := q\<rparr>) = (ReleaseAuthFuture i s)\<lparr>pa_KillList := q\<rparr>"
  "ReleaseAcquireDeviceFuture i (s\<lparr>pa_KillList := q\<rparr>) = (ReleaseAcquireDeviceFuture i s)\<lparr>pa_KillList := q\<rparr>"
  "ReleaseAcquireDeviceConnectionFuture i (s\<lparr>pa_KillList := q\<rparr>) =
     (ReleaseAcquireDeviceConnectionFuture i s)\<lparr>pa_KillList := q\<rparr>"
  "ReleaseAcquireDeviceUdpChannelFuture i (s\<lparr>pa_KillList := q\<rparr>) =
     (ReleaseAcquireDeviceUdpChannelFuture i s)\<lparr>pa_KillList := q\<rparr>"
  "release_bound_channel i (s\<lparr>pa_KillList := q\<rparr>) = (release_bound_channel i s)\<lparr>pa_KillList := q\<rparr>"
  by (simp_all add: ReleaseAuthFuture_def ReleaseAcquireDeviceFuture_def ReleaseAcquireDeviceConnectionFuture_def
      ReleaseAcquireDeviceUdpChannelFuture_def release_bound_channel_def conn_def upd_conn_def Let_def split: option.split)

lemma release_lists:
  "pa_KillList (ReleaseAuthFuture i s) = pa_KillList s"
  "pa_KillList (ReleaseAcquireDeviceFuture i s) = pa_KillList s"
  "pa_KillList (ReleaseAcquireDeviceConnectionFuture i s) = pa_KillList s"
  "pa_KillList (ReleaseAcquireDeviceUdpChannelFuture i s) = pa_KillList s"
  "pa_KillList (release_bound_channel i s) = pa_KillList s"
  by (simp_all add: ReleaseAuthFuture_def ReleaseAcquireDeviceFuture_def ReleaseAcquireDeviceConnectionFuture_def
      ReleaseAcquireDeviceUdpChannelFuture_def release_bound_channel_def upd_conn_def Let_def split: option.split)

text \<open>A connection that was taken from the kill list may as well still be in it.\<close>

lemma destroy_from_kill_list:
  assumes "pa_KillList s = i # q"
  shows "pa_DestroyConnection E i (s\<lparr>pa_KillList := q\<rparr>) = pa_DestroyConnection E i s"
proof -
  have same: "unlink i (t\<lparr>pa_KillList := q\<rparr>) = unlink i t" if "pa_KillList t = i # q" for t
    using that by (simp add: unlink_def)
  show ?thesis
    unfolding pa_DestroyConnection_def Let_def conn_kill_list on_world_kill_list
      if_distrib [of "\<lambda>s. f s" for f, symmetric]
    by (cases "pc_LocalAuthId (conn i s) = 0") (simp_all add: release_kill_list same release_lists assms on_world_def)
qed

lemma holds_release_bound:
  assumes h: "holds n P i C s"
  shows "holds n P i (C\<lparr>pc_BindUdpChannel := None\<rparr>) (release_bound_channel i s)"
proof (cases "pc_BindUdpChannel C")
  case None
  then have eq: "C\<lparr>pc_BindUdpChannel := None\<rparr> = C"
    by (intro pa_connection.equality) simp_all
  have "release_bound_channel i s = s"
    using None by (simp add: release_bound_channel_def holds_conn [OF h])
  with h show ?thesis
    by (simp only: eq)
next
  case (Some u)
  let ?C = "C\<lparr>pc_BindUdpChannel := None\<rparr>"
  let ?s = "release_bound_channel i s"
  have own: "own_inv n s" and pool: "pa_ClientConnectionPool s = P(i \<mapsto> C)" and lists: "lists_inv s"
    using h by (simp_all add: holds_def)
  have eq: "?s = (upd_conn i (\<lambda>C. C\<lparr>pc_BindUdpChannel := None\<rparr>) s)
      \<lparr>pa_ClientUdpChannelPool := (pa_ClientUdpChannelPool s)(u := None)\<rparr>"
    by (simp add: release_bound_channel_def holds_conn [OF h] Some Let_def upd_conn_def)
  have ch: "channel_owners ?s = (channel_owners s)(u := None)"
    by (simp add: eq channel_owners_def fun_eq_iff)
  have "owns (channel_owners s) pc_BindUdpChannel (P(i \<mapsto> C))"
    using own pool by (simp add: own_inv_def)
  with owns_release [of "channel_owners s" pc_BindUdpChannel "P(i \<mapsto> C)" i C u ?C] Some
  have "owns ((channel_owners s)(u := None)) pc_BindUdpChannel (P(i \<mapsto> ?C))"
    by simp
  with own have "own_inv n ?s"
    unfolding own_inv_def ch by (auto simp: eq upd_conn_def pool elim!: owns_write)
  moreover have "lists_inv (upd_conn i (\<lambda>C. C\<lparr>pc_BindUdpChannel := None\<rparr>) s)"
    by (rule lists_inv_upd) (simp_all add: lists)
  ultimately show ?thesis
    by (simp add: holds_def eq pool)
qed

text \<open>The connection when nothing points to it any more.\<close>

definition bare :: "pa_connection \<Rightarrow> pa_connection" where
  "bare C = C\<lparr>pc_AuthFuture := None, pc_AcquireDeviceFuture := None, pc_AcquireDeviceConnectionFuture := None,
              pc_AcquireDeviceUdpChannelFuture := None, pc_BindUdpChannel := None\<rparr>"

lemma holds_remove:
  assumes h: "holds n P i C s" and "pc_AuthFuture C = None" "pc_AcquireDeviceFuture C = None"
    "pc_AcquireDeviceConnectionFuture C = None" "pc_AcquireDeviceUdpChannelFuture C = None" "pc_BindUdpChannel C = None"
    and P: "phases_ok P"
  shows "pa_inv n ((unlink i s)\<lparr>pa_ClientConnectionPool := (pa_ClientConnectionPool (unlink i s))(i := None)\<rparr>)"
    (is "pa_inv n ?s")
proof -
  have own: "own_inv n s" and pool: "pa_ClientConnectionPool s = P(i \<mapsto> C)" and lists: "lists_inv s"
    using h by (simp_all add: holds_def)
  have ch: "channel_owners ?s = channel_owners s"
    by (simp add: channel_owners_def unlink_def fun_eq_iff)
  have rm: "owns ow sel (P(i := None))" if "owns ow sel (P(i \<mapsto> C))" "sel C = None" for ow :: "uint64 \<Rightarrow> uint64 option" and sel
    using owns_remove [of ow sel "P(i \<mapsto> C)" i C] that by simp
  have "own_inv n ?s"
    using own assms(2-6) unfolding own_inv_def ch by (auto simp: unlink_def pool intro!: rm)
  moreover have "stamps ?s = (stamps s)(i := None)"
    by (simp add: stamps_def unlink_def fun_eq_iff)
  then have "lists_inv ?s"
    using lists_ok_remove [OF lists [unfolded lists_inv_def], of i] by (simp add: lists_inv_def unlink_def)
  moreover have "phases_ok (pa_ClientConnectionPool ?s)"
    using P by (simp add: phases_ok_def pool unlink_def)
  ultimately show ?thesis
    by (simp add: pa_inv_def)
qed

lemma pa_DestroyConnection_inv:
  assumes inv: "pa_inv n s" and C: "pa_ClientConnectionPool s i = Some C"
  shows "pa_inv n (pa_DestroyConnection E i s)"
proof -
  define s1 where "s1 = (if pc_LocalAuthId C \<noteq> 0
    then on_world (sv_ReleaseAuthInfo E (pc_LocalAuthId C) (connection_usage C)) s else s)"
  have "holds n (pa_ClientConnectionPool s) i C s1"
    using pa_inv_begin [OF inv C] by (simp add: s1_def)
  note r = holds_release_bound [OF udp_slot.holds_release [OF connection_slot.holds_release [OF
        device_slot.holds_release [OF auth_slot.holds_release [OF this]]]]]
  show ?thesis
    using holds_remove [OF r _ _ _ _ _ pa_inv_phases [OF inv]] C
    by (simp add: pa_DestroyConnection_def s1_def Let_def conn_def)
qed

section \<open>Timeouts and the tick\<close>

lemma lists_inv_members:
  assumes "pa_inv n s"
    and "i \<in> set (pa_InitTimeoutList s) \<union> set (pa_IdleTimeoutList s) \<union> set (pa_KillList s) \<union> set (pa_GracefulKillList s)"
  obtains C where "pa_ClientConnectionPool s i = Some C"
proof -
  have "i \<in> dom (stamps s)"
    using assms by (auto simp: pa_inv_def lists_inv_def lists_ok_def)
  then show ?thesis
    using that by (auto simp: stamps_def dom_def)
qed

lemma pa_inv_kill_lists:
  assumes "pa_inv n s"
    and "lists_ok (stamps s) (pa_LocalTicker s) I A K G"
  shows "pa_inv n (s\<lparr>pa_InitTimeoutList := I, pa_IdleTimeoutList := A, pa_KillList := K, pa_GracefulKillList := G\<rparr>)"
proof -
  have "stamps (s\<lparr>pa_InitTimeoutList := I, pa_IdleTimeoutList := A, pa_KillList := K, pa_GracefulKillList := G\<rparr>) = stamps s"
    by (simp add: stamps_def fun_eq_iff)
  with assms show ?thesis
    by (simp add: pa_inv_def lists_inv_def)
qed

lemma graceful_kill_order: "set_kill_list k (set_graceful_list q s) = set_graceful_list q (set_kill_list k s)"
  by simp

lemma lists_of: "pa_inv n s \<Longrightarrow> lists_ok (stamps s) (pa_LocalTicker s) (pa_InitTimeoutList s) (pa_IdleTimeoutList s)
    (pa_KillList s) (pa_GracefulKillList s)"
  by (simp add: pa_inv_def lists_inv_def)

interpretation init_timeouts: bounded_loop pa_InitTimeoutList set_init_list "conn_older t" init_timeout "pa_inv n" for t n
proof (unfold_locales, goal_cases)
  case (2 s i q)
  then have "lists_ok (stamps s) (pa_LocalTicker s) q (pa_IdleTimeoutList s) (pa_KillList s @ [i]) (pa_GracefulKillList s)"
    using lists_ok_move [of "stamps s" "pa_LocalTicker s" i q] lists_of [of n s] by simp
  from pa_inv_kill_lists [OF 2(1) this] show ?case
    by (simp add: init_timeout_def move_to_kill_def)
qed (simp_all add: init_timeout_def move_to_kill_def)

interpretation idle_timeouts: bounded_loop pa_IdleTimeoutList set_idle_list "conn_older t" move_to_kill "pa_inv n" for t n
proof (unfold_locales, goal_cases)
  case (2 s i q)
  then have "lists_ok (stamps s) (pa_LocalTicker s) (pa_InitTimeoutList s) q (pa_KillList s @ [i]) (pa_GracefulKillList s)"
    using lists_ok_move_idle [of "stamps s" "pa_LocalTicker s" _ i q] lists_of [of n s] by simp
  from pa_inv_kill_lists [OF 2(1) this] show ?case
    by (simp add: move_to_kill_def)
qed (simp_all add: move_to_kill_def)

interpretation graceful_timeouts: bounded_loop pa_GracefulKillList set_graceful_list "conn_older t" move_to_kill "pa_inv n" for t n
proof (unfold_locales, goal_cases)
  case (2 s i q)
  then have "lists_ok (stamps s) (pa_LocalTicker s) (pa_InitTimeoutList s) (pa_IdleTimeoutList s) (pa_KillList s @ [i]) q"
    using lists_ok_move_graceful [of "stamps s" "pa_LocalTicker s" _ _ _ i q] lists_of [of n s] by simp
  from pa_inv_kill_lists [OF 2(1) this] show ?case
    by (simp add: move_to_kill_def graceful_kill_order)
qed (simp_all add: move_to_kill_def)

lemma destroy_kill_queue: "pa_KillList (pa_DestroyConnection E i s) = removeAll i (pa_KillList s)"
  unfolding pa_DestroyConnection_def Let_def by (simp add: unlink_def release_lists on_world_def)

interpretation kills: bounded_loop pa_KillList set_kill_list "\<lambda>_ _. True" "pa_DestroyConnection E" "pa_inv n" for E n
proof (unfold_locales, goal_cases)
  case (2 s i q)
  obtain C where "pa_ClientConnectionPool s i = Some C"
    by (rule lists_inv_members [OF 2(1), of i]) (simp add: 2(2))
  from pa_DestroyConnection_inv [OF 2(1) this] show ?case
    by (simp add: destroy_from_kill_list [OF 2(2)])
next
  case (3 s i q)
  show ?case
    by (simp add: destroy_kill_queue length_removeAll_less_eq)
qed simp

text \<open>The handler of one kind of future leaves the ready futures of that kind alone, but for the one it releases.\<close>

lemma manager_frame [simp]:
  "pa_AuthFutures (upd_conn i f s) = pa_AuthFutures s" "pa_DeviceFutures (upd_conn i f s) = pa_DeviceFutures s"
  "pa_ConnectionFutures (upd_conn i f s) = pa_ConnectionFutures s" "pa_UdpFutures (upd_conn i f s) = pa_UdpFutures s"
  "pa_AuthFutures (on_world g s) = pa_AuthFutures s" "pa_DeviceFutures (on_world g s) = pa_DeviceFutures s"
  "pa_ConnectionFutures (on_world g s) = pa_ConnectionFutures s" "pa_UdpFutures (on_world g s) = pa_UdpFutures s"
  "pa_AuthFutures (Connection_PostData i D s) = pa_AuthFutures s"
  "pa_DeviceFutures (Connection_PostData i D s) = pa_DeviceFutures s"
  "pa_ConnectionFutures (Connection_PostData i D s) = pa_ConnectionFutures s"
  "pa_UdpFutures (Connection_PostData i D s) = pa_UdpFutures s"
  "pa_UdpFutures (upd_channel u h s) = pa_UdpFutures s"
  by (simp_all add: upd_conn_def on_world_def Connection_PostData_def upd_channel_def)

lemma KeepAlive_udp [simp]: "pa_UdpFutures (snd (KeepAlive i s)) = pa_UdpFutures s"
  by (simp add: KeepAlive_def Let_def unlink_def)

lemma RequestDevice_auth: "pa_AuthFutures (snd (RequestDevice E i q s)) = pa_AuthFutures s"
  by (simp add: RequestDevice_def split_beta Let_def)

lemma RequestDeviceConnection_device: "pa_DeviceFutures (snd (RequestDeviceConnection_host E i h p s)) = pa_DeviceFutures s"
  by (simp add: RequestDeviceConnection_host_def ReportTarget_host_def split_beta Let_def split: option.split)

lemma OnAuthResult_queue: "length (auth_ready (OnAuthResult E F s)) \<le> length (auth_ready s)"
proof -
  have "pa_AuthFutures (OnS5AuthResult E i F s) = pa_AuthFutures s" "pa_AuthFutures (OnHttpAuthResult E i F s) = pa_AuthFutures s" for i
    by (auto simp: OnS5AuthResult_def OnHttpAuthResult_def RequestDevice_auth send_defs split_beta Let_def split: option.split)
  then show ?thesis
    by (auto simp: OnAuthResult_def ReleaseAuthFuture_def ReleaseFuture_def Let_def length_removeAll_less_eq
        split: eType.split option.split)
qed

lemma OnAcquireDeviceResult_queue: "length (device_ready (OnAcquireDeviceResult E F s)) \<le> length (device_ready s)"
proof -
  have "pa_DeviceFutures (OnS5AcquireDeviceResult i F s) = pa_DeviceFutures s"
    "pa_DeviceFutures (OnHttpAcquireDeviceResult E i F s) = pa_DeviceFutures s" for i
    by (auto simp: OnS5AcquireDeviceResult_def OnHttpAcquireDeviceResult_def RequestDeviceConnection_device send_defs
        split_beta Let_def split: option.split)
  then show ?thesis
    by (auto simp: OnAcquireDeviceResult_def ReleaseAcquireDeviceFuture_def ReleaseFuture_def Let_def
        length_removeAll_less_eq split: eType.split option.split)
qed

lemma OnAcquireDeviceConnectionResult_queue:
  "length (connection_ready (OnAcquireDeviceConnectionResult E F s)) \<le> length (connection_ready s)"
proof -
  have "pa_ConnectionFutures (OnS5AcquireDeviceConnectionResult i F s) = pa_ConnectionFutures s"
    "pa_ConnectionFutures (OnHttpRawAcquireDeviceConnectionResult i F s) = pa_ConnectionFutures s"
    "pa_ConnectionFutures (OnHttpNormalAcquireDeviceConnectionResult E i F s) = pa_ConnectionFutures s" for i
    by (auto simp: OnS5AcquireDeviceConnectionResult_def OnHttpRawAcquireDeviceConnectionResult_def
        OnHttpNormalAcquireDeviceConnectionResult_def send_defs Let_def split: option.split)
  then show ?thesis
    by (auto simp: OnAcquireDeviceConnectionResult_def ReleaseAcquireDeviceConnectionFuture_def ReleaseFuture_def Let_def
        length_removeAll_less_eq split: eType.split option.split)
qed

lemma OnAcquireDeviceUdpChannelResult_queue:
  "length (udp_ready (OnAcquireDeviceUdpChannelResult E F s)) \<le> length (udp_ready s)"
  by (auto simp: OnAcquireDeviceUdpChannelResult_def ReleaseAcquireDeviceUdpChannelFuture_def ReleaseFuture_def Let_def
      length_removeAll_less_eq split: option.split)

lemma pa_inv_pop:
  assumes "pa_inv n s"
  shows "auth_ready s = F # q \<Longrightarrow> pa_inv n (set_auth_ready q s)"
    and "device_ready s = F # q \<Longrightarrow> pa_inv n (set_device_ready q s)"
    and "connection_ready s = F # q \<Longrightarrow> pa_inv n (set_connection_ready q s)"
    and "udp_ready s = F # q \<Longrightarrow> pa_inv n (set_udp_ready q s)"
proof -
  have "channel_owners (set_auth_ready q s) = channel_owners s" "channel_owners (set_device_ready q s) = channel_owners s"
    "channel_owners (set_connection_ready q s) = channel_owners s" "channel_owners (set_udp_ready q s) = channel_owners s"
    by (simp_all add: channel_owners_def fun_eq_iff)
  note ch = this
  show "pa_inv n (set_auth_ready q s)" if "auth_ready s = F # q"
    using assms fm_inv_pop [OF _ that] unfolding pa_inv_def own_inv_def ch by simp
  show "pa_inv n (set_device_ready q s)" if "device_ready s = F # q"
    using assms fm_inv_pop [OF _ that] unfolding pa_inv_def own_inv_def ch by simp
  show "pa_inv n (set_connection_ready q s)" if "connection_ready s = F # q"
    using assms fm_inv_pop [OF _ that] unfolding pa_inv_def own_inv_def ch by simp
  show "pa_inv n (set_udp_ready q s)" if "udp_ready s = F # q"
    using assms fm_inv_pop [OF _ that] unfolding pa_inv_def own_inv_def ch by simp
qed

lemma ready_owner:
  assumes "pa_inv n s"
  shows "auth_ready s = F # q \<Longrightarrow> \<exists>i. owners (pa_AuthFutures s) F = Some i"
    and "device_ready s = F # q \<Longrightarrow> \<exists>i. owners (pa_DeviceFutures s) F = Some i"
    and "connection_ready s = F # q \<Longrightarrow> \<exists>i. owners (pa_ConnectionFutures s) F = Some i"
    and "udp_ready s = F # q \<Longrightarrow> \<exists>i. owners (pa_UdpFutures s) F = Some i"
  using assms unfolding pa_inv_def own_inv_def by (auto intro!: fm_inv_ready_owner)

sublocale proxy_services \<subseteq> auth_loop: bounded_loop auth_ready set_auth_ready "\<lambda>_ _. True" "OnAuthResult E" "pa_inv n" for n
proof (unfold_locales, goal_cases)
  case (2 s F q)
  obtain i where "owners (pa_AuthFutures (set_auth_ready q s)) F = Some i"
    using ready_owner(1) [OF 2(1,2)] by auto
  from OnAuthResult_inv [OF pa_inv_pop(1) [OF 2(1,2)] this] show ?case .
next
  case (3 s F q)
  show ?case
    using OnAuthResult_queue [of E F "set_auth_ready q s"] by simp
qed simp

sublocale proxy_services \<subseteq> device_loop: bounded_loop device_ready set_device_ready "\<lambda>_ _. True" "OnAcquireDeviceResult E" "pa_inv n" for n
proof (unfold_locales, goal_cases)
  case (2 s F q)
  obtain i where "owners (pa_DeviceFutures (set_device_ready q s)) F = Some i"
    using ready_owner(2) [OF 2(1,2)] by auto
  from OnAcquireDeviceResult_inv [OF pa_inv_pop(2) [OF 2(1,2)] this] show ?case .
next
  case (3 s F q)
  show ?case
    using OnAcquireDeviceResult_queue [of E F "set_device_ready q s"] by simp
qed simp

sublocale proxy_services \<subseteq> connection_loop: bounded_loop connection_ready set_connection_ready "\<lambda>_ _. True"
  "OnAcquireDeviceConnectionResult E" "pa_inv n" for n
proof (unfold_locales, goal_cases)
  case (2 s F q)
  obtain i where "owners (pa_ConnectionFutures (set_connection_ready q s)) F = Some i"
    using ready_owner(3) [OF 2(1,2)] by auto
  from OnAcquireDeviceConnectionResult_inv [OF pa_inv_pop(3) [OF 2(1,2)] this] show ?case .
next
  case (3 s F q)
  show ?case
    using OnAcquireDeviceConnectionResult_queue [of E F "set_connection_ready q s"] by simp
qed simp

sublocale proxy_services \<subseteq> udp_loop: bounded_loop udp_ready set_udp_ready "\<lambda>_ _. True"
  "OnAcquireDeviceUdpChannelResult E" "pa_inv n" for n
proof (unfold_locales, goal_cases)
  case (2 s F q)
  obtain i where "owners (pa_UdpFutures (set_udp_ready q s)) F = Some i"
    using ready_owner(4) [OF 2(1,2)] by auto
  from OnAcquireDeviceUdpChannelResult_inv [OF pa_inv_pop(4) [OF 2(1,2)] this] show ?case .
next
  case (3 s F q)
  show ?case
    using OnAcquireDeviceUdpChannelResult_queue [of E F "set_udp_ready q s"] by simp
qed simp

lemma pa_inv_ticker:
  assumes "pa_inv n s" and "pa_LocalTicker s \<le> NowMS"
  shows "pa_inv n (s\<lparr>pa_LocalTicker := NowMS\<rparr>)"
proof -
  have "stamps (s\<lparr>pa_LocalTicker := NowMS\<rparr>) = stamps s"
    by (simp add: stamps_def fun_eq_iff)
  with assms lists_ok_tick [OF lists_of [OF assms(1)] assms(2)] show ?thesis
    by (simp add: pa_inv_def lists_inv_def)
qed

lemma pop_all_empty: "queue s = [] \<Longrightarrow> pop_all queue set_queue cond body s = s"
  by (simp add: pop_all_def)

lemma ClearTimeoutFuture_nothing:
  assumes "own_inv n s"
  shows "ClearTimeoutFuture E s = s"
  using assms by (simp add: ClearTimeoutFuture_def Let_def pop_all_empty own_inv_def)

context proxy_services begin

lemma pa_Tick_inv:
  assumes "pa_inv n s" and "pa_LocalTicker s \<le> NowMS"
  shows "pa_inv n (pa_Tick E NowMS s)"
proof -
  have "pa_inv n (ProcessReadyAcquireDeviceUdpChannelFuture E (ProcessReadyAcquireDeviceConnectionFuture E
      (ProcessReadyAcquireDeviceFuture E (ProcessReadyAuthFuture E (s\<lparr>pa_LocalTicker := NowMS\<rparr>)))))"
    unfolding ProcessReadyAuthFuture_def ProcessReadyAcquireDeviceFuture_def
      ProcessReadyAcquireDeviceConnectionFuture_def ProcessReadyAcquireDeviceUdpChannelFuture_def
    by (intro auth_loop.all_inv device_loop.all_inv connection_loop.all_inv udp_loop.all_inv pa_inv_ticker assms)
  moreover have "pa_inv n (ExcuteKillConnection E (DeferGracefulKillConnection (DeferKillIdleTimeoutConnection
      (DeferKillInitTimeoutConnection t))))" if "pa_inv n t" for t
    unfolding ExcuteKillConnection_def DeferGracefulKillConnection_def DeferKillIdleTimeoutConnection_def
      DeferKillInitTimeoutConnection_def Let_def
    by (intro kills.all_inv graceful_timeouts.all_inv idle_timeouts.all_inv init_timeouts.all_inv that)
  ultimately show ?thesis
    unfolding pa_Tick_def Let_def
    by (subst ClearTimeoutFuture_nothing [of n]) (simp_all add: pa_inv_def)
qed

end

text \<open>The states between the loops of a tick, with the loops as the source has them.\<close>

context proxy_services begin

lemma tick_loops:
  assumes "pa_inv n s" and "pa_LocalTicker s \<le> NowMS"
  shows "let due = \<lambda>_ _. True; T = s\<lparr>pa_LocalTicker := NowMS\<rparr>;
      s1 = ProcessReadyAuthFuture E T; s2 = ProcessReadyAcquireDeviceFuture E s1;
      s3 = ProcessReadyAcquireDeviceConnectionFuture E s2; s4 = ProcessReadyAcquireDeviceUdpChannelFuture E s3;
      s5 = DeferKillInitTimeoutConnection s4; s6 = DeferKillIdleTimeoutConnection s5;
      s7 = DeferGracefulKillConnection s6 in
    pop_loop_run auth_ready set_auth_ready due (OnAuthResult E) T = Some s1 \<and>
    pop_loop_run device_ready set_device_ready due (OnAcquireDeviceResult E) s1 = Some s2 \<and>
    pop_loop_run connection_ready set_connection_ready due (OnAcquireDeviceConnectionResult E) s2 = Some s3 \<and>
    pop_loop_run udp_ready set_udp_ready due (OnAcquireDeviceUdpChannelResult E) s3 = Some s4 \<and>
    pop_loop_run pa_InitTimeoutList set_init_list (conn_older (pa_LocalTicker s4 - PA_CLIENT_AUTH_TIMEOUT_MS))
      init_timeout s4 = Some s5 \<and>
    pop_loop_run pa_IdleTimeoutList set_idle_list (conn_older (pa_LocalTicker s5 - CLIENT_CONNECTION_IDLE_TIMEOUT_MS))
      move_to_kill s5 = Some s6 \<and>
    pop_loop_run pa_GracefulKillList set_graceful_list (conn_older (pa_LocalTicker s6 - PA_GRACEFUL_KILL_TIMEOUT_MS))
      move_to_kill s6 = Some s7 \<and>
    pop_loop_run pa_KillList set_kill_list due (pa_DestroyConnection E) s7 = Some (pa_Tick E NowMS s) \<and>
    pa_inv n s4 \<and> pa_inv n s7"
proof -
  define T where "T = s\<lparr>pa_LocalTicker := NowMS\<rparr>"
  define s1 where "s1 = ProcessReadyAuthFuture E T"
  define s2 where "s2 = ProcessReadyAcquireDeviceFuture E s1"
  define s3 where "s3 = ProcessReadyAcquireDeviceConnectionFuture E s2"
  define s4 where "s4 = ProcessReadyAcquireDeviceUdpChannelFuture E s3"
  define s5 where "s5 = DeferKillInitTimeoutConnection s4"
  define s6 where "s6 = DeferKillIdleTimeoutConnection s5"
  define s7 where "s7 = DeferGracefulKillConnection s6"
  have i0: "pa_inv n T"
    unfolding T_def by (rule pa_inv_ticker [OF assms])
  have i1: "pa_inv n s1"
    unfolding s1_def ProcessReadyAuthFuture_def by (rule auth_loop.all_inv [OF i0])
  have i2: "pa_inv n s2"
    unfolding s2_def ProcessReadyAcquireDeviceFuture_def by (rule device_loop.all_inv [OF i1])
  have i3: "pa_inv n s3"
    unfolding s3_def ProcessReadyAcquireDeviceConnectionFuture_def by (rule connection_loop.all_inv [OF i2])
  have i4: "pa_inv n s4"
    unfolding s4_def ProcessReadyAcquireDeviceUdpChannelFuture_def by (rule udp_loop.all_inv [OF i3])
  have i5: "pa_inv n s5"
    unfolding s5_def DeferKillInitTimeoutConnection_def Let_def by (rule init_timeouts.all_inv [OF i4])
  have i6: "pa_inv n s6"
    unfolding s6_def DeferKillIdleTimeoutConnection_def Let_def by (rule idle_timeouts.all_inv [OF i5])
  have i7: "pa_inv n s7"
    unfolding s7_def DeferGracefulKillConnection_def Let_def by (rule graceful_timeouts.all_inv [OF i6])
  have "own_inv n (ExcuteKillConnection E s7)"
    using kills.all_inv [OF i7] by (simp add: ExcuteKillConnection_def pa_inv_def)
  then have tick: "pa_Tick E NowMS s = ExcuteKillConnection E s7"
    by (simp add: pa_Tick_def Let_def ClearTimeoutFuture_nothing s7_def s6_def s5_def s4_def s3_def s2_def s1_def T_def)
  have "pop_loop_run auth_ready set_auth_ready (\<lambda>_ _. True) (OnAuthResult E) T = Some s1"
    unfolding s1_def ProcessReadyAuthFuture_def by (rule auth_loop.loop_is_all [OF i0])
  moreover have "pop_loop_run device_ready set_device_ready (\<lambda>_ _. True) (OnAcquireDeviceResult E) s1 = Some s2"
    unfolding s2_def ProcessReadyAcquireDeviceFuture_def by (rule device_loop.loop_is_all [OF i1])
  moreover have "pop_loop_run connection_ready set_connection_ready (\<lambda>_ _. True) (OnAcquireDeviceConnectionResult E) s2 = Some s3"
    unfolding s3_def ProcessReadyAcquireDeviceConnectionFuture_def by (rule connection_loop.loop_is_all [OF i2])
  moreover have "pop_loop_run udp_ready set_udp_ready (\<lambda>_ _. True) (OnAcquireDeviceUdpChannelResult E) s3 = Some s4"
    unfolding s4_def ProcessReadyAcquireDeviceUdpChannelFuture_def by (rule udp_loop.loop_is_all [OF i3])
  moreover have "pop_loop_run pa_InitTimeoutList set_init_list (conn_older (pa_LocalTicker s4 - PA_CLIENT_AUTH_TIMEOUT_MS))
      init_timeout s4 = Some s5"
    unfolding s5_def DeferKillInitTimeoutConnection_def Let_def by (rule init_timeouts.loop_is_all [OF i4])
  moreover have "pop_loop_run pa_IdleTimeoutList set_idle_list (conn_older (pa_LocalTicker s5 - CLIENT_CONNECTION_IDLE_TIMEOUT_MS))
      move_to_kill s5 = Some s6"
    unfolding s6_def DeferKillIdleTimeoutConnection_def Let_def by (rule idle_timeouts.loop_is_all [OF i5])
  moreover have "pop_loop_run pa_GracefulKillList set_graceful_list (conn_older (pa_LocalTicker s6 - PA_GRACEFUL_KILL_TIMEOUT_MS))
      move_to_kill s6 = Some s7"
    unfolding s7_def DeferGracefulKillConnection_def Let_def by (rule graceful_timeouts.loop_is_all [OF i6])
  moreover have "pop_loop_run pa_KillList set_kill_list (\<lambda>_ _. True) (pa_DestroyConnection E) s7 = Some (pa_Tick E NowMS s)"
    unfolding tick ExcuteKillConnection_def by (rule kills.loop_is_all [OF i7])
  ultimately show ?thesis
    unfolding Let_def by (simp add: s7_def s6_def s5_def s4_def s3_def s2_def s1_def T_def i4 [unfolded s4_def s3_def s2_def s1_def T_def]
        i7 [unfolded s7_def s6_def s5_def s4_def s3_def s2_def s1_def T_def])
qed

end

section \<open>The step relation\<close>

text \<open>
  The events of the service: a client connects, sends data or datagrams, closes or takes what was
  written; the relay delivers data or closes; the clock ticks; and the services complete futures on
  their own account. Data on which a processor leaves its objects has no step: C++ promises
  nothing from there on.
\<close>

inductive pa_event :: "'w pa_env \<Rightarrow> 'w pa \<Rightarrow> 'w pa \<Rightarrow> bool" for E where
  new_connection: "pa_event E s (OnNewConnection E X socket s)"
| data: "pa_ClientConnectionPool s i = Some C \<Longrightarrow> pa_OnData E i D s = (R, s') \<Longrightarrow> R \<noteq> Undefined \<Longrightarrow> pa_event E s s'"
| udp_data: "pa_event E s (pa_OnUdpData E u D A s)"
| peer_close: "pa_ClientConnectionPool s i = Some C \<Longrightarrow> pa_event E s (pa_OnPeerClose E i s)"
| flush: "pa_ClientConnectionPool s i = Some C \<Longrightarrow> pa_event E s (pa_OnFlush i s)"
| post_data: "pa_event E s (pa_PostData i D s)"
| post_udp_data: "pa_event E s (pa_PostUdpData E u A D s)"
| close_connection: "pa_event E s (pa_CloseConnection w i s)"
| tick: "pa_LocalTicker s \<le> NowMS \<Longrightarrow> pa_event E s (pa_Tick E NowMS s)"
| buffer_size: "pa_event E s (pa_SetClientBufferSize b s)"
| audit: "pa_event E s (snd (pa_OutputAudit s))"

inductive pa_step :: "'w pa_env \<Rightarrow> 'w pa \<Rightarrow> 'w pa \<Rightarrow> bool" for E where
  event: "pa_event E s s' \<Longrightarrow> pa_step E s s'"
| services: "fm_progress (pa_AuthFutures s) fa \<Longrightarrow> fm_progress (pa_DeviceFutures s) fd \<Longrightarrow>
    fm_progress (pa_ConnectionFutures s) fc \<Longrightarrow> fm_progress (pa_UdpFutures s) fu \<Longrightarrow>
    pa_step E s (s\<lparr>pa_World := w, pa_AuthFutures := fa, pa_DeviceFutures := fd,
                   pa_ConnectionFutures := fc, pa_UdpFutures := fu\<rparr>)"

text \<open>The states reached after a successful initialisation of a fresh service.\<close>

inductive pa_reachable :: "'w pa_env \<Rightarrow> uint64 \<Rightarrow> 'w pa \<Rightarrow> bool" for E n where
  init: "pa_Init connections_ok channels_ok listen futures_ok AddressList (fresh_pa n w) = Some (True, s) \<Longrightarrow>
    pa_reachable E n s"
| step: "pa_reachable E n s \<Longrightarrow> pa_step E s s' \<Longrightarrow> pa_reachable E n s'"

inductive_cases pa_reachableE: "pa_reachable E n s"

lemma pa_inv_services:
  assumes "pa_inv n s" and "fm_progress (pa_AuthFutures s) fa" "fm_progress (pa_DeviceFutures s) fd"
    "fm_progress (pa_ConnectionFutures s) fc" "fm_progress (pa_UdpFutures s) fu"
  shows "pa_inv n (s\<lparr>pa_World := w, pa_AuthFutures := fa, pa_DeviceFutures := fd,
    pa_ConnectionFutures := fc, pa_UdpFutures := fu\<rparr>)" (is "pa_inv n ?s")
proof -
  have "channel_owners ?s = channel_owners s"
    by (simp add: channel_owners_def fun_eq_iff)
  with assms show ?thesis
    unfolding pa_inv_def own_inv_def by (simp add: fm_progress_def)
qed

lemma start_servers_same:
  "start_servers listen L s = Some (b, s') \<Longrightarrow> \<exists>l. s' = s\<lparr>pa_ClientEntryServerList := l\<rparr>"
proof (induction listen L s rule: start_servers.induct)
  case (1 listen s)
  then show ?case
    by (auto intro!: exI [of _ "pa_ClientEntryServerList s"] pa.equality)
next
  case (2 listen Entry AddressList s)
  show ?case
  proof (cases "listen (eb_BindAddress Entry)")
    case True
    then show ?thesis
      using 2 by (auto split: if_splits)
  next
    case False
    then show ?thesis
      using 2(2) by (auto intro!: exI [of _ "pa_ClientEntryServerList s"] pa.equality split: if_splits)
  qed
qed

lemma pa_inv_servers [simp]: "pa_inv n (s\<lparr>pa_ClientEntryServerList := l\<rparr>) = pa_inv n s"
  "pa_inv n (s\<lparr>pa_DefaultBufferSize := b\<rparr>) = pa_inv n s"
proof -
  have "own_inv n (s\<lparr>pa_ClientEntryServerList := l\<rparr>) = own_inv n s"
    by (rule own_inv_cong) simp_all
  moreover have "lists_inv (s\<lparr>pa_ClientEntryServerList := l\<rparr>) = lists_inv s"
    by (rule lists_inv_cong) simp_all
  ultimately show "pa_inv n (s\<lparr>pa_ClientEntryServerList := l\<rparr>) = pa_inv n s"
    by (simp add: pa_inv_def)
qed (simp add: pa_inv_def)

lemma pa_inv_fresh: "pa_inv n (fresh_pa n w)"
proof -
  have "channel_owners (fresh_pa n w) = Map.empty" "stamps (fresh_pa n w) = Map.empty"
    by (simp_all add: channel_owners_def stamps_def fresh_pa_def fun_eq_iff)
  then show ?thesis
    by (simp add: pa_inv_def own_inv_def lists_inv_def lists_ok_def phases_ok_def fresh_pa_def owns_empty fm_inv_new)
qed

lemma pa_Init_inv:
  assumes "pa_Init connections_ok channels_ok listen futures_ok L (fresh_pa n w) = Some (True, s)"
  shows "pa_inv n s"
proof -
  obtain s1 where "start_servers listen L (fresh_pa n w) = Some (True, s1)"
    and s: "s = s1\<lparr>pa_DefaultBufferSize := PA_CLIENT_DEFAULT_BUFFER_SIZE\<rparr>"
    using assms by (auto simp: pa_Init_def split: if_splits option.splits bool.splits)
  then obtain l where "s1 = (fresh_pa n w)\<lparr>pa_ClientEntryServerList := l\<rparr>"
    using start_servers_same by blast
  then show ?thesis
    by (simp add: s pa_inv_fresh)
qed

context proxy_services begin

lemma pa_event_inv: "pa_event E s s' \<Longrightarrow> pa_inv n s \<Longrightarrow> pa_inv n s'"
proof (induction rule: pa_event.induct)
  case (data s i C D R s')
  then show ?case
    using pa_OnData_inv [of n s i C D] by simp
qed (auto simp: pa_SetClientBufferSize_def pa_OutputAudit_def intro: OnNewConnection_inv alloc pa_OnUdpData_inv pa_OnPeerClose_inv
    pa_OnFlush_inv pa_PostData_inv pa_PostUdpData_inv pa_CloseConnection_inv pa_Tick_inv)

lemma pa_step_inv: "pa_step E s s' \<Longrightarrow> pa_inv n s \<Longrightarrow> pa_inv n s'"
  by (induction rule: pa_step.induct) (auto intro: pa_event_inv pa_inv_services)

lemma pa_steps_inv: "(pa_step E)\<^sup>*\<^sup>* s s' \<Longrightarrow> pa_inv n s \<Longrightarrow> pa_inv n s'"
  by (induction rule: rtranclp_induct) (auto intro: pa_step_inv)

lemma pa_reachable_inv: "pa_reachable E n s \<Longrightarrow> pa_inv n s"
  by (induction rule: pa_reachable.induct) (auto intro: pa_Init_inv pa_step_inv)

end

end
