(* ===== verification/Pa_System.thy ===== *)
theory Pa_System
  imports Pa_Steps
begin

text \<open>
  The proxy service on the local services: the authentication service and the relay of this process
  implement the interfaces it calls, and the relay calls it back. Every event of this system is a
  sequence of steps of the proxy service, so what holds for the proxy with arbitrary services holds
  for the system.
\<close>

section \<open>The local services as environment\<close>

type_synonym 'd local_world = "auth_service \<times> ('d, uint64) relay"

text \<open>A call of the relay with the manager of the futures that it may complete.\<close>

definition with_connections ::
    "(('d, uint64) relay \<Rightarrow> ('d, uint64) relay) \<Rightarrow> 'd local_world \<times> pa_relay_futures \<Rightarrow> 'd local_world \<times> pa_relay_futures" where
  "with_connections f wm =
     (let ((A, R), fm) = wm; R = f (R\<lparr>rl_ConnectionFutures := fm\<rparr>) in ((A, R), rl_ConnectionFutures R))"

definition with_udp ::
    "(('d, uint64) relay \<Rightarrow> ('d, uint64) relay) \<Rightarrow> 'd local_world \<times> pa_relay_futures \<Rightarrow> 'd local_world \<times> pa_relay_futures" where
  "with_udp f wm = (let ((A, R), fm) = wm; R = f (R\<lparr>rl_UdpFutures := fm\<rparr>) in ((A, R), rl_UdpFutures R))"

definition with_devices ::
    "(('d, uint64) relay \<Rightarrow> ('d, uint64) relay) \<Rightarrow> 'd local_world \<times> pa_device_futures \<Rightarrow> 'd local_world \<times> pa_device_futures" where
  "with_devices f wm = (let ((A, R), fm) = wm; R = f (R\<lparr>rl_DeviceFutures := fm\<rparr>) in ((A, R), rl_DeviceFutures R))"

text \<open>An exhausted storage of usage nodes stops the program; the model then keeps the state.\<close>

definition local_AcquireAuthInfo ::
    "(uint64 set \<Rightarrow> uint64) \<Rightarrow> bytes \<Rightarrow> uint64 \<Rightarrow> 'd local_world \<times> pa_auth_futures \<Rightarrow> 'd local_world \<times> pa_auth_futures" where
  "local_AcquireAuthInfo alloc AccountPass FutureId wm =
     (let ((A, R), fm) = wm in
      case AcquireAuthInfo alloc AccountPass FutureId (A, fm) of
        None \<Rightarrow> wm
      | Some (A, fm) \<Rightarrow> ((A, R), fm))"

abbreviation on_relay :: "(('d, uint64) relay \<Rightarrow> ('d, uint64) relay) \<Rightarrow> 'd local_world \<Rightarrow> 'd local_world" where
  "on_relay f w \<equiv> (fst w, f (snd w))"

text \<open>What the local services need from outside: storages, the resolver and the sockets.\<close>

record 'd local_resources =
  lr_alloc :: "uint64 set \<Rightarrow> uint64"
  lr_connect :: "xNetAddress \<Rightarrow> xNetAddress \<Rightarrow> bool"
  lr_bind :: "xNetAddress \<Rightarrow> bool"
  lr_resolve :: "'d resolver"

definition local_env :: "'d local_resources \<Rightarrow> 'd local_world pa_env \<Rightarrow> 'd local_world pa_env" where
  "local_env L E = E\<lparr>
     sv_AcquireAuthInfo := local_AcquireAuthInfo (lr_alloc L),
     sv_ReleaseAuthInfo := \<lambda>i u w. (ReleaseAuthInfo i u (fst w), snd w),
     sv_AcquireDevice := \<lambda>q F. with_devices (AcquireDevice q F),
     sv_CreateConnection_address := \<lambda>r d i T F.
       with_connections (CreateConnection_address (lr_alloc L) (lr_connect L) r d i T F),
     sv_CreateConnection_host := \<lambda>r d i h p F.
       with_connections (CreateConnection_host (lr_alloc L) (lr_resolve L) r d i h p F),
     sv_CreateUdpChannel := \<lambda>r d u F. with_udp (CreateUdpChannel (lr_alloc L) (lr_bind L) r d u F),
     sv_PostData := \<lambda>r i D. on_relay (relay_PostData r i D),
     sv_PostUdpData := \<lambda>r i A D. on_relay (relay_PostUdpData r i A D),
     sv_DestroyConnection := \<lambda>r i. on_relay (DestroyConnection r i),
     sv_DestroyUdpChannel := \<lambda>r i. on_relay (DestroyUdpChannel r i)\<rparr>"

section \<open>The local services complete futures, and nothing else\<close>

abbreviation connections_progress :: "('d, uint64) relay \<Rightarrow> ('d, uint64) relay \<Rightarrow> bool" where
  "connections_progress s s' \<equiv> fm_progress (rl_ConnectionFutures s) (rl_ConnectionFutures s')"

lemma ready_connection_progress: "connections_progress s (ready_connection_future F s)"
  by (simp add: ready_connection_future_def fm_progress_SetReady)

lemma CreateConnection_bound_progress: "connections_progress s (CreateConnection_bound a ok P F s)"
  by (simp add: CreateConnection_bound_def Let_def ready_connection_progress)

lemma CreateConnection_address_progress: "connections_progress s (CreateConnection_address a c r d P T F s)"
  by (simp add: CreateConnection_address_def ready_connection_progress CreateConnection_bound_progress split: option.split)

lemma CreateConnection_host_progress: "connections_progress s (CreateConnection_host a rs r d P h p F s)"
  using fm_progress_SetReady [of "rl_ConnectionFutures s" F]
  by (simp add: CreateConnection_host_def ready_connection_future_def Let_def split: prod.split)

lemma CreateWithDns_progress: "connections_progress s (CreateConnectionWithDnsResult a c D s)"
  by (simp add: CreateConnectionWithDnsResult_def Let_def ready_connection_progress
      CreateConnection_address_progress split: option.split)

lemma process_dns_progress: "connections_progress s (process_dns_result a c i s)"
  using CreateWithDns_progress [of s a c] by (simp add: process_dns_result_def Let_def split: option.split)

lemma DeferDestroyConnection_progress: "connections_progress s (DeferDestroyConnection i s)"
  using fm_progress_SetReady [of "rl_ConnectionFutures s"]
  by (simp add: DeferDestroyConnection_def Let_def ready_connection_future_def upd_connection_def link_kill_def
      split: option.split)

lemma fold_progress: "(\<And>i s. connections_progress s (f i s)) \<Longrightarrow> connections_progress s (fold f is s)"
  by (induction "is" arbitrary: s) (auto intro: fm_progress_trans)

lemma drain_progress:
  assumes "\<And>i s. connections_progress s (body i s)"
    and "\<And>q s. rl_ConnectionFutures (set_queue q s) = rl_ConnectionFutures s"
  shows "connections_progress s (drain queue set_queue cond body s)"
  using fold_progress [of body "set_queue (dropWhile (cond s) (queue s)) s" "takeWhile (cond s) (queue s)"] assms
  by (simp add: drain_def)

lemma relay_Tick_progress: "connections_progress s (relay_Tick a c NowMS s)"
proof -
  have loops: "connections_progress s (ProcessDnsResults a c s)" "connections_progress s (DeferDestroyIdleConnections s)"
    "connections_progress s (CleanDyingConnections s)" "connections_progress s (DeferDestroyIdleUdpChannels s)"
    "connections_progress s (CleanDyingUdpChannels s)" for s
    unfolding ProcessDnsResults_def DeferDestroyIdleConnections_def CleanDyingConnections_def
      DeferDestroyIdleUdpChannels_def CleanDyingUdpChannels_def
    by (intro drain_progress process_dns_progress DeferDestroyConnection_progress;
        simp add: clean_connection_def DeferDestroyUdpChannel_def upd_udp_channel_def clean_channel_def Let_def)+
  have "connections_progress (s\<lparr>rl_LocalTicker := NowMS\<rparr>) (relay_Tick a c NowMS s)"
    unfolding relay_Tick_def
    by (rule fm_progress_trans [OF loops(1) fm_progress_trans [OF loops(2) fm_progress_trans [OF loops(4)
        fm_progress_trans [OF loops(3) loops(5)]]]])
  then show ?thesis by simp
qed

lemma relay_OnConnected_progress: "connections_progress s (relay_OnConnected i s)"
  by (auto simp: relay_OnConnected_def KeepAlive_connection_def link_idle_def upd_connection_def Let_def
      intro: fm_progress_trans [OF fm_progress_SetResult fm_progress_SetReady] split: option.split)

lemma relay_OnPeerClose_progress: "connections_progress s (relay_OnPeerClose i s)"
  using DeferDestroyConnection_progress [of "s\<lparr>rl_Out := out\<rparr>" i for out]
  by (simp add: relay_OnPeerClose_def split: option.split)

lemma relay_OnData_progress: "connections_progress s (snd (relay_OnData i D s))"
  by (simp add: relay_OnData_def KeepAlive_connection_def link_idle_def upd_connection_def Let_def split: option.split)

lemma relay_OnUdpData_progress: "connections_progress s (relay_OnUdpData i D A s)"
  by (simp add: relay_OnUdpData_def split: option.split)

lemma AcquireDevice_progress: "fm_progress (rl_DeviceFutures s) (rl_DeviceFutures (AcquireDevice q F s))"
  by (auto simp: AcquireDevice_def Let_def fm_progress_SetReady
      intro: fm_progress_trans [OF fm_progress_SetReady fm_progress_SetResult] split: option.split)

lemma CreateUdpChannel_progress: "fm_progress (rl_UdpFutures s) (rl_UdpFutures (CreateUdpChannel a b r d P F s))"
  by (auto simp: CreateUdpChannel_def Let_def fm_progress_SetReady
      intro: fm_progress_trans [OF fm_progress_SetReady fm_progress_SetResult] split: option.split)

lemma local_Acquire_progress: "fm_progress fm (snd (local_AcquireAuthInfo a k F (w, fm)))"
  by (cases w) (auto simp: local_AcquireAuthInfo_def AcquireAuthInfo_def Let_def fm_progress_SetReady
      intro: fm_progress_trans [OF fm_progress_SetReady fm_progress_SetResult] split: option.splits auth_verdict.splits)

lemma local_services:
  assumes "storage_ok (pa_alloc E)"
  shows "proxy_services (local_env L E)"
proof (unfold_locales, goal_cases)
  case 1
  then show ?case
    using assms by (simp add: local_env_def)
next
  case (4 fm r d i T F w)
  then show ?case
    using CreateConnection_address_progress [of "snd w\<lparr>rl_ConnectionFutures := fm\<rparr>"]
    by (simp add: local_env_def with_connections_def Let_def split_beta)
next
  case (5 fm r d i h p F w)
  then show ?case
    using CreateConnection_host_progress [of "snd w\<lparr>rl_ConnectionFutures := fm\<rparr>"]
    by (simp add: local_env_def with_connections_def Let_def split_beta)
next
  case (3 fm q F w)
  then show ?case
    using AcquireDevice_progress [of "snd w\<lparr>rl_DeviceFutures := fm\<rparr>"]
    by (simp add: local_env_def with_devices_def Let_def split_beta)
next
  case (6 fm r d u F w)
  then show ?case
    using CreateUdpChannel_progress [of "snd w\<lparr>rl_UdpFutures := fm\<rparr>"]
    by (simp add: local_env_def with_udp_def Let_def split_beta)
qed (simp_all add: local_env_def local_Acquire_progress)

text \<open>A storage of \<open>N\<close> slots gives out the first free one.\<close>

definition slot_alloc :: "nat \<Rightarrow> uint64 set \<Rightarrow> uint64" where
  "slot_alloc N D = (case filter (\<lambda>i. i \<notin> D) (map of_nat [1..<Suc N]) of [] \<Rightarrow> 0 | i # _ \<Rightarrow> i)"

lemma storage_ok_slots: "storage_ok (slot_alloc N)"
proof -
  have "(case filter (\<lambda>i. i \<notin> D) xs of [] \<Rightarrow> 0 | i # _ \<Rightarrow> i) = (0 :: uint64) \<or>
    (case filter (\<lambda>i. i \<notin> D) xs of [] \<Rightarrow> 0 | i # _ \<Rightarrow> i) \<notin> D" for xs D
    by (induction xs) auto
  then show ?thesis
    unfolding storage_ok_def slot_alloc_def by blast
qed

text \<open>So the managers over storages of any size implement the interface of the futures.\<close>

interpretation slots: storage_allocator "slot_alloc N" for N
  by unfold_locales (rule storage_ok_slots)

text \<open>The interface of \<open>xProxyAccessService\<close> is provided by the local services, for every storage of a fixed size.\<close>

interpretation local: proxy_services "local_env L (E\<lparr>pa_alloc := slot_alloc N\<rparr>)" for L E N
  by (rule local_services) (simp add: storage_ok_slots)

section \<open>Events of the system\<close>

text \<open>
  The relay calls the proxy service in its callbacks: what \<open>rl_Out\<close> holds after a callback is
  delivered. \<open>w\<close> tells whether the client's socket has pending writes.
\<close>

fun deliver :: "'w pa_env \<Rightarrow> bool \<Rightarrow> relay_output \<Rightarrow> 'w pa \<Rightarrow> 'w pa" where
  "deliver E w (Proxy_PostData i D) s = pa_PostData i D s"
| "deliver E w (Proxy_PostUdp u A D) s = pa_PostUdpData E u A D s"
| "deliver E w (Proxy_CloseConnection i) s = pa_CloseConnection w i s"
| "deliver E w (Peer_Send i D) s = s"
| "deliver E w (Peer_SendUdp i A D) s = s"

definition relay_call :: "(('d, uint64) relay \<Rightarrow> ('d, uint64) relay) \<Rightarrow> 'd local_world pa \<Rightarrow> 'd local_world pa" where
  "relay_call f s =
     (let R = f ((snd (pa_World s))\<lparr>rl_ConnectionFutures := pa_ConnectionFutures s, rl_Out := []\<rparr>)
      in s\<lparr>pa_World := (fst (pa_World s), R), pa_ConnectionFutures := rl_ConnectionFutures R\<rparr>)"

definition relay_event ::
    "'d local_resources \<Rightarrow> 'd local_world pa_env \<Rightarrow> bool \<Rightarrow> (('d, uint64) relay \<Rightarrow> ('d, uint64) relay) \<Rightarrow> 'd local_world pa \<Rightarrow> 'd local_world pa" where
  "relay_event L E w f s =
     (let s = relay_call f s in fold (deliver (local_env L E) w) (rl_Out (snd (pa_World s))) s)"

inductive local_step :: "'d local_resources \<Rightarrow> 'd local_world pa_env \<Rightarrow> 'd local_world pa \<Rightarrow> 'd local_world pa \<Rightarrow> bool"
  for L E where
  proxy: "pa_event (local_env L E) s s' \<Longrightarrow> local_step L E s s'"
| connected: "local_step L E s (relay_event L E w (relay_OnConnected i) s)"
| peer_close: "local_step L E s (relay_event L E w (relay_OnPeerClose i) s)"
| data: "local_step L E s (relay_event L E w (\<lambda>R. snd (relay_OnData i D R)) s)"
| udp_data: "local_step L E s (relay_event L E w (relay_OnUdpData i D A) s)"
| relay_tick: "rl_LocalTicker (snd (pa_World s)) \<le> now \<Longrightarrow>
    local_step L E s (relay_event L E w (relay_Tick (lr_alloc L) (lr_connect L) now) s)"
| auth_tick: "au_LocalTicker (fst (pa_World s)) \<le> now \<Longrightarrow> auth_Tick now (fst (pa_World s)) = Some A \<Longrightarrow>
    local_step L E s (s\<lparr>pa_World := (A, snd (pa_World s))\<rparr>)"
| auth_reload: "ReloadAuthFile parse Now read dir (fst (pa_World s)) = (go, A) \<Longrightarrow>
    local_step L E s (s\<lparr>pa_World := (A, snd (pa_World s))\<rparr>)"

lemma deliver_step: "pa_step E s (deliver E w m s) \<or> deliver E w m s = s"
  by (cases m) (auto intro: pa_step.event pa_event.intros)

lemma deliver_steps: "(pa_step E)\<^sup>*\<^sup>* s (fold (deliver E w) ms s)"
proof (induction ms arbitrary: s)
  case (Cons m ms)
  from deliver_step [of E s w m] have "(pa_step E)\<^sup>*\<^sup>* s (deliver E w m s)"
    by auto
  with Cons [of "deliver E w m s"] show ?case
    by simp
qed simp

lemma world_step: "pa_step E s (s\<lparr>pa_World := w\<rparr>)"
  using pa_step.services [of s "pa_AuthFutures s" "pa_DeviceFutures s" "pa_ConnectionFutures s" "pa_UdpFutures s" E w]
  by simp

lemma relay_event_steps:
  assumes "\<And>R. connections_progress R (f R)"
  shows "(pa_step (local_env L E))\<^sup>*\<^sup>* s (relay_event L E w f s)"
proof -
  have "fm_progress (pa_ConnectionFutures s) (pa_ConnectionFutures (relay_call f s))"
    using assms [of "(snd (pa_World s))\<lparr>rl_ConnectionFutures := pa_ConnectionFutures s, rl_Out := []\<rparr>"]
    by (simp add: relay_call_def Let_def)
  then have "pa_step (local_env L E) s (relay_call f s)"
    using pa_step.services [of s "pa_AuthFutures s" "pa_DeviceFutures s" "pa_ConnectionFutures (relay_call f s)"
        "pa_UdpFutures s" "local_env L E" "pa_World (relay_call f s)"]
    by (simp add: relay_call_def Let_def)
  then show ?thesis
    unfolding relay_event_def Let_def using deliver_steps by (rule converse_rtranclp_into_rtranclp)
qed

lemma local_step_steps:
  assumes "local_step L E s s'"
  shows "(pa_step (local_env L E))\<^sup>*\<^sup>* s s'"
  using assms
proof cases
  case proxy
  then show ?thesis by (auto intro: pa_step.event)
qed (auto intro: relay_event_steps relay_OnConnected_progress relay_OnPeerClose_progress relay_OnData_progress
    relay_OnUdpData_progress relay_Tick_progress world_step)

end
