(* ===== verification/Pa_Properties.thy ===== *)
theory Pa_Properties
  imports Pa_System
begin

text \<open>
  What holds of the proxy service: ownership, timeouts, phases, the tick, and what destroying a
  connection gives back. The services are arbitrary ones that satisfy \<open>proxy_services\<close>; the concrete
  instances run on the local services.
\<close>

section \<open>A concrete service\<close>

definition example_resources :: "unit local_resources" where
  "example_resources =
     \<lparr>lr_alloc = two_slot_alloc, lr_connect = \<lambda>_ _. True, lr_bind = \<lambda>_. True,
      lr_resolve = \<lambda>_ _ w. (False, w)\<rparr>"

definition example_env :: "unit local_world pa_env" where
  "example_env = local_env example_resources
     \<lparr>pa_alloc = slot_alloc 2,
      sv_AcquireAuthInfo = \<lambda>_ _ w. w, sv_ReleaseAuthInfo = \<lambda>_ _ w. w, sv_AcquireDevice = \<lambda>_ _ w. w,
      sv_CreateConnection_address = \<lambda>_ _ _ _ _ w. w, sv_CreateConnection_host = \<lambda>_ _ _ _ _ _ w. w,
      sv_CreateUdpChannel = \<lambda>_ _ _ _ w. w, sv_PostData = \<lambda>_ _ _ w. w, sv_PostUdpData = \<lambda>_ _ _ _ w. w,
      sv_DestroyConnection = \<lambda>_ _ w. w, sv_DestroyUdpChannel = \<lambda>_ _ w. w, sv_ReportTarget = None,
      IpToString = \<lambda>_. [49], Base64Decode = \<lambda>D. D, R2 = \<lambda>a b. word_of_nat (256 * unat a + unat b),
      W2 = \<lambda>w. [word_of_nat (unat w div 256), word_of_nat (unat w)],
      Bind = Some, Behind = []\<rparr>"

lemma example_services: "proxy_services example_env"
  unfolding example_env_def by (rule local_services) (simp add: storage_ok_slots)

definition example_address :: xNetAddress where
  "example_address = \<lparr>na_ip = IPV4 [10, 0, 0, 1], na_port = 1080\<rparr>"

definition example_world :: "unit local_world" where
  "example_world = (fresh_auth_service, fresh_relay () (new_manager 0) (new_manager 0) (new_manager 0) (new_manager 0))"

definition example_started :: "unit local_world pa" where
  "example_started = snd (the (pa_Init True True (\<lambda>_. True) [True, True, True, True]
     [\<lparr>eb_BindAddress = example_address, eb_ExportIp = example_address\<lparr>na_port := 0\<rparr>\<rparr>] (fresh_pa 0 example_world)))"

definition example_connected :: "unit local_world pa" where
  "example_connected = OnNewConnection example_env (example_address\<lparr>na_port := 0\<rparr>)
     (Some (example_address\<lparr>na_port := 5000\<rparr>, example_address)) example_started"

definition example_connection :: pa_connection where
  "example_connection = new_pa_connection (example_address\<lparr>na_port := 0\<rparr>) (example_address\<lparr>na_port := 5000\<rparr>) example_address 0"

text \<open>After a challenge that offers no password, the account of the client's address is asked for.\<close>

definition example_waiting :: "unit local_world pa" where
  "example_waiting = snd (pa_OnData example_env 1 [5, 1, 0] example_connected)"

lemma example_started_init:
  "pa_Init True True (\<lambda>_. True) [True, True, True, True]
     [\<lparr>eb_BindAddress = example_address, eb_ExportIp = example_address\<lparr>na_port := 0\<rparr>\<rparr>] (fresh_pa 0 example_world) =
   Some (True, example_started)"
  by (simp add: example_started_def pa_Init_def example_address_def addr_ok_def)

lemma example_connected_pool:
  "pa_ClientConnectionPool example_connected = [1 \<mapsto> example_connection]"
  "pa_InitTimeoutList example_connected = [1]" "pa_AuthFutures example_connected = new_manager 0"
  "pa_World example_connected = example_world" "pa_Out example_connected = []" "pa_LocalTicker example_connected = 0"
proof -
  have alloc: "pa_alloc example_env = slot_alloc 2" and one: "slot_alloc 2 {} = 1"
    by (simp_all add: example_env_def local_env_def slot_alloc_def upt_conv_Cons)
  show "pa_ClientConnectionPool example_connected = [1 \<mapsto> example_connection]"
    "pa_InitTimeoutList example_connected = [1]" "pa_AuthFutures example_connected = new_manager 0"
    "pa_World example_connected = example_world" "pa_Out example_connected = []" "pa_LocalTicker example_connected = 0"
    by (simp_all add: example_connected_def OnNewConnection_def alloc one example_started_def pa_Init_def
        example_address_def addr_ok_def fresh_pa_def example_connection_def)
qed

lemma example_connected_reachable: "pa_reachable example_env 0 example_connected"
  unfolding example_connected_def
  by (rule pa_reachable.step [OF pa_reachable.init [OF example_started_init] pa_step.event [OF pa_event.new_connection]])

lemma example_waiting_data:
  "fst (pa_OnData example_env 1 [5, 1, 0] example_connected) = Consumed 3"
  "pa_ClientConnectionPool example_waiting 1 = Some (example_connection\<lparr>pc_Type := S5_CHALLENGE, pc_NoAuth := True,
     pc_DataProcessor := P_KillConnectionOnData, pc_AuthFuture := Some 1, pc_TotalTcpBytesFromClient := 3\<rparr>)"
  "pa_LocalTicker example_waiting = 0" "pa_InitTimeoutList example_waiting = [1]"
proof -
  have env: "pa_alloc example_env = slot_alloc 2" "sv_AcquireAuthInfo example_env = local_AcquireAuthInfo two_slot_alloc"
    and one: "slot_alloc 2 {} = 1"
    by (simp_all add: example_env_def local_env_def slot_alloc_def upt_conv_Cons example_resources_def)
  have "AcquireAuthInfo two_slot_alloc k F (fresh_auth_service, fm) = Some (fresh_auth_service, SetReady F fm)" for k F fm
    by (simp add: AcquireAuthInfo_def AcquireAuthInfo_service_def adopt_auth_map_def fresh_auth_service_def)
  note acquire = this
  have fst: "fst example_world = fresh_auth_service"
    by (simp add: example_world_def)
  show "fst (pa_OnData example_env 1 [5, 1, 0] example_connected) = Consumed 3"
    "pa_ClientConnectionPool example_waiting 1 = Some (example_connection\<lparr>pc_Type := S5_CHALLENGE, pc_NoAuth := True,
     pc_DataProcessor := P_KillConnectionOnData, pc_AuthFuture := Some 1, pc_TotalTcpBytesFromClient := 3\<rparr>)"
    "pa_LocalTicker example_waiting = 0" "pa_InitTimeoutList example_waiting = [1]"
    by (simp_all add: example_waiting_def pa_OnData_def conn_def example_connected_pool example_connection_def
        new_pa_connection_def OnGuessProxyType_def OnS5Challenge_def offers_user_pass_def slice_def
        RequestAuthentication_def AcquireFuture_def new_manager_def upd_conn_def env one local_AcquireAuthInfo_def
        acquire fst split_beta Let_def)
qed

section \<open>Ownership and timeouts\<close>

text \<open>
  C1: in every reachable state, whatever the services do, a live future belongs to the one live
  connection that points to it, a live UDP channel to the one connection that is bound to it, and
  the audited number of futures is that of the live ones: no future and no channel outlives its
  connection, and none is shared.
\<close>

theorem pa_ownership:
  assumes "proxy_services E" and "pa_reachable E n s"
  shows "(\<forall>F i. owners (pa_AuthFutures s) F = Some i \<longleftrightarrow>
            (\<exists>C. pa_ClientConnectionPool s i = Some C \<and> pc_AuthFuture C = Some F)) \<and>
         (\<forall>F i. owners (pa_DeviceFutures s) F = Some i \<longleftrightarrow>
            (\<exists>C. pa_ClientConnectionPool s i = Some C \<and> pc_AcquireDeviceFuture C = Some F)) \<and>
         (\<forall>F i. owners (pa_ConnectionFutures s) F = Some i \<longleftrightarrow>
            (\<exists>C. pa_ClientConnectionPool s i = Some C \<and> pc_AcquireDeviceConnectionFuture C = Some F)) \<and>
         (\<forall>F i. owners (pa_UdpFutures s) F = Some i \<longleftrightarrow>
            (\<exists>C. pa_ClientConnectionPool s i = Some C \<and> pc_AcquireDeviceUdpChannelFuture C = Some F)) \<and>
         (\<forall>u i. map_option pu_ParentConnection (pa_ClientUdpChannelPool s u) = Some i \<longleftrightarrow>
            (\<exists>C. pa_ClientConnectionPool s i = Some C \<and> pc_BindUdpChannel C = Some u)) \<and>
         fm_in_use (pa_AuthFutures s) = n + of_nat (card (dom (fm_pool (pa_AuthFutures s))))"
proof -
  have "own_inv n s"
    using proxy_services.pa_reachable_inv [OF assms] by (simp add: pa_inv_def)
  then show ?thesis
    unfolding own_inv_def owns_def channel_owners_def by (simp add: fm_inv_def count_live_def)
qed

text \<open>The audit text reports the live futures of each kind and starts the other counters anew.\<close>

lemma pa_OutputAudit_counts:
  assumes "proxy_services E" and "pa_reachable E n s"
  shows "fst (pa_OutputAudit s) =
      (pa_Audit s,
       [n + of_nat (card (dom (fm_pool (pa_AuthFutures s)))), n + of_nat (card (dom (fm_pool (pa_DeviceFutures s)))),
        n + of_nat (card (dom (fm_pool (pa_ConnectionFutures s)))), n + of_nat (card (dom (fm_pool (pa_UdpFutures s))))])"
    and "fst (fst (pa_OutputAudit (snd (pa_OutputAudit s)))) = no_audit"
    and "pa_reachable E n (snd (pa_OutputAudit s))"
proof -
  have "own_inv n s"
    using proxy_services.pa_reachable_inv [OF assms] by (simp add: pa_inv_def)
  then show "fst (pa_OutputAudit s) =
      (pa_Audit s,
       [n + of_nat (card (dom (fm_pool (pa_AuthFutures s)))), n + of_nat (card (dom (fm_pool (pa_DeviceFutures s)))),
        n + of_nat (card (dom (fm_pool (pa_ConnectionFutures s)))), n + of_nat (card (dom (fm_pool (pa_UdpFutures s))))])"
    by (simp add: pa_OutputAudit_def own_inv_def fm_inv_def count_live_def)
  show "pa_reachable E n (snd (pa_OutputAudit s))"
    by (rule pa_reachable.step [OF assms(2) pa_step.event [OF pa_event.audit]])
qed (simp add: pa_OutputAudit_def)

lemma example_waiting_reachable: "pa_reachable example_env 0 example_waiting"
proof -
  have "pa_event example_env example_connected example_waiting"
  proof (rule pa_event.data)
    show "pa_ClientConnectionPool example_connected 1 = Some example_connection"
      by (simp add: example_connected_pool)
    show "pa_OnData example_env 1 [5, 1, 0] example_connected = (Consumed 3, example_waiting)"
      by (simp add: prod_eq_iff example_waiting_data) (simp add: example_waiting_def)
  qed simp
  then show ?thesis
    by (rule pa_reachable.step [OF example_connected_reachable pa_step.event])
qed

lemma pa_ownership_witness: "owners (pa_AuthFutures example_waiting) 1 = Some 1"
  using pa_ownership [OF example_services example_waiting_reachable] example_waiting_data(2) by simp

text \<open>
  C2: in every reachable state each live connection is in exactly one of the four timeout lists,
  nothing else is in them, and the lists that the tick scans from their head are in the order of
  the time stamps, none of which lies in the future.
\<close>

theorem pa_timeout_lists:
  assumes "proxy_services E" and "pa_reachable E n s"
  shows "distinct (pa_InitTimeoutList s @ pa_IdleTimeoutList s @ pa_KillList s @ pa_GracefulKillList s) \<and>
    set (pa_InitTimeoutList s @ pa_IdleTimeoutList s @ pa_KillList s @ pa_GracefulKillList s) =
      dom (pa_ClientConnectionPool s) \<and>
    sorted (map (\<lambda>i. pc_TimestampMS (conn i s)) (pa_InitTimeoutList s)) \<and>
    sorted (map (\<lambda>i. pc_TimestampMS (conn i s)) (pa_IdleTimeoutList s)) \<and>
    sorted (map (\<lambda>i. pc_TimestampMS (conn i s)) (pa_GracefulKillList s)) \<and>
    (\<forall>i C. pa_ClientConnectionPool s i = Some C \<longrightarrow> pc_TimestampMS C \<le> pa_LocalTicker s)"
proof -
  note lists = lists_of [OF proxy_services.pa_reachable_inv [OF assms], unfolded lists_ok_def]
  have dom: "dom (stamps s) = dom (pa_ClientConnectionPool s)"
    by (auto simp: stamps_def dom_def)
  have same: "map (\<lambda>i. the (stamps s i)) L = map (\<lambda>i. pc_TimestampMS (conn i s)) L"
    if "set L \<subseteq> dom (stamps s)" for L
    using that by (auto simp: stamps_def conn_def dom_def)
  have sub: "set (pa_InitTimeoutList s) \<subseteq> dom (stamps s)" "set (pa_IdleTimeoutList s) \<subseteq> dom (stamps s)"
    "set (pa_GracefulKillList s) \<subseteq> dom (stamps s)"
    using lists by auto
  have "stamps s i = Some (pc_TimestampMS C)" if "pa_ClientConnectionPool s i = Some C" for i C
    using that by (simp add: stamps_def)
  with lists show ?thesis
    unfolding same [OF sub(1)] same [OF sub(2)] same [OF sub(3)] dom by blast
qed

lemma pa_timeout_lists_witness:
  "set (pa_InitTimeoutList example_waiting @ pa_IdleTimeoutList example_waiting @
     pa_KillList example_waiting @ pa_GracefulKillList example_waiting) = dom (pa_ClientConnectionPool example_waiting) \<and>
   1 \<in> dom (pa_ClientConnectionPool example_waiting)"
  using pa_timeout_lists [OF example_services example_waiting_reachable] example_waiting_data(2) by blast

section \<open>The tick\<close>

text \<open>
  C6: the loops of a tick end. Each handler may release the future it is given and take others,
  but none puts back what its own loop takes, so the loops of the source, which run while their
  list has an entry that is due, stop in the states the model's bounded loops compute.
\<close>

theorem pa_tick_loops_end:
  assumes "proxy_services E" and "pa_reachable E n s" and "pa_LocalTicker s \<le> NowMS"
  shows "let due = \<lambda>_ _. True; T = s\<lparr>pa_LocalTicker := NowMS\<rparr>;
      s1 = ProcessReadyAuthFuture E T; s2 = ProcessReadyAcquireDeviceFuture E s1;
      s3 = ProcessReadyAcquireDeviceConnectionFuture E s2; s4 = ProcessReadyAcquireDeviceUdpChannelFuture E s3;
      s5 = DeferKillInitTimeoutConnection s4; s6 = DeferKillIdleTimeoutConnection s5;
      s7 = DeferGracefulKillConnection s6 in
    pop_loop_run auth_ready set_auth_ready due (OnAuthResult E) T = Some s1 \<and>
    pop_loop_run device_ready set_device_ready due (OnAcquireDeviceResult E) s1 = Some s2 \<and>
    pop_loop_run connection_ready set_connection_ready due (OnAcquireDeviceConnectionResult E) s2 = Some s3 \<and>
    pop_loop_run udp_ready set_udp_ready due (OnAcquireDeviceUdpChannelResult E) s3 = Some s4 \<and>
    pop_loop_run pa_InitTimeoutList set_init_list (conn_older (pa_LocalTicker s4 - PA_CLIENT_AUTH_TIMEOUT_MS))
      init_timeout s4 = Some s5 \<and>
    pop_loop_run pa_IdleTimeoutList set_idle_list (conn_older (pa_LocalTicker s5 - CLIENT_CONNECTION_IDLE_TIMEOUT_MS))
      move_to_kill s5 = Some s6 \<and>
    pop_loop_run pa_GracefulKillList set_graceful_list (conn_older (pa_LocalTicker s6 - PA_GRACEFUL_KILL_TIMEOUT_MS))
      move_to_kill s6 = Some s7 \<and>
    pop_loop_run pa_KillList set_kill_list due (pa_DestroyConnection E) s7 = Some (pa_Tick E NowMS s)"
  using proxy_services.tick_loops [OF assms(1) proxy_services.pa_reachable_inv [OF assms(1,2)] assms(3)]
  unfolding Let_def by (elim conjE, intro conjI)

lemma pa_tick_loops_end_witness:
  "pop_loop_run auth_ready set_auth_ready (\<lambda>_ _. True) (OnAuthResult example_env)
     (example_waiting\<lparr>pa_LocalTicker := 200000\<rparr>) =
   Some (ProcessReadyAuthFuture example_env (example_waiting\<lparr>pa_LocalTicker := 200000\<rparr>))"
  using pa_tick_loops_end [OF example_services example_waiting_reachable, of 200000] example_waiting_data(3)
  by (simp add: Let_def)

section \<open>What survives a tick\<close>

lemma pop_upto_preserves:
  assumes "\<And>i q s. Q s \<Longrightarrow> queue s = i # q \<Longrightarrow> Q (body i (set_queue q s))"
  shows "Q s \<Longrightarrow> Q (pop_upto n queue set_queue cond body s)"
proof (induction n arbitrary: s)
  case (Suc n)
  then show ?case
    by (auto simp: pop_head_if_def assms split: list.split)
qed simp

lemma pop_all_preserves:
  assumes "\<And>i q s. Q s \<Longrightarrow> queue s = i # q \<Longrightarrow> Q (body i (set_queue q s))"
  shows "Q s \<Longrightarrow> Q (pop_all queue set_queue cond body s)"
  unfolding pop_all_def by (rule pop_upto_preserves) (rule assms)

lemma ticker_frame [simp]:
  "pa_LocalTicker (upd_conn i f s) = pa_LocalTicker s" "pa_LocalTicker (on_world g s) = pa_LocalTicker s"
  "pa_LocalTicker (Connection_PostData i D s) = pa_LocalTicker s" "pa_LocalTicker (upd_channel u h s) = pa_LocalTicker s"
  "pa_LocalTicker (snd (KeepAlive i s)) = pa_LocalTicker s" "pa_LocalTicker (unlink i s) = pa_LocalTicker s"
  "pa_LocalTicker (snd (RequestDevice E i q s)) = pa_LocalTicker s"
  "pa_LocalTicker (snd (RequestDeviceConnection_host E i n p s)) = pa_LocalTicker s"
  "pa_LocalTicker (ReleaseAuthFuture i s) = pa_LocalTicker s"
  "pa_LocalTicker (ReleaseAcquireDeviceFuture i s) = pa_LocalTicker s"
  "pa_LocalTicker (ReleaseAcquireDeviceConnectionFuture i s) = pa_LocalTicker s"
  "pa_LocalTicker (ReleaseAcquireDeviceUdpChannelFuture i s) = pa_LocalTicker s"
  "pa_LocalTicker (release_bound_channel i s) = pa_LocalTicker s"
  by (simp_all add: upd_conn_def on_world_def Connection_PostData_def upd_channel_def KeepAlive_def unlink_def
      RequestDevice_def RequestDeviceConnection_host_def ReportTarget_host_def ReleaseAuthFuture_def
      ReleaseAcquireDeviceFuture_def ReleaseAcquireDeviceConnectionFuture_def ReleaseAcquireDeviceUdpChannelFuture_def
      release_bound_channel_def split_beta Let_def split: option.split)

lemma ticker_results [simp]:
  "pa_LocalTicker (OnAuthResult E F s) = pa_LocalTicker s"
  "pa_LocalTicker (OnAcquireDeviceResult E F s) = pa_LocalTicker s"
  "pa_LocalTicker (OnAcquireDeviceConnectionResult E F s) = pa_LocalTicker s"
  "pa_LocalTicker (OnAcquireDeviceUdpChannelResult E F s) = pa_LocalTicker s"
  by (simp_all add: OnAuthResult_def OnS5AuthResult_def OnHttpAuthResult_def OnAcquireDeviceResult_def
      OnS5AcquireDeviceResult_def OnHttpAcquireDeviceResult_def OnAcquireDeviceConnectionResult_def
      OnS5AcquireDeviceConnectionResult_def OnHttpRawAcquireDeviceConnectionResult_def
      OnHttpNormalAcquireDeviceConnectionResult_def OnAcquireDeviceUdpChannelResult_def send_defs split_beta Let_def
      split: eType.split option.split)

lemma ticker_process [simp]:
  "pa_LocalTicker (ProcessReadyAuthFuture E s) = pa_LocalTicker s"
  "pa_LocalTicker (ProcessReadyAcquireDeviceFuture E s) = pa_LocalTicker s"
  "pa_LocalTicker (ProcessReadyAcquireDeviceConnectionFuture E s) = pa_LocalTicker s"
  "pa_LocalTicker (ProcessReadyAcquireDeviceUdpChannelFuture E s) = pa_LocalTicker s"
  unfolding ProcessReadyAuthFuture_def ProcessReadyAcquireDeviceFuture_def
    ProcessReadyAcquireDeviceConnectionFuture_def ProcessReadyAcquireDeviceUdpChannelFuture_def
  by (rule pop_all_preserves [where Q = "\<lambda>t. pa_LocalTicker t = pa_LocalTicker s"]; simp)+

text \<open>Giving something back touches one connection, and no list.\<close>

definition only_conn :: "uint64 \<Rightarrow> 'w pa \<Rightarrow> 'w pa \<Rightarrow> bool" where
  "only_conn i s s' \<longleftrightarrow>
     (pa_ClientConnectionPool s')(i := None) = (pa_ClientConnectionPool s)(i := None) \<and>
     pa_InitTimeoutList s' = pa_InitTimeoutList s \<and> pa_IdleTimeoutList s' = pa_IdleTimeoutList s \<and>
     pa_GracefulKillList s' = pa_GracefulKillList s \<and> pa_LocalTicker s' = pa_LocalTicker s"

lemma only_conn_trans: "only_conn i s1 s2 \<Longrightarrow> only_conn i s2 s3 \<Longrightarrow> only_conn i s1 s3"
  by (simp add: only_conn_def)

lemma only_conn_upd: "only_conn i s (upd_conn i f s)"
  by (simp add: only_conn_def upd_conn_def)

lemma only_conn_release:
  "only_conn i s (on_world g s)"
  "only_conn i s (ReleaseAuthFuture i s)" "only_conn i s (ReleaseAcquireDeviceFuture i s)"
  "only_conn i s (ReleaseAcquireDeviceConnectionFuture i s)" "only_conn i s (ReleaseAcquireDeviceUdpChannelFuture i s)"
  "only_conn i s (release_bound_channel i s)"
  using only_conn_upd [of i s]
  by (simp_all add: only_conn_def on_world_def ReleaseAuthFuture_def ReleaseAcquireDeviceFuture_def
      ReleaseAcquireDeviceConnectionFuture_def ReleaseAcquireDeviceUdpChannelFuture_def release_bound_channel_def
      Let_def split: option.split)

lemma destroy_only:
  "\<exists>t. only_conn i s t \<and>
     pa_DestroyConnection E i s = (unlink i t)\<lparr>pa_ClientConnectionPool := (pa_ClientConnectionPool t)(i := None)\<rparr>"
proof -
  define s1 where "s1 = (if pc_LocalAuthId (conn i s) \<noteq> 0
    then on_world (sv_ReleaseAuthInfo E (pc_LocalAuthId (conn i s)) (connection_usage (conn i s))) s else s)"
  have "only_conn i s s1"
    by (simp add: s1_def only_conn_release) (simp add: only_conn_def)
  then have "only_conn i s (release_bound_channel i (ReleaseAcquireDeviceUdpChannelFuture i
      (ReleaseAcquireDeviceConnectionFuture i (ReleaseAcquireDeviceFuture i (ReleaseAuthFuture i s1)))))"
    by (rule only_conn_trans [OF only_conn_trans [OF only_conn_trans [OF only_conn_trans [OF only_conn_trans]]]])
       (rule only_conn_release)+
  then show ?thesis
    by (intro exI conjI) (assumption, simp add: pa_DestroyConnection_def s1_def Let_def)
qed

lemma destroy_pool: "pa_ClientConnectionPool (pa_DestroyConnection E i s) = (pa_ClientConnectionPool s)(i := None)"
  and destroy_lists: "pa_InitTimeoutList (pa_DestroyConnection E i s) = removeAll i (pa_InitTimeoutList s)"
  "pa_IdleTimeoutList (pa_DestroyConnection E i s) = removeAll i (pa_IdleTimeoutList s)"
  "pa_GracefulKillList (pa_DestroyConnection E i s) = removeAll i (pa_GracefulKillList s)"
  "pa_LocalTicker (pa_DestroyConnection E i s) = pa_LocalTicker s"
proof -
  obtain t where "only_conn i s t"
    and "pa_DestroyConnection E i s = (unlink i t)\<lparr>pa_ClientConnectionPool := (pa_ClientConnectionPool t)(i := None)\<rparr>"
    using destroy_only by blast
  then show "pa_ClientConnectionPool (pa_DestroyConnection E i s) = (pa_ClientConnectionPool s)(i := None)"
    "pa_InitTimeoutList (pa_DestroyConnection E i s) = removeAll i (pa_InitTimeoutList s)"
    "pa_IdleTimeoutList (pa_DestroyConnection E i s) = removeAll i (pa_IdleTimeoutList s)"
    "pa_GracefulKillList (pa_DestroyConnection E i s) = removeAll i (pa_GracefulKillList s)"
    "pa_LocalTicker (pa_DestroyConnection E i s) = pa_LocalTicker s"
    by (simp_all add: only_conn_def unlink_def)
qed

text \<open>The entries of a list are younger than a limit.\<close>

definition young :: "('w pa \<Rightarrow> uint64 list) \<Rightarrow> uint64 \<Rightarrow> 'w pa \<Rightarrow> bool" where
  "young queue T s \<longleftrightarrow>
     (\<forall>i \<in> set (queue s). \<exists>C. pa_ClientConnectionPool s i = Some C \<and> T < pc_TimestampMS C)"

lemma young_sorted:
  assumes "sorted (map (\<lambda>i. the (stamps s i)) (queue s))" and "set (queue s) \<subseteq> dom (stamps s)"
    and "\<And>i q. queue s = i # q \<Longrightarrow> \<not> conn_older T s i"
  shows "young queue T s"
proof (cases "queue s")
  case (Cons j q)
  have "T < the (stamps s j)"
    using assms(2,3) Cons by (auto simp: conn_older_def stamps_def conn_def)
  moreover have "the (stamps s j) \<le> the (stamps s i)" if "i \<in> set (queue s)" for i
    using assms(1) that Cons by auto
  ultimately show ?thesis
    using assms(2) by (fastforce simp: young_def stamps_def)
qed (simp add: young_def)

lemma young_destroy:
  assumes "young queue T s" and "queue (pa_DestroyConnection E i (s\<lparr>pa_KillList := q\<rparr>)) = removeAll i (queue s)"
  shows "young queue T (pa_DestroyConnection E i (s\<lparr>pa_KillList := q\<rparr>))"
  using assms by (simp add: young_def destroy_pool)

lemma young_frame:
  "young queue T s \<Longrightarrow> queue s' = queue s \<Longrightarrow> pa_ClientConnectionPool s' = pa_ClientConnectionPool s \<Longrightarrow> young queue T s'"
  by (simp add: young_def)

lemma inv_young:
  assumes "pa_inv n s"
  shows "(\<And>i q. pa_InitTimeoutList s = i # q \<Longrightarrow> \<not> conn_older T s i) \<Longrightarrow> young pa_InitTimeoutList T s"
    and "(\<And>i q. pa_IdleTimeoutList s = i # q \<Longrightarrow> \<not> conn_older T s i) \<Longrightarrow> young pa_IdleTimeoutList T s"
    and "(\<And>i q. pa_GracefulKillList s = i # q \<Longrightarrow> \<not> conn_older T s i) \<Longrightarrow> young pa_GracefulKillList T s"
  using lists_of [OF assms] by (auto simp: lists_ok_def intro!: young_sorted)

text \<open>The four loops behind the results, from a state in order.\<close>

lemma kill_loops:
  assumes inv: "pa_inv n s"
  shows "let s' = ExcuteKillConnection E (DeferGracefulKillConnection (DeferKillIdleTimeoutConnection
      (DeferKillInitTimeoutConnection s))) in
    young pa_InitTimeoutList (pa_LocalTicker s - PA_CLIENT_AUTH_TIMEOUT_MS) s' \<and>
    young pa_IdleTimeoutList (pa_LocalTicker s - CLIENT_CONNECTION_IDLE_TIMEOUT_MS) s' \<and>
    young pa_GracefulKillList (pa_LocalTicker s - PA_GRACEFUL_KILL_TIMEOUT_MS) s' \<and>
    pa_KillList s' = [] \<and> pa_LocalTicker s' = pa_LocalTicker s"
proof -
  let ?now = "pa_LocalTicker s"
  define s1 where "s1 = DeferKillInitTimeoutConnection s"
  define s2 where "s2 = DeferKillIdleTimeoutConnection s1"
  define s3 where "s3 = DeferGracefulKillConnection s2"
  define s4 where "s4 = ExcuteKillConnection E s3"
  let ?I = "young pa_InitTimeoutList (?now - PA_CLIENT_AUTH_TIMEOUT_MS)"
  let ?A = "young pa_IdleTimeoutList (?now - CLIENT_CONNECTION_IDLE_TIMEOUT_MS)"
  let ?G = "young pa_GracefulKillList (?now - PA_GRACEFUL_KILL_TIMEOUT_MS)"
  have i1: "pa_inv n s1"
    unfolding s1_def DeferKillInitTimeoutConnection_def Let_def by (rule init_timeouts.all_inv [OF inv])
  have i2: "pa_inv n s2"
    unfolding s2_def DeferKillIdleTimeoutConnection_def Let_def by (rule idle_timeouts.all_inv [OF i1])
  have i3: "pa_inv n s3"
    unfolding s3_def DeferGracefulKillConnection_def Let_def by (rule graceful_timeouts.all_inv [OF i2])
  have t1: "pa_LocalTicker s1 = ?now"
    unfolding s1_def DeferKillInitTimeoutConnection_def Let_def
    by (rule pop_all_preserves [where Q = "\<lambda>t. pa_LocalTicker t = ?now"]) (simp_all add: init_timeout_def move_to_kill_def)
  have I1: "?I s1"
    by (rule inv_young(1) [OF i1])
       (use init_timeouts.all_exhausts [OF inv] in \<open>auto simp: s1_def DeferKillInitTimeoutConnection_def Let_def\<close>)
  have I2: "?I s2 \<and> pa_LocalTicker s2 = ?now"
    unfolding s2_def DeferKillIdleTimeoutConnection_def Let_def
    by (rule pop_all_preserves [where Q = "\<lambda>t. ?I t \<and> pa_LocalTicker t = ?now"])
       (use I1 t1 in \<open>auto simp: move_to_kill_def elim: young_frame\<close>)
  have A2: "?A s2"
    by (rule inv_young(2) [OF i2])
       (use idle_timeouts.all_exhausts [OF i1] t1 in \<open>auto simp: s2_def DeferKillIdleTimeoutConnection_def Let_def\<close>)
  have A3: "?I s3 \<and> ?A s3 \<and> pa_LocalTicker s3 = ?now"
    unfolding s3_def DeferGracefulKillConnection_def Let_def
    by (rule pop_all_preserves [where Q = "\<lambda>t. ?I t \<and> ?A t \<and> pa_LocalTicker t = ?now"])
       (use I2 A2 in \<open>auto simp: move_to_kill_def elim: young_frame\<close>)
  have G3: "?G s3"
    by (rule inv_young(3) [OF i3])
       (use graceful_timeouts.all_exhausts [OF i2] I2 in \<open>auto simp: s3_def DeferGracefulKillConnection_def Let_def\<close>)
  have "?I s4 \<and> ?A s4 \<and> ?G s4 \<and> pa_LocalTicker s4 = ?now"
    unfolding s4_def ExcuteKillConnection_def
    by (rule pop_all_preserves [where Q = "\<lambda>t. ?I t \<and> ?A t \<and> ?G t \<and> pa_LocalTicker t = ?now"])
       (use A3 G3 in \<open>auto simp: destroy_lists intro!: young_destroy\<close>)
  moreover have "pa_KillList s4 = []"
    using kills.all_exhausts [OF i3, of E] unfolding s4_def ExcuteKillConnection_def by (meson neq_Nil_conv)
  ultimately show ?thesis
    by (simp add: s4_def s3_def s2_def s1_def Let_def)
qed

text \<open>
  C5: what is alive after a tick is young. Every connection that survives was created less than
  5 s ago and has sent nothing yet that kept it alive, or it was used less than 125 s ago, or it
  was closed gracefully less than 60 s ago; whatever was to be killed is gone.
\<close>

theorem pa_tick_reclaims:
  assumes "proxy_services E" and "pa_reachable E n s" and "pa_LocalTicker s \<le> NowMS"
    and "pa_ClientConnectionPool (pa_Tick E NowMS s) i = Some C"
  shows "let s' = pa_Tick E NowMS s in
    i \<in> set (pa_InitTimeoutList s') \<and> NowMS - PA_CLIENT_AUTH_TIMEOUT_MS < pc_TimestampMS C \<or>
    i \<in> set (pa_IdleTimeoutList s') \<and> NowMS - CLIENT_CONNECTION_IDLE_TIMEOUT_MS < pc_TimestampMS C \<or>
    i \<in> set (pa_GracefulKillList s') \<and> NowMS - PA_GRACEFUL_KILL_TIMEOUT_MS < pc_TimestampMS C"
proof -
  let ?s' = "pa_Tick E NowMS s"
  define s1 where "s1 = ProcessReadyAcquireDeviceUdpChannelFuture E (ProcessReadyAcquireDeviceConnectionFuture E
      (ProcessReadyAcquireDeviceFuture E (ProcessReadyAuthFuture E (s\<lparr>pa_LocalTicker := NowMS\<rparr>))))"
  note inv = proxy_services.pa_reachable_inv [OF assms(1,2)]
  have inv1: "pa_inv n s1"
    using proxy_services.tick_loops [OF assms(1) inv assms(3)] unfolding Let_def s1_def by blast
  have now: "pa_LocalTicker s1 = NowMS"
    by (simp add: s1_def)
  have inv': "pa_inv n ?s'"
    by (rule proxy_services.pa_Tick_inv [OF assms(1) inv assms(3)])
  then have "own_inv n (ExcuteKillConnection E (DeferGracefulKillConnection (DeferKillIdleTimeoutConnection
      (DeferKillInitTimeoutConnection s1))))"
    using kills.all_inv [OF graceful_timeouts.all_inv [OF idle_timeouts.all_inv [OF init_timeouts.all_inv [OF inv1]]]]
    unfolding ExcuteKillConnection_def DeferGracefulKillConnection_def DeferKillIdleTimeoutConnection_def
      DeferKillInitTimeoutConnection_def Let_def by (simp add: pa_inv_def)
  then have tick: "?s' = ExcuteKillConnection E (DeferGracefulKillConnection (DeferKillIdleTimeoutConnection
      (DeferKillInitTimeoutConnection s1)))"
    by (simp add: pa_Tick_def Let_def ClearTimeoutFuture_nothing s1_def)
  note young = kill_loops [OF inv1, of E, folded tick, unfolded Let_def now]
  have "i \<in> dom (stamps ?s')"
    using assms(4) by (simp add: stamps_def dom_def)
  with lists_of [OF inv'] young have "i \<in> set (pa_InitTimeoutList ?s') \<union> set (pa_IdleTimeoutList ?s') \<union> set (pa_GracefulKillList ?s')"
    by (auto simp: lists_ok_def)
  with young assms(4) show ?thesis
    by (fastforce simp: young_def Let_def)
qed

definition example_late :: "unit local_world pa" where
  "example_late = OnNewConnection example_env (example_address\<lparr>na_port := 0\<rparr>)
     (Some (example_address\<lparr>na_port := 5000\<rparr>, example_address)) (pa_Tick example_env 200000 example_started)"

lemma pop_all_stop:
  assumes "\<And>i q. queue s = i # q \<Longrightarrow> \<not> cond s i"
  shows "pop_all queue set_queue cond body s = s"
proof -
  have "pop_head_if queue set_queue cond s = None"
    using assms by (auto simp: pop_head_if_def split: list.split)
  then have "pop_upto n queue set_queue cond body s = s" for n
    by (cases n) simp_all
  then show ?thesis
    by (simp add: pop_all_def)
qed

text \<open>A tick at which nothing is due.\<close>

lemma tick_quiet:
  assumes "auth_ready s = []" "device_ready s = []" "connection_ready s = []" "udp_ready s = []"
    and "pa_IdleTimeoutList s = []" "pa_KillList s = []" "pa_GracefulKillList s = []"
    and "pa_AuthFutureTimeoutList s = []" "pa_DeviceFutureTimeoutList s = []"
    "pa_ConnectionFutureTimeoutList s = []" "pa_UdpFutureTimeoutList s = []"
    and "\<And>i q. pa_InitTimeoutList s = i # q \<Longrightarrow> \<not> conn_older (NowMS - PA_CLIENT_AUTH_TIMEOUT_MS) s i"
  shows "pa_Tick E NowMS s = s\<lparr>pa_LocalTicker := NowMS\<rparr>"
proof -
  let ?T = "s\<lparr>pa_LocalTicker := NowMS\<rparr>"
  have "DeferKillInitTimeoutConnection ?T = ?T"
    unfolding DeferKillInitTimeoutConnection_def Let_def
    by (rule pop_all_stop) (use assms(12) in \<open>auto simp: conn_older_def conn_def\<close>)
  then show ?thesis
    by (simp add: pa_Tick_def Let_def ProcessReadyAuthFuture_def ProcessReadyAcquireDeviceFuture_def
        ProcessReadyAcquireDeviceConnectionFuture_def ProcessReadyAcquireDeviceUdpChannelFuture_def
        DeferKillIdleTimeoutConnection_def DeferGracefulKillConnection_def ExcuteKillConnection_def
        ClearTimeoutFuture_def pop_all_empty assms(1-11))
qed

lemma example_started_lists:
  "auth_ready example_started = []" "device_ready example_started = []" "connection_ready example_started = []"
  "udp_ready example_started = []" "pa_InitTimeoutList example_started = []" "pa_IdleTimeoutList example_started = []"
  "pa_KillList example_started = []" "pa_GracefulKillList example_started = []"
  "pa_AuthFutureTimeoutList example_started = []" "pa_DeviceFutureTimeoutList example_started = []"
  "pa_ConnectionFutureTimeoutList example_started = []" "pa_UdpFutureTimeoutList example_started = []"
  "pa_ClientConnectionPool example_started = Map.empty"
  by (simp_all add: example_started_def pa_Init_def example_address_def addr_ok_def fresh_pa_def new_manager_def)

lemma tick_started: "pa_Tick example_env 200000 example_started = example_started\<lparr>pa_LocalTicker := 200000\<rparr>"
  by (rule tick_quiet) (simp_all add: example_started_lists)

lemma example_late_eq:
  "example_late = example_started\<lparr>pa_LocalTicker := 200000, pa_InitTimeoutList := [1],
     pa_ClientConnectionPool := [1 \<mapsto> example_connection\<lparr>pc_TimestampMS := 200000, pc_StartupTimestampMS := 200000\<rparr>]\<rparr>"
proof -
  have "pa_alloc example_env = slot_alloc 2" and "slot_alloc 2 {} = 1"
    by (simp_all add: example_env_def local_env_def slot_alloc_def upt_conv_Cons)
  then show ?thesis
    unfolding example_late_def tick_started by (simp add: example_started_lists OnNewConnection_def example_connection_def new_pa_connection_def)
qed

lemma example_late_reachable: "pa_reachable example_env 0 example_late"
proof -
  have "pa_LocalTicker example_started \<le> 200000"
    by (simp add: example_started_def pa_Init_def example_address_def addr_ok_def fresh_pa_def)
  then show ?thesis
    unfolding example_late_def
    by (intro pa_reachable.step [OF pa_reachable.step [OF pa_reachable.init [OF example_started_init]
        pa_step.event [OF pa_event.tick]] pa_step.event [OF pa_event.new_connection]])
qed

lemma tick_late:
  "pa_ClientConnectionPool (pa_Tick example_env 201000 example_late) 1 =
     Some (example_connection\<lparr>pc_TimestampMS := 200000, pc_StartupTimestampMS := 200000\<rparr>)"
  "pa_IdleTimeoutList (pa_Tick example_env 201000 example_late) = []"
  "pa_GracefulKillList (pa_Tick example_env 201000 example_late) = []"
proof -
  have "pa_Tick example_env 201000 example_late = example_late\<lparr>pa_LocalTicker := 201000\<rparr>"
    by (rule tick_quiet)
       (simp_all add: example_late_eq example_started_lists conn_older_def conn_def PA_CLIENT_AUTH_TIMEOUT_MS_def)
  then show "pa_ClientConnectionPool (pa_Tick example_env 201000 example_late) 1 =
     Some (example_connection\<lparr>pc_TimestampMS := 200000, pc_StartupTimestampMS := 200000\<rparr>)"
    "pa_IdleTimeoutList (pa_Tick example_env 201000 example_late) = []"
    "pa_GracefulKillList (pa_Tick example_env 201000 example_late) = []"
    by (simp_all add: example_late_eq example_started_lists)
qed

lemma pa_tick_reclaims_witness:
  "1 \<in> set (pa_InitTimeoutList (pa_Tick example_env 201000 example_late)) \<and> 201000 - PA_CLIENT_AUTH_TIMEOUT_MS < 200000"
proof -
  have "pa_LocalTicker example_late \<le> 201000"
    by (simp add: example_late_eq)
  from pa_tick_reclaims [OF example_services example_late_reachable this tick_late(1)] show ?thesis
    by (simp add: Let_def tick_late(2,3))
qed

section \<open>Before the relay stands\<close>

lemma independent_fields:
  "IpToString (E\<lparr>sv_PostData := g\<rparr>) = IpToString E" "Behind (E\<lparr>sv_PostData := g\<rparr>) = Behind E"
  "Base64Decode (E\<lparr>sv_PostData := g\<rparr>) = Base64Decode E" "pa_alloc (E\<lparr>sv_PostData := g\<rparr>) = pa_alloc E"
  "Bind (E\<lparr>sv_PostData := g\<rparr>) = Bind E" "R2 (E\<lparr>sv_PostData := g\<rparr>) = R2 E"
  "sv_AcquireAuthInfo (E\<lparr>sv_PostData := g\<rparr>) = sv_AcquireAuthInfo E" "sv_ReportTarget (E\<lparr>sv_PostData := g\<rparr>) = sv_ReportTarget E"
  "sv_CreateConnection_address (E\<lparr>sv_PostData := g\<rparr>) = sv_CreateConnection_address E"
  "sv_CreateConnection_host (E\<lparr>sv_PostData := g\<rparr>) = sv_CreateConnection_host E"
  "sv_CreateUdpChannel (E\<lparr>sv_PostData := g\<rparr>) = sv_CreateUdpChannel E"
  by simp_all

lemma independent_requests:
  "RequestAuthentication (E\<lparr>sv_PostData := g\<rparr>) = RequestAuthentication E"
  "RequestDeviceConnection_address (E\<lparr>sv_PostData := g\<rparr>) = RequestDeviceConnection_address E"
  "RequestDeviceConnection_host (E\<lparr>sv_PostData := g\<rparr>) = RequestDeviceConnection_host E"
  "RequestDeviceUdpChannel (E\<lparr>sv_PostData := g\<rparr>) = RequestDeviceUdpChannel E"
  unfolding fun_eq_iff RequestAuthentication_def RequestDeviceConnection_address_def
    RequestDeviceConnection_host_def RequestDeviceUdpChannel_def ReportTarget_address_def ReportTarget_host_def
    independent_fields by blast+

lemma independent_read:
  "read_port (E\<lparr>sv_PostData := g\<rparr>) = read_port E" "read_target (E\<lparr>sv_PostData := g\<rparr>) = read_target E"
  "scan_target (E\<lparr>sv_PostData := g\<rparr>) = scan_target E" "header_line (E\<lparr>sv_PostData := g\<rparr>) = header_line E"
  "finish_raw_header (E\<lparr>sv_PostData := g\<rparr>) = finish_raw_header E"
  "finish_normal_header (E\<lparr>sv_PostData := g\<rparr>) = finish_normal_header E"
  unfolding fun_eq_iff read_port_def read_target_def scan_target_def header_line_def finish_raw_header_def
    finish_normal_header_def independent_fields independent_requests by blast+

lemma independent_raw_loop:
  "raw_header_loop (E\<lparr>sv_PostData := g\<rparr>) i AuthKey D k s = raw_header_loop E i AuthKey D k s"
proof (induction E i AuthKey D k s rule: raw_header_loop.induct)
  case (1 E i AuthKey D k s)
  show ?case
  proof (cases "find_crlf D")
    case None
    then show ?thesis
      by (simp add: raw_header_loop.simps)
  next
    case (Some l)
    show ?thesis
      using "1.IH" [OF Some] Some
      by (subst (1 2) raw_header_loop.simps) (auto simp: independent_read independent_fields split: auth_key.split)
  qed
qed

lemma independent_normal_loop:
  "normal_header_loop (E\<lparr>sv_PostData := g\<rparr>) i N AuthKey D k s = normal_header_loop E i N AuthKey D k s"
proof (induction E i N AuthKey D k s rule: normal_header_loop.induct)
  case (1 E i N AuthKey D k s)
  show ?case
  proof (cases "find_crlf D")
    case None
    then show ?thesis
      by (simp add: normal_header_loop.simps)
  next
    case (Some l)
    show ?thesis
    proof (cases "l = 0 \<and> header_text i s = []")
      case True
      then show ?thesis
        using Some by (subst (1 2) normal_header_loop.simps) (simp add: independent_read)
    next
      case False
      let ?L = "header_text i s @ take l D"
      obtain R s' where "header_line E i l ?L AuthKey (set_header_text i ?L s) = (R, s')"
        by fastforce
      with "1.IH" [OF Some False refl refl, of R s'] show ?thesis
        using Some by (subst (1 2) normal_header_loop.simps)
          (simp add: independent_read Let_def if_not_P [OF False] split: sum.split)
    qed
  qed
qed

text \<open>Only two processors post data, and one of them only once the content of the request was sent.\<close>

lemma independent_processor:
  assumes "p \<noteq> P_OnRawData" and "p = P_OnHttpBody \<longrightarrow> ht_Content (pc_Http (conn i (snd (KeepAlive i s)))) \<noteq> []"
  shows "run_processor (E\<lparr>sv_PostData := g\<rparr>) p i D s = run_processor E p i D s"
proof (cases p)
  case P_OnGuessProxyType
  show ?thesis
    unfolding P_OnGuessProxyType run_processor.simps OnGuessProxyType_def OnS5Challenge_def OnHttpChallenge_def
      OnHttpConnect_def OnHttpUrl_def independent_fields independent_requests independent_read by (rule refl)
next
  case P_OnS5AuthInfo
  show ?thesis
    unfolding P_OnS5AuthInfo run_processor.simps OnS5AuthInfo_def independent_requests by (rule refl)
next
  case P_OnS5Target
  show ?thesis
    unfolding P_OnS5Target run_processor.simps OnS5Target_def OnS5TcpTarget_def OnS5UdpTarget_def
      independent_fields independent_requests independent_read by (rule refl)
next
  case P_OnHttpBody
  then show ?thesis
    using assms(2) by (simp add: OnHttpBody_def split_beta)
qed (use assms(1) in \<open>simp_all add: KillConnectionOnData_def OnHttpRawHeaderProcessor_def
    OnHttpNormalHeaderProcessor_def independent_raw_loop independent_normal_loop\<close>)

lemma KeepAlive_http: "pa_ClientConnectionPool s i = Some C \<Longrightarrow> pc_Http (conn i (snd (KeepAlive i s))) = pc_Http C"
  by (simp add: KeepAlive_def conn_def Let_def unlink_def upd_conn_def)

lemma conn_ok_relay:
  "conn_ok C \<Longrightarrow> pc_RelaySideConnectionId C \<noteq> 0 \<Longrightarrow> pc_DataProcessor C = P_OnRawData \<or> pc_DataProcessor C = P_OnHttpBody"
  by (simp add: conn_ok_def Let_def)

text \<open>
  C4: what a client sends never reaches the relay while its connection waits to be authenticated,
  for its device or for the relay's connection, nor while its challenge or its header is read: in
  every reachable state the result of such data is the same for every relay that would take it.
\<close>

theorem pa_no_data_before_relay:
  assumes "proxy_services E" and "pa_reachable E n s" and C: "pa_ClientConnectionPool s i = Some C"
    and waits: "pc_AuthFuture C \<noteq> None \<or> pc_AcquireDeviceFuture C \<noteq> None \<or>
      pc_AcquireDeviceConnectionFuture C \<noteq> None \<or> (pc_DataProcessor C \<noteq> P_OnRawData \<and> pc_DataProcessor C \<noteq> P_OnHttpBody)"
  shows "pc_RelaySideConnectionId C = 0 \<and> pa_OnData (E\<lparr>sv_PostData := g\<rparr>) i D s = pa_OnData E i D s"
proof -
  have ok: "conn_ok C"
    using pa_inv_conn [OF proxy_services.pa_reachable_inv [OF assms(1,2)] C] .
  consider F where "pc_AuthFuture C = Some F" | F where "pc_AcquireDeviceFuture C = Some F"
    | F where "pc_AcquireDeviceConnectionFuture C = Some F"
    | "pc_DataProcessor C \<noteq> P_OnRawData" "pc_DataProcessor C \<noteq> P_OnHttpBody"
    using waits by blast
  then have off: "pc_RelaySideConnectionId C = 0" "pc_DataProcessor C \<noteq> P_OnRawData"
    "pc_DataProcessor C = P_OnHttpBody \<longrightarrow> ht_Content (pc_Http C) \<noteq> []"
    using conn_ok_authenticating(5,7) [OF ok] conn_ok_locating(5,6) [OF ok] conn_ok_connecting(5,6) [OF ok]
      conn_ok_relay [OF ok] by (cases, fastforce+)
  then have "run_processor (E\<lparr>sv_PostData := g\<rparr>) (pc_DataProcessor C) i D s = run_processor E (pc_DataProcessor C) i D s"
    using independent_processor [where p = "pc_DataProcessor C" and i = i and s = s] off by (simp add: KeepAlive_http [OF C])
  moreover have "conn i s = C"
    using C by (simp add: conn_def)
  ultimately show ?thesis
    using off by (simp add: pa_OnData_def)
qed

lemma pa_no_data_before_relay_witness:
  "pa_OnData (example_env\<lparr>sv_PostData := \<lambda>_ _ _ w. example_world\<rparr>) 1 [1, 2, 3] example_waiting =
   pa_OnData example_env 1 [1, 2, 3] example_waiting"
  using pa_no_data_before_relay [OF example_services example_waiting_reachable example_waiting_data(2)] by simp

section \<open>Giving back\<close>

text \<open>
  A connection that is destroyed gives back what it held: its account is released exactly
  when it had one, with the traffic that was counted for it, its futures and its UDP channel are
  gone, and no other connection is touched.
\<close>

theorem pa_destroy_releases:
  assumes "proxy_services E" and "pa_reachable E n s" and C: "pa_ClientConnectionPool s i = Some C"
  shows "let s' = pa_DestroyConnection E i s in
    pa_World s' = (if pc_LocalAuthId C = 0 then pa_World s
      else sv_ReleaseAuthInfo E (pc_LocalAuthId C) (connection_usage C) (pa_World s)) \<and>
    pa_ClientConnectionPool s' = (pa_ClientConnectionPool s)(i := None) \<and>
    (\<forall>F. owners (pa_AuthFutures s') F \<noteq> Some i \<and> owners (pa_DeviceFutures s') F \<noteq> Some i \<and>
         owners (pa_ConnectionFutures s') F \<noteq> Some i \<and> owners (pa_UdpFutures s') F \<noteq> Some i) \<and>
    (\<forall>u U. pa_ClientUdpChannelPool s' u = Some U \<longrightarrow> pu_ParentConnection U \<noteq> i)"
proof -
  let ?s' = "pa_DestroyConnection E i s"
  have inv: "pa_inv n ?s'"
    by (rule pa_DestroyConnection_inv [OF proxy_services.pa_reachable_inv [OF assms(1,2)] C])
  have gone: "pa_ClientConnectionPool ?s' i = None"
    by (simp add: destroy_pool)
  have "owns (owners (pa_AuthFutures ?s')) pc_AuthFuture (pa_ClientConnectionPool ?s')"
    "owns (owners (pa_DeviceFutures ?s')) pc_AcquireDeviceFuture (pa_ClientConnectionPool ?s')"
    "owns (owners (pa_ConnectionFutures ?s')) pc_AcquireDeviceConnectionFuture (pa_ClientConnectionPool ?s')"
    "owns (owners (pa_UdpFutures ?s')) pc_AcquireDeviceUdpChannelFuture (pa_ClientConnectionPool ?s')"
    using inv by (simp_all add: pa_inv_def own_inv_def)
  with gone have "\<forall>F. owners (pa_AuthFutures ?s') F \<noteq> Some i \<and> owners (pa_DeviceFutures ?s') F \<noteq> Some i \<and>
      owners (pa_ConnectionFutures ?s') F \<noteq> Some i \<and> owners (pa_UdpFutures ?s') F \<noteq> Some i"
    by (fastforce dest: owns_owner)
  moreover have "\<forall>u U. pa_ClientUdpChannelPool ?s' u = Some U \<longrightarrow> pu_ParentConnection U \<noteq> i"
    using channel_owner_conn [OF inv] gone by (metis option.distinct(1))
  moreover have "pa_World ?s' = (if pc_LocalAuthId C = 0 then pa_World s
      else sv_ReleaseAuthInfo E (pc_LocalAuthId C) (connection_usage C) (pa_World s))"
  proof -
    have "pa_World (ReleaseAuthFuture i t) = pa_World t" "pa_World (ReleaseAcquireDeviceFuture i t) = pa_World t"
      "pa_World (ReleaseAcquireDeviceConnectionFuture i t) = pa_World t"
      "pa_World (ReleaseAcquireDeviceUdpChannelFuture i t) = pa_World t" "pa_World (release_bound_channel i t) = pa_World t"
      "pa_World (unlink i t) = pa_World t" for t :: "'a pa"
      by (simp_all add: ReleaseAuthFuture_def ReleaseAcquireDeviceFuture_def ReleaseAcquireDeviceConnectionFuture_def
          ReleaseAcquireDeviceUdpChannelFuture_def release_bound_channel_def unlink_def upd_conn_def Let_def split: option.split)
    moreover have "conn i s = C"
      using C by (simp add: conn_def)
    ultimately show ?thesis
      by (simp add: pa_DestroyConnection_def Let_def on_world_def)
  qed
  ultimately show ?thesis
    by (simp add: Let_def destroy_pool)
qed

lemma pa_destroy_releases_witness:
  "owners (pa_AuthFutures (pa_DestroyConnection example_env 1 example_waiting)) 1 \<noteq> Some 1"
  using pa_destroy_releases [OF example_services example_waiting_reachable example_waiting_data(2)] by (simp add: Let_def)

section \<open>The system of the local services\<close>



end
