(* ===== verification/Pa_Parsing.thy ===== *)
theory Pa_Parsing
  imports Pa_Properties
begin

text \<open>
  What the proxy service reads from its clients: the account of a SOCKS5 login, the target of a
  SOCKS5 request, datagrams, the first line of a \<open>CONNECT\<close>, and headers that arrive in pieces.
\<close>

section \<open>SOCKS5\<close>

lemma login_layout:
  fixes Name Pass Rest :: bytes
  assumes "length Name < 256" "length Pass < 256"
  defines "D \<equiv> 1 # of_nat (length Name) # Name @ of_nat (length Pass) # Pass @ Rest"
  shows "unat (D ! 1) = length Name" and "unat (D ! (2 + length Name)) = length Pass"
    and "slice 2 (length Name + 1 + length Pass) (D[2 + length Name := 0]) = CombineAccountPass Name Pass"
proof -
  show "unat (D ! 1) = length Name" "unat (D ! (2 + length Name)) = length Pass"
    using assms(1,2) by (simp_all add: D_def nth_append unat_of_nat)
  show "slice 2 (length Name + 1 + length Pass) (D[2 + length Name := 0]) = CombineAccountPass Name Pass"
    by (simp add: D_def slice_def CombineAccountPass_def list_update_append numeral_2_eq_2)
qed

lemma login_whole:
  assumes "0 < length Name" "length Name < 256" "0 < length Pass" "length Pass < 256"
    and "RequestAuthentication E i (CombineAccountPass Name Pass) (set_processor i P_KillConnectionOnData s) = (F, s')"
  shows "OnS5AuthInfo E i (1 # of_nat (length Name) # Name @ of_nat (length Pass) # Pass @ Rest) s =
    (Consumed (3 + length Name + length Pass),
     if F = None then Connection_PostData i [1, 1]
       (upd_audit (\<lambda>A. A\<lparr>RequestAuthenticationOOM := RequestAuthenticationOOM A + 1\<rparr>) (upd_conn i (\<lambda>C. C\<lparr>pc_AuthFuture := F\<rparr>) s'))
     else upd_conn i (\<lambda>C. C\<lparr>pc_AuthFuture := F\<rparr>) s')"
proof -
  let ?D = "1 # of_nat (length Name) # Name @ of_nat (length Pass) # Pass @ Rest :: bytes"
  note lay = login_layout [OF assms(2,4), of Rest]
  have len: "length ?D = 3 + length Name + length Pass + length Rest"
    by simp
  have "OnS5AuthInfo E i ?D s = (let (F, s) = RequestAuthentication E i (CombineAccountPass Name Pass) (set_processor i P_KillConnectionOnData s);
      s = upd_conn i (\<lambda>C. C\<lparr>pc_AuthFuture := F\<rparr>) s
    in if F = None then (Consumed (3 + length Name + length Pass), Connection_PostData i [1, 1]
         (upd_audit (\<lambda>A. A\<lparr>RequestAuthenticationOOM := RequestAuthenticationOOM A + 1\<rparr>) s))
       else (Consumed (3 + length Name + length Pass), s))"
    unfolding OnS5AuthInfo_def Let_def lay len using assms(1,3) by simp
  then show ?thesis
    by (cases F) (simp_all add: assms(5) Let_def)
qed

lemma login_missing:
  fixes Name Pass :: bytes
  assumes "length Name < 256" "length Pass < 256" and "k < 3 + length Name + length Pass"
  shows "OnS5AuthInfo E i (take k (1 # of_nat (length Name) # Name @ of_nat (length Pass) # Pass)) s = (Consumed 0, s)"
proof -
  let ?M = "1 # of_nat (length Name) # Name @ of_nat (length Pass) # Pass :: bytes"
  let ?D = "take k ?M"
  have len: "length ?D = k"
    using assms(3) by simp
  have lay: "unat (?M ! 1) = length Name" "unat (?M ! (2 + length Name)) = length Pass"
    using login_layout(1,2) [OF assms(1,2), of "[]"] by simp_all
  consider "k < 3" | "3 \<le> k" "k < 3 + length Name" | "3 + length Name \<le> k"
    by linarith
  then show ?thesis
  proof cases
    case 2
    have "?D ! 0 = 1" "unat (?D ! 1) = length Name"
      using 2 lay(1) by (simp_all del: take_Suc_Cons)
    with 2 show ?thesis
      unfolding OnS5AuthInfo_def Let_def len by simp
  next
    case 3
    have "?D ! 0 = 1" "unat (?D ! 1) = length Name" "unat (?D ! (2 + length Name)) = length Pass"
      using 3 lay by (simp_all del: take_Suc_Cons)
    with 3 assms(3) show ?thesis
      unfolding OnS5AuthInfo_def Let_def len by simp
  qed (simp add: OnS5AuthInfo_def len)
qed

text \<open>
  A SOCKS5 login is taken whole or not at all. When name and password are not empty and the
  whole message is there, exactly its bytes are consumed, whatever follows it, and the account
  asked for is the key under which the authentication service stores that name and password.
  As long as a byte is missing nothing is consumed and nothing happens.
\<close>

theorem s5_login:
  assumes "0 < length Name" "length Name < 256" "0 < length Pass" "length Pass < 256"
    and "RequestAuthentication E i (CombineAccountPass Name Pass) (set_processor i P_KillConnectionOnData s) = (Some F, s')"
  shows "let M = 1 # of_nat (length Name) # Name @ of_nat (length Pass) # Pass in
    OnS5AuthInfo E i (M @ Rest) s = (Consumed (length M), upd_conn i (\<lambda>C. C\<lparr>pc_AuthFuture := Some F\<rparr>) s') \<and>
    (\<forall>k < length M. OnS5AuthInfo E i (take k M) s = (Consumed 0, s))"
proof -
  have len: "length (1 # of_nat (length Name) # Name @ of_nat (length Pass) # Pass :: bytes) = 3 + length Name + length Pass"
    by simp
  show ?thesis
    unfolding Let_def len
  proof (intro conjI allI impI)
    show "OnS5AuthInfo E i ((1 # of_nat (length Name) # Name @ of_nat (length Pass) # Pass) @ Rest) s =
        (Consumed (3 + length Name + length Pass), upd_conn i (\<lambda>C. C\<lparr>pc_AuthFuture := Some F\<rparr>) s')"
      using login_whole [OF assms, of Rest] by simp
  qed (rule login_missing [OF assms(2,4)])
qed

lemma s5_login_witness:
  "\<exists>F s'. RequestAuthentication example_env 1 [97, 0, 98] (set_processor 1 P_KillConnectionOnData example_connected) = (Some F, s') \<and>
     OnS5AuthInfo example_env 1 [1, 1, 97, 1, 98, 5] example_connected = (Consumed 5, upd_conn 1 (\<lambda>C. C\<lparr>pc_AuthFuture := Some F\<rparr>) s')"
proof -
  have "fst (RequestAuthentication example_env 1 (CombineAccountPass [97] [98]) (set_processor 1 P_KillConnectionOnData example_connected)) = Some 1"
    by (simp add: RequestAuthentication_def AcquireFuture_def upd_conn_def example_connected_pool new_manager_def
        example_env_def local_env_def slot_alloc_def upt_conv_Cons split_beta Let_def)
  then obtain s' where "RequestAuthentication example_env 1 (CombineAccountPass [97] [98])
      (set_processor 1 P_KillConnectionOnData example_connected) = (Some 1, s')"
    by (metis prod.collapse)
  from this s5_login [OF _ _ _ _ this, of "[5]"] show ?thesis
    by (simp add: CombineAccountPass_def Let_def)
qed

section \<open>Targets and datagrams\<close>

text \<open>What the code relies on in \<open>xel\<close>'s streams: a port takes two bytes, and is read as it was written.\<close>

definition ports_ok :: "'w pa_env \<Rightarrow> bool" where
  "ports_ok E \<longleftrightarrow> (\<forall>p. length (W2 E p) = 2 \<and> R2 E (W2 E p ! 0) (W2 E p ! 1) = p)"

lemma read_port_at:
  assumes "ports_ok E" and "length X = k"
  shows "read_port E (X @ W2 E p @ Y) k = p"
proof -
  obtain a b where "W2 E p = [a, b]"
    using assms(1) by (auto simp: ports_ok_def length_Suc_conv numeral_2_eq_2 dest!: spec [of _ p])
  moreover have "R2 E (W2 E p ! 0) (W2 E p ! 1) = p"
    using assms(1) by (simp add: ports_ok_def)
  ultimately show ?thesis
    using assms(2) by (simp add: read_port_def nth_append)
qed


lemma example_ports: "ports_ok example_env"
  unfolding ports_ok_def
proof
  fix p :: uint16
  have "unat p < 65536"
    using unsigned_less [of p] by simp
  then have high: "unat (word_of_nat (unat p div 256) :: byte) = unat p div 256"
    by (simp add: unat_of_nat)
  have low: "unat (word_of_nat (unat p) :: byte) = unat p mod 256"
    by (simp only: unat_of_nat) simp
  have W: "W2 example_env p = [word_of_nat (unat p div 256), word_of_nat (unat p)]"
    and R: "R2 example_env a b = word_of_nat (256 * unat a + unat b)" for a b
    unfolding example_env_def local_env_def by (simp_all del: of_nat_add of_nat_mult)
  have "256 * (unat p div 256) + unat p mod 256 = unat p"
    by simp
  then show "length (W2 example_env p) = 2 \<and> R2 example_env (W2 example_env p ! 0) (W2 example_env p ! 1) = p"
    unfolding R W nth_Cons_0 One_nat_def nth_Cons_Suc high low by simp
qed


fun ip_length_ok :: "xNetIp \<Rightarrow> bool" where
  "ip_length_ok (IPV4 S) = (length S = 4)"
| "ip_length_ok (IPV6 S) = (length S = 16)"
| "ip_length_ok UNKNOWN = False"

lemma ports_cases:
  assumes "ports_ok E"
  obtains a b where "W2 E p = [a, b]" "R2 E a b = p"
proof -
  have "length (W2 E p) = 2" "R2 E (W2 E p ! 0) (W2 E p ! 1) = p"
    using assms by (simp_all add: ports_ok_def)
  then show ?thesis
    using that by (auto simp: length_Suc_conv numeral_2_eq_2)
qed

lemma keep_alive_frame:
  assumes "pa_ClientConnectionPool s i = Some C"
  shows "pc_DeviceReference (conn i (snd (KeepAlive i s))) = pc_DeviceReference C"
    and "pa_World (snd (KeepAlive i s)) = pa_World s"
  using assms by (simp_all add: KeepAlive_def conn_def unlink_def upd_conn_def Let_def)

text \<open>The way of a datagram whose header is complete.\<close>

lemma udp_posted:
  assumes U: "pa_ClientUdpChannelPool s u = Some U" and "pu_RelaySideUdpChannelId U \<noteq> 0"
    and "addr_Ip Source = pu_ClientIpCheckAddress U"
    and C: "pa_ClientConnectionPool s (pu_ParentConnection U) = Some C"
    and "R2 E (D ! 0) (D ! 1) = 0" "D ! 2 = 0"
    and form: "D ! 3 = 1 \<and> k = 10 \<and> T = \<lparr>na_ip = IPV4 (slice 4 4 D), na_port = read_port E D 8\<rparr> \<or>
      D ! 3 = 4 \<and> k = 22 \<and> T = \<lparr>na_ip = IPV6 (slice 4 16 D), na_port = read_port E D 20\<rparr>"
    and "k < length D"
  shows "pa_World (pa_OnUdpData E u D Source s) =
    sv_PostUdpData E (dr_RelayServerId (pc_DeviceReference C)) (pu_RelaySideUdpChannelId U) T (drop k D) (pa_World s)"
proof -
  let ?f = "\<lambda>C. C\<lparr>pc_TotalUdpBytesFromClient := pc_TotalUdpBytesFromClient C + of_nat (length D)\<rparr>"
  let ?s = "upd_conn (pu_ParentConnection U) ?f (upd_channel u (\<lambda>U. U\<lparr>pu_LastClientIpAddress := Source\<rparr>) s)"
  have "pa_ClientConnectionPool ?s (pu_ParentConnection U) = Some (?f C)"
    by (simp add: C)
  note k = keep_alive_frame [OF this]
  have w: "pa_World ?s = pa_World s"
    by (simp add: upd_conn_def upd_channel_def)
  show ?thesis
    using form assms(2,3,5,6,8) k w by (elim disjE) (auto simp: pa_OnUdpData_def U Let_def on_world_def)
qed

text \<open>
  C34: a datagram from the relay that a client sends back reaches the relay as it came: the header
  that the proxy puts before the payload names the peer, and is read as that peer's address and
  port, with exactly the payload behind it.
\<close>

theorem udp_datagram_roundtrip:
  assumes "ports_ok E" and H: "udp_header E A = Some H" and "ip_length_ok (na_ip A)" and "Payload \<noteq> []"
    and U: "pa_ClientUdpChannelPool s u = Some U" and "pu_RelaySideUdpChannelId U \<noteq> 0"
    and "addr_Ip Source = pu_ClientIpCheckAddress U"
    and C: "pa_ClientConnectionPool s (pu_ParentConnection U) = Some C"
  shows "pa_World (pa_OnUdpData E u (H @ Payload) Source s) =
    sv_PostUdpData E (dr_RelayServerId (pc_DeviceReference C)) (pu_RelaySideUdpChannelId U) A Payload (pa_World s)"
proof -
  obtain a b where z: "W2 E 0 = [a, b]" "R2 E a b = 0"
    by (rule ports_cases [OF assms(1)])
  obtain c d where p: "W2 E (na_port A) = [c, d]" "R2 E c d = na_port A"
    by (rule ports_cases [OF assms(1)])
  note post = udp_posted [OF U assms(6,7) C, of E "H @ Payload" _ A]
  show ?thesis
  proof (cases "na_ip A")
    case (IPV4 S)
    then have H4: "H = [a, b, 0, 1] @ S @ [c, d]" and S: "length S = 4"
      using H assms(3) by (auto simp: udp_header_def z p)
    have A: "A = \<lparr>na_ip = IPV4 (slice 4 4 (H @ Payload)), na_port = read_port E (H @ Payload) 8\<rparr>"
      using IPV4 S p(2) by (intro xNetAddress.equality) (simp_all add: H4 slice_def read_port_def nth_append)
    show ?thesis
      using post [of 10] A S z(2) assms(4) by (simp add: H4)
  next
    case (IPV6 S)
    then have H6: "H = [a, b, 0, 4] @ S @ [c, d]" and S: "length S = 16"
      using H assms(3) by (auto simp: udp_header_def z p)
    have A: "A = \<lparr>na_ip = IPV6 (slice 4 16 (H @ Payload)), na_port = read_port E (H @ Payload) 20\<rparr>"
      using IPV6 S p(2) by (intro xNetAddress.equality) (simp_all add: H6 slice_def read_port_def nth_append)
    show ?thesis
      using post [of 22] A S z(2) assms(4) by (simp add: H6)
  qed (use H in \<open>simp add: udp_header_def\<close>)
qed

definition example_channel :: pa_udp_channel where
  "example_channel = \<lparr>pu_ParentConnection = 1, pu_RelaySideUdpChannelId = 9,
     pu_ClientIpCheckAddress = example_address\<lparr>na_port := 0\<rparr>, pu_LastClientIpAddress = no_address, pu_BindAddress = no_address\<rparr>"

lemma udp_datagram_roundtrip_witness:
  "pa_World (pa_OnUdpData example_env 7
     (the (udp_header example_env \<lparr>na_ip = IPV4 [8, 8, 8, 8], na_port = 53\<rparr>) @ [42]) example_address
     (example_connected\<lparr>pa_ClientUdpChannelPool := [7 \<mapsto> example_channel]\<rparr>)) =
   sv_PostUdpData example_env 0 9 \<lparr>na_ip = IPV4 [8, 8, 8, 8], na_port = 53\<rparr> [42] example_world"
proof -
  have "udp_header example_env \<lparr>na_ip = IPV4 [8, 8, 8, 8], na_port = 53\<rparr> =
      Some (the (udp_header example_env \<lparr>na_ip = IPV4 [8, 8, 8, 8], na_port = 53\<rparr>))"
    by (simp add: udp_header_def)
  note round = udp_datagram_roundtrip [OF example_ports this, where C = example_connection and U = example_channel]
  show ?thesis
    by (subst round) (simp_all add: example_channel_def example_address_def addr_Ip_def example_connected_pool
        example_connection_def new_pa_connection_def)
qed

section \<open>HTTP\<close>

lemma takeWhile_stop: "(\<forall>x \<in> set A. P x) \<Longrightarrow> \<not> P c \<Longrightarrow> takeWhile P (A @ c # B) = A"
  by (induction A) auto

lemma atoi_digits:
  assumes "\<forall>C \<in> set P. isdigit C" and "P \<noteq> []" and "\<not> isdigit c"
  shows "atoi (P @ c # X) = int (digits_value P)"
proof -
  obtain p P' where P: "P = p # P'"
    using assms(2) by (cases P) auto
  have "isdigit p"
    using assms(1) by (simp add: P)
  then have p: "\<not> isspace p" "p \<noteq> 45" "p \<noteq> 43"
    by (auto simp: isdigit_def isspace_def word_le_nat_alt)
  have "dropWhile isspace (P @ c # X) = P @ c # X"
    using p(1) by (simp add: P)
  moreover have "takeWhile isdigit (P @ c # X) = P"
    using assms(1,3) by (rule takeWhile_stop)
  ultimately show ?thesis
    using p by (simp add: atoi_def P Let_def)
qed

text \<open>
  The target of a \<open>CONNECT\<close> is the host and the decimal port of its first line, the whole
  line is consumed, nothing else happens, and the rest of the header is read next.
\<close>

theorem http_connect_target:
  assumes "H \<noteq> []" and "set H \<inter> {58, 32, 13} = {}" and "P \<noteq> []" and "\<forall>C \<in> set P. isdigit C" and "13 \<notin> set V"
  defines "Line \<equiv> str ''CONNECT '' @ H @ [58] @ P @ [32] @ V"
  shows "OnHttpChallenge E i (Line @ crlf @ Rest) s =
    (Consumed (length Line + 2),
     upd_conn i (\<lambda>C. C\<lparr>pc_Http := (pc_Http C)\<lparr>ht_TargetHost := H, ht_TargetPort := word_of_nat (digits_value P)\<rparr>,
       pc_Type := HTTP_RAW, pc_DataProcessor := P_OnHttpRawHeaderProcessor\<rparr>) s)"
proof -
  have nocr: "13 \<notin> set Line"
    using assms(2,4,5) by (auto simp: Line_def str_def isdigit_def)
  have crlf: "find_crlf (Line @ crlf @ Rest) = Some (length Line)"
    using find_crlf_append [OF nocr] by (simp add: crlf_def)
  have pre: "ci_prefix (str ''CONNECT '') (Line @ crlf @ Rest)"
    by (simp add: ci_prefix_def Line_def str_def)
  have drop: "drop 8 (Line @ crlf @ Rest) = H @ 58 # P @ 32 # V @ crlf @ Rest" and len: "length Line - 8 = length (H @ 58 # P @ 32 # V)"
    by (simp_all add: Line_def str_def)
  have "takeWhile (\<lambda>C. C \<noteq> 58 \<and> C \<noteq> 32) (H @ 58 # P @ 32 # V) = H"
    by (rule takeWhile_stop) (use assms(2) in auto)
  moreover have "take (length (H @ 58 # P @ 32 # V)) (H @ 58 # P @ 32 # V @ crlf @ Rest) = H @ 58 # P @ 32 # V"
    by simp
  moreover have "\<not> isdigit 32"
    by (simp add: isdigit_def)
  ultimately have "scan_target E 32 (length Line - 8) (drop 8 (Line @ crlf @ Rest)) = (H, word_of_nat (digits_value P))"
    unfolding scan_target_def Let_def drop len using atoi_digits [OF assms(4,3), of 32]
    by simp
  moreover have "upd_conn i f (upd_conn i g s) = upd_conn i (\<lambda>C. f (g C)) s" for f g
    by (simp add: upd_conn_def option.map_comp o_def)
  ultimately show ?thesis
    using assms(1) crlf pre
    by (simp add: OnHttpChallenge_def OnHttpConnect_def Line_def str_def)
qed

lemma http_connect_target_witness:
  "fst (OnHttpChallenge example_env 1 (str ''CONNECT ab:443 HTTP/1.1'' @ crlf @ crlf) example_connected) = Consumed 25"
  using http_connect_target [of "str ''ab''" "str ''443''" "str ''HTTP/1.1''" example_env 1 crlf example_connected]
  by (simp add: str_def isdigit_def)

lemma find_crlf_split:
  "find_crlf A = None \<Longrightarrow> A = [] \<or> last A \<noteq> 13 \<Longrightarrow> find_crlf (A @ B) = map_option (\<lambda>k. length A + k) (find_crlf B)"
proof (induction A)
  case Nil
  then show ?case
    by (cases "find_crlf B") simp_all
next
  case (Cons x A)
  show ?case
  proof (cases A)
    case Nil
    with Cons.prems show ?thesis
      by (cases B; cases "find_crlf B") (auto simp: map_option_case split: option.split)
  next
    case (Cons y A')
    with Cons.IH Cons.prems show ?thesis
      by (auto simp: option.map_comp o_def split: if_splits)
  qed
qed

text \<open>What the loop does to the state does not depend on how many bytes it counts.\<close>

lemma normal_loop_counts:
  "snd (normal_header_loop E i N AuthKey D k s) = snd (normal_header_loop E i N' AuthKey D k' s)"
proof (induction E i N AuthKey D k s arbitrary: k' rule: normal_header_loop.induct)
  case (1 E i N AuthKey D k s)
  show ?case
  proof (cases "find_crlf D")
    case None
    then show ?thesis
      by (simp add: normal_header_loop.simps)
  next
    case (Some l)
    show ?thesis
    proof (cases "l = 0 \<and> header_text i s = []")
      case True
      then show ?thesis
        using Some by (subst (1 2) normal_header_loop.simps) (simp add: finish_normal_header_def split_beta Let_def)
    next
      case False
      let ?L = "header_text i s @ take l D"
      obtain R s' where "header_line E i l ?L AuthKey (set_header_text i ?L s) = (R, s')"
        by fastforce
      with "1.IH" [OF Some False refl refl, of R s'] show ?thesis
        using Some by (subst (1 2) normal_header_loop.simps) (simp add: Let_def if_not_P [OF False] split: sum.split)
    qed
  qed
qed

lemma normal_loop_line:
  assumes "find_crlf D = Some l" and "\<not> (l = 0 \<and> header_text i s = [])" and "header_text i s @ take l D = L"
    and "header_line E i l L AuthKey (set_header_text i L s) = (R, s')"
  shows "snd (normal_header_loop E i N AuthKey D k s) = (case R of Inl _ \<Rightarrow> s' | Inr AuthKey \<Rightarrow>
    snd (normal_header_loop E i 0 AuthKey (drop (l + 2) D) 0 (set_header_text i [] s')))"
proof (cases R)
  case (Inl X)
  then show ?thesis
    using assms by (subst normal_header_loop.simps) (simp add: if_not_P [OF assms(2)] Let_def)
next
  case (Inr K)
  then show ?thesis
    using assms normal_loop_counts [of E i N K "drop (l + 2) D" "k + l + 2" "set_header_text i [] s'" 0 0]
    by (subst normal_header_loop.simps) (simp add: if_not_P [OF assms(2)] Let_def)
qed



section \<open>Requests that fail\<close>

text \<open>A URL with the scheme \<open>https\<close>: the path is searched from the second slash of the scheme, and no host is found.\<close>

lemma https_url_start:
  assumes "D = A @ str ''https://'' @ R" and "length A = k"
  shows "url_start k D = (k + 8, k + 7)" and "find_from 47 (k + 7) D = Some (k + 7)"
  using assms by (simp_all add: url_start_def ci_prefix_def find_from_def str_def tolower_char_def)

lemma https_no_host: "scan_target E 47 (Suc (k + 7) - (k + 8)) X = ([], 0)"
  by (simp add: scan_target_def)

text \<open>An authorization text without a colon: the code writes behind the string.\<close>

lemma no_colon_undefined: "58 \<notin> set Decoded \<Longrightarrow> account_key Decoded = Out_Of_Bounds"
  by (simp add: account_key_def find_byte_None flip: find_byte_None)

text \<open>The account key found in an earlier part of a header is not kept: without it the answer is 407.\<close>

lemma raw_header_key_lost:
  "OnHttpRawHeaderProcessor E i crlf s = (Consumed 0, Send407 i (set_processor i P_KillConnectionOnData s))"
  by (simp add: OnHttpRawHeaderProcessor_def raw_header_loop.simps crlf_def finish_raw_header_def Let_def)

text \<open>A graceful kill of a connection that has nothing to write only marks it.\<close>

lemma graceful_kill_without_writes:
  "\<not> pc_DeleteMark (conn i s) \<Longrightarrow> DeferGracefulKill False i s = upd_conn i (\<lambda>C. C\<lparr>pc_DeleteMark := True\<rparr>) s"
  by (simp add: DeferGracefulKill_def Let_def)

text \<open>An unknown address type in a request to connect: there is no future to release.\<close>

lemma unknown_address_type:
  "AT \<notin> {1, 3, 4} \<Longrightarrow> pc_AcquireDeviceConnectionFuture (conn i s) = None \<Longrightarrow>
   fst (OnS5TcpTarget E i AT T N k s) = Undefined"
  by (simp add: OnS5TcpTarget_def)

end
