(* ===== verification/Request_Map.thy ===== *)
theory Request_Map
  imports PP_Prelude
begin

text \<open>
  \<open>lib_component/request_mapping\<close>: \<open>xTcpServiceRequestMap\<close> maps the identifiers of forwarded
  requests back to the connection and the request they came from, and forgets requests that
  stay unanswered. \<open>'h\<close> is the handle of the source connection. The size the storage is
  initialised with is kept in \<open>rm_capacity\<close>, and the allocator may depend on it.
\<close>

section \<open>State\<close>

record 'h source_request =
  sr_SourceHandle :: 'h
  sr_SourceRequestId :: uint64
  sr_SourceRequestTimestampMS :: uint64
  sr_RequestId :: uint64

record 'h request_map =
  rm_LocalTicker :: uint64
  rm_RequestTimeoutMS :: uint64
  rm_capacity :: uint64
  rm_pool :: "uint64 \<Rightarrow> 'h source_request option"
  rm_queue :: "uint64 list"
  rm_total :: uint64

definition MIN_REQUEST_TIMEOUT :: uint64 where "MIN_REQUEST_TIMEOUT = 100"
definition MAX_REQUEST_TIMEOUT :: uint64 where "MAX_REQUEST_TIMEOUT = 10 * 60000"

definition fresh_request_map :: "'h request_map" where
  "fresh_request_map =
     \<lparr>rm_LocalTicker = 0, rm_RequestTimeoutMS = 0, rm_capacity = 0, rm_pool = Map.empty,
      rm_queue = [], rm_total = 0\<rparr>"

section \<open>Operations\<close>

text \<open>\<open>pool_init\<close> says whether the storage could be allocated, \<open>NowMS\<close> is the ticker's clock.\<close>

definition rm_Init ::
    "(uint64 \<Rightarrow> bool) \<Rightarrow> uint64 \<Rightarrow> uint64 \<Rightarrow> uint64 \<Rightarrow> 'h request_map \<Rightarrow> bool \<times> 'h request_map" where
  "rm_Init pool_init NowMS MaxRequest RequestTimeoutMS s =
     (let s = s\<lparr>rm_LocalTicker := NowMS\<rparr>;
          RequestTimeoutMS = min (max MIN_REQUEST_TIMEOUT RequestTimeoutMS) MAX_REQUEST_TIMEOUT;
          s = s\<lparr>rm_RequestTimeoutMS := RequestTimeoutMS\<rparr>
      in if \<not> pool_init RequestTimeoutMS
         then (False, s\<lparr>rm_LocalTicker := 0, rm_RequestTimeoutMS := 0\<rparr>)
         else (True, s\<lparr>rm_capacity := RequestTimeoutMS\<rparr>))"

definition rm_Clean :: "'h request_map \<Rightarrow> 'h request_map" where
  "rm_Clean s = s\<lparr>rm_pool := Map.empty, rm_queue := [], rm_capacity := 0, rm_LocalTicker := 0,
                  rm_RequestTimeoutMS := 0\<rparr>"

definition pool_Release :: "uint64 \<Rightarrow> 'h request_map \<Rightarrow> 'h request_map" where
  "pool_Release i s = s\<lparr>rm_pool := (rm_pool s)(i := None), rm_queue := removeAll i (rm_queue s)\<rparr>"

definition rm_expired :: "uint64 \<Rightarrow> 'h request_map \<Rightarrow> uint64 \<Rightarrow> bool" where
  "rm_expired KillTimepointMS s i \<longleftrightarrow>
     (case rm_pool s i of
        Some R \<Rightarrow> sr_SourceRequestTimestampMS R \<le> KillTimepointMS
      | None \<Rightarrow> False)"

definition rm_drop :: "uint64 \<Rightarrow> 'h request_map \<Rightarrow> 'h request_map" where
  "rm_drop i s = (pool_Release i s)\<lparr>rm_total := rm_total s - 1\<rparr>"

definition rm_Tick :: "uint64 \<Rightarrow> 'h request_map \<Rightarrow> 'h request_map" where
  "rm_Tick NowMS s =
     (let s = s\<lparr>rm_LocalTicker := NowMS\<rparr>;
          KillTimepointMS = NowMS - rm_RequestTimeoutMS s
      in drain rm_queue (\<lambda>q s. s\<lparr>rm_queue := q\<rparr>) (rm_expired KillTimepointMS) rm_drop s)"

definition rm_Acquire ::
    "(uint64 \<Rightarrow> uint64 set \<Rightarrow> uint64) \<Rightarrow> 'h \<Rightarrow> uint64 \<Rightarrow> 'h request_map \<Rightarrow> uint64 \<times> 'h request_map" where
  "rm_Acquire alloc SourceHandle SourceRequestId s =
     (let RequestId = alloc (rm_capacity s) (dom (rm_pool s)) in
      if RequestId = 0 then (0, s)
      else
        let Node = \<lparr>sr_SourceHandle = SourceHandle, sr_SourceRequestId = SourceRequestId,
                    sr_SourceRequestTimestampMS = rm_LocalTicker s, sr_RequestId = RequestId\<rparr>
        in (RequestId,
            s\<lparr>rm_pool := (rm_pool s)(RequestId \<mapsto> Node), rm_queue := add_tail (rm_queue s) RequestId,
              rm_total := rm_total s + 1\<rparr>))"

text \<open>\<open>None\<close> stands for the empty request that the code returns for an unknown identifier.\<close>

definition rm_GetAndRelease ::
    "uint64 \<Rightarrow> 'h request_map \<Rightarrow> 'h source_request option \<times> 'h request_map" where
  "rm_GetAndRelease RequestId s =
     (case rm_pool s RequestId of
        None \<Rightarrow> (None, s)
      | Some Ret \<Rightarrow> (Some Ret, rm_drop RequestId s))"

definition rm_Release :: "uint64 \<Rightarrow> 'h request_map \<Rightarrow> 'h request_map" where
  "rm_Release RequestId s = rm_drop RequestId s"

section \<open>Invariant\<close>

text \<open>
  The queue links exactly the live requests, each once, in the order of their time stamps, none
  of them in the future, and the audit counter counts them.
\<close>

definition rm_stamp :: "'h request_map \<Rightarrow> uint64 \<Rightarrow> uint64" where
  "rm_stamp s i = (case rm_pool s i of Some R \<Rightarrow> sr_SourceRequestTimestampMS R | None \<Rightarrow> 0)"

definition rm_inv :: "'h request_map \<Rightarrow> bool" where
  "rm_inv s \<longleftrightarrow>
     distinct (rm_queue s) \<and> set (rm_queue s) = dom (rm_pool s) \<and>
     sorted (map (rm_stamp s) (rm_queue s)) \<and>
     (\<forall>i \<in> dom (rm_pool s). rm_stamp s i \<le> rm_LocalTicker s) \<and>
     rm_total s = count_live (rm_pool s)"

lemma rm_inv_fresh: "rm_inv fresh_request_map"
  by (simp add: rm_inv_def fresh_request_map_def)

lemma rm_drop_simps [simp]:
  "rm_queue (rm_drop i s) = removeAll i (rm_queue s)"
  "rm_pool (rm_drop i s) = (rm_pool s)(i := None)"
  "rm_LocalTicker (rm_drop i s) = rm_LocalTicker s"
  "rm_RequestTimeoutMS (rm_drop i s) = rm_RequestTimeoutMS s"
  "rm_capacity (rm_drop i s) = rm_capacity s"
  "rm_total (rm_drop i s) = rm_total s - 1"
  by (simp_all add: rm_drop_def pool_Release_def)

lemma rm_stamp_drop: "j \<noteq> i \<Longrightarrow> rm_stamp (rm_drop i s) j = rm_stamp s j"
  by (simp add: rm_stamp_def)

lemma sorted_removeAll: "sorted (map f xs) \<Longrightarrow> sorted (map f (removeAll i xs))"
  by (simp add: sorted_map removeAll_filter_not_eq sorted_wrt_filter)

lemma rm_inv_drop:
  assumes "rm_inv s" and "rm_pool s i = Some R"
  shows "rm_inv (rm_drop i s)"
proof -
  have st: "map (rm_stamp (rm_drop i s)) (removeAll i (rm_queue s)) = map (rm_stamp s) (removeAll i (rm_queue s))"
    by (auto simp: rm_stamp_drop)
  have "sorted (map (rm_stamp (rm_drop i s)) (removeAll i (rm_queue s)))"
    unfolding st using assms(1) by (simp add: rm_inv_def sorted_removeAll)
  with assms show ?thesis
    by (auto simp: rm_inv_def rm_stamp_drop pool_simps)
qed

lemma rm_inv_Acquire:
  assumes "rm_inv s" and "storage_ok (alloc (rm_capacity s))" and "rm_Acquire alloc h rid s = (i, s')"
  shows "rm_inv s'"
proof (cases "i = 0")
  case True
  with assms(1,3) show ?thesis
    by (auto simp: rm_Acquire_def Let_def split: if_splits)
next
  case False
  define N where "N = \<lparr>sr_SourceHandle = h, sr_SourceRequestId = rid,
    sr_SourceRequestTimestampMS = rm_LocalTicker s, sr_RequestId = i\<rparr>"
  have i: "rm_pool s i = None" and s': "s' = s\<lparr>rm_pool := (rm_pool s)(i \<mapsto> N),
      rm_queue := rm_queue s @ [i], rm_total := rm_total s + 1\<rparr>"
    using assms(3) False storage_okD [OF assms(2), of "rm_pool s"]
    by (auto simp: rm_Acquire_def N_def Let_def split: if_splits)
  have st: "rm_stamp s' j = (if j = i then rm_LocalTicker s else rm_stamp s j)" for j
    by (simp add: s' rm_stamp_def N_def)
  have "i \<notin> set (rm_queue s)"
    using assms(1) i by (auto simp: rm_inv_def)
  then have mp: "map (rm_stamp s') (rm_queue s) = map (rm_stamp s) (rm_queue s)"
    by (auto simp: st)
  have "sorted (map (rm_stamp s') (rm_queue s @ [i]))"
    unfolding map_append mp using assms(1) by (auto simp: rm_inv_def st sorted_append)
  moreover have "\<forall>j \<in> dom (rm_pool s'). rm_stamp s' j \<le> rm_LocalTicker s'"
    using assms(1) by (auto simp: rm_inv_def st) (auto simp: s')
  ultimately show ?thesis
    using assms(1) i by (auto simp: rm_inv_def s' pool_simps)
qed

section \<open>Expiry\<close>

interpretation rm_expiry: pop_loop rm_queue "\<lambda>q s. s\<lparr>rm_queue := q\<rparr>" "rm_expired k" rm_drop for k
proof (unfold_locales, goal_cases)
  case (6 i j s)
  then show ?case by (simp add: rm_expired_def)
qed (simp_all add: rm_expired_def rm_drop_def pool_Release_def)

lemma fold_rm_drop:
  "rm_pool (fold rm_drop xs s) = (\<lambda>i. if i \<in> set xs then None else rm_pool s i)"
  "rm_queue (fold rm_drop xs s) = filter (\<lambda>i. i \<notin> set xs) (rm_queue s)"
  "rm_LocalTicker (fold rm_drop xs s) = rm_LocalTicker s"
  "rm_RequestTimeoutMS (fold rm_drop xs s) = rm_RequestTimeoutMS s"
  "rm_capacity (fold rm_drop xs s) = rm_capacity s"
  by (induction xs arbitrary: s) (auto simp: removeAll_filter_not_eq intro: filter_cong)

lemma rm_inv_fold_drop:
  "rm_inv s \<Longrightarrow> distinct xs \<Longrightarrow> set xs \<subseteq> dom (rm_pool s) \<Longrightarrow> rm_inv (fold rm_drop xs s)"
proof (induction xs arbitrary: s)
  case (Cons x xs)
  then obtain R where "rm_pool s x = Some R"
    by auto
  with Cons.prems have "rm_inv (rm_drop x s)"
    by (blast intro: rm_inv_drop)
  with Cons show ?case
    by (auto intro!: Cons.IH)
qed simp

text \<open>With sorted stamps, a drained queue loses exactly its expired nodes.\<close>

lemma rm_drain:
  assumes "rm_inv s"
  shows "drain rm_queue (\<lambda>q s. s\<lparr>rm_queue := q\<rparr>) (rm_expired k) rm_drop s
    = fold rm_drop (filter (\<lambda>i. rm_stamp s i \<le> k) (rm_queue s)) s"
    (is "?drained = fold rm_drop ?xs s")
proof -
  have live: "\<And>i. i \<in> set (rm_queue s) \<Longrightarrow> rm_expired k s i \<longleftrightarrow> rm_stamp s i \<le> k"
    using assms by (auto simp: rm_inv_def rm_expired_def rm_stamp_def split: option.splits)
  have so: "sorted (map (rm_stamp s) (rm_queue s))" and di: "distinct (rm_queue s)"
    using assms by (simp_all add: rm_inv_def)
  have tw: "takeWhile (rm_expired k s) (rm_queue s) = ?xs"
    using takeWhile_sorted_stamps [OF so, of k] takeWhile_cong [OF refl live, of "rm_queue s"] by simp
  have dw: "dropWhile (rm_expired k s) (rm_queue s) = filter (\<lambda>i. \<not> rm_stamp s i \<le> k) (rm_queue s)"
    using dropWhile_sorted_stamps [OF so, of k] dropWhile_cong [OF refl live, of "rm_queue s"] by simp
  have com: "fold rm_drop ys (t\<lparr>rm_queue := filter (\<lambda>i. i \<notin> set ys) (rm_queue t)\<rparr>) = fold rm_drop ys t"
    for ys and t :: "'a request_map"
  proof (rule request_map.equality)
    show "rm_total (fold rm_drop ys (t\<lparr>rm_queue := filter (\<lambda>i. i \<notin> set ys) (rm_queue t)\<rparr>))
      = rm_total (fold rm_drop ys t)"
    proof -
      have "rm_total (fold rm_drop ys u) = rm_total u - of_nat (length ys)" for u :: "'a request_map"
        by (induction ys arbitrary: u) simp_all
      then show ?thesis by simp
    qed
  qed (simp_all add: fold_rm_drop fun_eq_iff)
  have "filter (\<lambda>i. \<not> rm_stamp s i \<le> k) (rm_queue s) = filter (\<lambda>i. i \<notin> set ?xs) (rm_queue s)"
    by (rule filter_cong) auto
  with com [of ?xs s] show ?thesis
    by (simp add: drain_def tw dw)
qed

lemma rm_stamp_ticker [simp]: "rm_stamp (s\<lparr>rm_LocalTicker := NowMS\<rparr>) = rm_stamp s"
  by (simp add: rm_stamp_def fun_eq_iff)

lemma rm_inv_ticker:
  assumes "rm_inv s" and "rm_LocalTicker s \<le> NowMS"
  shows "rm_inv (s\<lparr>rm_LocalTicker := NowMS\<rparr>)"
proof -
  have "rm_stamp s i \<le> NowMS" if "i \<in> dom (rm_pool s)" for i
    using assms that order_trans unfolding rm_inv_def by blast
  with assms(1) show ?thesis
    by (simp add: rm_inv_def)
qed

lemma rm_Tick_eq:
  assumes "rm_inv s" and "rm_LocalTicker s \<le> NowMS"
  shows "rm_Tick NowMS s
    = fold rm_drop (filter (\<lambda>i. rm_stamp s i \<le> NowMS - rm_RequestTimeoutMS s) (rm_queue s))
        (s\<lparr>rm_LocalTicker := NowMS\<rparr>)"
  using rm_drain [OF rm_inv_ticker [OF assms], of "NowMS - rm_RequestTimeoutMS s"]
  by (simp add: rm_Tick_def Let_def)

lemma rm_inv_Tick:
  assumes "rm_inv s" and "rm_LocalTicker s \<le> NowMS"
  shows "rm_inv (rm_Tick NowMS s)"
proof -
  let ?xs = "filter (\<lambda>i. rm_stamp s i \<le> NowMS - rm_RequestTimeoutMS s) (rm_queue s)"
  have "distinct ?xs" "set ?xs \<subseteq> dom (rm_pool (s\<lparr>rm_LocalTicker := NowMS\<rparr>))"
    using assms(1) by (auto simp: rm_inv_def)
  with rm_inv_ticker [OF assms] show ?thesis
    unfolding rm_Tick_eq [OF assms] by (rule rm_inv_fold_drop)
qed

lemma rm_Tick_pool:
  assumes "rm_inv s" and "rm_LocalTicker s \<le> NowMS"
  shows "rm_pool (rm_Tick NowMS s) i =
    (if rm_stamp s i \<le> NowMS - rm_RequestTimeoutMS s then None else rm_pool s i)"
    and "rm_RequestTimeoutMS (rm_Tick NowMS s) = rm_RequestTimeoutMS s"
    and "rm_LocalTicker (rm_Tick NowMS s) = NowMS"
    and "rm_capacity (rm_Tick NowMS s) = rm_capacity s"
proof -
  have "rm_pool s i = None" if "i \<notin> set (rm_queue s)"
    using assms(1) that by (auto simp: rm_inv_def)
  then show "rm_pool (rm_Tick NowMS s) i =
    (if rm_stamp s i \<le> NowMS - rm_RequestTimeoutMS s then None else rm_pool s i)"
    by (auto simp: rm_Tick_eq [OF assms] fold_rm_drop)
qed (simp_all add: rm_Tick_eq [OF assms] fold_rm_drop)

section \<open>Runs\<close>

text \<open>The calls a client makes, in any order, under a clock that does not go back.\<close>

datatype 'h rm_call = RM_Acquire 'h uint64 | RM_GetAndRelease uint64 | RM_Release uint64 | RM_Tick uint64

fun rm_call_ok :: "'h request_map \<Rightarrow> 'h rm_call \<Rightarrow> bool" where
  "rm_call_ok s (RM_Release i) \<longleftrightarrow> i \<in> dom (rm_pool s)"
| "rm_call_ok s (RM_Tick NowMS) \<longleftrightarrow> rm_LocalTicker s \<le> NowMS"
| "rm_call_ok s _ \<longleftrightarrow> True"

fun rm_step :: "(uint64 \<Rightarrow> uint64 set \<Rightarrow> uint64) \<Rightarrow> 'h request_map \<Rightarrow> 'h rm_call \<Rightarrow> 'h request_map" where
  "rm_step alloc s (RM_Acquire h rid) = snd (rm_Acquire alloc h rid s)"
| "rm_step alloc s (RM_GetAndRelease i) = snd (rm_GetAndRelease i s)"
| "rm_step alloc s (RM_Release i) = rm_Release i s"
| "rm_step alloc s (RM_Tick NowMS) = rm_Tick NowMS s"

fun rm_run :: "(uint64 \<Rightarrow> uint64 set \<Rightarrow> uint64) \<Rightarrow> 'h request_map \<Rightarrow> 'h rm_call list \<Rightarrow> 'h request_map" where
  "rm_run alloc s [] = s"
| "rm_run alloc s (c # cs) = rm_run alloc (rm_step alloc s c) cs"

fun rm_run_ok :: "(uint64 \<Rightarrow> uint64 set \<Rightarrow> uint64) \<Rightarrow> 'h request_map \<Rightarrow> 'h rm_call list \<Rightarrow> bool" where
  "rm_run_ok alloc s [] \<longleftrightarrow> True"
| "rm_run_ok alloc s (c # cs) \<longleftrightarrow> rm_call_ok s c \<and> rm_run_ok alloc (rm_step alloc s c) cs"

definition rm_alloc_ok :: "(uint64 \<Rightarrow> uint64 set \<Rightarrow> uint64) \<Rightarrow> bool" where
  "rm_alloc_ok alloc \<longleftrightarrow> (\<forall>n. storage_ok (alloc n))"

lemma rm_inv_GetAndRelease: "rm_inv s \<Longrightarrow> rm_inv (snd (rm_GetAndRelease i s))"
  by (auto simp: rm_GetAndRelease_def rm_inv_drop split: option.splits)

lemma rm_inv_step:
  assumes "rm_alloc_ok alloc" and "rm_inv s" and "rm_call_ok s c"
  shows "rm_inv (rm_step alloc s c)"
proof (cases c)
  case (RM_Acquire h rid)
  then show ?thesis
    using assms(1) rm_inv_Acquire [OF assms(2), of alloc h rid]
    by (cases "rm_Acquire alloc h rid s") (auto simp: rm_alloc_ok_def)
qed (use assms in \<open>auto simp: rm_inv_GetAndRelease rm_inv_Tick rm_Release_def intro: rm_inv_drop\<close>)

lemma rm_inv_run: "rm_alloc_ok alloc \<Longrightarrow> rm_inv s \<Longrightarrow> rm_run_ok alloc s cs \<Longrightarrow> rm_inv (rm_run alloc s cs)"
  by (induction cs arbitrary: s) (auto intro: rm_inv_step)

text \<open>A call that neither answers the request nor lets it expire leaves it as it is.\<close>

fun rm_keeps :: "uint64 \<Rightarrow> uint64 \<Rightarrow> uint64 \<Rightarrow> 'h rm_call \<Rightarrow> bool" where
  "rm_keeps i t T (RM_GetAndRelease j) \<longleftrightarrow> j \<noteq> i"
| "rm_keeps i t T (RM_Release j) \<longleftrightarrow> j \<noteq> i"
| "rm_keeps i t T (RM_Tick NowMS) \<longleftrightarrow> NowMS - T < t"
| "rm_keeps i t T _ \<longleftrightarrow> True"

lemma rm_step_timeout [simp]:
  "rm_inv s \<Longrightarrow> rm_call_ok s c \<Longrightarrow> rm_RequestTimeoutMS (rm_step alloc s c) = rm_RequestTimeoutMS s"
  by (cases c) (auto simp: rm_Acquire_def rm_GetAndRelease_def rm_Release_def rm_Tick_pool Let_def
      split: option.splits)

lemma rm_step_keeps:
  assumes "rm_alloc_ok alloc" and "rm_inv s" and "rm_call_ok s c" and "rm_pool s i = Some R"
    and "rm_keeps i (sr_SourceRequestTimestampMS R) (rm_RequestTimeoutMS s) c"
  shows "rm_pool (rm_step alloc s c) i = Some R"
proof (cases c)
  case (RM_Acquire h rid)
  have "storage_ok (alloc (rm_capacity s))"
    using assms(1) by (simp add: rm_alloc_ok_def)
  with RM_Acquire assms(4) show ?thesis
    using storage_okD [of "alloc (rm_capacity s)" "rm_pool s"]
    by (auto simp: rm_Acquire_def Let_def)
next
  case (RM_Tick NowMS)
  with assms show ?thesis
    by (simp add: rm_Tick_pool) (simp add: rm_stamp_def not_le)
qed (use assms in \<open>auto simp: rm_GetAndRelease_def rm_Release_def split: option.splits\<close>)

lemma rm_run_keeps:
  "rm_alloc_ok alloc \<Longrightarrow> rm_inv s \<Longrightarrow> rm_run_ok alloc s cs \<Longrightarrow> rm_pool s i = Some R \<Longrightarrow>
   list_all (rm_keeps i (sr_SourceRequestTimestampMS R) (rm_RequestTimeoutMS s)) cs \<Longrightarrow>
   rm_pool (rm_run alloc s cs) i = Some R"
  by (induction cs arbitrary: s) (auto simp: rm_inv_step rm_step_keeps)

section \<open>Properties\<close>

text \<open>
  C25: responses are correlated with their requests. The identifier that \<open>Acquire\<close> returned gives
  the source connection and source request it was acquired for, after any calls that neither
  answer it nor let its time run out, and it does so once: asked a second time, the map knows
  nothing.
\<close>

theorem request_map_correlation:
  assumes "rm_alloc_ok alloc" and "rm_inv s" and "rm_Acquire alloc h rid s = (i, s1)" and "i \<noteq> 0"
    and "rm_run_ok alloc s1 cs"
    and "list_all (rm_keeps i (rm_LocalTicker s) (rm_RequestTimeoutMS s)) cs"
  shows "\<exists>R s2. rm_GetAndRelease i (rm_run alloc s1 cs) = (Some R, s2) \<and>
    sr_SourceHandle R = h \<and> sr_SourceRequestId R = rid \<and>
    rm_GetAndRelease i s2 = (None, s2) \<and> rm_inv s2"
proof -
  define R where "R = \<lparr>sr_SourceHandle = h, sr_SourceRequestId = rid,
    sr_SourceRequestTimestampMS = rm_LocalTicker s, sr_RequestId = i\<rparr>"
  have R: "rm_pool s1 i = Some R" and T: "rm_RequestTimeoutMS s1 = rm_RequestTimeoutMS s"
    using assms(3,4) by (auto simp: rm_Acquire_def R_def Let_def split: if_splits)
  have inv1: "rm_inv s1"
    using assms(1-3) by (auto simp: rm_alloc_ok_def intro: rm_inv_Acquire)
  have Rr: "rm_pool (rm_run alloc s1 cs) i = Some R"
    using assms(1,5,6) inv1 R T by (intro rm_run_keeps) (auto simp: R_def)
  have "rm_inv (rm_drop i (rm_run alloc s1 cs))"
    using rm_inv_run [OF assms(1) inv1 assms(5)] Rr by (rule rm_inv_drop)
  with Rr show ?thesis
    by (auto simp: rm_GetAndRelease_def R_def)
qed

lemma request_map_correlation_witness:
  "\<exists>R s2. rm_GetAndRelease 1 (rm_run (\<lambda>_. two_slot_alloc)
      (snd (rm_Acquire (\<lambda>_. two_slot_alloc) ''conn'' 77
        (fresh_request_map\<lparr>rm_LocalTicker := 5000, rm_RequestTimeoutMS := 1000\<rparr>)))
      [RM_Acquire ''other'' 78, RM_Tick 5900, RM_GetAndRelease 2]) = (Some R, s2) \<and>
    sr_SourceHandle R = ''conn'' \<and> sr_SourceRequestId R = 77 \<and>
    rm_GetAndRelease 1 s2 = (None, s2) \<and> rm_inv s2"
proof (rule request_map_correlation)
  show "rm_alloc_ok (\<lambda>_. two_slot_alloc)"
    by (simp add: rm_alloc_ok_def two_slot_alloc_ok)
  show "rm_inv (fresh_request_map\<lparr>rm_LocalTicker := 5000, rm_RequestTimeoutMS := 1000\<rparr>)"
    by (simp add: rm_inv_def fresh_request_map_def)
qed (simp_all add: rm_Acquire_def two_slot_alloc_def fresh_request_map_def)

text \<open>
  Expiry is exact. Under a clock that does not go back, the loop of \<open>Tick\<close> ends, and the
  requests that remain are those younger than the time-out, unchanged; the audit counter is the
  number of the remaining ones.
\<close>

theorem request_map_expiry:
  assumes "rm_inv s" and "rm_LocalTicker s \<le> NowMS"
  shows "pop_loop_run rm_queue (\<lambda>q s. s\<lparr>rm_queue := q\<rparr>)
      (rm_expired (NowMS - rm_RequestTimeoutMS s)) rm_drop (s\<lparr>rm_LocalTicker := NowMS\<rparr>)
      = Some (rm_Tick NowMS s) \<and>
    rm_pool (rm_Tick NowMS s) =
      (\<lambda>i. if rm_stamp s i \<le> NowMS - rm_RequestTimeoutMS s then None else rm_pool s i) \<and>
    rm_total (rm_Tick NowMS s) = count_live (rm_pool (rm_Tick NowMS s))"
proof (intro conjI)
  have "distinct (rm_queue (s\<lparr>rm_LocalTicker := NowMS\<rparr>))"
    using assms(1) by (simp add: rm_inv_def)
  from rm_expiry.loop_is_drain [OF this]
  show "pop_loop_run rm_queue (\<lambda>q s. s\<lparr>rm_queue := q\<rparr>)
      (rm_expired (NowMS - rm_RequestTimeoutMS s)) rm_drop (s\<lparr>rm_LocalTicker := NowMS\<rparr>)
      = Some (rm_Tick NowMS s)"
    by (simp add: rm_Tick_def Let_def)
  show "rm_pool (rm_Tick NowMS s) =
      (\<lambda>i. if rm_stamp s i \<le> NowMS - rm_RequestTimeoutMS s then None else rm_pool s i)"
    by (simp add: fun_eq_iff rm_Tick_pool(1) [OF assms])
  show "rm_total (rm_Tick NowMS s) = count_live (rm_pool (rm_Tick NowMS s))"
    using rm_inv_Tick [OF assms] by (simp add: rm_inv_def)
qed

lemma request_map_expiry_witness:
  "rm_pool (rm_Tick 2000 (snd (rm_Acquire (\<lambda>_. two_slot_alloc) () 9
      (fresh_request_map\<lparr>rm_LocalTicker := 500, rm_RequestTimeoutMS := 1000\<rparr>)))) 1 = None"
proof -
  let ?s = "snd (rm_Acquire (\<lambda>_. two_slot_alloc) () 9
      (fresh_request_map\<lparr>rm_LocalTicker := 500, rm_RequestTimeoutMS := 1000\<rparr>))"
  have "rm_inv (fresh_request_map\<lparr>rm_LocalTicker := 500, rm_RequestTimeoutMS := 1000\<rparr>)"
    by (simp add: rm_inv_def fresh_request_map_def)
  then have "rm_inv ?s"
    by (rule rm_inv_Acquire [of _ "\<lambda>_. two_slot_alloc" "()" 9 1])
       (simp_all add: two_slot_alloc_ok rm_Acquire_def two_slot_alloc_def fresh_request_map_def)
  from request_map_expiry [OF this, of 2000] show ?thesis
    by (simp add: rm_Acquire_def two_slot_alloc_def fresh_request_map_def rm_stamp_def)
qed

text \<open>
  The number of requests the map is asked to hold has no effect. \<open>Init\<close> gives the storage
  the (clamped) time-out in milliseconds as its size, so any two values of \<open>MaxRequest\<close> lead to
  the same state.
\<close>

theorem request_map_capacity:
  "rm_Init pool_init NowMS MaxRequest T s = rm_Init pool_init NowMS MaxRequest' T s \<and>
   rm_capacity (snd (rm_Init (\<lambda>_. True) NowMS MaxRequest T s)) = min (max 100 T) 600000 \<and>
   rm_RequestTimeoutMS (snd (rm_Init (\<lambda>_. True) NowMS MaxRequest T s)) = min (max 100 T) 600000"
  by (simp add: rm_Init_def Let_def MIN_REQUEST_TIMEOUT_def MAX_REQUEST_TIMEOUT_def)

end
