(* ===== verification/Local_Device.thy ===== *)
theory Local_Device
  imports PP_Future
begin

text \<open>
  \<open>lib_component/local_device/local_device_manager\<close>: the devices of a machine, found by the
  address they export, and the connections and UDP channels opened on them, which are linked in
  an idle list or in a kill list. The two kinds of objects have the same fields and the same
  code: \<open>local_objects\<close> is one storage with its two lists, and the operations on it are used for
  both. \<open>assert\<close> is a parameter of the operations that use it: with \<open>debug\<close> an assertion that
  fails stops the program (\<open>None\<close>), without it is not there.
\<close>

section \<open>State\<close>

record xLocalDeviceBinding =
  lb_BindAddress :: xNetAddress
  lb_ExportAddress :: xNetAddress

record xLocalDevice =
  lv_Index :: uint64
  lv_BindingInfo :: xLocalDeviceBinding

record xLocalDeviceObject =
  lo_LocalId :: uint64
  lo_KeepAliveTimestamp :: uint64
  lo_KillMark :: bool

record local_objects =
  lo_Pool :: "uint64 \<Rightarrow> xLocalDeviceObject option"
  lo_IdleList :: "uint64 list"
  lo_KillList :: "uint64 list"

record xLocalDeviceManager =
  lm_LocalTicker :: uint64
  lm_LocalDeviceList :: "xLocalDevice list"
  lm_Ipv4ToDeviceIndex :: "bytes \<Rightarrow> uint64 option"
  lm_Ipv6ToDeviceIndex :: "bytes \<Rightarrow> uint64 option"
  lm_Connections :: local_objects
  lm_UdpChannels :: local_objects

definition no_objects :: local_objects where
  "no_objects = \<lparr>lo_Pool = Map.empty, lo_IdleList = [], lo_KillList = []\<rparr>"

definition new_local_manager :: "uint64 \<Rightarrow> xLocalDeviceManager" where
  "new_local_manager Now =
     \<lparr>lm_LocalTicker = Now, lm_LocalDeviceList = [], lm_Ipv4ToDeviceIndex = Map.empty,
      lm_Ipv6ToDeviceIndex = Map.empty, lm_Connections = no_objects, lm_UdpChannels = no_objects\<rparr>"

definition TARGET_CONNECTION_IDLE_TIMEOUT_MS :: uint64 where "TARGET_CONNECTION_IDLE_TIMEOUT_MS = 125000"
definition TARGET_UDPCHANNEL_IDLE_TIMEOUT_MS :: uint64 where "TARGET_UDPCHANNEL_IDLE_TIMEOUT_MS = 125000"

section \<open>Devices\<close>

definition same_type :: "xNetAddress \<Rightarrow> xNetAddress \<Rightarrow> bool" where
  "same_type a b \<longleftrightarrow> Is4 a = Is4 b \<and> Is6 a = Is6 b"

definition binding_ok :: "xLocalDeviceBinding \<Rightarrow> bool" where
  "binding_ok B \<longleftrightarrow>
     same_type (lb_BindAddress B) (lb_ExportAddress B) \<and>
     addr_ok (lb_BindAddress B) \<and> na_port (lb_BindAddress B) = 0 \<and>
     addr_ok (lb_ExportAddress B) \<and> na_port (lb_ExportAddress B) = 0"

text \<open>The body of the loop of \<open>Init\<close>; a runtime assertion that fails is fatal in every build.\<close>

definition add_device :: "uint64 \<Rightarrow> xLocalDeviceBinding \<Rightarrow> xLocalDeviceManager \<Rightarrow> xLocalDeviceManager option" where
  "add_device IndexCounter B s =
     (let D = \<lparr>lv_Index = IndexCounter, lv_BindingInfo = B\<rparr> in
      if \<not> binding_ok B then None
      else case na_ip (lb_ExportAddress B) of
        IPV4 Key \<Rightarrow>
          if lm_Ipv4ToDeviceIndex s Key \<noteq> None then None
          else Some (s\<lparr>lm_Ipv4ToDeviceIndex := (lm_Ipv4ToDeviceIndex s)(Key \<mapsto> IndexCounter),
                       lm_LocalDeviceList := lm_LocalDeviceList s @ [D]\<rparr>)
      | IPV6 Key \<Rightarrow>
          if lm_Ipv6ToDeviceIndex s Key \<noteq> None then None
          else Some (s\<lparr>lm_Ipv6ToDeviceIndex := (lm_Ipv6ToDeviceIndex s)(Key \<mapsto> IndexCounter),
                       lm_LocalDeviceList := lm_LocalDeviceList s @ [D]\<rparr>)
      | UNKNOWN \<Rightarrow> None)"

fun add_devices ::
    "uint64 \<Rightarrow> xLocalDeviceBinding list \<Rightarrow> xLocalDeviceManager \<Rightarrow> xLocalDeviceManager option" where
  "add_devices IndexCounter [] s = Some s"
| "add_devices IndexCounter (B # Bs) s =
     (let IndexCounter = IndexCounter + 1 in
      case add_device IndexCounter B s of
        None \<Rightarrow> None
      | Some s \<Rightarrow> add_devices IndexCounter Bs s)"

definition local_Init ::
    "bool \<Rightarrow> bool \<Rightarrow> bool \<Rightarrow> xLocalDeviceBinding list \<Rightarrow> xLocalDeviceManager \<Rightarrow>
     (bool \<times> xLocalDeviceManager) option" where
  "local_Init debug connections_ok channels_ok LocalDeviceBindingList s =
     (if debug \<and> (lm_LocalDeviceList s \<noteq> [] \<or> dom (lm_Ipv4ToDeviceIndex s) \<noteq> {} \<or>
                  dom (lm_Ipv6ToDeviceIndex s) \<noteq> {}) then None
      else if \<not> connections_ok then Some (False, s)
      else if \<not> channels_ok then Some (False, s)
      else map_option (\<lambda>s. (True, s)) (add_devices 0 LocalDeviceBindingList s))"

definition local_Clean :: "xLocalDeviceManager \<Rightarrow> xLocalDeviceManager" where
  "local_Clean s =
     s\<lparr>lm_UdpChannels := no_objects, lm_Connections := no_objects, lm_LocalDeviceList := [],
       lm_Ipv4ToDeviceIndex := Map.empty, lm_Ipv6ToDeviceIndex := Map.empty\<rparr>"

definition FindDeviceIndexByExportAddress ::
    "bool \<Rightarrow> xLocalDeviceManager \<Rightarrow> xNetAddress \<Rightarrow> uint64 option" where
  "FindDeviceIndexByExportAddress debug s Address =
     (if debug \<and> na_port Address \<noteq> 0 then None
      else case na_ip Address of
        IPV4 Key \<Rightarrow> (case lm_Ipv4ToDeviceIndex s Key of None \<Rightarrow> Some 0 | Some i \<Rightarrow> Some i)
      | IPV6 Key \<Rightarrow> (case lm_Ipv6ToDeviceIndex s Key of None \<Rightarrow> Some 0 | Some i \<Rightarrow> Some i)
      | UNKNOWN \<Rightarrow> Some 0)"

section \<open>Idle objects and objects to kill\<close>

definition obj_KeepAlive :: "uint64 \<Rightarrow> uint64 \<Rightarrow> local_objects \<Rightarrow> local_objects" where
  "obj_KeepAlive Now i os =
     (case lo_Pool os i of
        None \<Rightarrow> os
      | Some Object \<Rightarrow>
          if lo_KillMark Object then os
          else os\<lparr>lo_Pool := (lo_Pool os)(i \<mapsto> Object\<lparr>lo_KeepAliveTimestamp := Now\<rparr>),
                  lo_IdleList := grab_tail (lo_IdleList os) i,
                  lo_KillList := removeAll i (lo_KillList os)\<rparr>)"

definition obj_DeferKill :: "uint64 \<Rightarrow> local_objects \<Rightarrow> local_objects" where
  "obj_DeferKill i os =
     (case lo_Pool os i of
        None \<Rightarrow> os
      | Some Object \<Rightarrow>
          if lo_KillMark Object then os
          else os\<lparr>lo_Pool := (lo_Pool os)(i \<mapsto> Object\<lparr>lo_KillMark := True\<rparr>),
                  lo_IdleList := removeAll i (lo_IdleList os),
                  lo_KillList := grab_tail (lo_KillList os) i\<rparr>)"

text \<open>The condition of \<open>PopHead\<close> on the head, and the loop that moves it to the kill list.\<close>

definition obj_idle_before :: "uint64 \<Rightarrow> local_objects \<Rightarrow> uint64 \<Rightarrow> bool" where
  "obj_idle_before KillTimepoint os i =
     (case lo_Pool os i of None \<Rightarrow> False | Some C \<Rightarrow> lo_KeepAliveTimestamp C \<le> KillTimepoint)"

definition set_idle :: "uint64 list \<Rightarrow> local_objects \<Rightarrow> local_objects" where
  "set_idle q os = os\<lparr>lo_IdleList := q\<rparr>"

definition add_kill :: "uint64 \<Rightarrow> local_objects \<Rightarrow> local_objects" where
  "add_kill i os = os\<lparr>lo_KillList := add_tail (lo_KillList os) i\<rparr>"

definition obj_ProcessIdle :: "uint64 \<Rightarrow> local_objects \<Rightarrow> local_objects option" where
  "obj_ProcessIdle KillTimepoint =
     pop_loop_run lo_IdleList set_idle (obj_idle_before KillTimepoint) add_kill"

text \<open>Every popped object is cleaned and released by the identifier it carries.\<close>

fun release_killed :: "bool \<Rightarrow> uint64 list \<Rightarrow> local_objects \<Rightarrow> local_objects option" where
  "release_killed debug [] os = Some (os\<lparr>lo_KillList := []\<rparr>)"
| "release_killed debug (i # q) os =
     (case lo_Pool os i of
        None \<Rightarrow> None
      | Some N \<Rightarrow>
          if debug \<and> \<not> lo_KillMark N then None
          else release_killed debug q
            (os\<lparr>lo_Pool := (lo_Pool os)(lo_LocalId N := None), lo_KillList := q\<rparr>))"

definition obj_PerformKill :: "bool \<Rightarrow> local_objects \<Rightarrow> local_objects option" where
  "obj_PerformKill debug os = release_killed debug (lo_KillList os) os"

section \<open>The manager\<close>

definition KeepAlive_Connection :: "uint64 \<Rightarrow> xLocalDeviceManager \<Rightarrow> xLocalDeviceManager" where
  "KeepAlive_Connection i s = s\<lparr>lm_Connections := obj_KeepAlive (lm_LocalTicker s) i (lm_Connections s)\<rparr>"

definition KeepAlive_UdpChannel :: "uint64 \<Rightarrow> xLocalDeviceManager \<Rightarrow> xLocalDeviceManager" where
  "KeepAlive_UdpChannel i s = s\<lparr>lm_UdpChannels := obj_KeepAlive (lm_LocalTicker s) i (lm_UdpChannels s)\<rparr>"

definition DeferKill_Connection :: "uint64 \<Rightarrow> xLocalDeviceManager \<Rightarrow> xLocalDeviceManager" where
  "DeferKill_Connection i s = s\<lparr>lm_Connections := obj_DeferKill i (lm_Connections s)\<rparr>"

definition DeferKill_UdpChannel :: "uint64 \<Rightarrow> xLocalDeviceManager \<Rightarrow> xLocalDeviceManager" where
  "DeferKill_UdpChannel i s = s\<lparr>lm_UdpChannels := obj_DeferKill i (lm_UdpChannels s)\<rparr>"

definition ProcessIdleConnections :: "xLocalDeviceManager \<Rightarrow> xLocalDeviceManager option" where
  "ProcessIdleConnections s =
     map_option (\<lambda>os. s\<lparr>lm_Connections := os\<rparr>)
       (obj_ProcessIdle (lm_LocalTicker s - TARGET_CONNECTION_IDLE_TIMEOUT_MS) (lm_Connections s))"

definition ProcessIdleUdpChannelConnections :: "xLocalDeviceManager \<Rightarrow> xLocalDeviceManager option" where
  "ProcessIdleUdpChannelConnections s =
     map_option (\<lambda>os. s\<lparr>lm_UdpChannels := os\<rparr>)
       (obj_ProcessIdle (lm_LocalTicker s - TARGET_UDPCHANNEL_IDLE_TIMEOUT_MS) (lm_UdpChannels s))"

definition PerformKillConnections :: "bool \<Rightarrow> xLocalDeviceManager \<Rightarrow> xLocalDeviceManager option" where
  "PerformKillConnections debug s =
     map_option (\<lambda>os. s\<lparr>lm_Connections := os\<rparr>) (obj_PerformKill debug (lm_Connections s))"

definition PerformKillUdpChannels :: "bool \<Rightarrow> xLocalDeviceManager \<Rightarrow> xLocalDeviceManager option" where
  "PerformKillUdpChannels debug s =
     map_option (\<lambda>os. s\<lparr>lm_UdpChannels := os\<rparr>) (obj_PerformKill debug (lm_UdpChannels s))"

definition local_Tick :: "bool \<Rightarrow> uint64 \<Rightarrow> xLocalDeviceManager \<Rightarrow> xLocalDeviceManager option" where
  "local_Tick debug NowMS s =
     Option.bind (ProcessIdleConnections (s\<lparr>lm_LocalTicker := NowMS\<rparr>)) (\<lambda>s.
     Option.bind (ProcessIdleUdpChannelConnections s) (\<lambda>s.
     Option.bind (PerformKillConnections debug s)
       (PerformKillUdpChannels debug)))"

text \<open>
  The operations of the interface: the futures are completed without a result, and the others do
  nothing.
\<close>

definition local_CreateConnection_address ::
    "uint64 \<Rightarrow> uint64 \<Rightarrow> xNetAddress \<Rightarrow> uint64 \<Rightarrow> ('o, uint64) future_manager \<Rightarrow> ('o, uint64) future_manager" where
  "local_CreateConnection_address SourceContextId DeviceId TargetAddress Future fm = SetReady Future fm"

definition local_CreateConnection_host ::
    "uint64 \<Rightarrow> uint64 \<Rightarrow> bytes \<Rightarrow> uint64 \<Rightarrow> ('o, uint64) future_manager \<Rightarrow> ('o, uint64) future_manager" where
  "local_CreateConnection_host SourceContextId DeviceId TargetHost Future fm = SetReady Future fm"

definition local_CreateUdpChannel ::
    "uint64 \<Rightarrow> uint64 \<Rightarrow> uint64 \<Rightarrow> ('o, uint64) future_manager \<Rightarrow> ('o, uint64) future_manager" where
  "local_CreateUdpChannel SourceContextId DeviceId Future fm = SetReady Future fm"

section \<open>Lemmas: devices\<close>

text \<open>A family and an address name a device at most once; the counter starts after the devices so far.\<close>

lemma add_device_cases:
  assumes "add_device n B s = Some t"
  shows "FindDeviceIndexByExportAddress False t a =
      (if na_ip a = na_ip (lb_ExportAddress B) then Some n else FindDeviceIndexByExportAddress False s a)"
    and "lm_LocalDeviceList t = lm_LocalDeviceList s @ [\<lparr>lv_Index = n, lv_BindingInfo = B\<rparr>]"
  using assms
  by (auto simp: add_device_def FindDeviceIndexByExportAddress_def Let_def
      split: xNetIp.splits if_splits option.splits)

lemma add_device_new:
  assumes "add_device n B s = Some t"
  shows "FindDeviceIndexByExportAddress False s (lb_ExportAddress B) = Some 0"
  using assms
  by (auto simp: add_device_def FindDeviceIndexByExportAddress_def Let_def
      split: xNetIp.splits if_splits option.splits)

text \<open>The devices listed by the exported address: the list gives the answers of the two maps.\<close>

definition export_index :: "xLocalDevice list \<Rightarrow> (xNetIp \<times> uint64) list" where
  "export_index Ds = List.map (\<lambda>D. (na_ip (lb_ExportAddress (lv_BindingInfo D)), lv_Index D)) Ds"

definition found_by_list :: "xLocalDeviceManager \<Rightarrow> bool" where
  "found_by_list s \<longleftrightarrow> (\<forall>a. FindDeviceIndexByExportAddress False s a =
     Some (case map_of (export_index (lm_LocalDeviceList s)) (na_ip a) of None \<Rightarrow> 0 | Some i \<Rightarrow> i))"

lemma found_by_listD:
  "found_by_list s \<Longrightarrow> FindDeviceIndexByExportAddress False s a =
     Some (case map_of (export_index (lm_LocalDeviceList s)) (na_ip a) of None \<Rightarrow> 0 | Some i \<Rightarrow> i)"
  by (simp add: found_by_list_def)

lemma export_index_append: "export_index (Ds @ Es) = export_index Ds @ export_index Es"
  by (simp add: export_index_def)

text \<open>The invariant of the loop: indices are the positions, and no address occurs twice.\<close>

definition devices_inv :: "xLocalDeviceManager \<Rightarrow> bool" where
  "devices_inv s \<longleftrightarrow>
     found_by_list s \<and>
     distinct (List.map fst (export_index (lm_LocalDeviceList s))) \<and>
     List.map lv_Index (lm_LocalDeviceList s) =
       List.map (\<lambda>k. of_nat (Suc k)) [0..<length (lm_LocalDeviceList s)]"

lemma devices_inv_found: "devices_inv s \<Longrightarrow> found_by_list s"
  by (simp add: devices_inv_def)

lemma index_positive: "k < n \<Longrightarrow> n < 2 ^ 64 \<Longrightarrow> (of_nat (Suc k) :: uint64) \<noteq> 0"
  using of_nat_64_eq_0 [of "Suc k"] by simp

lemma devices_index_positive:
  assumes "devices_inv s" and "length (lm_LocalDeviceList s) < 2 ^ 64"
    and "map_of (export_index (lm_LocalDeviceList s)) ip = Some i"
  shows "i \<noteq> 0"
proof -
  from map_of_SomeD [OF assms(3)] have "i \<in> set (List.map lv_Index (lm_LocalDeviceList s))"
    by (auto simp: export_index_def)
  with assms(1) obtain k where "k < length (lm_LocalDeviceList s)" and "i = of_nat (Suc k)"
    unfolding devices_inv_def by auto
  with index_positive [OF _ assms(2)] show ?thesis
    by simp
qed

lemma add_device_devices_inv:
  assumes "devices_inv s" and "length (lm_LocalDeviceList s) < 2 ^ 64 - 1"
    and "add_device (of_nat (Suc (length (lm_LocalDeviceList s)))) B s = Some t"
  shows "devices_inv t"
proof -
  let ?ip = "na_ip (lb_ExportAddress B)" and ?n = "of_nat (Suc (length (lm_LocalDeviceList s))) :: uint64"
  let ?ix = "export_index (lm_LocalDeviceList s)"
  note list = add_device_cases(2) [OF assms(3)]
  have none: "map_of ?ix ?ip = None"
  proof (rule ccontr)
    assume "map_of ?ix ?ip \<noteq> None"
    then obtain i where i: "map_of ?ix ?ip = Some i" by auto
    with found_by_listD [OF devices_inv_found [OF assms(1)], of "lb_ExportAddress B"]
      add_device_new [OF assms(3)] have "i = 0"
      by simp
    with devices_index_positive [OF assms(1) _ i] assms(2) show False by simp
  qed
  have ix: "export_index (lm_LocalDeviceList t) = ?ix @ [(?ip, ?n)]"
    by (simp add: list export_index_def)
  have "found_by_list t"
    unfolding found_by_list_def
  proof
    fix a
    show "FindDeviceIndexByExportAddress False t a =
      Some (case map_of (export_index (lm_LocalDeviceList t)) (na_ip a) of None \<Rightarrow> 0 | Some i \<Rightarrow> i)"
      using add_device_cases(1) [OF assms(3), of a] none
        found_by_listD [OF devices_inv_found [OF assms(1)], of a]
      by (simp add: ix map_add_def split: option.split)
  qed
  moreover have "distinct (List.map fst (export_index (lm_LocalDeviceList t)))"
    using assms(1) none by (auto simp: ix devices_inv_def map_of_eq_None_iff)
  moreover have "List.map lv_Index (lm_LocalDeviceList t) =
      List.map (\<lambda>k. of_nat (Suc k)) [0..<length (lm_LocalDeviceList t)]"
    using assms(1) by (simp add: list devices_inv_def)
  ultimately show ?thesis
    by (simp add: devices_inv_def)
qed

lemma add_devices_inv:
  assumes "add_devices (of_nat (length (lm_LocalDeviceList s))) Bs s = Some t" and "devices_inv s"
    and "length (lm_LocalDeviceList s) + length Bs < 2 ^ 64"
  shows "devices_inv t \<and>
    List.map lv_BindingInfo (lm_LocalDeviceList t) = List.map lv_BindingInfo (lm_LocalDeviceList s) @ Bs"
  using assms
proof (induction Bs arbitrary: s)
  case (Cons B Bs)
  let ?n = "of_nat (length (lm_LocalDeviceList s)) + 1 :: uint64"
  from Cons.prems(1) obtain u where u: "add_device ?n B s = Some u" and t: "add_devices ?n Bs u = Some t"
    by (auto simp: Let_def split: option.splits)
  note list = add_device_cases(2) [OF u]
  have n: "?n = of_nat (Suc (length (lm_LocalDeviceList s)))"
    by simp
  have "devices_inv u"
    using add_device_devices_inv [OF Cons.prems(2)] u Cons.prems(3) unfolding n by simp
  moreover have "add_devices (of_nat (length (lm_LocalDeviceList u))) Bs u = Some t"
    using t by (simp add: list add.commute)
  ultimately show ?case
    using Cons.IH [of u] Cons.prems(3) by (simp add: list)
qed simp

lemma devices_inv_nth:
  assumes "devices_inv s" and "k < length (lm_LocalDeviceList s)"
  shows "map_of (export_index (lm_LocalDeviceList s))
      (na_ip (lb_ExportAddress (lv_BindingInfo (lm_LocalDeviceList s ! k)))) = Some (of_nat (Suc k))"
proof -
  have ix: "List.map lv_Index (lm_LocalDeviceList s) =
      List.map (\<lambda>k. of_nat (Suc k)) [0..<length (lm_LocalDeviceList s)]"
    and d: "distinct (List.map fst (export_index (lm_LocalDeviceList s)))"
    using assms(1) by (simp_all only: devices_inv_def)
  have "List.map lv_Index (lm_LocalDeviceList s) ! k = of_nat (Suc k)"
    unfolding ix using assms(2) by simp
  then have "lv_Index (lm_LocalDeviceList s ! k) = of_nat (Suc k)"
    using assms(2) by simp
  then have "(na_ip (lb_ExportAddress (lv_BindingInfo (lm_LocalDeviceList s ! k))), of_nat (Suc k))
      \<in> set (export_index (lm_LocalDeviceList s))"
    using assms(2) nth_mem [OF assms(2)] by (force simp: export_index_def)
  with d show ?thesis
    by (rule map_of_is_SomeI)
qed

lemma devices_inv_new [simp]: "devices_inv (new_local_manager Now)"
  by (auto simp: devices_inv_def found_by_list_def new_local_manager_def export_index_def
      FindDeviceIndexByExportAddress_def split: xNetIp.split)

section \<open>Lemmas: idle objects and objects to kill\<close>

text \<open>
  Linked objects are live and carry their identifier, in the kill list exactly those that are
  marked, and the idle list is in the order of the time stamps.
\<close>

definition obj_stamp :: "local_objects \<Rightarrow> uint64 \<Rightarrow> uint64" where
  "obj_stamp os i = (case lo_Pool os i of None \<Rightarrow> 0 | Some C \<Rightarrow> lo_KeepAliveTimestamp C)"

definition objects_inv :: "uint64 \<Rightarrow> local_objects \<Rightarrow> bool" where
  "objects_inv Now os \<longleftrightarrow>
     distinct (lo_IdleList os) \<and> distinct (lo_KillList os) \<and>
     (\<forall>i C. lo_Pool os i = Some C \<longrightarrow> lo_LocalId C = i) \<and>
     (\<forall>i \<in> set (lo_IdleList os). \<exists>C. lo_Pool os i = Some C \<and> \<not> lo_KillMark C) \<and>
     (\<forall>i \<in> set (lo_KillList os). \<exists>C. lo_Pool os i = Some C \<and> lo_KillMark C) \<and>
     sorted (List.map (obj_stamp os) (lo_IdleList os)) \<and>
     (\<forall>i \<in> set (lo_IdleList os). obj_stamp os i \<le> Now)"

lemma idle_unmarked:
  "objects_inv Now os \<Longrightarrow> i \<in> set (lo_IdleList os) \<Longrightarrow> \<exists>C. lo_Pool os i = Some C \<and> \<not> lo_KillMark C"
  and kill_marked:
  "objects_inv Now os \<Longrightarrow> i \<in> set (lo_KillList os) \<Longrightarrow> \<exists>C. lo_Pool os i = Some C \<and> lo_KillMark C"
  by (simp_all add: objects_inv_def)

lemma idle_kill_disjoint: "objects_inv Now os \<Longrightarrow> set (lo_IdleList os) \<inter> set (lo_KillList os) = {}"
  using idle_unmarked kill_marked by fastforce

lemma objects_inv_empty [inv_intros]: "objects_inv Now no_objects"
  by (simp add: objects_inv_def no_objects_def)

lemma objects_inv_later [inv_intros]: "objects_inv Now os \<Longrightarrow> Now \<le> Now' \<Longrightarrow> objects_inv Now' os"
  by (fastforce simp: objects_inv_def)

lemma sorted_map_removeAll: "sorted (List.map f xs) \<Longrightarrow> sorted (List.map f (removeAll i xs))"
  by (induction xs) auto

lemma removeAll_id_if: "i \<notin> set xs \<Longrightarrow> removeAll i xs = xs"
  by (rule removeAll_id)

lemma obj_KeepAlive_inv [inv_intros]:
  assumes "objects_inv Now os"
  shows "objects_inv Now (obj_KeepAlive Now i os)"
proof (cases "lo_Pool os i")
  case (Some C)
  show ?thesis
  proof (cases "lo_KillMark C")
    case False
    define t where "t = obj_KeepAlive Now i os"
    have t: "lo_IdleList t = removeAll i (lo_IdleList os) @ [i]"
      "lo_KillList t = removeAll i (lo_KillList os)"
      "lo_Pool t = (lo_Pool os)(i \<mapsto> C\<lparr>lo_KeepAliveTimestamp := Now\<rparr>)"
      using Some False by (simp_all add: t_def obj_KeepAlive_def grab_tail_def)
    have stamp: "obj_stamp t j = (if j = i then Now else obj_stamp os j)" for j
      by (simp add: obj_stamp_def t(3))
    have same: "List.map (obj_stamp t) (removeAll i (lo_IdleList os)) =
        List.map (obj_stamp os) (removeAll i (lo_IdleList os))"
      by (auto simp: stamp)
    have "sorted (List.map (obj_stamp t) (lo_IdleList t))"
      unfolding t(1) map_append same
      using assms by (auto simp: objects_inv_def sorted_append sorted_map_removeAll stamp)
    moreover have "\<forall>j \<in> set (lo_IdleList t). obj_stamp t j \<le> Now"
      using assms by (auto simp: objects_inv_def stamp t(1))
    ultimately have "objects_inv Now t"
      using assms Some False by (auto simp: objects_inv_def t)
    then show ?thesis by (simp add: t_def)
  qed (use assms Some in \<open>simp add: obj_KeepAlive_def\<close>)
qed (use assms in \<open>simp add: obj_KeepAlive_def\<close>)

lemma obj_DeferKill_inv [inv_intros]:
  assumes "objects_inv Now os"
  shows "objects_inv Now (obj_DeferKill i os)"
proof (cases "lo_Pool os i")
  case (Some C)
  show ?thesis
  proof (cases "lo_KillMark C")
    case False
    let ?os = "os\<lparr>lo_Pool := (lo_Pool os)(i \<mapsto> C\<lparr>lo_KillMark := True\<rparr>),
        lo_IdleList := removeAll i (lo_IdleList os), lo_KillList := grab_tail (lo_KillList os) i\<rparr>"
    have stamp: "obj_stamp ?os = obj_stamp os"
      using Some by (auto simp: obj_stamp_def fun_eq_iff)
    show ?thesis
      using assms Some False
      by (auto simp: objects_inv_def obj_DeferKill_def stamp sorted_map_removeAll)
  qed (use assms Some in \<open>simp add: obj_DeferKill_def\<close>)
qed (use assms in \<open>simp add: obj_DeferKill_def\<close>)

interpretation idle: pop_loop lo_IdleList set_idle "obj_idle_before K" add_kill for K
  by unfold_locales (auto simp: set_idle_def add_kill_def obj_idle_before_def)

lemma fold_add_kill: "fold add_kill xs os = os\<lparr>lo_KillList := lo_KillList os @ xs\<rparr>"
  by (induction xs arbitrary: os) (simp_all add: add_kill_def)

lemma idle_before_stamp:
  "objects_inv Now os \<Longrightarrow> i \<in> set (lo_IdleList os) \<Longrightarrow> obj_idle_before K os i \<longleftrightarrow> obj_stamp os i \<le> K"
  by (fastforce simp: objects_inv_def obj_idle_before_def obj_stamp_def)

text \<open>The loop ends, and moves exactly the objects that have been idle for the time.\<close>

lemma ProcessIdle_spec:
  assumes "objects_inv Now os"
  shows "obj_ProcessIdle K os =
    Some (os\<lparr>lo_IdleList := filter (\<lambda>i. \<not> obj_stamp os i \<le> K) (lo_IdleList os),
             lo_KillList := lo_KillList os @ filter (\<lambda>i. obj_stamp os i \<le> K) (lo_IdleList os)\<rparr>)"
proof -
  let ?q = "lo_IdleList os"
  have "takeWhile (obj_idle_before K os) ?q = takeWhile (\<lambda>i. obj_stamp os i \<le> K) ?q"
    by (rule takeWhile_cong) (simp_all add: idle_before_stamp [OF assms])
  also have "\<dots> = filter (\<lambda>i. obj_stamp os i \<le> K) ?q"
    using assms by (intro takeWhile_sorted_stamps) (simp add: objects_inv_def)
  finally have tw: "takeWhile (obj_idle_before K os) ?q = filter (\<lambda>i. obj_stamp os i \<le> K) ?q" .
  have "dropWhile (obj_idle_before K os) ?q = dropWhile (\<lambda>i. obj_stamp os i \<le> K) ?q"
    by (rule dropWhile_cong) (simp_all add: idle_before_stamp [OF assms])
  also have "\<dots> = filter (\<lambda>i. \<not> obj_stamp os i \<le> K) ?q"
    using assms by (intro dropWhile_sorted_stamps) (simp add: objects_inv_def)
  finally have dw: "dropWhile (obj_idle_before K os) ?q = filter (\<lambda>i. \<not> obj_stamp os i \<le> K) ?q" .
  show ?thesis
    using idle.loop_is_drain [of os K] assms
    by (simp add: obj_ProcessIdle_def objects_inv_def drain_def tw dw fold_add_kill set_idle_def)
qed

lemma release_killed_spec:
  assumes "distinct q" and "\<forall>i \<in> set q. \<exists>C. lo_Pool os i = Some C"
    and "\<forall>i C. lo_Pool os i = Some C \<longrightarrow> lo_LocalId C = i"
  shows "release_killed debug q os =
    (if debug \<and> (\<exists>i \<in> set q. \<forall>C. lo_Pool os i = Some C \<longrightarrow> \<not> lo_KillMark C) then None
     else Some (os\<lparr>lo_Pool := lo_Pool os |` (- set q), lo_KillList := []\<rparr>))"
  using assms
proof (induction q arbitrary: os)
  case (Cons i q)
  from Cons.prems obtain C where C: "lo_Pool os i = Some C" "lo_LocalId C = i"
    by auto
  let ?os = "os\<lparr>lo_Pool := (lo_Pool os)(i := None), lo_KillList := q\<rparr>"
  have pool: "lo_Pool os |` (- insert i (set q)) = ((lo_Pool os)(i := None)) |` (- set q)"
    by (auto simp: restrict_map_def fun_eq_iff)
  have ex: "(\<exists>j \<in> set q. \<forall>D. lo_Pool ?os j = Some D \<longrightarrow> \<not> lo_KillMark D) \<longleftrightarrow>
      (\<exists>j \<in> set q. \<forall>D. lo_Pool os j = Some D \<longrightarrow> \<not> lo_KillMark D)"
    using Cons.prems(1) by (intro bex_cong) auto
  have "release_killed debug q ?os =
    (if debug \<and> (\<exists>j \<in> set q. \<forall>D. lo_Pool ?os j = Some D \<longrightarrow> \<not> lo_KillMark D) then None
     else Some (?os\<lparr>lo_Pool := lo_Pool ?os |` (- set q), lo_KillList := []\<rparr>))"
    using Cons.prems by (intro Cons.IH) auto
  then show ?case
    unfolding ex using C by (cases "lo_KillMark C") (auto simp: pool)
qed (simp add: restrict_map_def)

lemma PerformKill_spec:
  assumes "distinct (lo_KillList os)" and "\<forall>i \<in> set (lo_KillList os). \<exists>C. lo_Pool os i = Some C"
    and "\<forall>i C. lo_Pool os i = Some C \<longrightarrow> lo_LocalId C = i"
  shows "obj_PerformKill debug os =
    (if debug \<and> (\<exists>i \<in> set (lo_KillList os). \<forall>C. lo_Pool os i = Some C \<longrightarrow> \<not> lo_KillMark C) then None
     else Some (os\<lparr>lo_Pool := lo_Pool os |` (- set (lo_KillList os)), lo_KillList := []\<rparr>))"
  using release_killed_spec [OF assms] by (simp add: obj_PerformKill_def)

section \<open>What a tick does\<close>

text \<open>
  The specification of a tick on one kind of objects: those idle until the given time are gone
  with those that were marked, the others stay.
\<close>

definition some_idle :: "uint64 \<Rightarrow> local_objects \<Rightarrow> bool" where
  "some_idle K os \<longleftrightarrow> (\<exists>i \<in> set (lo_IdleList os). obj_stamp os i \<le> K)"

definition killed_spec :: "uint64 \<Rightarrow> local_objects \<Rightarrow> local_objects" where
  "killed_spec K os =
     os\<lparr>lo_Pool := lo_Pool os |` (- (set (lo_KillList os) \<union> {i \<in> set (lo_IdleList os). obj_stamp os i \<le> K})),
        lo_IdleList := filter (\<lambda>i. \<not> obj_stamp os i \<le> K) (lo_IdleList os),
        lo_KillList := []\<rparr>"

lemma objects_tick:
  assumes "objects_inv Now os"
  shows "Option.bind (obj_ProcessIdle K os) (obj_PerformKill debug) =
    (if debug \<and> some_idle K os then None else Some (killed_spec K os))"
proof -
  let ?os = "os\<lparr>lo_IdleList := filter (\<lambda>i. \<not> obj_stamp os i \<le> K) (lo_IdleList os),
      lo_KillList := lo_KillList os @ filter (\<lambda>i. obj_stamp os i \<le> K) (lo_IdleList os)\<rparr>"
  have "set (lo_IdleList os) \<inter> set (lo_KillList os) = {}"
    by (rule idle_kill_disjoint [OF assms])
  then have d: "distinct (lo_KillList ?os)"
    using assms by (auto simp: objects_inv_def)
  have live: "\<forall>i \<in> set (lo_KillList ?os). \<exists>C. lo_Pool ?os i = Some C"
    and ids: "\<forall>i C. lo_Pool ?os i = Some C \<longrightarrow> lo_LocalId C = i"
    using assms by (auto simp: objects_inv_def)
  have "(\<exists>i \<in> set (lo_KillList ?os). \<forall>C. lo_Pool ?os i = Some C \<longrightarrow> \<not> lo_KillMark C) \<longleftrightarrow> some_idle K os"
    unfolding some_idle_def
  proof safe
    fix i assume i: "i \<in> set (lo_KillList ?os)" and no: "\<forall>C. lo_Pool ?os i = Some C \<longrightarrow> \<not> lo_KillMark C"
    then have "i \<notin> set (lo_KillList os)"
      using kill_marked [OF assms] by fastforce
    with i show "\<exists>i \<in> set (lo_IdleList os). obj_stamp os i \<le> K"
      by auto
  next
    fix i assume i: "i \<in> set (lo_IdleList os)" "obj_stamp os i \<le> K"
    then have "\<forall>C. lo_Pool ?os i = Some C \<longrightarrow> \<not> lo_KillMark C"
      using idle_unmarked [OF assms i(1)] by auto
    with i show "\<exists>i \<in> set (lo_KillList ?os). \<forall>C. lo_Pool ?os i = Some C \<longrightarrow> \<not> lo_KillMark C"
      by auto
  qed
  moreover have "set (lo_KillList ?os) = set (lo_KillList os) \<union> {i \<in> set (lo_IdleList os). obj_stamp os i \<le> K}"
    by auto
  ultimately show ?thesis
    using PerformKill_spec [OF d live ids, of debug]
    by (simp add: ProcessIdle_spec [OF assms] killed_spec_def)
qed

lemma killed_spec_inv [inv_intros]:
  assumes "objects_inv Now os"
  shows "objects_inv Now (killed_spec K os)"
proof -
  let ?q = "filter (\<lambda>i. \<not> obj_stamp os i \<le> K) (lo_IdleList os)"
  have left: "lo_Pool (killed_spec K os) i = lo_Pool os i" if "i \<in> set ?q" for i
  proof -
    from that have "i \<notin> set (lo_KillList os)"
      using idle_kill_disjoint [OF assms] by auto
    with that show ?thesis
      by (simp add: killed_spec_def restrict_map_def)
  qed
  have stamp: "obj_stamp (killed_spec K os) i = obj_stamp os i" if "i \<in> set ?q" for i
    by (simp only: obj_stamp_def left [OF that])
  then have same: "List.map (obj_stamp (killed_spec K os)) ?q = List.map (obj_stamp os) ?q"
    by (rule map_cong [OF refl])
  have q: "lo_IdleList (killed_spec K os) = ?q"
    by (simp add: killed_spec_def)
  have "sorted (List.map (obj_stamp (killed_spec K os)) (lo_IdleList (killed_spec K os)))"
    unfolding q same using assms by (auto simp: objects_inv_def sorted_wrt_map intro: sorted_wrt_filter)
  moreover have "\<forall>i \<in> set (lo_IdleList (killed_spec K os)). obj_stamp (killed_spec K os) i \<le> Now"
    using assms stamp by (auto simp: killed_spec_def objects_inv_def)
  moreover have "\<forall>i \<in> set (lo_IdleList (killed_spec K os)). \<exists>C. lo_Pool (killed_spec K os) i = Some C \<and> \<not> lo_KillMark C"
    unfolding q using assms left by (auto simp: objects_inv_def)
  moreover have "distinct (lo_IdleList (killed_spec K os))" "lo_KillList (killed_spec K os) = []"
    using assms by (simp_all add: killed_spec_def objects_inv_def)
  moreover have "\<forall>i C. lo_Pool (killed_spec K os) i = Some C \<longrightarrow> lo_LocalId C = i"
    using assms by (simp add: killed_spec_def objects_inv_def restrict_map_def)
  ultimately show ?thesis
    unfolding objects_inv_def [of _ "killed_spec K os"] by simp
qed

definition local_inv :: "xLocalDeviceManager \<Rightarrow> bool" where
  "local_inv s \<longleftrightarrow>
     objects_inv (lm_LocalTicker s) (lm_Connections s) \<and> objects_inv (lm_LocalTicker s) (lm_UdpChannels s)"

definition tick_spec :: "uint64 \<Rightarrow> xLocalDeviceManager \<Rightarrow> xLocalDeviceManager" where
  "tick_spec Now s =
     s\<lparr>lm_LocalTicker := Now,
       lm_Connections := killed_spec (Now - TARGET_CONNECTION_IDLE_TIMEOUT_MS) (lm_Connections s),
       lm_UdpChannels := killed_spec (Now - TARGET_UDPCHANNEL_IDLE_TIMEOUT_MS) (lm_UdpChannels s)\<rparr>"

definition some_idle_object :: "uint64 \<Rightarrow> xLocalDeviceManager \<Rightarrow> bool" where
  "some_idle_object Now s \<longleftrightarrow>
     some_idle (Now - TARGET_CONNECTION_IDLE_TIMEOUT_MS) (lm_Connections s) \<or>
     some_idle (Now - TARGET_UDPCHANNEL_IDLE_TIMEOUT_MS) (lm_UdpChannels s)"

lemma local_inv_KeepAlive [inv_intros]:
  "local_inv s \<Longrightarrow> local_inv (KeepAlive_Connection i s)"
  "local_inv s \<Longrightarrow> local_inv (KeepAlive_UdpChannel i s)"
  "local_inv s \<Longrightarrow> local_inv (DeferKill_Connection i s)"
  "local_inv s \<Longrightarrow> local_inv (DeferKill_UdpChannel i s)"
  by (simp_all add: local_inv_def KeepAlive_Connection_def KeepAlive_UdpChannel_def
      DeferKill_Connection_def DeferKill_UdpChannel_def inv_intros)

lemma local_inv_new [inv_intros]: "local_inv (new_local_manager Now)" "local_inv (local_Clean s)"
  by (simp_all add: local_inv_def new_local_manager_def local_Clean_def inv_intros)

lemma local_Tick_spec:
  assumes "local_inv s" and "lm_LocalTicker s \<le> Now"
  shows "local_Tick debug Now s = (if debug \<and> some_idle_object Now s then None else Some (tick_spec Now s))"
proof -
  let ?K = "Now - TARGET_CONNECTION_IDLE_TIMEOUT_MS" and ?L = "Now - TARGET_UDPCHANNEL_IDLE_TIMEOUT_MS"
  have inv: "objects_inv Now (lm_Connections s)" "objects_inv Now (lm_UdpChannels s)"
    using assms by (auto simp: local_inv_def intro: objects_inv_later)
  obtain c where c: "obj_ProcessIdle ?K (lm_Connections s) = Some c"
    using ProcessIdle_spec [OF inv(1)] by simp
  obtain u where u: "obj_ProcessIdle ?L (lm_UdpChannels s) = Some u"
    using ProcessIdle_spec [OF inv(2)] by simp
  have "obj_PerformKill debug c = (if debug \<and> some_idle ?K (lm_Connections s) then None
      else Some (killed_spec ?K (lm_Connections s)))"
    using objects_tick [OF inv(1), of ?K debug] by (simp add: c)
  moreover have "obj_PerformKill debug u = (if debug \<and> some_idle ?L (lm_UdpChannels s) then None
      else Some (killed_spec ?L (lm_UdpChannels s)))"
    using objects_tick [OF inv(2), of ?L debug] by (simp add: u)
  ultimately show ?thesis
    by (cases debug) (simp_all add: local_Tick_def ProcessIdleConnections_def ProcessIdleUdpChannelConnections_def c u
        PerformKillConnections_def PerformKillUdpChannels_def tick_spec_def some_idle_object_def)
qed

lemma local_inv_tick_spec [inv_intros]:
  assumes "local_inv s" and "lm_LocalTicker s \<le> Now"
  shows "local_inv (tick_spec Now s)"
  using assms by (auto simp: local_inv_def tick_spec_def intro: objects_inv_later killed_spec_inv)

section \<open>Properties\<close>

definition sample_binding :: "byte \<Rightarrow> xLocalDeviceBinding" where
  "sample_binding b =
     \<lparr>lb_BindAddress = \<lparr>na_ip = IPV4 [10, 0, 0, b], na_port = 0\<rparr>,
      lb_ExportAddress = \<lparr>na_ip = IPV4 [1, 2, 3, b], na_port = 0\<rparr>\<rparr>"

text \<open>
  When \<open>Init\<close> of a new device manager succeeds, the exported address of every binding is
  found as the device at its position, counted from one, whatever the port of the request, every
  other address is answered with zero, "no device", and no device has the number zero.
\<close>

theorem local_device_lookup:
  assumes "local_Init debug True True Bs (new_local_manager Now) = Some (True, s)"
    and "length Bs < 2 ^ 64"
  shows "(\<forall>k < length Bs. FindDeviceIndexByExportAddress False s (lb_ExportAddress (Bs ! k)) = Some (of_nat (Suc k)) \<and>
      (of_nat (Suc k) :: uint64) \<noteq> 0) \<and>
    (\<forall>a. na_ip a \<notin> (\<lambda>B. na_ip (lb_ExportAddress B)) ` set Bs \<longrightarrow> FindDeviceIndexByExportAddress False s a = Some 0)"
proof -
  let ?ix = "export_index (lm_LocalDeviceList s)"
  have "add_devices (of_nat (length (lm_LocalDeviceList (new_local_manager Now)))) Bs (new_local_manager Now) = Some s"
    using assms(1) by (auto simp: local_Init_def new_local_manager_def split: if_splits)
  from add_devices_inv [OF this devices_inv_new] assms(2)
  have "devices_inv s \<and> List.map lv_BindingInfo (lm_LocalDeviceList s) = Bs"
    by (simp add: new_local_manager_def)
  then have inv: "devices_inv s" and Bs: "List.map lv_BindingInfo (lm_LocalDeviceList s) = Bs"
    by auto
  have len: "length (lm_LocalDeviceList s) = length Bs"
    unfolding Bs [symmetric] by simp
  have fst_ix: "List.map fst ?ix = List.map (\<lambda>B. na_ip (lb_ExportAddress B)) Bs"
    unfolding Bs [symmetric] by (simp add: export_index_def)
  have "FindDeviceIndexByExportAddress False s (lb_ExportAddress (Bs ! k)) = Some (of_nat (Suc k)) \<and>
      (of_nat (Suc k) :: uint64) \<noteq> 0" if k: "k < length Bs" for k
  proof -
    have k': "k < length (lm_LocalDeviceList s)"
      using k len by simp
    have "lv_BindingInfo (lm_LocalDeviceList s ! k) = Bs ! k"
      unfolding Bs [symmetric] using k' by simp
    with devices_inv_nth [OF inv k'] have "map_of ?ix (na_ip (lb_ExportAddress (Bs ! k))) = Some (of_nat (Suc k))"
      by (simp only:)
    then show ?thesis
      using found_by_listD [OF devices_inv_found [OF inv]] index_positive [OF k assms(2)]
      by (simp only: option.simps simp_thms)
  qed
  moreover have "FindDeviceIndexByExportAddress False s a = Some 0"
    if "na_ip a \<notin> (\<lambda>B. na_ip (lb_ExportAddress B)) ` set Bs" for a
  proof -
    have "map_of ?ix (na_ip a) = None"
      using that fst_ix by (metis list.set_map map_of_eq_None_iff)
    then show ?thesis
      using found_by_listD [OF devices_inv_found [OF inv]] by simp
  qed
  ultimately show ?thesis by blast
qed

theorem local_device_lookup_witness:
  "\<exists>s. local_Init True True True [sample_binding 1, sample_binding 2] (new_local_manager 5) = Some (True, s) \<and>
     FindDeviceIndexByExportAddress False s (lb_ExportAddress (sample_binding 2)) = Some 2"
proof -
  obtain s where s: "local_Init True True True [sample_binding 1, sample_binding 2] (new_local_manager 5) = Some (True, s)"
    by (simp add: local_Init_def new_local_manager_def add_device_def binding_ok_def same_type_def
        sample_binding_def addr_ok_def Is4_def Is6_def)
  with conjunct1 [OF local_device_lookup [OF this], rule_format, of 1] show ?thesis
    by simp
qed


definition sample_idle_manager :: xLocalDeviceManager where
  "sample_idle_manager =
     (new_local_manager 10)\<lparr>lm_Connections :=
        \<lparr>lo_Pool = Map.empty(1 \<mapsto> \<lparr>lo_LocalId = 1, lo_KeepAliveTimestamp = 10, lo_KillMark = False\<rparr>,
                            2 \<mapsto> \<lparr>lo_LocalId = 2, lo_KeepAliveTimestamp = 5, lo_KillMark = True\<rparr>),
         lo_IdleList = [1], lo_KillList = [2]\<rparr>\<rparr>"


end
