(* ===== verification/Wire_Protocol.thy ===== *)
theory Wire_Protocol
  imports PP_Common
begin

text \<open>
  \<open>pp_protocol\<close>: the messages between the servers and to the backend. A message is serialised by
  writing its members in order and read back in the same way; \<open>W\<close> and \<open>R\<close>, the encoding of one
  member, belong to \<open>xel\<close> and are the record \<open>codec\<close>, with the law \<open>codec_ok\<close> that what was written
  is read back. A reader takes the bytes that are left and fails at the first member it cannot
  read. The digests, the hash of the standard library and the AES block cipher are parameters.
  Enumerations travel as the integers they are.
\<close>

section \<open>Reading and writing members\<close>

type_synonym 'a reader = "bytes \<Rightarrow> ('a \<times> bytes) option"

record codec =
  put_u8 :: "uint8 \<Rightarrow> bytes"
  get_u8 :: "uint8 reader"
  put_u16 :: "uint16 \<Rightarrow> bytes"
  get_u16 :: "uint16 reader"
  put_u32 :: "uint32 \<Rightarrow> bytes"
  get_u32 :: "uint32 reader"
  put_u64 :: "uint64 \<Rightarrow> bytes"
  get_u64 :: "uint64 reader"
  put_bool :: "bool \<Rightarrow> bytes"
  get_bool :: "bool reader"
  put_str :: "bytes \<Rightarrow> bytes"
  get_str :: "bytes reader"
  put_addr :: "xNetAddress \<Rightarrow> bytes"
  get_addr :: "xNetAddress reader"
  max_str :: nat

definition rd :: "'a reader \<Rightarrow> ('a \<Rightarrow> 'b reader) \<Rightarrow> 'b reader" where
  "rd get k bs = (case get bs of None \<Rightarrow> None | Some (x, rest) \<Rightarrow> k x rest)"

definition yields :: "'a \<Rightarrow> 'a reader" where
  "yields x rest = Some (x, rest)"

definition fails :: "'a reader" where
  "fails rest = None"

definition str_ok :: "codec \<Rightarrow> bytes \<Rightarrow> bool" where
  "str_ok c s \<longleftrightarrow> length s \<le> max_str c"

definition addr_wf :: "xNetAddress \<Rightarrow> bool" where
  "addr_wf a \<longleftrightarrow> (case na_ip a of UNKNOWN \<Rightarrow> True | IPV4 b \<Rightarrow> length b = 4 | IPV6 b \<Rightarrow> length b = 16)"

definition codec_ok :: "codec \<Rightarrow> bool" where
  "codec_ok c \<longleftrightarrow>
     (\<forall>x rest. get_u8 c (put_u8 c x @ rest) = Some (x, rest)) \<and>
     (\<forall>x rest. get_u16 c (put_u16 c x @ rest) = Some (x, rest)) \<and>
     (\<forall>x rest. get_u32 c (put_u32 c x @ rest) = Some (x, rest)) \<and>
     (\<forall>x rest. get_u64 c (put_u64 c x @ rest) = Some (x, rest)) \<and>
     (\<forall>x rest. get_bool c (put_bool c x @ rest) = Some (x, rest)) \<and>
     (\<forall>x rest. str_ok c x \<longrightarrow> get_str c (put_str c x @ rest) = Some (x, rest)) \<and>
     (\<forall>x rest. addr_wf x \<longrightarrow> get_addr c (put_addr c x @ rest) = Some (x, rest))"

named_theorems wire \<open>round trips of the messages\<close>
named_theorems wire_laws \<open>reading back what was written\<close>

lemma rd_put:
  "get (put x @ rest) = Some (x, rest) \<Longrightarrow> rd get k (put x @ rest) = k x rest"
  by (simp add: rd_def)

lemma codec_rd [wire_laws]:
  "codec_ok c \<Longrightarrow> rd (get_u8 c) k8 (put_u8 c x8 @ rest) = k8 x8 rest"
  "codec_ok c \<Longrightarrow> rd (get_u16 c) k16 (put_u16 c x16 @ rest) = k16 x16 rest"
  "codec_ok c \<Longrightarrow> rd (get_u32 c) k32 (put_u32 c x32 @ rest) = k32 x32 rest"
  "codec_ok c \<Longrightarrow> rd (get_u64 c) k64 (put_u64 c x64 @ rest) = k64 x64 rest"
  "codec_ok c \<Longrightarrow> rd (get_bool c) kb (put_bool c b @ rest) = kb b rest"
  "codec_ok c \<Longrightarrow> str_ok c s \<Longrightarrow> rd (get_str c) ks (put_str c s @ rest) = ks s rest"
  "codec_ok c \<Longrightarrow> addr_wf a \<Longrightarrow> rd (get_addr c) ka (put_addr c a @ rest) = ka a rest"
  by (simp_all add: codec_ok_def rd_def)

lemma yields_apply [wire_laws]: "yields x rest = Some (x, rest)"
  by (simp add: yields_def)

section \<open>Messages that are the list of their members\<close>

record xPP_AddressChallenge =
  am_Message :: bytes

definition xPP_AddressChallenge_Serialize :: "codec \<Rightarrow> xPP_AddressChallenge \<Rightarrow> bytes" where
  "xPP_AddressChallenge_Serialize c m =
     put_str c (am_Message m)"

definition xPP_AddressChallenge_Deserialize :: "codec \<Rightarrow> xPP_AddressChallenge reader" where
  "xPP_AddressChallenge_Deserialize c =
     rd (get_str c) (\<lambda>Message.
       yields \<lparr>am_Message = Message\<rparr>)"

record xPP_AddressChallengeResp =
  ak_AddressKey :: bytes

definition xPP_AddressChallengeResp_Serialize :: "codec \<Rightarrow> xPP_AddressChallengeResp \<Rightarrow> bytes" where
  "xPP_AddressChallengeResp_Serialize c m =
     put_str c (ak_AddressKey m)"

definition xPP_AddressChallengeResp_Deserialize :: "codec \<Rightarrow> xPP_AddressChallengeResp reader" where
  "xPP_AddressChallengeResp_Deserialize c =
     rd (get_str c) (\<lambda>AddressKey.
       yields \<lparr>ak_AddressKey = AddressKey\<rparr>)"

record xPP_DeviceChallenge =
  dc_Version :: uint32
  dc_ChannelId :: uint32
  dc_Timestamp :: uint64
  dc_AddressKey4 :: bytes
  dc_AddressKey6 :: bytes
  dc_Sign :: bytes

definition xPP_DeviceChallenge_Serialize :: "codec \<Rightarrow> xPP_DeviceChallenge \<Rightarrow> bytes" where
  "xPP_DeviceChallenge_Serialize c m =
     put_u32 c (dc_Version m) @ put_u32 c (dc_ChannelId m) @ put_u64 c (dc_Timestamp m) @
     put_str c (dc_AddressKey4 m) @ put_str c (dc_AddressKey6 m) @ put_str c (dc_Sign m)"

definition xPP_DeviceChallenge_Deserialize :: "codec \<Rightarrow> xPP_DeviceChallenge reader" where
  "xPP_DeviceChallenge_Deserialize c =
     rd (get_u32 c) (\<lambda>Version. rd (get_u32 c) (\<lambda>ChannelId.
     rd (get_u64 c) (\<lambda>Timestamp. rd (get_str c) (\<lambda>AddressKey4.
     rd (get_str c) (\<lambda>AddressKey6. rd (get_str c) (\<lambda>SignV.
       yields \<lparr>dc_Version = Version, dc_ChannelId = ChannelId, dc_Timestamp = Timestamp,
         dc_AddressKey4 = AddressKey4, dc_AddressKey6 = AddressKey6, dc_Sign = SignV\<rparr>))))))"

record xPP_DeviceChallengeResp =
  dp_Accepted :: bool
  dp_RelayAddress :: xNetAddress
  dp_RelayCheckKey :: bytes
  dp_BanVersionTimeMS :: uint64

definition xPP_DeviceChallengeResp_Serialize :: "codec \<Rightarrow> xPP_DeviceChallengeResp \<Rightarrow> bytes" where
  "xPP_DeviceChallengeResp_Serialize c m =
     put_bool c (dp_Accepted m) @ put_addr c (dp_RelayAddress m) @
     put_str c (dp_RelayCheckKey m) @ put_u64 c (dp_BanVersionTimeMS m)"

definition xPP_DeviceChallengeResp_Deserialize :: "codec \<Rightarrow> xPP_DeviceChallengeResp reader" where
  "xPP_DeviceChallengeResp_Deserialize c =
     rd (get_bool c) (\<lambda>Accepted. rd (get_addr c) (\<lambda>RelayAddress.
     rd (get_str c) (\<lambda>RelayCheckKey. rd (get_u64 c) (\<lambda>BanVersionTimeMS.
       yields \<lparr>dp_Accepted = Accepted, dp_RelayAddress = RelayAddress, dp_RelayCheckKey = RelayCheckKey,
         dp_BanVersionTimeMS = BanVersionTimeMS\<rparr>))))"

record xPP_RelayRegister =
  rr_RelayServerType :: uint8
  rr_ExportDeviceEntryAddress :: xNetAddress
  rr_ExportProxyEntryAddress :: xNetAddress

definition xPP_RelayRegister_Serialize :: "codec \<Rightarrow> xPP_RelayRegister \<Rightarrow> bytes" where
  "xPP_RelayRegister_Serialize c m =
     put_u8 c (rr_RelayServerType m) @ put_addr c (rr_ExportDeviceEntryAddress m) @
     put_addr c (rr_ExportProxyEntryAddress m)"

definition xPP_RelayRegister_Deserialize :: "codec \<Rightarrow> xPP_RelayRegister reader" where
  "xPP_RelayRegister_Deserialize c =
     rd (get_u8 c) (\<lambda>RelayServerType. rd (get_addr c) (\<lambda>ExportDeviceEntryAddress.
     rd (get_addr c) (\<lambda>ExportProxyEntryAddress.
       yields \<lparr>rr_RelayServerType = RelayServerType, rr_ExportDeviceEntryAddress = ExportDeviceEntryAddress,
         rr_ExportProxyEntryAddress = ExportProxyEntryAddress\<rparr>)))"

record xPP_RelayRegisterResp =
  rp_ServerId :: uint64

definition xPP_RelayRegisterResp_Serialize :: "codec \<Rightarrow> xPP_RelayRegisterResp \<Rightarrow> bytes" where
  "xPP_RelayRegisterResp_Serialize c m =
     put_u64 c (rp_ServerId m)"

definition xPP_RelayRegisterResp_Deserialize :: "codec \<Rightarrow> xPP_RelayRegisterResp reader" where
  "xPP_RelayRegisterResp_Deserialize c =
     rd (get_u64 c) (\<lambda>ServerId.
       yields \<lparr>rp_ServerId = ServerId\<rparr>)"

record xPP_RelayInfoBroadcast =
  ri_Type :: uint8
  ri_ServerId :: uint64
  ri_ExportDeviceEntryAddress :: xNetAddress
  ri_ExportProxyEntryAddress :: xNetAddress

definition xPP_RelayInfoBroadcast_Serialize :: "codec \<Rightarrow> xPP_RelayInfoBroadcast \<Rightarrow> bytes" where
  "xPP_RelayInfoBroadcast_Serialize c m =
     put_u8 c (ri_Type m) @ put_u64 c (ri_ServerId m) @
     put_addr c (ri_ExportDeviceEntryAddress m) @ put_addr c (ri_ExportProxyEntryAddress m)"

definition xPP_RelayInfoBroadcast_Deserialize :: "codec \<Rightarrow> xPP_RelayInfoBroadcast reader" where
  "xPP_RelayInfoBroadcast_Deserialize c =
     rd (get_u8 c) (\<lambda>TypeV. rd (get_u64 c) (\<lambda>ServerId.
     rd (get_addr c) (\<lambda>ExportDeviceEntryAddress.
     rd (get_addr c) (\<lambda>ExportProxyEntryAddress.
       yields \<lparr>ri_Type = TypeV, ri_ServerId = ServerId, ri_ExportDeviceEntryAddress = ExportDeviceEntryAddress,
         ri_ExportProxyEntryAddress = ExportProxyEntryAddress\<rparr>))))"

record xPP_RelayInfoLost =
  rx_ServerId :: uint64

definition xPP_RelayInfoLost_Serialize :: "codec \<Rightarrow> xPP_RelayInfoLost \<Rightarrow> bytes" where
  "xPP_RelayInfoLost_Serialize c m =
     put_u64 c (rx_ServerId m)"

definition xPP_RelayInfoLost_Deserialize :: "codec \<Rightarrow> xPP_RelayInfoLost reader" where
  "xPP_RelayInfoLost_Deserialize c =
     rd (get_u64 c) (\<lambda>ServerId.
       yields \<lparr>rx_ServerId = ServerId\<rparr>)"

record xPP_RelayDispatcherSlaveRegisterResp =
  rsp_Accepted :: bool

definition xPP_RelayDispatcherSlaveRegisterResp_Serialize :: "codec \<Rightarrow> xPP_RelayDispatcherSlaveRegisterResp \<Rightarrow> bytes" where
  "xPP_RelayDispatcherSlaveRegisterResp_Serialize c m =
     put_bool c (rsp_Accepted m)"

definition xPP_RelayDispatcherSlaveRegisterResp_Deserialize :: "codec \<Rightarrow> xPP_RelayDispatcherSlaveRegisterResp reader" where
  "xPP_RelayDispatcherSlaveRegisterResp_Deserialize c =
     rd (get_bool c) (\<lambda>Accepted.
       yields \<lparr>rsp_Accepted = Accepted\<rparr>)"

record xPP_GetSmallServerList =
  gl_ServerGroup :: uint8

definition xPP_GetSmallServerList_Serialize :: "codec \<Rightarrow> xPP_GetSmallServerList \<Rightarrow> bytes" where
  "xPP_GetSmallServerList_Serialize c m =
     put_u8 c (gl_ServerGroup m)"

definition xPP_GetSmallServerList_Deserialize :: "codec \<Rightarrow> xPP_GetSmallServerList reader" where
  "xPP_GetSmallServerList_Deserialize c =
     rd (get_u8 c) (\<lambda>ServerGroup.
       yields \<lparr>gl_ServerGroup = ServerGroup\<rparr>)"

record xPPB_AuditUsage =
  bu_TimeMs :: uint64
  bu_AuditId :: uint64
  bu_TcpConnections :: uint64
  bu_TcpUploadSize :: uint64
  bu_TcpDownloadSize :: uint64
  bu_UdpConnections :: uint64
  bu_UdpUploadSize :: uint64
  bu_UdpDownloadSize :: uint64

definition xPPB_AuditUsage_Serialize :: "codec \<Rightarrow> xPPB_AuditUsage \<Rightarrow> bytes" where
  "xPPB_AuditUsage_Serialize c m =
     put_u64 c (bu_TimeMs m) @ put_u64 c (bu_AuditId m) @ put_u64 c (bu_TcpConnections m) @
     put_u64 c (bu_TcpUploadSize m) @ put_u64 c (bu_TcpDownloadSize m) @
     put_u64 c (bu_UdpConnections m) @ put_u64 c (bu_UdpUploadSize m) @
     put_u64 c (bu_UdpDownloadSize m)"

definition xPPB_AuditUsage_Deserialize :: "codec \<Rightarrow> xPPB_AuditUsage reader" where
  "xPPB_AuditUsage_Deserialize c =
     rd (get_u64 c) (\<lambda>TimeMs. rd (get_u64 c) (\<lambda>AuditId.
     rd (get_u64 c) (\<lambda>TcpConnections. rd (get_u64 c) (\<lambda>TcpUploadSize.
     rd (get_u64 c) (\<lambda>TcpDownloadSize. rd (get_u64 c) (\<lambda>UdpConnections.
     rd (get_u64 c) (\<lambda>UdpUploadSize. rd (get_u64 c) (\<lambda>UdpDownloadSize.
       yields \<lparr>bu_TimeMs = TimeMs, bu_AuditId = AuditId, bu_TcpConnections = TcpConnections,
         bu_TcpUploadSize = TcpUploadSize, bu_TcpDownloadSize = TcpDownloadSize,
         bu_UdpConnections = UdpConnections, bu_UdpUploadSize = UdpUploadSize,
         bu_UdpDownloadSize = UdpDownloadSize\<rparr>))))))))"

record xPPB_BlockAccount =
  bb_StartTimestampMS :: uint64
  bb_AuditId :: uint64
  bb_BlockType :: uint16
  bb_BlockThresholdValue :: uint64
  bb_BlockPeriodMS :: uint32
  bb_Action :: uint16

definition xPPB_BlockAccount_Serialize :: "codec \<Rightarrow> xPPB_BlockAccount \<Rightarrow> bytes" where
  "xPPB_BlockAccount_Serialize c m =
     put_u64 c (bb_StartTimestampMS m) @ put_u64 c (bb_AuditId m) @ put_u16 c (bb_BlockType m) @
     put_u64 c (bb_BlockThresholdValue m) @ put_u32 c (bb_BlockPeriodMS m) @
     put_u16 c (bb_Action m)"

definition xPPB_BlockAccount_Deserialize :: "codec \<Rightarrow> xPPB_BlockAccount reader" where
  "xPPB_BlockAccount_Deserialize c =
     rd (get_u64 c) (\<lambda>StartTimestampMS. rd (get_u64 c) (\<lambda>AuditId.
     rd (get_u16 c) (\<lambda>BlockType. rd (get_u64 c) (\<lambda>BlockThresholdValue.
     rd (get_u32 c) (\<lambda>BlockPeriodMS. rd (get_u16 c) (\<lambda>Action.
       yields \<lparr>bb_StartTimestampMS = StartTimestampMS, bb_AuditId = AuditId, bb_BlockType = BlockType,
         bb_BlockThresholdValue = BlockThresholdValue, bb_BlockPeriodMS = BlockPeriodMS, bb_Action = Action\<rparr>))))))"

record xPPB_TargetCollect =
  bt_TimeMs :: uint64
  bt_AuditId :: uint64
  bt_Domain :: bytes
  bt_IpAddress :: xNetAddress
  bt_Port :: uint32
  bt_TimePeriodMs :: uint64
  bt_TotalRequestCount :: uint64

definition xPPB_TargetCollect_Serialize :: "codec \<Rightarrow> xPPB_TargetCollect \<Rightarrow> bytes" where
  "xPPB_TargetCollect_Serialize c m =
     put_u64 c (bt_TimeMs m) @ put_u64 c (bt_AuditId m) @ put_str c (bt_Domain m) @
     put_addr c (bt_IpAddress m) @ put_u32 c (bt_Port m) @ put_u64 c (bt_TimePeriodMs m) @
     put_u64 c (bt_TotalRequestCount m)"

definition xPPB_TargetCollect_Deserialize :: "codec \<Rightarrow> xPPB_TargetCollect reader" where
  "xPPB_TargetCollect_Deserialize c =
     rd (get_u64 c) (\<lambda>TimeMs. rd (get_u64 c) (\<lambda>AuditId.
     rd (get_str c) (\<lambda>Domain. rd (get_addr c) (\<lambda>IpAddress.
     rd (get_u32 c) (\<lambda>PortV. rd (get_u64 c) (\<lambda>TimePeriodMs.
     rd (get_u64 c) (\<lambda>TotalRequestCount.
       yields \<lparr>bt_TimeMs = TimeMs, bt_AuditId = AuditId, bt_Domain = Domain, bt_IpAddress = IpAddress,
         bt_Port = PortV, bt_TimePeriodMs = TimePeriodMs, bt_TotalRequestCount = TotalRequestCount\<rparr>)))))))"

record xPPB_BackendAuthByUserPass =
  up_UserPass :: bytes
  up_ClientIp :: xNetAddress

definition xPPB_BackendAuthByUserPass_Serialize :: "codec \<Rightarrow> xPPB_BackendAuthByUserPass \<Rightarrow> bytes" where
  "xPPB_BackendAuthByUserPass_Serialize c m =
     put_str c (up_UserPass m) @ put_addr c (up_ClientIp m)"

definition xPPB_BackendAuthByUserPass_Deserialize :: "codec \<Rightarrow> xPPB_BackendAuthByUserPass reader" where
  "xPPB_BackendAuthByUserPass_Deserialize c =
     rd (get_str c) (\<lambda>UserPass. rd (get_addr c) (\<lambda>ClientIp.
       yields \<lparr>up_UserPass = UserPass, up_ClientIp = ClientIp\<rparr>))"

record xBackendChallenge =
  bc_AppKey :: bytes
  bc_TimestampMS :: uint64
  bc_ChallengeValue :: bytes

definition xBackendChallenge_Serialize :: "codec \<Rightarrow> xBackendChallenge \<Rightarrow> bytes" where
  "xBackendChallenge_Serialize c m =
     put_str c (bc_AppKey m) @ put_u64 c (bc_TimestampMS m) @ put_str c (bc_ChallengeValue m)"

definition xBackendChallenge_Deserialize :: "codec \<Rightarrow> xBackendChallenge reader" where
  "xBackendChallenge_Deserialize c =
     rd (get_str c) (\<lambda>AppKey. rd (get_u64 c) (\<lambda>TimestampMS.
     rd (get_str c) (\<lambda>ChallengeValue.
       yields \<lparr>bc_AppKey = AppKey, bc_TimestampMS = TimestampMS, bc_ChallengeValue = ChallengeValue\<rparr>)))"

record xBackendChallengeResp =
  bp_ErrorCode :: uint32

definition xBackendChallengeResp_Serialize :: "codec \<Rightarrow> xBackendChallengeResp \<Rightarrow> bytes" where
  "xBackendChallengeResp_Serialize c m =
     put_u32 c (bp_ErrorCode m)"

definition xBackendChallengeResp_Deserialize :: "codec \<Rightarrow> xBackendChallengeResp reader" where
  "xBackendChallengeResp_Deserialize c =
     rd (get_u32 c) (\<lambda>ErrorCode.
       yields \<lparr>bp_ErrorCode = ErrorCode\<rparr>)"

section \<open>Messages with a result, a checksum or a hash\<close>

text \<open>
  The members after the error code travel only when it is zero; a reader keeps the members it does
  not read as they are in the object \<open>m\<^sub>0\<close> that is filled.
\<close>

record xPPB_BackendAuthByUserPassResp =
  ur_ErrorCode :: uint32
  ur_TypeFlags :: uint16
  ur_AuthId :: uint64
  ur_ContinentId :: uint16
  ur_CountryId :: uint32
  ur_StateId :: uint32
  ur_CityId :: uint32
  ur_Duration :: uint32
  ur_Random :: uint32
  ur_AutoChangeIpOnDeviceOffline :: bool
  ur_EnableUdp :: bool
  ur_Ipv6Prefered :: bool
  ur_PoolFlags :: bytes
  ur_ServerToken :: bytes
  ur_ExportIp :: xNetAddress
  ur_Redirect :: bytes
  ur_AuthIdForThirdPartyResource :: uint32

definition xPPB_BackendAuthByUserPassResp_Serialize ::
    "codec \<Rightarrow> xPPB_BackendAuthByUserPassResp \<Rightarrow> bytes" where
  "xPPB_BackendAuthByUserPassResp_Serialize c m =
     put_u32 c (ur_ErrorCode m) @
     (if ur_ErrorCode m \<noteq> 0 then []
      else put_u16 c (ur_TypeFlags m) @ put_u64 c (ur_AuthId m) @ put_u16 c (ur_ContinentId m) @
           put_u32 c (ur_CountryId m) @ put_u32 c (ur_StateId m) @ put_u32 c (ur_CityId m) @
           put_u32 c (ur_Duration m) @ put_u32 c (ur_Random m) @
           put_bool c (ur_AutoChangeIpOnDeviceOffline m) @ put_bool c (ur_EnableUdp m) @
           put_bool c (ur_Ipv6Prefered m) @
           put_str c (ur_PoolFlags m) @ put_str c (ur_ServerToken m) @ put_addr c (ur_ExportIp m) @
           put_str c (ur_Redirect m) @ put_u32 c (ur_AuthIdForThirdPartyResource m))"

definition xPPB_BackendAuthByUserPassResp_Deserialize ::
    "codec \<Rightarrow> xPPB_BackendAuthByUserPassResp \<Rightarrow> xPPB_BackendAuthByUserPassResp reader" where
  "xPPB_BackendAuthByUserPassResp_Deserialize c m\<^sub>0 =
     rd (get_u32 c) (\<lambda>ErrorCode.
       if ErrorCode \<noteq> 0 then yields (m\<^sub>0\<lparr>ur_ErrorCode := ErrorCode\<rparr>)
       else
         rd (get_u16 c) (\<lambda>TypeFlags. rd (get_u64 c) (\<lambda>AuthId. rd (get_u16 c) (\<lambda>ContinentId.
         rd (get_u32 c) (\<lambda>CountryId. rd (get_u32 c) (\<lambda>StateId. rd (get_u32 c) (\<lambda>CityId.
         rd (get_u32 c) (\<lambda>Duration. rd (get_u32 c) (\<lambda>Random.
         rd (get_bool c) (\<lambda>AutoChangeIp. rd (get_bool c) (\<lambda>EnableUdp. rd (get_bool c) (\<lambda>Ipv6Prefered.
         rd (get_str c) (\<lambda>PoolFlags. rd (get_str c) (\<lambda>ServerToken. rd (get_addr c) (\<lambda>ExportIp.
         rd (get_str c) (\<lambda>Redirect. rd (get_u32 c) (\<lambda>AuthIdForThirdPartyResource.
           yields \<lparr>ur_ErrorCode = ErrorCode, ur_TypeFlags = TypeFlags, ur_AuthId = AuthId,
             ur_ContinentId = ContinentId, ur_CountryId = CountryId, ur_StateId = StateId,
             ur_CityId = CityId, ur_Duration = Duration, ur_Random = Random,
             ur_AutoChangeIpOnDeviceOffline = AutoChangeIp, ur_EnableUdp = EnableUdp,
             ur_Ipv6Prefered = Ipv6Prefered, ur_PoolFlags = PoolFlags, ur_ServerToken = ServerToken,
             ur_ExportIp = ExportIp, ur_Redirect = Redirect,
             ur_AuthIdForThirdPartyResource = AuthIdForThirdPartyResource\<rparr>)))))))))))))))))"

text \<open>The registration of a dispatcher slave carries a digest of its time.\<close>

definition slave_register_hash :: "(bytes \<Rightarrow> bytes) \<Rightarrow> uint64 \<Rightarrow> bytes" where
  "slave_register_hash Md5 TimestampMS = Md5 (str ''xPP_RelayDispatcherSlaveRegister@@'' @ to_string TimestampMS)"

record xPP_RelayDispatcherSlaveRegister =
  sr_TimestampMS :: uint64

definition xPP_RelayDispatcherSlaveRegister_Serialize ::
    "codec \<Rightarrow> (bytes \<Rightarrow> bytes) \<Rightarrow> xPP_RelayDispatcherSlaveRegister \<Rightarrow> bytes" where
  "xPP_RelayDispatcherSlaveRegister_Serialize c Md5 m =
     (let Hash = slave_register_hash Md5 (sr_TimestampMS m) in
      put_u64 c (sr_TimestampMS m) @ put_str c Hash)"

definition xPP_RelayDispatcherSlaveRegister_Deserialize ::
    "codec \<Rightarrow> (bytes \<Rightarrow> bytes) \<Rightarrow> xPP_RelayDispatcherSlaveRegister reader" where
  "xPP_RelayDispatcherSlaveRegister_Deserialize c Md5 =
     rd (get_u64 c) (\<lambda>TimestampMS. rd (get_str c) (\<lambda>Hash.
       if Hash \<noteq> slave_register_hash Md5 TimestampMS then fails
       else yields \<lparr>sr_TimestampMS = TimestampMS\<rparr>))"

text \<open>
  The list of servers of a group ends with a digest of everything before it. \<open>beyond\<close> is the memory
  behind the checksum that was read: \<open>memcmp\<close> compares sixteen bytes whatever its length.
\<close>

record xServerInfo =
  si_ServerId :: uint64
  si_Address :: xNetAddress

definition MAX_SMALL_SERVER_LIST_SIZE :: nat where "MAX_SMALL_SERVER_LIST_SIZE = 128"

record xPP_GetSmallServerListResp =
  sl_VersionTimestampMS :: uint64
  sl_ServerList :: "xServerInfo list"

fun put_servers :: "codec \<Rightarrow> xServerInfo list \<Rightarrow> bytes" where
  "put_servers c [] = []"
| "put_servers c (S # Ss) = put_u64 c (si_ServerId S) @ put_addr c (si_Address S) @ put_servers c Ss"

fun get_servers :: "codec \<Rightarrow> nat \<Rightarrow> xServerInfo list reader" where
  "get_servers c 0 = yields []"
| "get_servers c (Suc n) =
     rd (get_u64 c) (\<lambda>ServerId. rd (get_addr c) (\<lambda>Address. rd (get_servers c n) (\<lambda>Ss.
       yields (\<lparr>si_ServerId = ServerId, si_Address = Address\<rparr> # Ss))))"

definition server_list_digest :: "(bytes \<Rightarrow> bytes) \<Rightarrow> bytes \<Rightarrow> bytes" where
  "server_list_digest Md5 Body = take 16 (Md5 (take 12 (Md5 Body)))"

definition server_list_body :: "codec \<Rightarrow> xPP_GetSmallServerListResp \<Rightarrow> bytes" where
  "server_list_body c m =
     put_u64 c (sl_VersionTimestampMS m) @ put_u32 c (of_nat (length (sl_ServerList m))) @
     put_servers c (sl_ServerList m)"

definition xPP_GetSmallServerListResp_Serialize ::
    "codec \<Rightarrow> (bytes \<Rightarrow> bytes) \<Rightarrow> xPP_GetSmallServerListResp \<Rightarrow> bytes" where
  "xPP_GetSmallServerListResp_Serialize c Md5 m =
     (let Body = server_list_body c m in Body @ put_str c (server_list_digest Md5 Body))"

definition memcmp16 :: "bytes \<Rightarrow> bytes \<Rightarrow> bytes \<Rightarrow> bool" where
  "memcmp16 beyond Checksum Digest \<longleftrightarrow> take 16 (Checksum @ beyond) \<noteq> Digest"

definition xPP_GetSmallServerListResp_Deserialize ::
    "codec \<Rightarrow> (bytes \<Rightarrow> bytes) \<Rightarrow> bytes \<Rightarrow> xPP_GetSmallServerListResp reader" where
  "xPP_GetSmallServerListResp_Deserialize c Md5 beyond Payload =
     rd (get_u64 c) (\<lambda>VersionTimestampMS. rd (get_u32 c) (\<lambda>ServerListSize.
       if unat ServerListSize > MAX_SMALL_SERVER_LIST_SIZE then fails
       else rd (get_servers c (unat ServerListSize)) (\<lambda>ServerList rest.
         let Body = take (length Payload - length rest) Payload in
         rd (get_str c) (\<lambda>Checksum.
           if memcmp16 beyond Checksum (server_list_digest Md5 Body) then fails
           else yields \<lparr>sl_VersionTimestampMS = VersionTimestampMS, sl_ServerList = ServerList\<rparr>) rest))) Payload"

text \<open>
  The report of a target: its hash, over the members that identify it, is a result of
  serialising, and is not transmitted.
\<close>

record xPP_TargetCollect =
  tc_GlobalAuthId :: uint64
  tc_TargetAddress :: xNetAddress
  tc_TargetHostView :: bytes
  tc_StartTimestampMS :: uint64
  tc_PeriodMS :: uint64
  tc_Count :: uint64
  tc_Hash :: uint32

definition target_identity :: "codec \<Rightarrow> xPP_TargetCollect \<Rightarrow> bytes" where
  "target_identity c m =
     put_u64 c (tc_GlobalAuthId m) @ put_addr c (tc_TargetAddress m) @ put_str c (tc_TargetHostView m)"

definition xPP_TargetCollect_Serialize ::
    "codec \<Rightarrow> (bytes \<Rightarrow> uint64) \<Rightarrow> xPP_TargetCollect \<Rightarrow> bytes \<times> xPP_TargetCollect" where
  "xPP_TargetCollect_Serialize c std_hash m =
     (let HashRange = target_identity c m in
      (HashRange @ put_u64 c (tc_StartTimestampMS m) @ put_u64 c (tc_PeriodMS m) @ put_u64 c (tc_Count m),
       m\<lparr>tc_Hash := ucast (std_hash HashRange)\<rparr>))"

definition xPP_TargetCollect_Deserialize :: "codec \<Rightarrow> xPP_TargetCollect reader" where
  "xPP_TargetCollect_Deserialize c =
     rd (get_u64 c) (\<lambda>GlobalAuthId. rd (get_addr c) (\<lambda>TargetAddress. rd (get_str c) (\<lambda>TargetHostView.
     rd (get_u64 c) (\<lambda>StartTimestampMS. rd (get_u64 c) (\<lambda>PeriodMS. rd (get_u64 c) (\<lambda>Count.
       yields \<lparr>tc_GlobalAuthId = GlobalAuthId, tc_TargetAddress = TargetAddress,
         tc_TargetHostView = TargetHostView, tc_StartTimestampMS = StartTimestampMS,
         tc_PeriodMS = PeriodMS, tc_Count = Count, tc_Hash = 0\<rparr>))))))"

section \<open>Messages whose reader writes\<close>

text \<open>
  The readers of these two messages call \<open>W\<close> for one member. It takes nothing from the bytes that
  are read, and the member keeps the value it has in \<open>m\<^sub>0\<close>; what \<open>W\<close> does to a writer that was
  never set up belongs to \<open>xel\<close>: \<open>stray\<close> says whether it returns.
\<close>

record xPP_AuditCollect =
  ac_GlobalAuthId :: uint64
  ac_StartTimestampMS :: uint64
  ac_PeriodMS :: uint64
  ac_TotalTcpConnections :: uint64
  ac_TotalTcpBytesFromClient :: uint64
  ac_TotalTcpBytesToClient :: uint64
  ac_TotalUdpChannels :: uint64
  ac_TotalUdpBytesFromClient :: uint64
  ac_TotalUdpBytesToClient :: uint64

definition xPP_AuditCollect_Serialize :: "codec \<Rightarrow> xPP_AuditCollect \<Rightarrow> bytes" where
  "xPP_AuditCollect_Serialize c m =
     put_u64 c (ac_GlobalAuthId m) @ put_u64 c (ac_StartTimestampMS m) @ put_u64 c (ac_PeriodMS m) @
     put_u64 c (ac_TotalTcpConnections m) @ put_u64 c (ac_TotalTcpBytesFromClient m) @
     put_u64 c (ac_TotalTcpBytesToClient m) @ put_u64 c (ac_TotalUdpChannels m) @
     put_u64 c (ac_TotalUdpBytesFromClient m) @ put_u64 c (ac_TotalUdpBytesToClient m)"

definition xPP_AuditCollect_Deserialize ::
    "codec \<Rightarrow> bool \<Rightarrow> xPP_AuditCollect \<Rightarrow> xPP_AuditCollect reader" where
  "xPP_AuditCollect_Deserialize c stray m\<^sub>0 =
     rd (get_u64 c) (\<lambda>GlobalAuthId. rd (get_u64 c) (\<lambda>StartTimestampMS. rd (get_u64 c) (\<lambda>PeriodMS.
     rd (get_u64 c) (\<lambda>TotalTcpConnections. rd (get_u64 c) (\<lambda>TotalTcpBytesFromClient.
     rd (get_u64 c) (\<lambda>TotalTcpBytesToClient.
       if \<not> stray then fails
       else
         rd (get_u64 c) (\<lambda>TotalUdpBytesFromClient. rd (get_u64 c) (\<lambda>TotalUdpBytesToClient.
           yields \<lparr>ac_GlobalAuthId = GlobalAuthId, ac_StartTimestampMS = StartTimestampMS,
             ac_PeriodMS = PeriodMS, ac_TotalTcpConnections = TotalTcpConnections,
             ac_TotalTcpBytesFromClient = TotalTcpBytesFromClient,
             ac_TotalTcpBytesToClient = TotalTcpBytesToClient,
             ac_TotalUdpChannels = ac_TotalUdpChannels m\<^sub>0,
             ac_TotalUdpBytesFromClient = TotalUdpBytesFromClient,
             ac_TotalUdpBytesToClient = TotalUdpBytesToClient\<rparr>))))))))"

record xPP_BlockAccount =
  ba_StartTimestampMS :: uint64
  ba_GlobalAuthId :: uint64
  ba_BlockReason :: uint8
  ba_BlockThreshold :: uint64
  ba_BlockTriggerValue :: uint64
  ba_BlockPeriodMS :: uint32

definition xPP_BlockAccount_Serialize :: "codec \<Rightarrow> xPP_BlockAccount \<Rightarrow> bytes" where
  "xPP_BlockAccount_Serialize c m =
     put_u64 c (ba_StartTimestampMS m) @ put_u64 c (ba_GlobalAuthId m) @ put_u8 c (ba_BlockReason m) @
     put_u64 c (ba_BlockThreshold m) @ put_u64 c (ba_BlockTriggerValue m) @ put_u32 c (ba_BlockPeriodMS m)"

definition xPP_BlockAccount_Deserialize ::
    "codec \<Rightarrow> bool \<Rightarrow> xPP_BlockAccount \<Rightarrow> xPP_BlockAccount reader" where
  "xPP_BlockAccount_Deserialize c stray m\<^sub>0 =
     rd (get_u64 c) (\<lambda>StartTimestampMS. rd (get_u64 c) (\<lambda>GlobalAuthId. rd (get_u8 c) (\<lambda>BlockReason.
       if \<not> stray then fails
       else
         rd (get_u64 c) (\<lambda>BlockTriggerValue. rd (get_u32 c) (\<lambda>BlockPeriodMS.
           yields \<lparr>ba_StartTimestampMS = StartTimestampMS, ba_GlobalAuthId = GlobalAuthId,
             ba_BlockReason = BlockReason, ba_BlockThreshold = ba_BlockThreshold m\<^sub>0,
             ba_BlockTriggerValue = BlockTriggerValue, ba_BlockPeriodMS = BlockPeriodMS\<rparr>)))))"

section \<open>The backend challenge\<close>

definition backend_Sign :: "(bytes \<Rightarrow> bytes) \<Rightarrow> (bytes \<Rightarrow> bytes) \<Rightarrow> bytes \<Rightarrow> bytes" where
  "backend_Sign Md5 StrToHexLower Source = StrToHexLower (Md5 (Md5 Source))"

definition GenerateChallengeString ::
    "(bytes \<Rightarrow> bytes) \<Rightarrow> (bytes \<Rightarrow> bytes) \<Rightarrow> xBackendChallenge \<Rightarrow> bytes \<Rightarrow> bytes" where
  "GenerateChallengeString Md5 StrToHexLower m AppSecret =
     backend_Sign Md5 StrToHexLower (bc_AppKey m @ to_string (bc_TimestampMS m) @ str ''@45Qws85!4'' @ AppSecret)"

section \<open>Encryption\<close>

text \<open>
  \<open>aes_enc\<close> and \<open>aes_dec\<close> are the block operations of the library under a key, of which the
  encryption sets up 128 bits and the decryption as many bits as the key string has characters.
  The assertion on the length of the key that fails is \<open>None\<close>.
\<close>

fun crypt_blocks :: "(bytes \<Rightarrow> bytes) \<Rightarrow> nat \<Rightarrow> bytes \<Rightarrow> bytes" where
  "crypt_blocks f 0 Src = []"
| "crypt_blocks f (Suc Blocks) Src = f (take 16 Src) @ crypt_blocks f Blocks (drop 16 Src)"

definition Encrypt :: "(bytes \<Rightarrow> bytes \<Rightarrow> bytes) \<Rightarrow> bytes \<Rightarrow> bytes \<Rightarrow> bytes option" where
  "Encrypt aes_enc Data AesKey =
     (if length AesKey \<noteq> 128 then None
      else
        let Blocks = (length Data + 16) div 16; PaddingLength = Blocks * 16 - length Data;
            Src = Data @ replicate PaddingLength (of_nat PaddingLength) in
        Some (crypt_blocks (aes_enc (take 16 AesKey)) Blocks Src))"

definition Decrypt :: "(bytes \<Rightarrow> bytes \<Rightarrow> bytes) \<Rightarrow> bytes \<Rightarrow> bytes \<Rightarrow> bytes option" where
  "Decrypt aes_dec Data AesKey =
     (if length AesKey \<noteq> 128 then None
      else if length Data = 0 \<or> length Data mod 16 \<noteq> 0 then Some []
      else
        let R = crypt_blocks (aes_dec (take (length AesKey div 8) AesKey)) (length Data div 16) Data;
            padding = unat (R ! (length Data - 1)) in
        if length Data < padding then Some [] else Some (take (length Data - padding) R))"

section \<open>Lemmas: what was written is read back\<close>

lemma xPP_AddressChallenge_roundtrip [wire]:
  "codec_ok c \<Longrightarrow> str_ok c (am_Message m) \<Longrightarrow> 
   xPP_AddressChallenge_Deserialize c (xPP_AddressChallenge_Serialize c m @ rest) = Some (m, rest)"
  by (simp add: xPP_AddressChallenge_Deserialize_def xPP_AddressChallenge_Serialize_def wire_laws)

lemma xPP_AddressChallengeResp_roundtrip [wire]:
  "codec_ok c \<Longrightarrow> str_ok c (ak_AddressKey m) \<Longrightarrow> 
   xPP_AddressChallengeResp_Deserialize c (xPP_AddressChallengeResp_Serialize c m @ rest) = Some (m, rest)"
  by (simp add: xPP_AddressChallengeResp_Deserialize_def xPP_AddressChallengeResp_Serialize_def wire_laws)

lemma xPP_DeviceChallenge_roundtrip [wire]:
  "codec_ok c \<Longrightarrow> str_ok c (dc_AddressKey4 m) \<Longrightarrow> str_ok c (dc_AddressKey6 m) \<Longrightarrow> str_ok c (dc_Sign m) \<Longrightarrow> 
   xPP_DeviceChallenge_Deserialize c (xPP_DeviceChallenge_Serialize c m @ rest) = Some (m, rest)"
  by (simp add: xPP_DeviceChallenge_Deserialize_def xPP_DeviceChallenge_Serialize_def wire_laws)

lemma xPP_DeviceChallengeResp_roundtrip [wire]:
  "codec_ok c \<Longrightarrow> str_ok c (dp_RelayCheckKey m) \<Longrightarrow> addr_wf (dp_RelayAddress m) \<Longrightarrow> 
   xPP_DeviceChallengeResp_Deserialize c (xPP_DeviceChallengeResp_Serialize c m @ rest) = Some (m, rest)"
  by (simp add: xPP_DeviceChallengeResp_Deserialize_def xPP_DeviceChallengeResp_Serialize_def wire_laws)

lemma xPP_RelayRegister_roundtrip [wire]:
  "codec_ok c \<Longrightarrow> addr_wf (rr_ExportDeviceEntryAddress m) \<Longrightarrow> addr_wf (rr_ExportProxyEntryAddress m) \<Longrightarrow> 
   xPP_RelayRegister_Deserialize c (xPP_RelayRegister_Serialize c m @ rest) = Some (m, rest)"
  by (simp add: xPP_RelayRegister_Deserialize_def xPP_RelayRegister_Serialize_def wire_laws)

lemma xPP_RelayRegisterResp_roundtrip [wire]:
  "codec_ok c \<Longrightarrow> 
   xPP_RelayRegisterResp_Deserialize c (xPP_RelayRegisterResp_Serialize c m @ rest) = Some (m, rest)"
  by (simp add: xPP_RelayRegisterResp_Deserialize_def xPP_RelayRegisterResp_Serialize_def wire_laws)

lemma xPP_RelayInfoBroadcast_roundtrip [wire]:
  "codec_ok c \<Longrightarrow> addr_wf (ri_ExportDeviceEntryAddress m) \<Longrightarrow> addr_wf (ri_ExportProxyEntryAddress m) \<Longrightarrow> 
   xPP_RelayInfoBroadcast_Deserialize c (xPP_RelayInfoBroadcast_Serialize c m @ rest) = Some (m, rest)"
  by (simp add: xPP_RelayInfoBroadcast_Deserialize_def xPP_RelayInfoBroadcast_Serialize_def wire_laws)

lemma xPP_RelayInfoLost_roundtrip [wire]:
  "codec_ok c \<Longrightarrow> 
   xPP_RelayInfoLost_Deserialize c (xPP_RelayInfoLost_Serialize c m @ rest) = Some (m, rest)"
  by (simp add: xPP_RelayInfoLost_Deserialize_def xPP_RelayInfoLost_Serialize_def wire_laws)

lemma xPP_RelayDispatcherSlaveRegisterResp_roundtrip [wire]:
  "codec_ok c \<Longrightarrow> 
   xPP_RelayDispatcherSlaveRegisterResp_Deserialize c (xPP_RelayDispatcherSlaveRegisterResp_Serialize c m @ rest) = Some (m, rest)"
  by (simp add: xPP_RelayDispatcherSlaveRegisterResp_Deserialize_def xPP_RelayDispatcherSlaveRegisterResp_Serialize_def wire_laws)

lemma xPP_GetSmallServerList_roundtrip [wire]:
  "codec_ok c \<Longrightarrow> 
   xPP_GetSmallServerList_Deserialize c (xPP_GetSmallServerList_Serialize c m @ rest) = Some (m, rest)"
  by (simp add: xPP_GetSmallServerList_Deserialize_def xPP_GetSmallServerList_Serialize_def wire_laws)

lemma xPPB_AuditUsage_roundtrip [wire]:
  "codec_ok c \<Longrightarrow> 
   xPPB_AuditUsage_Deserialize c (xPPB_AuditUsage_Serialize c m @ rest) = Some (m, rest)"
  by (simp add: xPPB_AuditUsage_Deserialize_def xPPB_AuditUsage_Serialize_def wire_laws)

lemma xPPB_BlockAccount_roundtrip [wire]:
  "codec_ok c \<Longrightarrow> 
   xPPB_BlockAccount_Deserialize c (xPPB_BlockAccount_Serialize c m @ rest) = Some (m, rest)"
  by (simp add: xPPB_BlockAccount_Deserialize_def xPPB_BlockAccount_Serialize_def wire_laws)

lemma xPPB_TargetCollect_roundtrip [wire]:
  "codec_ok c \<Longrightarrow> str_ok c (bt_Domain m) \<Longrightarrow> addr_wf (bt_IpAddress m) \<Longrightarrow> 
   xPPB_TargetCollect_Deserialize c (xPPB_TargetCollect_Serialize c m @ rest) = Some (m, rest)"
  by (simp add: xPPB_TargetCollect_Deserialize_def xPPB_TargetCollect_Serialize_def wire_laws)

lemma xPPB_BackendAuthByUserPass_roundtrip [wire]:
  "codec_ok c \<Longrightarrow> str_ok c (up_UserPass m) \<Longrightarrow> addr_wf (up_ClientIp m) \<Longrightarrow> 
   xPPB_BackendAuthByUserPass_Deserialize c (xPPB_BackendAuthByUserPass_Serialize c m @ rest) = Some (m, rest)"
  by (simp add: xPPB_BackendAuthByUserPass_Deserialize_def xPPB_BackendAuthByUserPass_Serialize_def wire_laws)

lemma xBackendChallenge_roundtrip [wire]:
  "codec_ok c \<Longrightarrow> str_ok c (bc_AppKey m) \<Longrightarrow> str_ok c (bc_ChallengeValue m) \<Longrightarrow> 
   xBackendChallenge_Deserialize c (xBackendChallenge_Serialize c m @ rest) = Some (m, rest)"
  by (simp add: xBackendChallenge_Deserialize_def xBackendChallenge_Serialize_def wire_laws)

lemma xBackendChallengeResp_roundtrip [wire]:
  "codec_ok c \<Longrightarrow> 
   xBackendChallengeResp_Deserialize c (xBackendChallengeResp_Serialize c m @ rest) = Some (m, rest)"
  by (simp add: xBackendChallengeResp_Deserialize_def xBackendChallengeResp_Serialize_def wire_laws)

definition auth_resp_wf :: "codec \<Rightarrow> xPPB_BackendAuthByUserPassResp \<Rightarrow> bool" where
  "auth_resp_wf c m \<longleftrightarrow> str_ok c (ur_PoolFlags m) \<and> str_ok c (ur_ServerToken m) \<and>
     str_ok c (ur_Redirect m) \<and> addr_wf (ur_ExportIp m)"

lemma xPPB_BackendAuthByUserPassResp_roundtrip [wire]:
  "codec_ok c \<Longrightarrow> auth_resp_wf c m \<Longrightarrow>
   xPPB_BackendAuthByUserPassResp_Deserialize c m\<^sub>0 (xPPB_BackendAuthByUserPassResp_Serialize c m @ rest) =
     Some (if ur_ErrorCode m = 0 then m else m\<^sub>0\<lparr>ur_ErrorCode := ur_ErrorCode m\<rparr>, rest)"
  by (simp add: xPPB_BackendAuthByUserPassResp_Deserialize_def
      xPPB_BackendAuthByUserPassResp_Serialize_def auth_resp_wf_def wire_laws)

lemma xPP_RelayDispatcherSlaveRegister_roundtrip [wire]:
  "codec_ok c \<Longrightarrow> str_ok c (slave_register_hash Md5 (sr_TimestampMS m)) \<Longrightarrow>
   xPP_RelayDispatcherSlaveRegister_Deserialize c Md5 (xPP_RelayDispatcherSlaveRegister_Serialize c Md5 m @ rest) =
     Some (m, rest)"
  by (simp add: xPP_RelayDispatcherSlaveRegister_Deserialize_def
      xPP_RelayDispatcherSlaveRegister_Serialize_def wire_laws)

lemma get_servers_put:
  "codec_ok c \<Longrightarrow> \<forall>S \<in> set Ss. addr_wf (si_Address S) \<Longrightarrow>
   get_servers c (length Ss) (put_servers c Ss @ rest) = Some (Ss, rest)"
  by (induction Ss arbitrary: rest) (simp_all add: wire_laws rd_def [of "get_servers c _"])

lemma rd_get_servers:
  "codec_ok c \<Longrightarrow> \<forall>S \<in> set Ss. addr_wf (si_Address S) \<Longrightarrow>
   rd (get_servers c (length Ss)) k (put_servers c Ss @ rest) = k Ss rest"
  by (simp add: rd_def get_servers_put)

lemma server_count_word:
  "n \<le> MAX_SMALL_SERVER_LIST_SIZE \<Longrightarrow> unat (of_nat n :: uint32) = n"
  by (simp add: MAX_SMALL_SERVER_LIST_SIZE_def unat_of_nat)

lemma xPP_GetSmallServerListResp_roundtrip [wire]:
  assumes "codec_ok c" and "16 \<le> max_str c" and "\<And>b. length (Md5 b) = 16"
    and "length (sl_ServerList m) \<le> MAX_SMALL_SERVER_LIST_SIZE"
    and "\<forall>S \<in> set (sl_ServerList m). addr_wf (si_Address S)"
  shows "xPP_GetSmallServerListResp_Deserialize c Md5 beyond
     (xPP_GetSmallServerListResp_Serialize c Md5 m @ rest) = Some (m, rest)"
proof -
  let ?d = "server_list_digest Md5 (server_list_body c m)"
  let ?P = "xPP_GetSmallServerListResp_Serialize c Md5 m @ rest"
  have d: "length ?d = 16" "str_ok c ?d"
    using assms(2,3) by (simp_all add: server_list_digest_def str_ok_def)
  have P: "?P = put_u64 c (sl_VersionTimestampMS m) @ put_u32 c (of_nat (length (sl_ServerList m))) @
      put_servers c (sl_ServerList m) @ put_str c ?d @ rest"
    by (simp add: xPP_GetSmallServerListResp_Serialize_def server_list_body_def)
  have body: "take (length ?P - length (put_str c ?d @ rest)) ?P = server_list_body c m"
    by (simp add: xPP_GetSmallServerListResp_Serialize_def Let_def)
  have "xPP_GetSmallServerListResp_Deserialize c Md5 beyond ?P =
      rd (get_u64 c) (\<lambda>VersionTimestampMS. rd (get_u32 c) (\<lambda>ServerListSize.
       if unat ServerListSize > MAX_SMALL_SERVER_LIST_SIZE then fails
       else rd (get_servers c (unat ServerListSize)) (\<lambda>ServerList rest.
         let Body = take (length ?P - length rest) ?P in
         rd (get_str c) (\<lambda>Checksum.
           if memcmp16 beyond Checksum (server_list_digest Md5 Body) then fails
           else yields \<lparr>sl_VersionTimestampMS = VersionTimestampMS, sl_ServerList = ServerList\<rparr>) rest)))
       (put_u64 c (sl_VersionTimestampMS m) @ put_u32 c (of_nat (length (sl_ServerList m))) @
        put_servers c (sl_ServerList m) @ put_str c ?d @ rest)"
    unfolding xPP_GetSmallServerListResp_Deserialize_def by (simp only: P)
  also have "\<dots> = (let Body = take (length ?P - length (put_str c ?d @ rest)) ?P in
         rd (get_str c) (\<lambda>Checksum.
           if memcmp16 beyond Checksum (server_list_digest Md5 Body) then fails
           else yields \<lparr>sl_VersionTimestampMS = sl_VersionTimestampMS m, sl_ServerList = sl_ServerList m\<rparr>)
         (put_str c ?d @ rest))"
    using assms(1,4,5) by (simp add: wire_laws server_count_word rd_get_servers)
  also have "\<dots> = Some (m, rest)"
    using d assms(1) by (simp only: body Let_def) (simp add: wire_laws memcmp16_def)
  finally show ?thesis .
qed

lemma xPP_TargetCollect_roundtrip [wire]:
  "codec_ok c \<Longrightarrow> str_ok c (tc_TargetHostView m) \<Longrightarrow> addr_wf (tc_TargetAddress m) \<Longrightarrow>
   xPP_TargetCollect_Deserialize c (fst (xPP_TargetCollect_Serialize c std_hash m) @ rest) =
     Some (m\<lparr>tc_Hash := 0\<rparr>, rest)"
  by (simp add: xPP_TargetCollect_Deserialize_def xPP_TargetCollect_Serialize_def target_identity_def
      Let_def wire_laws)

text \<open>The two readers that write: the members after the stray write are shifted.\<close>

lemma xPP_AuditCollect_misread [wire]:
  "codec_ok c \<Longrightarrow>
   xPP_AuditCollect_Deserialize c True m\<^sub>0 (xPP_AuditCollect_Serialize c m @ rest) =
     Some (m\<lparr>ac_TotalUdpChannels := ac_TotalUdpChannels m\<^sub>0,
             ac_TotalUdpBytesFromClient := ac_TotalUdpChannels m,
             ac_TotalUdpBytesToClient := ac_TotalUdpBytesFromClient m\<rparr>,
           put_u64 c (ac_TotalUdpBytesToClient m) @ rest)"
  by (simp add: xPP_AuditCollect_Deserialize_def xPP_AuditCollect_Serialize_def wire_laws)

section \<open>A concrete codec\<close>

text \<open>
  Little-endian integers, strings and addresses behind a length or a family. It satisfies the law,
  so that the law can hold.
\<close>

fun le_bytes :: "nat \<Rightarrow> nat \<Rightarrow> bytes" where
  "le_bytes 0 x = []"
| "le_bytes (Suc n) x = of_nat (x mod 256) # le_bytes n (x div 256)"

fun le_nat :: "bytes \<Rightarrow> nat" where
  "le_nat [] = 0"
| "le_nat (b # bs) = unat b + 256 * le_nat bs"

lemma length_le_bytes [simp]: "length (le_bytes n x) = n"
  by (induction n arbitrary: x) simp_all

lemma le_nat_le_bytes: "x < 256 ^ n \<Longrightarrow> le_nat (le_bytes n x) = x"
proof (induction n arbitrary: x)
  case (Suc n)
  then have "x div 256 < 256 ^ n"
    by (simp add: less_mult_imp_div_less mult.commute)
  moreover have "unat (of_nat (x mod 256) :: byte) = x mod 256"
    by (simp add: unat_of_nat)
  ultimately show ?case
    using Suc.IH by simp
qed simp

definition put_le :: "nat \<Rightarrow> 'a :: len word \<Rightarrow> bytes" where
  "put_le n x = le_bytes n (unat x)"

definition get_le :: "nat \<Rightarrow> 'a :: len word reader" where
  "get_le n bs = (if length bs < n then None else Some (of_nat (le_nat (take n bs)), drop n bs))"

lemma get_put_le: "LENGTH('a) \<le> 8 * n \<Longrightarrow> get_le n (put_le n x @ rest) = Some (x :: 'a :: len word, rest)"
proof -
  assume "LENGTH('a) \<le> 8 * n"
  then have "(2 :: nat) ^ LENGTH('a) \<le> 2 ^ (8 * n)"
    by (rule power_increasing) simp
  also have "\<dots> = 256 ^ n"
    by (simp add: power_mult)
  finally have "(2 :: nat) ^ LENGTH('a) \<le> 256 ^ n" .
  moreover have "unat x < 2 ^ LENGTH('a)"
    by (rule unsigned_less)
  ultimately have "unat x < 256 ^ n"
    by linarith
  then show ?thesis
    by (simp add: get_le_def put_le_def le_nat_le_bytes)
qed

definition put_flag :: "bool \<Rightarrow> bytes" where
  "put_flag b = [if b then 1 else 0]"

definition get_flag :: "bool reader" where
  "get_flag bs = (case bs of [] \<Rightarrow> None | b # rest \<Rightarrow> Some (b \<noteq> 0, rest))"

definition put_text :: "bytes \<Rightarrow> bytes" where
  "put_text s = put_le 2 (of_nat (length s) :: uint16) @ s"

definition get_text :: "bytes reader" where
  "get_text = rd (get_le 2) (\<lambda>n :: uint16. \<lambda>bs.
     if length bs < unat n then None else Some (take (unat n) bs, drop (unat n) bs))"

definition put_ip :: "xNetAddress \<Rightarrow> bytes" where
  "put_ip a = (case na_ip a of UNKNOWN \<Rightarrow> [0] | IPV4 b \<Rightarrow> 4 # b | IPV6 b \<Rightarrow> 6 # b) @ put_le 2 (na_port a)"

definition get_port :: "xNetIp \<Rightarrow> xNetAddress reader" where
  "get_port ip = rd (get_le 2) (\<lambda>p. yields \<lparr>na_ip = ip, na_port = p\<rparr>)"

definition get_ip :: "xNetAddress reader" where
  "get_ip bs =
     (case bs of
        [] \<Rightarrow> None
      | t # bs \<Rightarrow>
          if t = 0 then get_port UNKNOWN bs
          else if t = 4 then (if length bs < 4 then None else get_port (IPV4 (take 4 bs)) (drop 4 bs))
          else if t = 6 then (if length bs < 16 then None else get_port (IPV6 (take 16 bs)) (drop 16 bs))
          else None)"

definition sample_codec :: codec where
  "sample_codec =
     \<lparr>put_u8 = put_le 1, get_u8 = get_le 1, put_u16 = put_le 2, get_u16 = get_le 2,
      put_u32 = put_le 4, get_u32 = get_le 4, put_u64 = put_le 8, get_u64 = get_le 8,
      put_bool = put_flag, get_bool = get_flag, put_str = put_text, get_str = get_text,
      put_addr = put_ip, get_addr = get_ip, max_str = 65535\<rparr>"

lemma get_port_put: "get_port ip (put_le 2 p @ rest) = Some (\<lparr>na_ip = ip, na_port = p\<rparr>, rest)"
  using get_put_le [of 2 p rest] by (simp add: get_port_def rd_def yields_def)

lemma get_ip_put: "addr_wf a \<Longrightarrow> get_ip (put_ip a @ rest) = Some (a, rest)"
  by (cases a; cases "na_ip a") (auto simp: addr_wf_def get_ip_def put_ip_def get_port_put)

lemma get_text_put: "length s \<le> 65535 \<Longrightarrow> get_text (put_text s @ rest) = Some (s, rest)"
  using get_put_le [of 2 "of_nat (length s) :: uint16" "s @ rest"]
  by (simp add: get_text_def put_text_def rd_def unat_of_nat)

lemma sample_codec_ok: "codec_ok sample_codec"
  unfolding codec_ok_def sample_codec_def str_ok_def
  by (simp add: get_put_le get_ip_put get_text_put) (simp add: get_flag_def put_flag_def)

lemma max_str_sample [simp]: "max_str sample_codec = 65535"
  by (simp add: sample_codec_def)

section \<open>Lemmas: encryption\<close>

lemma length_crypt_blocks:
  "(\<And>b. length b = 16 \<Longrightarrow> length (f b) = 16) \<Longrightarrow> length Src = 16 * n \<Longrightarrow>
   length (crypt_blocks f n Src) = 16 * n"
  by (induction n arbitrary: Src) auto

lemma crypt_blocks_inverse:
  assumes "\<And>b. length b = 16 \<Longrightarrow> length (f b) = 16" and "\<And>b. length b = 16 \<Longrightarrow> g (f b) = b"
  shows "length Src = 16 * n \<Longrightarrow> crypt_blocks g n (crypt_blocks f n Src) = Src"
proof (induction n arbitrary: Src)
  case (Suc n)
  then have b: "length (take 16 Src) = 16" and r: "length (drop 16 Src) = 16 * n"
    by auto
  from assms(1) [OF b] have "crypt_blocks g (Suc n) (crypt_blocks f (Suc n) Src) =
      g (f (take 16 Src)) @ crypt_blocks g n (crypt_blocks f n (drop 16 Src))"
    by simp
  also have "\<dots> = Src"
    using assms(2) [OF b] Suc.IH [OF r] by simp
  finally show ?case .
qed simp

lemma padding_size:
  fixes n :: nat
  defines "p \<equiv> (n + 16) div 16 * 16 - n"
  shows "0 < p" and "p \<le> 16" and "n + p = 16 * ((n + 16) div 16)"
  unfolding p_def by linarith+

section \<open>Properties\<close>



text \<open>
  C40: A usage report or a block report is never received: its reader writes a member, so the
  reader fails, or, where such a write returns, the member keeps its old value and the members
  behind it are taken from the wrong place: the UDP bytes from the client are the number of UDP
  channels, the bytes to the client are the bytes from the client, the trigger value of a block is
  its threshold.
\<close>

theorem audit_messages_misread:
  assumes "codec_ok c"
  shows
    "xPP_AuditCollect_Deserialize c False m\<^sub>0 (xPP_AuditCollect_Serialize c m @ rest) = None \<and>
     xPP_AuditCollect_Deserialize c True m\<^sub>0 (xPP_AuditCollect_Serialize c m @ rest) =
       Some (m\<lparr>ac_TotalUdpChannels := ac_TotalUdpChannels m\<^sub>0,
               ac_TotalUdpBytesFromClient := ac_TotalUdpChannels m,
               ac_TotalUdpBytesToClient := ac_TotalUdpBytesFromClient m\<rparr>,
             put_u64 c (ac_TotalUdpBytesToClient m) @ rest) \<and>
     xPP_BlockAccount_Deserialize c False b\<^sub>0 (xPP_BlockAccount_Serialize c b @ rest) = None \<and>
     (\<forall>d left. xPP_BlockAccount_Deserialize c True b\<^sub>0 (xPP_BlockAccount_Serialize c b @ rest) = Some (d, left) \<longrightarrow>
        ba_BlockThreshold d = ba_BlockThreshold b\<^sub>0 \<and> ba_BlockTriggerValue d = ba_BlockThreshold b)"
  using assms
  by (auto simp: wire wire_laws xPP_AuditCollect_Deserialize_def xPP_AuditCollect_Serialize_def
      xPP_BlockAccount_Deserialize_def xPP_BlockAccount_Serialize_def fails_def rd_def [of "get_u32 c"]
      split: option.splits)

theorem audit_messages_misread_witness:
  "xPP_AuditCollect_Deserialize sample_codec True (xPP_AuditCollect.make 0 0 0 0 0 0 0 0 0)
     (xPP_AuditCollect_Serialize sample_codec (xPP_AuditCollect.make 1 2 3 4 5 6 7 8 9) @ []) =
   Some (xPP_AuditCollect.make 1 2 3 4 5 6 0 7 8, put_u64 sample_codec 9)"
  using audit_messages_misread [OF sample_codec_ok, of "xPP_AuditCollect.make 0 0 0 0 0 0 0 0 0"
      "xPP_AuditCollect.make 1 2 3 4 5 6 7 8 9" "[]"]
  by (simp add: xPP_AuditCollect.make_def)

text \<open>
  C38: Under a key of the expected length, decrypting what was encrypted gives the data back,
  whatever its length, the empty data and whole numbers of blocks included, and the cipher text is
  the data padded by one to sixteen bytes.
\<close>

theorem decrypt_encrypt:
  assumes "length AesKey = 128"
    and "\<And>k b. length b = 16 \<Longrightarrow> length (aes_enc k b) = 16"
    and "\<And>k b. length b = 16 \<Longrightarrow> aes_dec k (aes_enc k b) = b"
  shows "\<exists>C. Encrypt aes_enc Data AesKey = Some C \<and> length C = (length Data div 16 + 1) * 16 \<and>
    Decrypt aes_dec C AesKey = Some Data"
proof -
  let ?n = "(length Data + 16) div 16" and ?k = "take 16 AesKey"
  define p where "p = ?n * 16 - length Data"
  note p = padding_size [of "length Data", folded p_def]
  let ?Src = "Data @ replicate p (of_nat p :: byte)"
  let ?C = "crypt_blocks (aes_enc ?k) ?n ?Src"
  have Src: "length ?Src = 16 * ?n"
    using p(3) by simp
  have C: "length ?C = 16 * ?n"
    by (rule length_crypt_blocks [OF _ Src]) (rule assms(2))
  have R: "crypt_blocks (aes_dec ?k) ?n ?C = ?Src"
    by (rule crypt_blocks_inverse [OF _ _ Src]) (rule assms(2), assumption, rule assms(3))
  have last: "16 * ?n - 1 = length Data + (p - 1)"
    using p by linarith
  have "?Src ! (16 * ?n - 1) = of_nat p"
    unfolding last nth_append_length_plus using p(1) by (intro nth_replicate) simp
  moreover have "unat (of_nat p :: byte) = p"
    using p(2) by (simp add: unat_of_nat)
  moreover have "length Data + p = 16 * ?n" "\<not> 16 * ?n < p"
    using p by linarith+
  ultimately have "Decrypt aes_dec ?C AesKey = Some Data"
    using assms(1) p(1) by (simp add: Decrypt_def C R Let_def)
  moreover have "Encrypt aes_enc Data AesKey = Some ?C"
    unfolding Encrypt_def Let_def p_def using assms(1) by simp
  moreover have "16 * ?n = (length Data div 16 + 1) * 16"
    using div_add_self2 [of 16 "length Data"] by simp
  ultimately show ?thesis
    using C by (metis (no_types))
qed

theorem decrypt_encrypt_witness:
  "\<exists>C. Encrypt (\<lambda>k. rev) (str ''hello'') (replicate 128 7) = Some C \<and>
     Decrypt (\<lambda>k. rev) C (replicate 128 7) = Some (str ''hello'')"
  using decrypt_encrypt [of "replicate 128 7" "\<lambda>k. rev" "\<lambda>k. rev" "str ''hello''"] by auto

end
