(* ===== verification/Server_List.thy ===== *)
theory Server_List
  imports Wire_Protocol
begin

text \<open>
  The lists of servers: \<open>s_small_server_list/main.cpp\<close> keeps the registered servers of every group
  and answers downloads, \<open>small_server_list_downloader\<close> asks for the lists of the enabled groups
  and keeps what it was answered, \<open>small_server_list_tcp_client\<close> keeps one connection to every
  server of a list. A server identifier is taken apart by \<open>ExtractServerIdInternal\<close> of \<open>xel\<close>: the
  parameter \<open>ident\<close> gives its group and its number. An assertion that fails, and an access
  outside of an array, is \<open>None\<close>.
\<close>

section \<open>Packets\<close>

text \<open>
  A packet has a command, a request number and a payload; \<open>WriteMessage\<close> builds one when the
  serialised message fits, and a buffer without a packet has size zero.
\<close>

record packet =
  pk_CommandId :: uint32
  pk_RequestId :: uint64
  pk_Payload :: bytes

definition WriteMessage :: "nat \<Rightarrow> uint32 \<Rightarrow> uint64 \<Rightarrow> bytes \<Rightarrow> packet option" where
  "WriteMessage max_payload CommandId RequestId Payload =
     (if length Payload > max_payload then None
      else Some \<lparr>pk_CommandId = CommandId, pk_RequestId = RequestId, pk_Payload = Payload\<rparr>)"

definition Cmd_DownloadSmallServerList :: uint32 where "Cmd_DownloadSmallServerList = 0x1001"
definition Cmd_DownloadSmallServerListResp :: uint32 where "Cmd_DownloadSmallServerListResp = 0x1002"
definition ST_SERVER_LIST :: uint8 where "ST_SERVER_LIST = 0"
definition ST_TARGET_COLLECTOR :: uint8 where "ST_TARGET_COLLECTOR = 1"
definition ST_AUDIT_COLLECTOR :: uint8 where "ST_AUDIT_COLLECTOR = 2"

definition no_server :: xServerInfo where
  "no_server = \<lparr>si_ServerId = 0, si_Address = no_address\<rparr>"

section \<open>The server\<close>

record xBufferedSmallList =
  bl_List :: "xServerInfo list"
  bl_Resp :: "packet option"
  bl_Dirty :: bool
  bl_VersionTimestampMS :: uint64

type_synonym server_list_map = "uint8 \<Rightarrow> xBufferedSmallList option"

definition new_buffered_list :: xBufferedSmallList where
  "new_buffered_list =
     \<lparr>bl_List = replicate MAX_SMALL_SERVER_LIST_SIZE no_server, bl_Resp = None, bl_Dirty = True,
      bl_VersionTimestampMS = 0\<rparr>"

definition EnableServerGroup :: "uint8 \<Rightarrow> server_list_map \<Rightarrow> server_list_map option" where
  "EnableServerGroup G s = (if s G \<noteq> None then None else Some (s(G \<mapsto> new_buffered_list)))"

definition DisableServerGroup :: "uint8 \<Rightarrow> server_list_map \<Rightarrow> server_list_map option" where
  "DisableServerGroup G s = (if s G = None then None else Some (s(G := None)))"

text \<open>The guard of \<open>main\<close> enables its eleven groups, and disables them at the end.\<close>

definition main_groups :: "uint8 list" where
  "main_groups = [0, 1, 2, 3, 4, 5, 6, 7, 8, 9, 10]"

fun each_group :: "(uint8 \<Rightarrow> server_list_map \<Rightarrow> server_list_map option) \<Rightarrow> uint8 list \<Rightarrow> server_list_map \<Rightarrow>
    server_list_map option" where
  "each_group f [] s = Some s"
| "each_group f (G # Gs) s = Option.bind (f G s) (each_group f Gs)"

definition main_EnableGroups :: "server_list_map \<Rightarrow> server_list_map option" where
  "main_EnableGroups s = each_group EnableServerGroup main_groups s"

definition main_DisableGroups :: "server_list_map \<Rightarrow> server_list_map option" where
  "main_DisableGroups s = each_group DisableServerGroup main_groups s"

definition list_message :: "xBufferedSmallList \<Rightarrow> xPP_GetSmallServerListResp" where
  "list_message L =
     \<lparr>sl_VersionTimestampMS = bl_VersionTimestampMS L,
      sl_ServerList = filter (\<lambda>Ref. si_ServerId Ref \<noteq> 0) (bl_List L)\<rparr>"

text \<open>The version is the time, or the next number when the clock has not moved.\<close>

definition next_version :: "uint64 \<Rightarrow> uint64 \<Rightarrow> uint64" where
  "next_version Now Version = (if Now \<le> Version then Version + 1 else Now)"

definition BuildServerListResponse ::
    "codec \<Rightarrow> (bytes \<Rightarrow> bytes) \<Rightarrow> nat \<Rightarrow> uint64 \<Rightarrow> xBufferedSmallList \<Rightarrow> uint64 \<Rightarrow> xBufferedSmallList" where
  "BuildServerListResponse c Md5 max_payload Now L RequestId =
     (let L = (if \<not> bl_Dirty L then L
               else
                 let L = L\<lparr>bl_Dirty := False,
                           bl_VersionTimestampMS := next_version Now (bl_VersionTimestampMS L)\<rparr> in
                 L\<lparr>bl_Resp := WriteMessage max_payload Cmd_DownloadSmallServerListResp 0
                                (xPP_GetSmallServerListResp_Serialize c Md5 (list_message L))\<rparr>)
      in L\<lparr>bl_Resp := map_option (\<lambda>P. P\<lparr>pk_RequestId := RequestId\<rparr>) (bl_Resp L)\<rparr>)"

definition server_slot :: "(uint64 \<Rightarrow> uint8 \<times> uint64) \<Rightarrow> uint64 \<Rightarrow> nat" where
  "server_slot ident ServerId = unat (snd (ident ServerId) - 1)"

definition OnNewServerId ::
    "(uint64 \<Rightarrow> uint8 \<times> uint64) \<Rightarrow> uint64 \<Rightarrow> xNetAddress \<Rightarrow> server_list_map \<Rightarrow> server_list_map option" where
  "OnNewServerId ident ServerId ExportAddress s =
     (let (G, ObjectId) = ident ServerId in
      case s G of
        None \<Rightarrow> None
      | Some L \<Rightarrow>
          if ObjectId = 0 then None
          else
            let Index = server_slot ident ServerId in
            if Index \<ge> MAX_SMALL_SERVER_LIST_SIZE then Some s
            else if si_ServerId (bl_List L ! Index) \<noteq> 0 \<or> addr_ok (si_Address (bl_List L ! Index)) then None
            else Some (s(G \<mapsto> L\<lparr>bl_List := (bl_List L)[Index := \<lparr>si_ServerId = ServerId, si_Address = ExportAddress\<rparr>],
                                bl_Dirty := True\<rparr>)))"

definition OnRemoveServerId ::
    "(uint64 \<Rightarrow> uint8 \<times> uint64) \<Rightarrow> uint64 \<Rightarrow> server_list_map \<Rightarrow> server_list_map option" where
  "OnRemoveServerId ident ServerId s =
     (let (G, ObjectId) = ident ServerId in
      case s G of
        None \<Rightarrow> None
      | Some L \<Rightarrow>
          if ObjectId = 0 then None
          else
            let Index = server_slot ident ServerId in
            if Index \<ge> MAX_SMALL_SERVER_LIST_SIZE then Some s
            else Some (s(G \<mapsto> L\<lparr>bl_List := (bl_List L)[Index := no_server], bl_Dirty := True\<rparr>)))"

text \<open>The packet that is answered, if any, and the lists.\<close>

definition OnDownloadList ::
    "codec \<Rightarrow> (bytes \<Rightarrow> bytes) \<Rightarrow> nat \<Rightarrow> uint64 \<Rightarrow> packet \<Rightarrow> server_list_map \<Rightarrow>
     packet option \<times> server_list_map" where
  "OnDownloadList c Md5 max_payload Now P s =
     (if pk_CommandId P \<noteq> Cmd_DownloadSmallServerList then (None, s)
      else case xPP_GetSmallServerList_Deserialize c (pk_Payload P) of
        None \<Rightarrow> (None, s)
      | Some (Req, _) \<Rightarrow>
          (case s (gl_ServerGroup Req) of
             None \<Rightarrow> (None, s)
           | Some L \<Rightarrow>
               let L = BuildServerListResponse c Md5 max_payload Now L (pk_RequestId P) in
               (bl_Resp L, s(gl_ServerGroup Req \<mapsto> L))))"

section \<open>The downloader\<close>

record xEnabledServerGroupNode =
  gn_Enabled :: bool
  gn_ServerGroup :: uint8
  gn_VersionTimestampMS :: uint64
  gn_LastUpdateTimestampMS :: uint64
  gn_ServerListSize :: nat
  gn_ServerList :: "xServerInfo list option"

datatype download_output =
    Dl_Post xNetAddress packet
  | Dl_Updated uint8 "xServerInfo list" uint64

record downloader =
  dl_LocalTicker :: uint64
  dl_MasterAddress :: xNetAddress
  dl_ServerListServerList :: "xNetAddress list"
  dl_EnabledServerGroupList :: "nat list"
  dl_EnabledServerGroupMap :: "xEnabledServerGroupNode list"
  dl_LastUpdateSlaveListMS :: uint64
  dl_Out :: "download_output list"

definition UPDATE_SERVER_LIST_TIMEOUT_MS :: uint64 where "UPDATE_SERVER_LIST_TIMEOUT_MS = 900000"

definition new_group_node :: xEnabledServerGroupNode where
  "new_group_node =
     \<lparr>gn_Enabled = False, gn_ServerGroup = 0, gn_VersionTimestampMS = 0, gn_LastUpdateTimestampMS = 0,
      gn_ServerListSize = 0, gn_ServerList = None\<rparr>"

definition new_downloader :: "uint64 \<Rightarrow> downloader" where
  "new_downloader Now =
     \<lparr>dl_LocalTicker = Now, dl_MasterAddress = no_address, dl_ServerListServerList = [],
      dl_EnabledServerGroupList = [],
      dl_EnabledServerGroupMap = replicate MAX_SMALL_SERVER_LIST_SIZE new_group_node,
      dl_LastUpdateSlaveListMS = 0, dl_Out = []\<rparr>"

definition downloader_Init :: "bool \<Rightarrow> xNetAddress \<Rightarrow> downloader \<Rightarrow> bool \<times> downloader" where
  "downloader_Init udp_ok ServerListServerAddress s =
     (if \<not> udp_ok then (False, s\<lparr>dl_MasterAddress := no_address\<rparr>)
      else (True, s\<lparr>dl_MasterAddress := ServerListServerAddress\<rparr>))"

text \<open>The node of a group, and a write to it; a group outside of the map is out of bounds.\<close>

definition group_node :: "downloader \<Rightarrow> nat \<Rightarrow> xEnabledServerGroupNode option" where
  "group_node s G =
     (if G < length (dl_EnabledServerGroupMap s) then Some (dl_EnabledServerGroupMap s ! G) else None)"

definition set_group_node :: "nat \<Rightarrow> xEnabledServerGroupNode \<Rightarrow> downloader \<Rightarrow> downloader" where
  "set_group_node G N s = s\<lparr>dl_EnabledServerGroupMap := (dl_EnabledServerGroupMap s)[G := N]\<rparr>"

definition downloader_EnableServerGroup :: "uint8 \<Rightarrow> downloader \<Rightarrow> downloader option" where
  "downloader_EnableServerGroup G s =
     (case group_node s (unat G) of
        None \<Rightarrow> None
      | Some N \<Rightarrow>
          if G = ST_SERVER_LIST then None
          else if gn_Enabled N \<or> unat G \<in> set (dl_EnabledServerGroupList s) \<or> gn_ServerList N \<noteq> None \<or>
                  gn_ServerGroup N \<noteq> 0 then None
          else
            Some (set_group_node (unat G)
              (N\<lparr>gn_Enabled := True, gn_ServerGroup := G,
                 gn_ServerList := Some (replicate MAX_SMALL_SERVER_LIST_SIZE no_server),
                 gn_ServerListSize := 0\<rparr>)
              (s\<lparr>dl_EnabledServerGroupList := add_tail (dl_EnabledServerGroupList s) (unat G)\<rparr>)))"

definition downloader_DisableServerGroup :: "nat \<Rightarrow> downloader \<Rightarrow> downloader option" where
  "downloader_DisableServerGroup G s =
     (case group_node s G of
        None \<Rightarrow> None
      | Some N \<Rightarrow>
          if \<not> (gn_Enabled N \<and> G \<in> set (dl_EnabledServerGroupList s) \<and> gn_ServerList N \<noteq> None \<and>
                 gn_ServerGroup N \<noteq> 0) then None
          else
            Some (set_group_node G
              (N\<lparr>gn_Enabled := False, gn_ServerGroup := 0, gn_LastUpdateTimestampMS := 0,
                 gn_ServerListSize := 0, gn_ServerList := None\<rparr>)
              (s\<lparr>dl_EnabledServerGroupList := removeAll G (dl_EnabledServerGroupList s)\<rparr>)))"

fun disable_groups :: "nat list \<Rightarrow> downloader \<Rightarrow> downloader option" where
  "disable_groups [] s = Some s"
| "disable_groups (I # Is) s =
     (case group_node s I of
        None \<Rightarrow> None
      | Some N \<Rightarrow>
          if gn_Enabled N then Option.bind (downloader_DisableServerGroup I s) (disable_groups Is)
          else disable_groups Is s)"

definition downloader_Clean :: "downloader \<Rightarrow> downloader option" where
  "downloader_Clean s =
     map_option (\<lambda>s. s\<lparr>dl_MasterAddress := no_address\<rparr>)
       (disable_groups [0..<MAX_SMALL_SERVER_LIST_SIZE] s)"

definition GetServerListView :: "downloader \<Rightarrow> uint8 \<Rightarrow> xServerInfo list option" where
  "GetServerListView s G =
     (case group_node s (unat G) of
        None \<Rightarrow> None
      | Some N \<Rightarrow>
          if \<not> gn_Enabled N then Some []
          else map_option (take (gn_ServerListSize N)) (gn_ServerList N))"

text \<open>\<open>Random\<close> is the number that the generator gives for the size of the list.\<close>

definition SelectServerListServer :: "(nat \<Rightarrow> nat) \<Rightarrow> downloader \<Rightarrow> xNetAddress" where
  "SelectServerListServer Random s =
     (let n = length (dl_ServerListServerList s) in
      if n \<noteq> 0 then dl_ServerListServerList s ! Random n else dl_MasterAddress s)"

definition list_request :: "codec \<Rightarrow> uint8 \<Rightarrow> packet" where
  "list_request c G =
     \<lparr>pk_CommandId = Cmd_DownloadSmallServerList, pk_RequestId = ucast G,
      pk_Payload = xPP_GetSmallServerList_Serialize c \<lparr>gl_ServerGroup = G\<rparr>\<rparr>"

definition downloader_post :: "xNetAddress \<Rightarrow> packet \<Rightarrow> downloader \<Rightarrow> downloader" where
  "downloader_post Address P s = s\<lparr>dl_Out := dl_Out s @ [Dl_Post Address P]\<rparr>"

definition UpdateServerListSlaveList :: "codec \<Rightarrow> downloader \<Rightarrow> downloader" where
  "UpdateServerListSlaveList c s =
     (let NowMS = dl_LocalTicker s in
      if dl_LastUpdateSlaveListMS s > NowMS - UPDATE_SERVER_LIST_TIMEOUT_MS then s
      else downloader_post (dl_MasterAddress s) (list_request c ST_SERVER_LIST)
             (s\<lparr>dl_LastUpdateSlaveListMS := NowMS\<rparr>))"

definition UpdateOneEnabledServerList :: "codec \<Rightarrow> (nat \<Rightarrow> nat) \<Rightarrow> downloader \<Rightarrow> downloader option" where
  "UpdateOneEnabledServerList c Random s =
     (let NowMS = dl_LocalTicker s; Timepoint = NowMS - UPDATE_SERVER_LIST_TIMEOUT_MS in
      case dl_EnabledServerGroupList s of
        [] \<Rightarrow> Some s
      | G # q \<Rightarrow>
          (case group_node s G of
             None \<Rightarrow> None
           | Some N \<Rightarrow>
               if \<not> gn_LastUpdateTimestampMS N \<le> Timepoint then Some s
               else
                 let s = set_group_node G (N\<lparr>gn_LastUpdateTimestampMS := NowMS\<rparr>)
                           (s\<lparr>dl_EnabledServerGroupList := add_tail q G\<rparr>) in
                 Some (downloader_post (SelectServerListServer Random s) (list_request c (gn_ServerGroup N)) s)))"

definition downloader_Tick :: "codec \<Rightarrow> (nat \<Rightarrow> nat) \<Rightarrow> uint64 \<Rightarrow> downloader \<Rightarrow> downloader option" where
  "downloader_Tick c Random NowMS s =
     UpdateOneEnabledServerList c Random (UpdateServerListSlaveList c (s\<lparr>dl_LocalTicker := NowMS\<rparr>))"

definition downloader_OnUdpPacket ::
    "codec \<Rightarrow> (bytes \<Rightarrow> bytes) \<Rightarrow> bytes \<Rightarrow> packet \<Rightarrow> downloader \<Rightarrow> downloader option" where
  "downloader_OnUdpPacket c Md5 beyond P s =
     (if pk_CommandId P \<noteq> Cmd_DownloadSmallServerListResp \<or>
         pk_RequestId P > of_nat MAX_SMALL_SERVER_LIST_SIZE then Some s
      else case xPP_GetSmallServerListResp_Deserialize c Md5 beyond (pk_Payload P) of
        None \<Rightarrow> Some s
      | Some (Resp, _) \<Rightarrow>
          let G = ucast (pk_RequestId P) :: uint8 in
          (case group_node s (unat G) of
             None \<Rightarrow> None
           | Some N \<Rightarrow>
               if \<not> gn_Enabled N then Some s
               else if gn_VersionTimestampMS N = sl_VersionTimestampMS Resp then Some s
               else case gn_ServerList N of
                 None \<Rightarrow> None
               | Some L \<Rightarrow>
                   let n = length (sl_ServerList Resp);
                       s = set_group_node (unat G)
                         (N\<lparr>gn_ServerList := Some (sl_ServerList Resp @ drop n L), gn_ServerListSize := n,
                            gn_VersionTimestampMS := sl_VersionTimestampMS Resp\<rparr>) s in
                   Some (s\<lparr>dl_Out := dl_Out s @ [Dl_Updated G (sl_ServerList Resp) (sl_VersionTimestampMS Resp)]\<rparr>)))"

section \<open>Connections to the servers of a list\<close>

text \<open>
  A pool of client connections: \<open>AddServer\<close> gives the identifier that \<open>alloc\<close> chooses, zero when
  there is none left, and the pool reconnects to the address until \<open>RemoveServer\<close>.
\<close>

type_synonym client_pool = "uint64 \<Rightarrow> xNetAddress option"

definition AddServer :: "(uint64 set \<Rightarrow> uint64) \<Rightarrow> xNetAddress \<Rightarrow> client_pool \<Rightarrow> (uint64 \<times> client_pool) option" where
  "AddServer alloc Address p =
     (let i = alloc (dom p) in if i = 0 then None else Some (i, p(i \<mapsto> Address)))"

definition RemoveServer :: "uint64 \<Rightarrow> client_pool \<Rightarrow> client_pool" where
  "RemoveServer ConnectionId p = p(ConnectionId := None)"

record xServerLocalInfo =
  sv_ConnectionId :: uint64
  sv_ServerInfo :: xServerInfo

record tcp_client =
  tl_ServerInfoContainer :: "xServerLocalInfo list"
  tl_PackedServerList :: "nat list"
  tl_NextPostDataServerIndex :: uint64
  tl_ClientPool :: client_pool
  tl_Out :: "(uint64 \<times> packet) list"

definition new_tcp_client :: tcp_client where
  "new_tcp_client =
     \<lparr>tl_ServerInfoContainer =
        replicate MAX_SMALL_SERVER_LIST_SIZE \<lparr>sv_ConnectionId = 0, sv_ServerInfo = no_server\<rparr>,
      tl_PackedServerList = [], tl_NextPostDataServerIndex = 0, tl_ClientPool = Map.empty, tl_Out = []\<rparr>"

definition ExtractIndexFromSmallServerId :: "(uint64 \<Rightarrow> uint8 \<times> uint64) \<Rightarrow> uint64 \<Rightarrow> nat option" where
  "ExtractIndexFromSmallServerId ident ServerId =
     (if ServerId = 0 \<or> snd (ident ServerId) = 0 then None
      else Some (unat (ucast (snd (ident ServerId) - 1) :: uint32)))"

text \<open>The array of the new servers by their index, with the indices in the order of the list.\<close>

fun place_servers ::
    "(uint64 \<Rightarrow> uint8 \<times> uint64) \<Rightarrow> xServerInfo list \<Rightarrow> xServerInfo list \<Rightarrow> nat list \<Rightarrow>
     (xServerInfo list \<times> nat list) option" where
  "place_servers ident [] A Packed = Some (A, Packed)"
| "place_servers ident (SI # Sis) A Packed =
     (case ExtractIndexFromSmallServerId ident (si_ServerId SI) of
        None \<Rightarrow> None
      | Some Index \<Rightarrow>
          if Index \<ge> MAX_SMALL_SERVER_LIST_SIZE \<or> length Packed \<ge> MAX_SMALL_SERVER_LIST_SIZE then None
          else place_servers ident Sis (A[Index := SI]) (Packed @ [Index]))"

text \<open>One slot: keep, replace, remove or add the connection.\<close>

definition connect_slot ::
    "(uint64 set \<Rightarrow> uint64) \<Rightarrow> xServerLocalInfo \<Rightarrow> xServerInfo \<Rightarrow> client_pool \<Rightarrow>
     (xServerLocalInfo \<times> client_pool) option" where
  "connect_slot alloc Old New p =
     (if si_ServerId New = 0 then Some (Old, p)
      else case AddServer alloc (si_Address New) p of
        None \<Rightarrow> None
      | Some (i, p) \<Rightarrow> Some (Old\<lparr>sv_ConnectionId := i, sv_ServerInfo := New\<rparr>, p))"

definition update_slot ::
    "(uint64 set \<Rightarrow> uint64) \<Rightarrow> xServerLocalInfo \<Rightarrow> xServerInfo \<Rightarrow> client_pool \<Rightarrow>
     (xServerLocalInfo \<times> client_pool) option" where
  "update_slot alloc Old New p =
     (if sv_ConnectionId Old \<noteq> 0 then
        if New = sv_ServerInfo Old then Some (Old, p)
        else connect_slot alloc (Old\<lparr>sv_ConnectionId := 0\<rparr>) New (RemoveServer (sv_ConnectionId Old) p)
      else connect_slot alloc Old New p)"

fun update_slots ::
    "(uint64 set \<Rightarrow> uint64) \<Rightarrow> xServerLocalInfo list \<Rightarrow> xServerInfo list \<Rightarrow> client_pool \<Rightarrow>
     (xServerLocalInfo list \<times> client_pool) option" where
  "update_slots alloc (Old # Olds) (New # News) p =
     (case update_slot alloc Old New p of
        None \<Rightarrow> None
      | Some (Slot, p) \<Rightarrow> map_option (\<lambda>(Slots, p). (Slot # Slots, p)) (update_slots alloc Olds News p))"
| "update_slots alloc _ _ p = Some ([], p)"

definition UpdateServerList ::
    "(uint64 set \<Rightarrow> uint64) \<Rightarrow> (uint64 \<Rightarrow> uint8 \<times> uint64) \<Rightarrow> xServerInfo list \<Rightarrow> tcp_client \<Rightarrow> tcp_client option" where
  "UpdateServerList alloc ident ServerInfoList s =
     (case place_servers ident ServerInfoList (replicate MAX_SMALL_SERVER_LIST_SIZE no_server) [] of
        None \<Rightarrow> None
      | Some (NewServerArray, Packed) \<Rightarrow>
          (case update_slots alloc (tl_ServerInfoContainer s) NewServerArray (tl_ClientPool s) of
             None \<Rightarrow> None
           | Some (Slots, p) \<Rightarrow>
               Some (s\<lparr>tl_PackedServerList := Packed, tl_ServerInfoContainer := Slots, tl_ClientPool := p\<rparr>)))"

definition client_PostMessage :: "uint32 \<Rightarrow> packet \<Rightarrow> tcp_client \<Rightarrow> tcp_client option" where
  "client_PostMessage Hash P s =
     (let n = length (tl_PackedServerList s) in
      if n = 0 then Some s
      else
        let Info = tl_ServerInfoContainer s ! (tl_PackedServerList s ! (unat Hash mod n)) in
        if sv_ConnectionId Info = 0 then None
        else Some (s\<lparr>tl_Out := tl_Out s @ [(sv_ConnectionId Info, P)]\<rparr>))"

definition client_PostMessage_next :: "packet \<Rightarrow> tcp_client \<Rightarrow> tcp_client option" where
  "client_PostMessage_next P s =
     client_PostMessage (ucast (tl_NextPostDataServerIndex s)) P
       (s\<lparr>tl_NextPostDataServerIndex := tl_NextPostDataServerIndex s + 1\<rparr>)"

section \<open>Lemmas: the server\<close>

text \<open>
  Every slot of a list holds a server of the group with the number of the slot, and a list that is
  not dirty has the answer of its servers built.
\<close>

definition slots_ok :: "(uint64 \<Rightarrow> uint8 \<times> uint64) \<Rightarrow> uint8 \<Rightarrow> xServerInfo list \<Rightarrow> bool" where
  "slots_ok ident G Ss \<longleftrightarrow>
     length Ss = MAX_SMALL_SERVER_LIST_SIZE \<and>
     (\<forall>i < MAX_SMALL_SERVER_LIST_SIZE. si_ServerId (Ss ! i) \<noteq> 0 \<longrightarrow>
        ident (si_ServerId (Ss ! i)) = (G, of_nat (Suc i)) \<and> addr_wf (si_Address (Ss ! i)))"

definition built_response ::
    "codec \<Rightarrow> (bytes \<Rightarrow> bytes) \<Rightarrow> nat \<Rightarrow> uint64 \<Rightarrow> xBufferedSmallList \<Rightarrow> packet option" where
  "built_response c Md5 max_payload RequestId L =
     WriteMessage max_payload Cmd_DownloadSmallServerListResp RequestId
       (xPP_GetSmallServerListResp_Serialize c Md5 (list_message L))"

definition list_inv ::
    "codec \<Rightarrow> (bytes \<Rightarrow> bytes) \<Rightarrow> nat \<Rightarrow> (uint64 \<Rightarrow> uint8 \<times> uint64) \<Rightarrow> uint8 \<Rightarrow> xBufferedSmallList \<Rightarrow> bool" where
  "list_inv c Md5 max_payload ident G L \<longleftrightarrow>
     slots_ok ident G (bl_List L) \<and>
     (\<not> bl_Dirty L \<longrightarrow> (\<exists>RequestId. bl_Resp L = built_response c Md5 max_payload RequestId L))"

definition lists_inv ::
    "codec \<Rightarrow> (bytes \<Rightarrow> bytes) \<Rightarrow> nat \<Rightarrow> (uint64 \<Rightarrow> uint8 \<times> uint64) \<Rightarrow> server_list_map \<Rightarrow> bool" where
  "lists_inv c Md5 max_payload ident s \<longleftrightarrow>
     (\<forall>G L. s G = Some L \<longrightarrow> list_inv c Md5 max_payload ident G L)"

lemma lists_invD: "lists_inv c Md5 mp ident s \<Longrightarrow> s G = Some L \<Longrightarrow> list_inv c Md5 mp ident G L"
  by (simp add: lists_inv_def)

lemma registered_lists_upd [inv_intros]:
  "lists_inv c Md5 mp ident s \<Longrightarrow> list_inv c Md5 mp ident G L \<Longrightarrow> lists_inv c Md5 mp ident (s(G \<mapsto> L))"
  by (simp add: lists_inv_def)

lemma new_buffered_list_inv [inv_intros]: "list_inv c Md5 mp ident G new_buffered_list"
  by (simp add: list_inv_def new_buffered_list_def slots_ok_def no_server_def)

lemma EnableServerGroup_inv [inv_intros]:
  "lists_inv c Md5 mp ident s \<Longrightarrow> EnableServerGroup G s = Some t \<Longrightarrow> lists_inv c Md5 mp ident t"
  by (auto simp: EnableServerGroup_def registered_lists_upd new_buffered_list_inv split: if_splits)

lemma DisableServerGroup_inv [inv_intros]:
  "lists_inv c Md5 mp ident s \<Longrightarrow> DisableServerGroup G s = Some t \<Longrightarrow> lists_inv c Md5 mp ident t"
  by (auto simp: DisableServerGroup_def lists_inv_def split: if_splits)

text \<open>What building leaves: a clean list with the same servers and the answer to the request.\<close>

lemma BuildServerListResponse_fields:
  "bl_List (BuildServerListResponse c Md5 mp Now L RequestId) = bl_List L"
  "\<not> bl_Dirty (BuildServerListResponse c Md5 mp Now L RequestId)"
  "bl_VersionTimestampMS (BuildServerListResponse c Md5 mp Now L RequestId) =
     (if bl_Dirty L then next_version Now (bl_VersionTimestampMS L) else bl_VersionTimestampMS L)"
  by (simp_all add: BuildServerListResponse_def Let_def)

lemma list_message_same:
  "bl_List L = bl_List M \<Longrightarrow> bl_VersionTimestampMS L = bl_VersionTimestampMS M \<Longrightarrow>
   list_message L = list_message M"
  by (simp add: list_message_def)

lemma set_request_WriteMessage:
  "map_option (\<lambda>P. P\<lparr>pk_RequestId := r\<rparr>) (WriteMessage mp cmd r' Payload) = WriteMessage mp cmd r Payload"
  by (simp add: WriteMessage_def)

lemma built_response_fields:
  "built_response c Md5 mp r (L\<lparr>bl_Dirty := d, bl_Resp := R\<rparr>) = built_response c Md5 mp r L"
  "built_response c Md5 mp r (L\<lparr>bl_Resp := R\<rparr>) = built_response c Md5 mp r L"
  by (simp_all add: built_response_def list_message_def)

lemma BuildServerListResponse_dirty:
  assumes "bl_Dirty L"
  shows "BuildServerListResponse c Md5 mp Now L r =
    (let M = L\<lparr>bl_Dirty := False, bl_VersionTimestampMS := next_version Now (bl_VersionTimestampMS L)\<rparr>
     in M\<lparr>bl_Resp := built_response c Md5 mp r M\<rparr>)"
  using assms unfolding BuildServerListResponse_def Let_def built_response_def
  by (simp add: set_request_WriteMessage)

lemma BuildServerListResponse_clean:
  assumes "\<not> bl_Dirty L"
  shows "BuildServerListResponse c Md5 mp Now L r =
    L\<lparr>bl_Resp := map_option (\<lambda>P. P\<lparr>pk_RequestId := r\<rparr>) (bl_Resp L)\<rparr>"
  using assms unfolding BuildServerListResponse_def Let_def by simp

lemma BuildServerListResponse_Resp:
  assumes "list_inv c Md5 mp ident G L"
  shows "bl_Resp (BuildServerListResponse c Md5 mp Now L RequestId) =
    built_response c Md5 mp RequestId (BuildServerListResponse c Md5 mp Now L RequestId)"
proof (cases "bl_Dirty L")
  case True
  then show ?thesis
    unfolding BuildServerListResponse_dirty [OF True] Let_def built_response_fields by simp
next
  case False
  with assms obtain r where r: "bl_Resp L = built_response c Md5 mp r L"
    by (auto simp: list_inv_def)
  have "map_option (\<lambda>P. P\<lparr>pk_RequestId := RequestId\<rparr>) (built_response c Md5 mp r L) =
      built_response c Md5 mp RequestId L"
    unfolding built_response_def by (rule set_request_WriteMessage)
  then show ?thesis
    unfolding BuildServerListResponse_clean [OF False] built_response_fields by (simp add: r)
qed

lemma BuildServerListResponse_inv [inv_intros]:
  assumes "list_inv c Md5 mp ident G L"
  shows "list_inv c Md5 mp ident G (BuildServerListResponse c Md5 mp Now L RequestId)"
  using BuildServerListResponse_Resp [OF assms, where Now = Now and RequestId = RequestId] assms
  by (auto simp: list_inv_def BuildServerListResponse_fields)

lemma server_slot_Suc:
  "snd (ident Sid) \<noteq> 0 \<Longrightarrow> of_nat (Suc (server_slot ident Sid)) = snd (ident Sid)"
  unfolding server_slot_def by (simp add: of_nat_unat)

lemma slots_ok_update:
  assumes "slots_ok ident G Ss" and "i < MAX_SMALL_SERVER_LIST_SIZE"
    and "si_ServerId x \<noteq> 0 \<Longrightarrow> ident (si_ServerId x) = (G, of_nat (Suc i)) \<and> addr_wf (si_Address x)"
  shows "slots_ok ident G (Ss[i := x])"
proof -
  have len: "i < length Ss"
    using assms(1,2) by (simp add: slots_ok_def)
  have "si_ServerId (Ss[i := x] ! j) \<noteq> 0 \<longrightarrow>
      ident (si_ServerId (Ss[i := x] ! j)) = (G, of_nat (Suc j)) \<and> addr_wf (si_Address (Ss[i := x] ! j))"
    if "j < MAX_SMALL_SERVER_LIST_SIZE" for j
    using assms that len by (cases "j = i") (auto simp: slots_ok_def)
  then show ?thesis
    using assms(1) by (simp add: slots_ok_def)
qed

lemma list_inv_update:
  assumes "list_inv c Md5 mp ident G L" and "i < MAX_SMALL_SERVER_LIST_SIZE"
    and "si_ServerId x \<noteq> 0 \<Longrightarrow> ident (si_ServerId x) = (G, of_nat (Suc i)) \<and> addr_wf (si_Address x)"
  shows "list_inv c Md5 mp ident G (L\<lparr>bl_List := (bl_List L)[i := x], bl_Dirty := True\<rparr>)"
  using assms(1) slots_ok_update [of ident G "bl_List L" i x] assms(2,3) by (auto simp: list_inv_def)

lemma OnNewServerId_inv [inv_intros]:
  assumes "lists_inv c Md5 mp ident s" and "OnNewServerId ident Sid A s = Some t" and "addr_wf A"
  shows "lists_inv c Md5 mp ident t"
proof -
  obtain G n where e: "ident Sid = (G, n)" by fastforce
  with assms(2) obtain L where L: "s G = Some L" and n: "n \<noteq> 0"
    by (auto simp: OnNewServerId_def Let_def split: option.splits if_splits)
  note inv = lists_invD [OF assms(1) L]
  show ?thesis
  proof (cases "server_slot ident Sid < MAX_SMALL_SERVER_LIST_SIZE")
    case True
    let ?L = "L\<lparr>bl_List := (bl_List L)[server_slot ident Sid := \<lparr>si_ServerId = Sid, si_Address = A\<rparr>], bl_Dirty := True\<rparr>"
    have "t = s(G \<mapsto> ?L)"
      using assms(2) e L n True by (auto simp: OnNewServerId_def Let_def split: if_splits)
    moreover have "list_inv c Md5 mp ident G ?L"
      by (rule list_inv_update [OF inv True]) (simp add: server_slot_Suc e n assms(3) del: of_nat_Suc)
    ultimately show ?thesis
      using assms(1) by (simp add: registered_lists_upd)
  next
    case False
    then have "t = s"
      using assms(2) e L n by (auto simp: OnNewServerId_def Let_def split: if_splits)
    with assms(1) show ?thesis by simp
  qed
qed

lemma OnRemoveServerId_inv [inv_intros]:
  assumes "lists_inv c Md5 mp ident s" and "OnRemoveServerId ident Sid s = Some t"
  shows "lists_inv c Md5 mp ident t"
proof -
  obtain G n where e: "ident Sid = (G, n)" by fastforce
  with assms(2) obtain L where L: "s G = Some L" and n: "n \<noteq> 0"
    by (auto simp: OnRemoveServerId_def Let_def split: option.splits if_splits)
  have "list_inv c Md5 mp ident G (L\<lparr>bl_List := (bl_List L)[server_slot ident Sid := no_server], bl_Dirty := True\<rparr>)"
    if "server_slot ident Sid < MAX_SMALL_SERVER_LIST_SIZE"
    by (rule list_inv_update [OF lists_invD [OF assms(1) L] that]) (simp add: no_server_def)
  then show ?thesis
    using assms e L n by (auto simp: OnRemoveServerId_def Let_def registered_lists_upd split: if_splits)
qed

lemma OnDownloadList_inv [inv_intros]:
  "lists_inv c Md5 mp ident s \<Longrightarrow> lists_inv c Md5 mp ident (snd (OnDownloadList c Md5 mp Now P s))"
  by (auto simp: OnDownloadList_def Let_def intro!: registered_lists_upd BuildServerListResponse_inv
      dest: lists_invD split: option.splits)

section \<open>Lemmas: versions\<close>

datatype list_event =
    New_Server uint64 xNetAddress
  | Remove_Server uint64
  | Download uint64 packet

fun event_time :: "list_event \<Rightarrow> uint64" where
  "event_time (Download Now P) = Now"
| "event_time _ = 0"

fun list_step ::
    "codec \<Rightarrow> (bytes \<Rightarrow> bytes) \<Rightarrow> nat \<Rightarrow> (uint64 \<Rightarrow> uint8 \<times> uint64) \<Rightarrow> list_event \<Rightarrow> server_list_map \<Rightarrow>
     server_list_map option" where
  "list_step c Md5 mp ident (New_Server Sid A) s = OnNewServerId ident Sid A s"
| "list_step c Md5 mp ident (Remove_Server Sid) s = OnRemoveServerId ident Sid s"
| "list_step c Md5 mp ident (Download Now P) s = Some (snd (OnDownloadList c Md5 mp Now P s))"

fun list_run ::
    "codec \<Rightarrow> (bytes \<Rightarrow> bytes) \<Rightarrow> nat \<Rightarrow> (uint64 \<Rightarrow> uint8 \<times> uint64) \<Rightarrow> list_event list \<Rightarrow> server_list_map \<Rightarrow>
     server_list_map option" where
  "list_run c Md5 mp ident [] s = Some s"
| "list_run c Md5 mp ident (e # es) s =
     Option.bind (list_step c Md5 mp ident e s) (list_run c Md5 mp ident es)"

text \<open>A step of one list: it is marked dirty, or built, or stays.\<close>

lemma list_step_cases:
  assumes "list_step c Md5 mp ident e s = Some t" and "s G = Some L"
  shows "\<exists>M. t G = Some M \<and>
    ((bl_Dirty M \<and> bl_VersionTimestampMS M = bl_VersionTimestampMS L) \<or> M = L \<or>
     (\<exists>r. M = BuildServerListResponse c Md5 mp (event_time e) L r))"
proof (cases e)
  case (New_Server Sid A)
  obtain H n where "ident Sid = (H, n)" by fastforce
  then show ?thesis
    using assms New_Server
    by (cases "G = H") (auto simp: OnNewServerId_def Let_def split: option.splits if_splits)
next
  case (Remove_Server Sid)
  obtain H n where "ident Sid = (H, n)" by fastforce
  then show ?thesis
    using assms Remove_Server
    by (cases "G = H") (auto simp: OnRemoveServerId_def Let_def split: option.splits if_splits)
next
  case (Download Now P)
  then have "t G = Some L \<or> (\<exists>r. t G = Some (BuildServerListResponse c Md5 mp (event_time e) L r))"
    using assms by (fastforce simp: OnDownloadList_def Let_def split: option.splits if_splits)
  then show ?thesis
    by blast
qed

lemma next_version_later:
  "unat v < 2 ^ 64 - 1 \<Longrightarrow> v < next_version Now v"
  by (auto simp: next_version_def word_less_nat_alt unat_plus_if' word_le_nat_alt)

lemma unat_next_version:
  "unat v < 2 ^ 64 - 1 \<Longrightarrow> unat (next_version Now v) \<le> max (unat Now) (unat v + 1)"
  by (auto simp: next_version_def unat_plus_if')

definition later_list :: "xBufferedSmallList \<Rightarrow> xBufferedSmallList \<Rightarrow> bool" where
  "later_list L M \<longleftrightarrow>
     bl_VersionTimestampMS L < bl_VersionTimestampMS M \<or>
     (bl_VersionTimestampMS M = bl_VersionTimestampMS L \<and> (bl_Dirty M \<or> bl_List M = bl_List L))"

lemma list_run_later:
  assumes "list_run c Md5 mp ident es s = Some t" and "s G = Some M" and "later_list L M"
    and "unat (bl_VersionTimestampMS M) + length es < 2 ^ 64 - 1"
    and "\<forall>e \<in> set es. unat (event_time e) + length es < 2 ^ 64 - 1"
  shows "\<exists>N. t G = Some N \<and> later_list L N"
  using assms
proof (induction es arbitrary: s M)
  case (Cons e es)
  from Cons.prems(1) obtain u where u: "list_step c Md5 mp ident e s = Some u"
    and t: "list_run c Md5 mp ident es u = Some t"
    by (auto simp: bind_eq_Some_conv)
  obtain N where N: "u G = Some N" and
    cases: "(bl_Dirty N \<and> bl_VersionTimestampMS N = bl_VersionTimestampMS M) \<or> N = M \<or>
      (\<exists>r. N = BuildServerListResponse c Md5 mp (event_time e) M r)"
    using list_step_cases [OF u Cons.prems(2)] by blast
  let ?v = "bl_VersionTimestampMS M"
  have small: "unat ?v < 2 ^ 64 - 1"
    using Cons.prems(4) by simp
  have "later_list L N \<and> unat (bl_VersionTimestampMS N) + length es < 2 ^ 64 - 1"
  proof (cases "N = M \<or> bl_Dirty N")
    case True
    then show ?thesis
      using cases Cons.prems(3,4) by (auto simp: later_list_def BuildServerListResponse_fields)
  next
    case False
    with cases obtain r where r: "N = BuildServerListResponse c Md5 mp (event_time e) M r"
      by auto
    show ?thesis
    proof (cases "bl_Dirty M")
      case True
      have v: "bl_VersionTimestampMS N = next_version (event_time e) ?v"
        using True by (simp add: r BuildServerListResponse_fields)
      have "bl_VersionTimestampMS L < bl_VersionTimestampMS N"
        unfolding v using next_version_later [OF small] Cons.prems(3)
        by (auto simp: later_list_def intro: order.strict_trans)
      moreover have "unat (event_time e) + length es < 2 ^ 64 - 1"
        using Cons.prems(5) by simp
      ultimately show ?thesis
        using unat_next_version [OF small, of "event_time e"] Cons.prems(4)
        by (simp add: later_list_def v)
    next
      case False
      then show ?thesis
        using Cons.prems(3,4) by (simp add: r later_list_def BuildServerListResponse_fields)
    qed
  qed
  then show ?case
    using Cons.IH [OF t N] Cons.prems(5) by fastforce
qed simp

section \<open>Lemmas: the downloader\<close>

lemma unat_group_request [simp]: "unat (ucast (G :: uint8) :: uint64) = unat G"
proof -
  have "unat G < 2 ^ 8"
    using unsigned_less [of G] by simp
  then show ?thesis
    by (simp add: unsigned_ucast_eq take_bit_nat_eq_self)
qed

lemma unat_request_group: "unat (r :: uint64) \<le> 128 \<Longrightarrow> unat (ucast r :: uint8) = unat r"
  by (simp add: unsigned_ucast_eq take_bit_nat_eq_self)

definition node_ok :: "nat \<Rightarrow> bool \<Rightarrow> xEnabledServerGroupNode \<Rightarrow> bool" where
  "node_ok G linked N \<longleftrightarrow>
     gn_Enabled N = linked \<and>
     (linked \<longrightarrow> gn_ServerGroup N = of_nat G \<and> 0 < G \<and> gn_ServerListSize N \<le> MAX_SMALL_SERVER_LIST_SIZE \<and>
        (\<exists>L. gn_ServerList N = Some L \<and> length L = MAX_SMALL_SERVER_LIST_SIZE)) \<and>
     (\<not> linked \<longrightarrow> gn_ServerGroup N = 0 \<and> gn_ServerList N = None)"

definition downloader_inv :: "downloader \<Rightarrow> bool" where
  "downloader_inv s \<longleftrightarrow>
     length (dl_EnabledServerGroupMap s) = MAX_SMALL_SERVER_LIST_SIZE \<and>
     distinct (dl_EnabledServerGroupList s) \<and>
     (\<forall>G \<in> set (dl_EnabledServerGroupList s). G < MAX_SMALL_SERVER_LIST_SIZE) \<and>
     (\<forall>G < MAX_SMALL_SERVER_LIST_SIZE.
        node_ok G (G \<in> set (dl_EnabledServerGroupList s)) (dl_EnabledServerGroupMap s ! G))"

lemma downloader_inv_new [inv_intros]: "downloader_inv (new_downloader Now)"
  by (simp add: downloader_inv_def new_downloader_def node_ok_def new_group_node_def)

lemma group_node_inv:
  assumes "downloader_inv s"
  shows "group_node s G =
    (if G < MAX_SMALL_SERVER_LIST_SIZE then Some (dl_EnabledServerGroupMap s ! G) else None)"
    and "group_node s G = Some N \<Longrightarrow> G < MAX_SMALL_SERVER_LIST_SIZE \<and> node_ok G (G \<in> set (dl_EnabledServerGroupList s)) N"
  using assms by (auto simp: group_node_def downloader_inv_def split: if_splits)

lemma set_group_node_inv:
  assumes "downloader_inv s" and "G < MAX_SMALL_SERVER_LIST_SIZE" and "node_ok G (G \<in> set q) N"
    and "distinct q" and "\<And>H. H \<noteq> G \<Longrightarrow> H \<in> set q \<longleftrightarrow> H \<in> set (dl_EnabledServerGroupList s)"
  shows "downloader_inv (set_group_node G N (s\<lparr>dl_EnabledServerGroupList := q\<rparr>))"
proof -
  have len: "length (dl_EnabledServerGroupMap s) = MAX_SMALL_SERVER_LIST_SIZE"
    using assms(1) by (simp add: downloader_inv_def)
  have "node_ok H (H \<in> set q) ((dl_EnabledServerGroupMap s)[G := N] ! H)" if "H < MAX_SMALL_SERVER_LIST_SIZE" for H
    using assms that len by (cases "H = G") (auto simp: downloader_inv_def)
  moreover have "H < MAX_SMALL_SERVER_LIST_SIZE" if "H \<in> set q" for H
    using assms that by (cases "H = G") (auto simp: downloader_inv_def)
  ultimately show ?thesis
    using assms(4) len by (simp add: downloader_inv_def set_group_node_def)
qed

lemma set_group_node_same_list:
  assumes "downloader_inv s" and "group_node s G = Some M" and "node_ok G (gn_Enabled M) N"
  shows "downloader_inv (set_group_node G N s)"
proof -
  from group_node_inv(2) [OF assms(1,2)]
  have G: "G < MAX_SMALL_SERVER_LIST_SIZE" and e: "gn_Enabled M = (G \<in> set (dl_EnabledServerGroupList s))"
    by (auto simp: node_ok_def)
  have d: "distinct (dl_EnabledServerGroupList s)"
    using assms(1) by (simp add: downloader_inv_def)
  from assms(3) have "node_ok G (G \<in> set (dl_EnabledServerGroupList s)) N"
    unfolding e .
  from set_group_node_inv [OF assms(1) G this d refl] show ?thesis
    by simp
qed

lemma downloader_inv_out [simp]:
  "downloader_inv (s\<lparr>dl_Out := q\<rparr>) = downloader_inv s"
  "downloader_inv (s\<lparr>dl_LocalTicker := t\<rparr>) = downloader_inv s"
  "downloader_inv (s\<lparr>dl_LastUpdateSlaveListMS := t\<rparr>) = downloader_inv s"
  "downloader_inv (downloader_post A P s) = downloader_inv s"
  by (simp_all add: downloader_inv_def downloader_post_def)

lemma EnableServerGroup_total:
  assumes "downloader_inv s" and "unat G \<notin> set (dl_EnabledServerGroupList s)" and "G \<noteq> 0"
    and "unat G < MAX_SMALL_SERVER_LIST_SIZE"
  shows "\<exists>t. downloader_EnableServerGroup G s = Some t \<and> downloader_inv t \<and>
    dl_EnabledServerGroupList t = dl_EnabledServerGroupList s @ [unat G]"
proof -
  let ?N = "dl_EnabledServerGroupMap s ! unat G"
  have N: "node_ok (unat G) False ?N"
    using assms by (auto simp: downloader_inv_def)
  let ?M = "?N\<lparr>gn_Enabled := True, gn_ServerGroup := G,
      gn_ServerList := Some (replicate MAX_SMALL_SERVER_LIST_SIZE no_server), gn_ServerListSize := 0\<rparr>"
  have "node_ok (unat G) (unat G \<in> set (dl_EnabledServerGroupList s @ [unat G])) ?M"
    using assms(3) by (simp add: node_ok_def unat_gt_0)
  moreover have "distinct (dl_EnabledServerGroupList s @ [unat G])"
    using assms(1,2) by (simp add: downloader_inv_def)
  ultimately have "downloader_inv (set_group_node (unat G) ?M
      (s\<lparr>dl_EnabledServerGroupList := dl_EnabledServerGroupList s @ [unat G]\<rparr>))"
    using assms by (intro set_group_node_inv) auto
  then show ?thesis
    using assms N
    by (simp add: downloader_EnableServerGroup_def group_node_inv(1) node_ok_def ST_SERVER_LIST_def set_group_node_def)
qed

lemma DisableServerGroup_total:
  assumes "downloader_inv s" and "G \<in> set (dl_EnabledServerGroupList s)"
  shows "\<exists>t. downloader_DisableServerGroup G s = Some t \<and> downloader_inv t \<and>
    dl_EnabledServerGroupList t = removeAll G (dl_EnabledServerGroupList s)"
proof -
  let ?N = "dl_EnabledServerGroupMap s ! G"
  have G: "G < MAX_SMALL_SERVER_LIST_SIZE" and N: "node_ok G True ?N"
    using assms by (auto simp: downloader_inv_def)
  from N G have "gn_ServerGroup ?N \<noteq> 0"
    by (auto simp: node_ok_def MAX_SMALL_SERVER_LIST_SIZE_def word_unat_eq_iff unat_of_nat)
  let ?M = "?N\<lparr>gn_Enabled := False, gn_ServerGroup := 0, gn_LastUpdateTimestampMS := 0,
      gn_ServerListSize := 0, gn_ServerList := None\<rparr>"
  have "downloader_inv (set_group_node G ?M
      (s\<lparr>dl_EnabledServerGroupList := removeAll G (dl_EnabledServerGroupList s)\<rparr>))"
    using assms(1) G
    by (intro set_group_node_inv) (auto simp: node_ok_def downloader_inv_def)
  then show ?thesis
    using assms N G \<open>gn_ServerGroup ?N \<noteq> 0\<close>
    by (auto simp: downloader_DisableServerGroup_def group_node_inv(1) node_ok_def set_group_node_def)
qed

lemma disable_groups_total:
  assumes "downloader_inv s" and "\<forall>G \<in> set Is. G < MAX_SMALL_SERVER_LIST_SIZE"
  shows "\<exists>t. disable_groups Is s = Some t \<and> downloader_inv t \<and>
    set (dl_EnabledServerGroupList t) = set (dl_EnabledServerGroupList s) - set Is"
  using assms
proof (induction Is arbitrary: s)
  case (Cons I Is)
  note node = group_node_inv(1) [OF Cons.prems(1), of I]
  have I: "I < MAX_SMALL_SERVER_LIST_SIZE"
    using Cons.prems(2) by simp
  have e: "gn_Enabled (dl_EnabledServerGroupMap s ! I) \<longleftrightarrow> I \<in> set (dl_EnabledServerGroupList s)"
    using Cons.prems(1) I by (auto simp: downloader_inv_def node_ok_def)
  show ?case
  proof (cases "I \<in> set (dl_EnabledServerGroupList s)")
    case True
    from DisableServerGroup_total [OF Cons.prems(1) True] obtain u
      where u: "downloader_DisableServerGroup I s = Some u" "downloader_inv u"
        "dl_EnabledServerGroupList u = removeAll I (dl_EnabledServerGroupList s)"
      by blast
    with Cons.IH [OF u(2)] Cons.prems(2) show ?thesis
      using node I e True by auto
  next
    case False
    with Cons.IH [OF Cons.prems(1)] Cons.prems(2) show ?thesis
      using node I e by auto
  qed
qed simp

lemma downloader_Clean_total:
  assumes "downloader_inv s"
  shows "\<exists>t. downloader_Clean s = Some t \<and> downloader_inv t \<and> dl_EnabledServerGroupList t = []"
proof -
  from disable_groups_total [OF assms, of "[0..<MAX_SMALL_SERVER_LIST_SIZE]"] obtain t
    where t: "disable_groups [0..<MAX_SMALL_SERVER_LIST_SIZE] s = Some t" "downloader_inv t"
      "set (dl_EnabledServerGroupList t) = set (dl_EnabledServerGroupList s) - {0..<MAX_SMALL_SERVER_LIST_SIZE}"
    by auto
  moreover have "set (dl_EnabledServerGroupList s) \<subseteq> {0..<MAX_SMALL_SERVER_LIST_SIZE}"
    using assms by (auto simp: downloader_inv_def)
  moreover from calculation have "dl_EnabledServerGroupList t = []"
    by (metis Diff_eq_empty_iff set_empty)
  ultimately show ?thesis
    by (simp add: downloader_Clean_def downloader_inv_def)
qed

lemma UpdateOne_total:
  assumes "downloader_inv s"
  shows "\<exists>t. UpdateOneEnabledServerList c Random s = Some t \<and> downloader_inv t \<and>
    set (dl_EnabledServerGroupList t) = set (dl_EnabledServerGroupList s)"
proof (cases "dl_EnabledServerGroupList s")
  case (Cons G q)
  let ?N = "dl_EnabledServerGroupMap s ! G"
  have G: "G < MAX_SMALL_SERVER_LIST_SIZE" and N: "node_ok G True ?N"
    using assms Cons by (auto simp: downloader_inv_def)
  have "downloader_inv (set_group_node G (?N\<lparr>gn_LastUpdateTimestampMS := dl_LocalTicker s\<rparr>)
      (s\<lparr>dl_EnabledServerGroupList := q @ [G]\<rparr>))"
    using assms G N Cons by (intro set_group_node_inv) (auto simp: node_ok_def downloader_inv_def)
  then show ?thesis
    using assms Cons G by (auto simp: UpdateOneEnabledServerList_def group_node_inv(1) Let_def
        downloader_post_def set_group_node_def)
qed (use assms in \<open>simp add: UpdateOneEnabledServerList_def\<close>)

lemma downloader_Tick_total:
  assumes "downloader_inv s"
  shows "\<exists>t. downloader_Tick c Random NowMS s = Some t \<and> downloader_inv t \<and>
    set (dl_EnabledServerGroupList t) = set (dl_EnabledServerGroupList s)"
proof -
  let ?u = "UpdateServerListSlaveList c (s\<lparr>dl_LocalTicker := NowMS\<rparr>)"
  have "downloader_inv ?u" and "dl_EnabledServerGroupList ?u = dl_EnabledServerGroupList s"
    using assms by (simp_all add: UpdateServerListSlaveList_def Let_def downloader_post_def)
  with UpdateOne_total [of ?u c Random] show ?thesis
    by (simp add: downloader_Tick_def)
qed

lemma get_servers_length: "get_servers c n bs = Some (Ss, rest) \<Longrightarrow> length Ss = n"
  by (induction n arbitrary: bs Ss rest)
     (auto simp: yields_def rd_def split: option.splits prod.splits)

lemma server_list_resp_length:
  "xPP_GetSmallServerListResp_Deserialize c Md5 beyond P = Some (Resp, rest) \<Longrightarrow>
   length (sl_ServerList Resp) \<le> MAX_SMALL_SERVER_LIST_SIZE"
  by (auto simp: xPP_GetSmallServerListResp_Deserialize_def rd_def yields_def fails_def Let_def
      dest!: get_servers_length split: option.splits prod.splits if_splits)

text \<open>The node of an answered group after the answer.\<close>

definition answered_node :: "xPP_GetSmallServerListResp \<Rightarrow> xEnabledServerGroupNode \<Rightarrow> xEnabledServerGroupNode" where
  "answered_node Resp N =
     N\<lparr>gn_ServerList := Some (sl_ServerList Resp @ drop (length (sl_ServerList Resp)) (the (gn_ServerList N))),
       gn_ServerListSize := length (sl_ServerList Resp),
       gn_VersionTimestampMS := sl_VersionTimestampMS Resp\<rparr>"

lemma answered_node_ok:
  assumes "node_ok G True N" and "length (sl_ServerList Resp) \<le> MAX_SMALL_SERVER_LIST_SIZE"
  shows "node_ok G True (answered_node Resp N)"
  using assms by (auto simp: node_ok_def answered_node_def)

lemma OnUdpPacket_answer:
  assumes "downloader_inv s" and "pk_CommandId P = Cmd_DownloadSmallServerListResp"
    and "pk_RequestId P = ucast (G :: uint8)" and "unat G < MAX_SMALL_SERVER_LIST_SIZE"
    and "xPP_GetSmallServerListResp_Deserialize c Md5 beyond (pk_Payload P) = Some (Resp, rest)"
    and "group_node s (unat G) = Some N" and "gn_Enabled N" and "gn_VersionTimestampMS N \<noteq> sl_VersionTimestampMS Resp"
  shows "downloader_OnUdpPacket c Md5 beyond P s =
    Some ((set_group_node (unat G) (answered_node Resp N) s)
      \<lparr>dl_Out := dl_Out s @ [Dl_Updated G (sl_ServerList Resp) (sl_VersionTimestampMS Resp)]\<rparr>)"
proof -
  have id: "(ucast (ucast G :: uint64) :: uint8) = G"
    using assms(4) unat_request_group [of "ucast G"]
    by (simp add: word_unat_eq_iff MAX_SMALL_SERVER_LIST_SIZE_def)
  have small: "\<not> pk_RequestId P > of_nat MAX_SMALL_SERVER_LIST_SIZE"
    using assms(3,4) by (simp add: word_less_nat_alt MAX_SMALL_SERVER_LIST_SIZE_def)
  obtain L where "gn_ServerList N = Some L"
    using group_node_inv(2) [OF assms(1,6)] assms(7) by (auto simp: node_ok_def)
  then show ?thesis
    using assms small unfolding downloader_OnUdpPacket_def assms(3)
    by (simp add: id Let_def answered_node_def set_group_node_def)
qed

lemma OnUdpPacket_total:
  assumes "downloader_inv s"
  shows "(\<exists>t. downloader_OnUdpPacket c Md5 beyond P s = Some t \<and> downloader_inv t \<and>
      dl_EnabledServerGroupList t = dl_EnabledServerGroupList s) \<or>
    (downloader_OnUdpPacket c Md5 beyond P s = None \<and> pk_RequestId P = of_nat MAX_SMALL_SERVER_LIST_SIZE \<and>
      pk_CommandId P = Cmd_DownloadSmallServerListResp)"
proof (cases "pk_CommandId P \<noteq> Cmd_DownloadSmallServerListResp \<or>
    pk_RequestId P > of_nat MAX_SMALL_SERVER_LIST_SIZE \<or>
    xPP_GetSmallServerListResp_Deserialize c Md5 beyond (pk_Payload P) = None")
  case True
  then show ?thesis
    using assms by (auto simp: downloader_OnUdpPacket_def)
next
  case False
  then obtain Resp rest where R: "xPP_GetSmallServerListResp_Deserialize c Md5 beyond (pk_Payload P) = Some (Resp, rest)"
    and r: "pk_RequestId P \<le> of_nat MAX_SMALL_SERVER_LIST_SIZE" "pk_CommandId P = Cmd_DownloadSmallServerListResp"
    by (auto simp: not_less)
  define G where "G = (ucast (pk_RequestId P) :: uint8)"
  from r(1) have le: "unat (pk_RequestId P) \<le> 128"
    by (simp add: word_le_nat_alt MAX_SMALL_SERVER_LIST_SIZE_def)
  then have G: "unat G = unat (pk_RequestId P)"
    by (simp add: G_def unat_request_group)
  show ?thesis
  proof (cases "unat G < MAX_SMALL_SERVER_LIST_SIZE")
    case False
    with le G have "unat (pk_RequestId P) = 128"
      by (simp add: MAX_SMALL_SERVER_LIST_SIZE_def)
    then have "pk_RequestId P = of_nat MAX_SMALL_SERVER_LIST_SIZE"
      by (simp add: MAX_SMALL_SERVER_LIST_SIZE_def word_unat_eq_iff)
    moreover have "downloader_OnUdpPacket c Md5 beyond P s = None"
      using False R r group_node_inv(1) [OF assms, of "unat G"]
      by (simp add: downloader_OnUdpPacket_def not_less G_def [symmetric] Let_def)
    ultimately show ?thesis
      using r by simp
  next
    case True
    let ?N = "dl_EnabledServerGroupMap s ! unat G"
    have N: "group_node s (unat G) = Some ?N"
      using True by (simp add: group_node_inv(1) [OF assms])
    have same: "downloader_OnUdpPacket c Md5 beyond P s = Some s"
      if "\<not> gn_Enabled ?N \<or> gn_VersionTimestampMS ?N = sl_VersionTimestampMS Resp"
      using that N R r by (auto simp: downloader_OnUdpPacket_def not_less G_def [symmetric] Let_def)
    show ?thesis
    proof (cases "gn_Enabled ?N \<and> gn_VersionTimestampMS ?N \<noteq> sl_VersionTimestampMS Resp")
      case False
      with same assms show ?thesis by auto
    next
      case upd: True
      have req: "pk_RequestId P = ucast G"
        using G by (simp add: word_unat_eq_iff)
      have node: "node_ok (unat G) True ?N"
        using group_node_inv(2) [OF assms N] upd by (auto simp: node_ok_def)
      have "downloader_inv (set_group_node (unat G) (answered_node Resp ?N) s)"
        by (rule set_group_node_same_list [OF assms N])
           (simp add: upd answered_node_ok [OF node server_list_resp_length [OF R]])
      then show ?thesis
        using OnUdpPacket_answer [OF assms r(2) req True R N] upd
        by (simp add: set_group_node_def)
    qed
  qed
qed

section \<open>Lemmas: the connections\<close>

text \<open>The connections of a list of slots, by identifier.\<close>

definition slot_connections :: "xServerLocalInfo list \<Rightarrow> (uint64 \<times> xNetAddress) list" where
  "slot_connections Slots =
     List.map (\<lambda>S. (sv_ConnectionId S, si_Address (sv_ServerInfo S)))
       (filter (\<lambda>S. sv_ConnectionId S \<noteq> 0) Slots)"

lemma slot_connections_append: "slot_connections (A @ B) = slot_connections A @ slot_connections B"
  by (simp add: slot_connections_def)

lemma slot_connections_Cons:
  "slot_connections (S # B) =
     (if sv_ConnectionId S = 0 then [] else [(sv_ConnectionId S, si_Address (sv_ServerInfo S))]) @ slot_connections B"
  by (simp add: slot_connections_def)

definition pool_matches :: "client_pool \<Rightarrow> xServerLocalInfo list \<Rightarrow> bool" where
  "pool_matches p Slots \<longleftrightarrow>
     p = map_of (slot_connections Slots) \<and> distinct (List.map fst (slot_connections Slots))"

lemma map_of_middle:
  "distinct (List.map fst (A @ (i, a) # B)) \<Longrightarrow>
   map_of (A @ (i, a) # B) = (map_of (A @ B))(i \<mapsto> a) \<and> map_of (A @ B) i = None"
proof -
  assume d: "distinct (List.map fst (A @ (i, a) # B))"
  then have A: "map_of A i = None" and B: "map_of B i = None"
    by (auto simp: map_of_eq_None_iff)
  have "map_of (A @ (i, a) # B) = (map_of (A @ B))(i \<mapsto> a)"
    by (rule ext) (simp add: map_add_def A split: option.split)
  with A B show ?thesis
    by (simp add: map_add_def)
qed

lemma pool_matches_dom: "pool_matches p Slots \<Longrightarrow> dom p = fst ` set (slot_connections Slots)"
  by (simp add: pool_matches_def dom_map_of_conv_image_fst)

lemma pool_matches_remove:
  assumes "pool_matches p (A @ Old # B)" and "sv_ConnectionId Old \<noteq> 0"
  shows "pool_matches (RemoveServer (sv_ConnectionId Old) p) (A @ Old\<lparr>sv_ConnectionId := 0\<rparr> # B)"
proof -
  let ?A = "slot_connections A" and ?B = "slot_connections B"
  let ?c = "(sv_ConnectionId Old, si_Address (sv_ServerInfo Old))"
  have d: "distinct (List.map fst (?A @ ?c # ?B))" and p: "p = map_of (?A @ ?c # ?B)"
    using assms by (simp_all add: pool_matches_def slot_connections_append slot_connections_Cons)
  have "RemoveServer (sv_ConnectionId Old) p = map_of (?A @ ?B)"
    using map_of_middle [OF d] unfolding p RemoveServer_def by (metis fun_upd_idem fun_upd_upd)
  then show ?thesis
    using d by (simp add: pool_matches_def slot_connections_append slot_connections_Cons)
qed

lemma pool_matches_zero:
  "sv_ConnectionId Old = 0 \<Longrightarrow> sv_ConnectionId New = 0 \<Longrightarrow>
   pool_matches p (A @ Old # B) = pool_matches p (A @ New # B)"
  by (simp add: pool_matches_def slot_connections_append slot_connections_Cons)

lemma pool_matches_add:
  assumes "pool_matches p (A @ Old # B)" and "sv_ConnectionId Old = 0" and "p i = None" and "i \<noteq> 0"
    and "sv_ConnectionId New = i" and "si_Address (sv_ServerInfo New) = a"
  shows "pool_matches (p(i \<mapsto> a)) (A @ New # B)"
proof -
  let ?A = "slot_connections A" and ?B = "slot_connections B"
  have p: "p = map_of (?A @ ?B)" and d: "distinct (List.map fst (?A @ ?B))"
    using assms(1,2) by (simp_all add: pool_matches_def slot_connections_append slot_connections_Cons)
  have "i \<notin> fst ` set (?A @ ?B)"
    using assms(3) unfolding p by (rule map_of_eq_None_iff [THEN iffD1])
  with d have d': "distinct (List.map fst (?A @ (i, a) # ?B))"
    by auto
  from map_of_middle [OF this] show ?thesis
    using d' assms(4,5,6)
    by (simp add: pool_matches_def slot_connections_append slot_connections_Cons p)
qed

text \<open>What one slot becomes.\<close>

definition slot_result :: "xServerLocalInfo \<Rightarrow> xServerInfo \<Rightarrow> xServerLocalInfo \<Rightarrow> bool" where
  "slot_result Old New Slot \<longleftrightarrow>
     (if sv_ConnectionId Old \<noteq> 0 \<and> New = sv_ServerInfo Old then Slot = Old
      else if si_ServerId New = 0 then sv_ConnectionId Slot = 0
      else sv_ConnectionId Slot \<noteq> 0 \<and> sv_ServerInfo Slot = New)"

definition pool_ready :: "(uint64 set \<Rightarrow> uint64) \<Rightarrow> bool" where
  "pool_ready alloc \<longleftrightarrow> storage_ok alloc \<and> (\<forall>D. card D < MAX_SMALL_SERVER_LIST_SIZE \<longrightarrow> alloc D \<noteq> 0)"

lemma connect_slot_spec:
  assumes "pool_ready alloc" and "pool_matches p (A @ Old # B)" and "sv_ConnectionId Old = 0"
    and "length (A @ Old # B) \<le> MAX_SMALL_SERVER_LIST_SIZE"
  shows "\<exists>Slot q. connect_slot alloc Old New p = Some (Slot, q) \<and> pool_matches q (A @ Slot # B) \<and>
    (if si_ServerId New = 0 then sv_ConnectionId Slot = 0
     else sv_ConnectionId Slot \<noteq> 0 \<and> sv_ServerInfo Slot = New)"
proof (cases "si_ServerId New = 0")
  case True
  then show ?thesis
    using assms by (simp add: connect_slot_def)
next
  case False
  let ?i = "alloc (dom p)"
  have "dom p = fst ` set (slot_connections A @ slot_connections B)"
    using pool_matches_dom [OF assms(2)] assms(3) by (simp add: slot_connections_append slot_connections_Cons)
  then have "card (dom p) \<le> length (slot_connections A @ slot_connections B)"
    by (metis card_image_le card_length finite_set le_trans)
  also have "\<dots> \<le> length A + length B"
    by (auto simp: slot_connections_def intro: add_mono)
  also have "\<dots> < MAX_SMALL_SERVER_LIST_SIZE"
    using assms(4) by simp
  finally have i: "?i \<noteq> 0" "p ?i = None"
    using assms(1) by (auto simp: pool_ready_def storage_ok_def)
  have "pool_matches (p(?i \<mapsto> si_Address New)) (A @ Old\<lparr>sv_ConnectionId := ?i, sv_ServerInfo := New\<rparr> # B)"
    by (rule pool_matches_add [OF assms(2,3) i(2,1)]) simp_all
  then show ?thesis
    using False i by (simp add: connect_slot_def AddServer_def)
qed

lemma update_slot_spec:
  assumes "pool_ready alloc" and "pool_matches p (A @ Old # B)"
    and "length (A @ Old # B) \<le> MAX_SMALL_SERVER_LIST_SIZE"
  shows "\<exists>Slot q. update_slot alloc Old New p = Some (Slot, q) \<and> pool_matches q (A @ Slot # B) \<and>
    slot_result Old New Slot"
proof (cases "sv_ConnectionId Old = 0")
  case True
  with connect_slot_spec [OF assms(1,2) True assms(3)] show ?thesis
    by (auto simp: update_slot_def slot_result_def)
next
  case False
  show ?thesis
  proof (cases "New = sv_ServerInfo Old")
    case True
    then show ?thesis
      using False assms by (simp add: update_slot_def slot_result_def)
  next
    case ne: False
    have len: "length (A @ Old\<lparr>sv_ConnectionId := 0\<rparr> # B) \<le> MAX_SMALL_SERVER_LIST_SIZE"
      using assms(3) by simp
    from connect_slot_spec [OF assms(1) pool_matches_remove [OF assms(2) False] _ len, of New] show ?thesis
      using False ne by (auto simp: update_slot_def slot_result_def)
  qed
qed

lemma update_slots_spec:
  assumes "pool_ready alloc" and "pool_matches p (A @ Olds)" and "length Olds = length News"
    and "length (A @ Olds) \<le> MAX_SMALL_SERVER_LIST_SIZE"
  shows "\<exists>Slots q. update_slots alloc Olds News p = Some (Slots, q) \<and> pool_matches q (A @ Slots) \<and>
    length Slots = length Olds \<and> (\<forall>i < length Olds. slot_result (Olds ! i) (News ! i) (Slots ! i))"
  using assms
proof (induction Olds arbitrary: A News p)
  case (Cons Old Olds)
  then obtain New Ns where N: "News = New # Ns"
    by (cases News) auto
  from update_slot_spec [OF Cons.prems(1,2,4), of New] obtain Slot q
    where q: "update_slot alloc Old New p = Some (Slot, q)" "pool_matches q ((A @ [Slot]) @ Olds)"
      "slot_result Old New Slot"
    by auto
  from Cons.IH [OF Cons.prems(1) q(2), of Ns] Cons.prems(3,4) N obtain Slots r
    where r: "update_slots alloc Olds Ns q = Some (Slots, r)" "pool_matches r ((A @ [Slot]) @ Slots)"
      "length Slots = length Olds" "\<forall>i < length Olds. slot_result (Olds ! i) (Ns ! i) (Slots ! i)"
    by auto
  have "\<forall>i < length (Old # Olds). slot_result ((Old # Olds) ! i) (News ! i) ((Slot # Slots) ! i)"
    using q(3) r(4) by (auto simp: N less_Suc_eq_0_disj)
  then show ?case
    using q r by (auto simp: N)
qed simp

text \<open>Placing the servers of a list with distinct numbers.\<close>

definition server_index :: "(uint64 \<Rightarrow> uint8 \<times> uint64) \<Rightarrow> xServerInfo \<Rightarrow> nat" where
  "server_index ident SI = the (ExtractIndexFromSmallServerId ident (si_ServerId SI))"

definition servers_ok :: "(uint64 \<Rightarrow> uint8 \<times> uint64) \<Rightarrow> xServerInfo list \<Rightarrow> bool" where
  "servers_ok ident Sis \<longleftrightarrow>
     (\<forall>SI \<in> set Sis. ExtractIndexFromSmallServerId ident (si_ServerId SI) \<noteq> None \<and>
        server_index ident SI < MAX_SMALL_SERVER_LIST_SIZE) \<and>
     distinct (List.map (server_index ident) Sis)"

lemma servers_ok_id: "servers_ok ident Sis \<Longrightarrow> SI \<in> set Sis \<Longrightarrow> si_ServerId SI \<noteq> 0"
  by (auto simp: servers_ok_def ExtractIndexFromSmallServerId_def split: if_splits)

lemma servers_ok_length: "servers_ok ident Sis \<Longrightarrow> length Sis \<le> MAX_SMALL_SERVER_LIST_SIZE"
proof -
  assume ok: "servers_ok ident Sis"
  then have "card (set (List.map (server_index ident) Sis)) = length Sis"
    by (simp only: servers_ok_def distinct_card length_map)
  moreover have "set (List.map (server_index ident) Sis) \<subseteq> {..<MAX_SMALL_SERVER_LIST_SIZE}"
    using ok by (auto simp: servers_ok_def)
  ultimately show ?thesis
    by (metis card_lessThan card_mono finite_lessThan)
qed

lemma place_servers_spec:
  assumes "servers_ok ident Sis" and "length A = MAX_SMALL_SERVER_LIST_SIZE"
    and "length Packed + length Sis \<le> MAX_SMALL_SERVER_LIST_SIZE"
  shows "\<exists>B. place_servers ident Sis A Packed = Some (B, Packed @ List.map (server_index ident) Sis) \<and>
    length B = MAX_SMALL_SERVER_LIST_SIZE \<and> (\<forall>SI \<in> set Sis. B ! server_index ident SI = SI) \<and>
    (\<forall>k. k \<notin> server_index ident ` set Sis \<longrightarrow> B ! k = A ! k)"
  using assms
proof (induction Sis arbitrary: A Packed)
  case (Cons SI Sis)
  let ?k = "server_index ident SI"
  have ok: "servers_ok ident Sis" and k: "?k < MAX_SMALL_SERVER_LIST_SIZE"
    and ex: "ExtractIndexFromSmallServerId ident (si_ServerId SI) = Some ?k"
    and new: "?k \<notin> server_index ident ` set Sis"
    using Cons.prems(1) by (auto simp: servers_ok_def server_index_def)
  have "place_servers ident (SI # Sis) A Packed = place_servers ident Sis (A[?k := SI]) (Packed @ [?k])"
    using Cons.prems(3) ex k by simp
  moreover obtain B where B: "place_servers ident Sis (A[?k := SI]) (Packed @ [?k]) =
      Some (B, (Packed @ [?k]) @ List.map (server_index ident) Sis)" "length B = MAX_SMALL_SERVER_LIST_SIZE"
    "\<forall>SI \<in> set Sis. B ! server_index ident SI = SI"
    "\<forall>j. j \<notin> server_index ident ` set Sis \<longrightarrow> B ! j = A[?k := SI] ! j"
    using Cons.IH [OF ok, of "A[?k := SI]" "Packed @ [?k]"] Cons.prems(2,3) by auto
  ultimately show ?case
    using new k Cons.prems(2) by (auto simp: nth_list_update_neq)
qed simp
definition client_inv :: "(uint64 \<Rightarrow> uint8 \<times> uint64) \<Rightarrow> tcp_client \<Rightarrow> bool" where
  "client_inv ident s \<longleftrightarrow>
     length (tl_ServerInfoContainer s) = MAX_SMALL_SERVER_LIST_SIZE \<and>
     pool_matches (tl_ClientPool s) (tl_ServerInfoContainer s) \<and>
     (\<forall>i < MAX_SMALL_SERVER_LIST_SIZE. sv_ConnectionId (tl_ServerInfoContainer s ! i) \<noteq> 0 \<longrightarrow>
        si_ServerId (sv_ServerInfo (tl_ServerInfoContainer s ! i)) \<noteq> 0 \<and>
        server_index ident (sv_ServerInfo (tl_ServerInfoContainer s ! i)) = i) \<and>
     (\<forall>k \<in> set (tl_PackedServerList s). k < MAX_SMALL_SERVER_LIST_SIZE \<and>
        sv_ConnectionId (tl_ServerInfoContainer s ! k) \<noteq> 0)"

definition connected_servers :: "tcp_client \<Rightarrow> xServerInfo set" where
  "connected_servers s = sv_ServerInfo ` {S \<in> set (tl_ServerInfoContainer s). sv_ConnectionId S \<noteq> 0}"

lemma client_inv_new [inv_intros]: "client_inv ident new_tcp_client"
  by (simp add: client_inv_def new_tcp_client_def pool_matches_def slot_connections_def)

lemma pool_matches_lookup:
  assumes "pool_matches p Slots" and "S \<in> set Slots" and "sv_ConnectionId S \<noteq> 0"
  shows "p (sv_ConnectionId S) = Some (si_Address (sv_ServerInfo S))"
proof -
  have "(sv_ConnectionId S, si_Address (sv_ServerInfo S)) \<in> set (slot_connections Slots)"
    using assms(2,3) by (auto simp: slot_connections_def)
  with assms(1) show ?thesis
    by (simp add: pool_matches_def)
qed

lemma UpdateServerList_slots:
  assumes "client_inv ident s" and "pool_ready alloc" and "servers_ok ident Sis"
  shows "\<exists>t B. UpdateServerList alloc ident Sis s = Some t \<and>
    tl_PackedServerList t = List.map (server_index ident) Sis \<and> tl_Out t = tl_Out s \<and>
    pool_matches (tl_ClientPool t) (tl_ServerInfoContainer t) \<and>
    length (tl_ServerInfoContainer t) = MAX_SMALL_SERVER_LIST_SIZE \<and>
    (\<forall>i < MAX_SMALL_SERVER_LIST_SIZE.
       slot_result (tl_ServerInfoContainer s ! i) (B ! i) (tl_ServerInfoContainer t ! i)) \<and>
    (\<forall>SI \<in> set Sis. B ! server_index ident SI = SI) \<and>
    (\<forall>k < MAX_SMALL_SERVER_LIST_SIZE. k \<notin> server_index ident ` set Sis \<longrightarrow> B ! k = no_server)"
proof -
  let ?A = "replicate MAX_SMALL_SERVER_LIST_SIZE no_server"
  from place_servers_spec [OF assms(3), of ?A "[]"] servers_ok_length [OF assms(3)] obtain B
    where B: "place_servers ident Sis ?A [] = Some (B, List.map (server_index ident) Sis)"
      "length B = MAX_SMALL_SERVER_LIST_SIZE" "\<forall>SI \<in> set Sis. B ! server_index ident SI = SI"
      "\<forall>k. k \<notin> server_index ident ` set Sis \<longrightarrow> B ! k = ?A ! k"
    by auto
  have len: "length (tl_ServerInfoContainer s) = MAX_SMALL_SERVER_LIST_SIZE"
    using assms(1) by (simp add: client_inv_def)
  have m: "pool_matches (tl_ClientPool s) ([] @ tl_ServerInfoContainer s)"
    using assms(1) by (simp add: client_inv_def)
  from update_slots_spec [OF assms(2) m, of B] B(2) len obtain Slots q
    where "update_slots alloc (tl_ServerInfoContainer s) B (tl_ClientPool s) = Some (Slots, q)"
      "pool_matches q Slots" "length Slots = MAX_SMALL_SERVER_LIST_SIZE"
      "\<forall>i < MAX_SMALL_SERVER_LIST_SIZE. slot_result (tl_ServerInfoContainer s ! i) (B ! i) (Slots ! i)"
    by auto
  with B show ?thesis
    by (auto simp: UpdateServerList_def)
qed

lemma slot_result_connected:
  assumes "slot_result Old New Slot" and "sv_ConnectionId Slot \<noteq> 0"
    and "sv_ConnectionId Old \<noteq> 0 \<Longrightarrow> si_ServerId (sv_ServerInfo Old) \<noteq> 0"
  shows "sv_ServerInfo Slot = New" and "si_ServerId New \<noteq> 0"
  using assms by (auto simp: slot_result_def split: if_splits)

lemma slot_result_wanted:
  assumes "slot_result Old New Slot" and "si_ServerId New \<noteq> 0"
  shows "sv_ServerInfo Slot = New" and "sv_ConnectionId Slot \<noteq> 0"
  using assms by (auto simp: slot_result_def split: if_splits)

text \<open>The registered servers of a list, by their numbers: the list a client connects to.\<close>

definition registered :: "xBufferedSmallList \<Rightarrow> xServerInfo list" where
  "registered L = filter (\<lambda>Ref. si_ServerId Ref \<noteq> 0) (bl_List L)"

lemma slot_number:
  "i < MAX_SMALL_SERVER_LIST_SIZE \<Longrightarrow> unat (ucast (of_nat (Suc i) - 1 :: uint64) :: uint32) = i"
  by (simp add: MAX_SMALL_SERVER_LIST_SIZE_def unsigned_ucast_eq unat_of_nat take_bit_nat_eq_self)

lemma slot_index:
  assumes "slots_ok ident G Ss" and "i < MAX_SMALL_SERVER_LIST_SIZE" and "si_ServerId (Ss ! i) \<noteq> 0"
  shows "ExtractIndexFromSmallServerId ident (si_ServerId (Ss ! i)) = Some i"
proof -
  have "ident (si_ServerId (Ss ! i)) = (G, of_nat (Suc i))"
    using assms by (auto simp: slots_ok_def)
  moreover have "(of_nat (Suc i) :: uint64) \<noteq> 0"
    using assms(2) of_nat_64_eq_0 [of "Suc i"] by (simp add: MAX_SMALL_SERVER_LIST_SIZE_def del: of_nat_Suc)
  ultimately show ?thesis
    using assms(2,3) slot_number [OF assms(2)]
    by (simp add: ExtractIndexFromSmallServerId_def del: of_nat_Suc)
qed

lemma registered_by_slot:
  "slots_ok ident G (bl_List L) \<Longrightarrow>
   registered L = List.map ((!) (bl_List L)) (filter (\<lambda>i. si_ServerId (bl_List L ! i) \<noteq> 0) [0..<MAX_SMALL_SERVER_LIST_SIZE])"
proof -
  assume "slots_ok ident G (bl_List L)"
  then have "bl_List L = List.map ((!) (bl_List L)) [0..<MAX_SMALL_SERVER_LIST_SIZE]"
    using map_nth [of "bl_List L"] by (simp add: slots_ok_def)
  then have "registered L = filter (\<lambda>Ref. si_ServerId Ref \<noteq> 0) (List.map ((!) (bl_List L)) [0..<MAX_SMALL_SERVER_LIST_SIZE])"
    by (simp add: registered_def)
  then show ?thesis
    by (simp add: filter_map o_def)
qed

lemma registered_indices:
  assumes "slots_ok ident G (bl_List L)"
  shows "List.map (server_index ident) (registered L) =
    filter (\<lambda>i. si_ServerId (bl_List L ! i) \<noteq> 0) [0..<MAX_SMALL_SERVER_LIST_SIZE]"
proof -
  have "server_index ident (bl_List L ! i) = i"
    if "i \<in> set (filter (\<lambda>i. si_ServerId (bl_List L ! i) \<noteq> 0) [0..<MAX_SMALL_SERVER_LIST_SIZE])" for i
    using slot_index [OF assms, of i] that by (simp add: server_index_def)
  then show ?thesis
    unfolding registered_by_slot [OF assms] List.map_map
    by (intro map_idI) simp
qed

lemma registered_servers_ok:
  assumes "slots_ok ident G (bl_List L)"
  shows "servers_ok ident (registered L)"
proof -
  have "\<exists>i < MAX_SMALL_SERVER_LIST_SIZE. ExtractIndexFromSmallServerId ident (si_ServerId SI) = Some i"
    if "SI \<in> set (registered L)" for SI
    using that slot_index [OF assms] unfolding registered_by_slot [OF assms] by auto
  then show ?thesis
    unfolding servers_ok_def registered_indices [OF assms] by (fastforce simp: server_index_def)
qed

lemma registered_message: "sl_ServerList (list_message L) = registered L"
  by (simp add: list_message_def registered_def)

section \<open>Properties\<close>

text \<open>
  C17: A client that downloads the list of an enabled group gets exactly the servers registered for
  it, in the ascending order of their numbers: the answer is decoded, the view of the group is the
  list, and the update is announced, unless the client already has the version of the answer.
\<close>

theorem download_registered_servers:
  assumes "codec_ok c" and "16 \<le> max_str c" and "\<And>b. length (Md5 b) = 16"
    and "lists_inv c Md5 max_payload ident s" and "s G = Some L"
    and "downloader_inv d" and "unat G \<in> set (dl_EnabledServerGroupList d)"
    and "OnDownloadList c Md5 max_payload Now (list_request c G) s = (Some R, t)"
    and "gn_VersionTimestampMS (dl_EnabledServerGroupMap d ! unat G) \<noteq> bl_VersionTimestampMS (the (t G))"
  shows "\<exists>e. downloader_OnUdpPacket c Md5 beyond R d = Some e \<and> downloader_inv e \<and>
    GetServerListView e G = Some (registered L) \<and>
    dl_Out e = dl_Out d @ [Dl_Updated G (registered L) (bl_VersionTimestampMS (the (t G)))] \<and>
    sorted_wrt (<) (List.map (server_index ident) (registered L))"
proof -
  define M where "M = BuildServerListResponse c Md5 max_payload Now L (ucast G)"
  have inv: "list_inv c Md5 max_payload ident G L"
    by (rule lists_invD [OF assms(4,5)])
  then have slots: "slots_ok ident G (bl_List L)"
    by (simp add: list_inv_def)
  have ok: "servers_ok ident (registered L)"
    by (rule registered_servers_ok [OF slots])
  have MR: "bl_Resp M = Some R" and tG: "t G = Some M"
    using assms(5,8) assms(1)
    by (auto simp: OnDownloadList_def list_request_def M_def wire [of c] Let_def
        xPP_GetSmallServerList_roundtrip [where rest = "[]", simplified])
  have reg: "registered M = registered L"
    by (simp add: registered_def M_def BuildServerListResponse_fields)
  have "built_response c Md5 max_payload (ucast G) M = Some R"
    using BuildServerListResponse_Resp [OF inv, of Now "ucast G"] MR by (simp add: M_def)
  then have R: "pk_CommandId R = Cmd_DownloadSmallServerListResp" "pk_RequestId R = ucast G"
    "pk_Payload R = xPP_GetSmallServerListResp_Serialize c Md5 (list_message M)"
    by (auto simp: built_response_def WriteMessage_def split: if_splits)
  have len: "length (registered L) \<le> MAX_SMALL_SERVER_LIST_SIZE"
    by (rule servers_ok_length [OF ok])
  have wf: "\<forall>S \<in> set (registered L). addr_wf (si_Address S)"
    using slots by (auto simp: registered_by_slot [OF slots] slots_ok_def)
  have dec: "xPP_GetSmallServerListResp_Deserialize c Md5 beyond (pk_Payload R) = Some (list_message M, [])"
    using xPP_GetSmallServerListResp_roundtrip [OF assms(1,2,3), where m = "list_message M" and beyond = beyond and rest = "[]"] len wf
    by (simp add: R(3) registered_message reg)
  let ?N = "dl_EnabledServerGroupMap d ! unat G"
  have G: "unat G < MAX_SMALL_SERVER_LIST_SIZE" and N: "group_node d (unat G) = Some ?N" "node_ok (unat G) True ?N"
    using assms(6,7) by (auto simp: downloader_inv_def group_node_def)
  then have en: "gn_Enabled ?N"
    by (simp add: node_ok_def)
  have "gn_VersionTimestampMS ?N \<noteq> sl_VersionTimestampMS (list_message M)"
    using assms(9) tG by (simp add: list_message_def)
  from OnUdpPacket_answer [OF assms(6) R(1,2) G dec N(1) en this]
  have e: "downloader_OnUdpPacket c Md5 beyond R d = Some ((set_group_node (unat G) (answered_node (list_message M) ?N) d)
      \<lparr>dl_Out := dl_Out d @ [Dl_Updated G (registered L) (bl_VersionTimestampMS M)]\<rparr>)"
    by (simp add: registered_message reg) (simp add: list_message_def)
  have "downloader_inv (set_group_node (unat G) (answered_node (list_message M) ?N) d)"
    using answered_node_ok [OF N(2), of "list_message M"] len
    by (intro set_group_node_same_list [OF assms(6) N(1)]) (simp add: en registered_message reg)
  moreover have "GetServerListView (set_group_node (unat G) (answered_node (list_message M) ?N) d
      \<lparr>dl_Out := dl_Out d @ [Dl_Updated G (registered L) (bl_VersionTimestampMS M)]\<rparr>) G = Some (registered L)"
    using assms(6) G en
    by (simp add: GetServerListView_def group_node_def set_group_node_def answered_node_def
        registered_message reg downloader_inv_def)
  moreover have "sorted_wrt (<) (List.map (server_index ident) (registered L))"
    unfolding registered_indices [OF slots] by (intro sorted_wrt_filter) (simp add: sorted_wrt_upt)
  ultimately show ?thesis
    using e tG by (auto simp: set_group_node_def)
qed

definition sample_ident :: "uint64 \<Rightarrow> uint8 \<times> uint64" where
  "sample_ident n = (2, n)"

definition sample_server :: xServerInfo where
  "sample_server = \<lparr>si_ServerId = 1, si_Address = \<lparr>na_ip = IPV4 [10, 0, 0, 1], na_port = 7000\<rparr>\<rparr>"

definition sample_lists :: server_list_map where
  "sample_lists =
     [2 \<mapsto> new_buffered_list\<lparr>bl_List := sample_server # replicate 127 no_server\<rparr>]"

definition sample_md5 :: "bytes \<Rightarrow> bytes" where
  "sample_md5 b = replicate 16 0"

lemma sample_slots_ok: "slots_ok sample_ident 2 (sample_server # replicate 127 no_server)"
  by (auto simp: slots_ok_def MAX_SMALL_SERVER_LIST_SIZE_def nth_Cons sample_ident_def sample_server_def
      addr_wf_def no_server_def split: nat.splits)

lemma sample_lists_inv: "lists_inv c sample_md5 mp sample_ident sample_lists"
  by (auto simp: lists_inv_def sample_lists_def list_inv_def sample_slots_ok new_buffered_list_def split: if_splits)

lemma sample_registered:
  "registered (new_buffered_list\<lparr>bl_List := sample_server # replicate 127 no_server\<rparr>) = [sample_server]"
  by (simp add: registered_def sample_server_def no_server_def filter_empty_conv)

lemma sample_downloader:
  obtains d where "downloader_EnableServerGroup 2 (new_downloader 9) = Some d" and "downloader_inv d"
    and "dl_EnabledServerGroupList d = [2]" and "gn_VersionTimestampMS (dl_EnabledServerGroupMap d ! 2) = 0"
proof -
  have "unat (2 :: uint8) \<notin> set (dl_EnabledServerGroupList (new_downloader 9))"
    "unat (2 :: uint8) < MAX_SMALL_SERVER_LIST_SIZE"
    by (simp_all add: new_downloader_def MAX_SMALL_SERVER_LIST_SIZE_def)
  from EnableServerGroup_total [OF downloader_inv_new this(1) _ this(2)] obtain d
    where d: "downloader_EnableServerGroup 2 (new_downloader 9) = Some d" "downloader_inv d"
      "dl_EnabledServerGroupList d = [2]"
    by (auto simp: new_downloader_def)
  then have "gn_VersionTimestampMS (dl_EnabledServerGroupMap d ! 2) = 0"
    by (auto simp: downloader_EnableServerGroup_def new_downloader_def group_node_def new_group_node_def
        set_group_node_def MAX_SMALL_SERVER_LIST_SIZE_def ST_SERVER_LIST_def)
  with d that show ?thesis by blast
qed

theorem download_registered_servers_witness:
  "\<exists>R t d e. OnDownloadList sample_codec sample_md5 4000 50 (list_request sample_codec 2) sample_lists = (Some R, t) \<and>
     downloader_OnUdpPacket sample_codec sample_md5 [] R d = Some e \<and> GetServerListView e 2 = Some [sample_server]"
proof -
  let ?L = "new_buffered_list\<lparr>bl_List := sample_server # replicate 127 no_server\<rparr>"
  let ?M = "BuildServerListResponse sample_codec sample_md5 4000 50 ?L 2"
  have L: "sample_lists 2 = Some ?L"
    by (simp add: sample_lists_def)
  have M: "?M = (let M = ?L\<lparr>bl_Dirty := False, bl_VersionTimestampMS := 50\<rparr>
      in M\<lparr>bl_Resp := built_response sample_codec sample_md5 4000 2 M\<rparr>)"
    by (subst BuildServerListResponse_dirty) (simp_all add: new_buffered_list_def next_version_def)
  have "list_message (?L\<lparr>bl_Dirty := False, bl_VersionTimestampMS := 50\<rparr>) =
      \<lparr>sl_VersionTimestampMS = 50, sl_ServerList = [sample_server]\<rparr>"
    using sample_registered by (simp add: list_message_def registered_def)
  then obtain R where R: "bl_Resp ?M = Some R"
    unfolding M Let_def
    by (simp add: built_response_def WriteMessage_def xPP_GetSmallServerListResp_Serialize_def
        server_list_body_def server_list_digest_def sample_md5_def sample_codec_def put_le_def put_text_def
        put_ip_def sample_server_def)
  have down: "OnDownloadList sample_codec sample_md5 4000 50 (list_request sample_codec 2) sample_lists =
      (Some R, sample_lists(2 \<mapsto> ?M))"
    using L R xPP_GetSmallServerList_roundtrip [OF sample_codec_ok, of "\<lparr>gl_ServerGroup = 2\<rparr>" "[]"]
    by (simp add: OnDownloadList_def list_request_def Let_def)
  obtain d where d: "downloader_inv d" "dl_EnabledServerGroupList d = [2]"
      "gn_VersionTimestampMS (dl_EnabledServerGroupMap d ! 2) = 0"
    by (rule sample_downloader)
  have "unat (2 :: uint8) \<in> set (dl_EnabledServerGroupList d)"
    "gn_VersionTimestampMS (dl_EnabledServerGroupMap d ! unat (2 :: uint8)) \<noteq>
       bl_VersionTimestampMS (the ((sample_lists(2 \<mapsto> ?M)) 2))"
    using d by (simp_all add: M Let_def)
  from download_registered_servers [OF sample_codec_ok _ _ sample_lists_inv L d(1) this(1) down this(2)]
  obtain e where "downloader_OnUdpPacket sample_codec sample_md5 [] R d = Some e" "GetServerListView e 2 = Some [sample_server]"
    by (auto simp: sample_md5_def sample_registered)
  with down show ?thesis by blast
qed

text \<open>
  The version of a list identifies its contents: however servers come and go and downloads
  are answered, a later list never has an older version, and one with the same version and nothing
  left to build has the same servers. A downloader that ignores an answer with the version it has
  loses nothing. (The clock and the number of steps stay below the range of the version.)
\<close>

theorem list_version_identifies:
  assumes "list_run c Md5 max_payload ident es s = Some t" and "s G = Some L" and "\<not> bl_Dirty L"
    and "unat (bl_VersionTimestampMS L) + length es < 2 ^ 64 - 1"
    and "\<forall>e \<in> set es. unat (event_time e) + length es < 2 ^ 64 - 1"
  shows "\<exists>M. t G = Some M \<and> bl_VersionTimestampMS L \<le> bl_VersionTimestampMS M \<and>
    (bl_VersionTimestampMS M = bl_VersionTimestampMS L \<and> \<not> bl_Dirty M \<longrightarrow> registered M = registered L)"
proof -
  have "later_list L L"
    by (simp add: later_list_def)
  from list_run_later [OF assms(1,2) this assms(4,5)] obtain M where "t G = Some M" "later_list L M"
    by blast
  then show ?thesis
    by (auto simp: later_list_def registered_def)
qed

theorem list_version_identifies_witness:
  "\<exists>t M. list_run sample_codec sample_md5 4000 sample_ident [New_Server 3 no_address]
       (sample_lists(2 \<mapsto> new_buffered_list\<lparr>bl_Dirty := False\<rparr>)) = Some t \<and>
     t 2 = Some M \<and> 0 \<le> bl_VersionTimestampMS M"
proof -
  let ?s = "sample_lists(2 \<mapsto> new_buffered_list\<lparr>bl_Dirty := False\<rparr>)"
  obtain t where t: "list_run sample_codec sample_md5 4000 sample_ident [New_Server 3 no_address] ?s = Some t"
    by (simp add: OnNewServerId_def sample_ident_def new_buffered_list_def server_slot_def no_server_def
        MAX_SMALL_SERVER_LIST_SIZE_def)
  from list_version_identifies [OF t, of 2 "new_buffered_list\<lparr>bl_Dirty := False\<rparr>"] show ?thesis
    using t by (auto simp: new_buffered_list_def)
qed

text \<open>
  C16: The downloader keeps its list and its map of enabled groups consistent: a tick, an answer
  and \<open>Clean\<close> never violate an assertion nor leave the map, whatever packet arrives, with one
  exception: the answer with the request number 128, just behind the last group, which passes the
  check of the bounds.
\<close>

theorem downloader_consistent:
  assumes "downloader_inv d"
  shows "(\<exists>e. downloader_Tick c Random Now d = Some e \<and> downloader_inv e) \<and>
    (\<exists>e. downloader_Clean d = Some e \<and> downloader_inv e) \<and>
    (pk_RequestId P \<noteq> 128 \<longrightarrow> (\<exists>e. downloader_OnUdpPacket c Md5 beyond P d = Some e \<and> downloader_inv e)) \<and>
    (\<forall>Resp rest. pk_RequestId P = 128 \<and> pk_CommandId P = Cmd_DownloadSmallServerListResp \<and>
       xPP_GetSmallServerListResp_Deserialize c Md5 beyond (pk_Payload P) = Some (Resp, rest) \<longrightarrow>
       downloader_OnUdpPacket c Md5 beyond P d = None)"
proof -
  have "(of_nat MAX_SMALL_SERVER_LIST_SIZE :: uint64) = 128"
    by (simp add: MAX_SMALL_SERVER_LIST_SIZE_def)
  moreover have "group_node d 128 = None"
    using group_node_inv(1) [OF assms, of 128] by (simp add: MAX_SMALL_SERVER_LIST_SIZE_def)
  ultimately have bad: "downloader_OnUdpPacket c Md5 beyond P d = None"
    if "pk_RequestId P = 128" "pk_CommandId P = Cmd_DownloadSmallServerListResp"
      "xPP_GetSmallServerListResp_Deserialize c Md5 beyond (pk_Payload P) = Some (Resp, rest)" for Resp rest
    using that by (simp add: downloader_OnUdpPacket_def Let_def)
  have "\<exists>e. downloader_Tick c Random Now d = Some e \<and> downloader_inv e"
    using downloader_Tick_total [OF assms] by blast
  moreover have "\<exists>e. downloader_Clean d = Some e \<and> downloader_inv e"
    using downloader_Clean_total [OF assms] by blast
  moreover have "pk_RequestId P \<noteq> 128 \<longrightarrow> (\<exists>e. downloader_OnUdpPacket c Md5 beyond P d = Some e \<and> downloader_inv e)"
    using OnUdpPacket_total [OF assms, of c Md5 beyond P] by (auto simp: MAX_SMALL_SERVER_LIST_SIZE_def)
  ultimately show ?thesis
    using bad by blast
qed

theorem downloader_consistent_witness:
  "\<exists>e. downloader_OnUdpPacket sample_codec sample_md5 [] \<lparr>pk_CommandId = 5, pk_RequestId = 7, pk_Payload = []\<rparr>
     (new_downloader 3) = Some e \<and> downloader_inv e"
  using downloader_consistent [OF downloader_inv_new [of 3], of sample_codec "\<lambda>_. 0" 3
      "\<lparr>pk_CommandId = 5, pk_RequestId = 7, pk_Payload = []\<rparr>" sample_md5 "[]"]
  by simp

text \<open>
  Disabling a group forgets its servers but not their version, so that a group that is enabled
  again stays empty until the list of the server changes.
\<close>

lemma reenabled_group_stays_empty:
  assumes "downloader_inv d" and "unat G \<in> set (dl_EnabledServerGroupList d)"
    and "downloader_DisableServerGroup (unat G) d = Some d1" and "downloader_EnableServerGroup G d1 = Some d2"
    and "pk_CommandId R = Cmd_DownloadSmallServerListResp" and "pk_RequestId R = ucast G"
    and "xPP_GetSmallServerListResp_Deserialize c Md5 beyond (pk_Payload R) = Some (Resp, rest)"
    and "sl_VersionTimestampMS Resp = gn_VersionTimestampMS (dl_EnabledServerGroupMap d ! unat G)"
  shows "downloader_OnUdpPacket c Md5 beyond R d2 = Some d2 \<and> GetServerListView d2 G = Some []"
proof -
  have G: "unat G < MAX_SMALL_SERVER_LIST_SIZE"
    and len: "length (dl_EnabledServerGroupMap d) = MAX_SMALL_SERVER_LIST_SIZE"
    using assms(1,2) by (auto simp: downloader_inv_def)
  have "unat (ucast (ucast G :: uint64) :: uint8) = unat G"
    using G by (simp add: unat_request_group MAX_SMALL_SERVER_LIST_SIZE_def)
  then have id: "(ucast (ucast G :: uint64) :: uint8) = G"
    by (simp add: word_unat_eq_iff)
  show ?thesis
    using assms(3-8) G len unfolding downloader_OnUdpPacket_def assms(6) id
    by (auto simp: downloader_DisableServerGroup_def downloader_EnableServerGroup_def
        group_node_def set_group_node_def GetServerListView_def Let_def id split: if_splits)
qed

lemma client_posts:
  assumes "tl_PackedServerList t = List.map (server_index ident) Sis"
    and "pool_matches (tl_ClientPool t) (tl_ServerInfoContainer t)"
    and "length (tl_ServerInfoContainer t) = MAX_SMALL_SERVER_LIST_SIZE" and "Sis \<noteq> []"
    and ix: "\<And>SI. SI \<in> set Sis \<Longrightarrow> server_index ident SI < MAX_SMALL_SERVER_LIST_SIZE"
    and want: "\<And>SI. SI \<in> set Sis \<Longrightarrow> sv_ServerInfo (tl_ServerInfoContainer t ! server_index ident SI) = SI \<and>
      sv_ConnectionId (tl_ServerInfoContainer t ! server_index ident SI) \<noteq> 0"
  shows "\<exists>i. client_PostMessage Hash P t = Some (t\<lparr>tl_Out := tl_Out t @ [(i, P)]\<rparr>) \<and>
    tl_ClientPool t i = Some (si_Address (Sis ! (unat Hash mod length Sis)))"
proof -
  let ?D = "tl_ServerInfoContainer t" and ?ix = "server_index ident" and ?SI = "Sis ! (unat Hash mod length Sis)"
  have k: "unat Hash mod length Sis < length Sis"
    using assms(4) by simp
  then have SI: "?SI \<in> set Sis"
    by (rule nth_mem)
  have "?D ! ?ix ?SI \<in> set ?D"
    using assms(3) ix [OF SI] by simp
  from pool_matches_lookup [OF assms(2) this] want [OF SI]
  have "tl_ClientPool t (sv_ConnectionId (?D ! ?ix ?SI)) = Some (si_Address ?SI)"
    by simp
  moreover have "client_PostMessage Hash P t = Some (t\<lparr>tl_Out := tl_Out t @ [(sv_ConnectionId (?D ! ?ix ?SI), P)]\<rparr>)"
    using assms(4) k want [OF SI] by (simp add: client_PostMessage_def assms(1) Let_def)
  ultimately show ?thesis by blast
qed

text \<open>The slot of a wanted server holds it with a connection; a slot with a connection holds a wanted server.\<close>

lemma UpdateServerList_connected:
  assumes "client_inv ident s" and "pool_ready alloc" and "servers_ok ident Sis"
  obtains t B where "UpdateServerList alloc ident Sis s = Some t" "client_inv ident t"
    "tl_PackedServerList t = List.map (server_index ident) Sis" "pool_matches (tl_ClientPool t) (tl_ServerInfoContainer t)"
    "length (tl_ServerInfoContainer t) = MAX_SMALL_SERVER_LIST_SIZE"
    "\<And>i. i < MAX_SMALL_SERVER_LIST_SIZE \<Longrightarrow>
      slot_result (tl_ServerInfoContainer s ! i) (B ! i) (tl_ServerInfoContainer t ! i)"
    "\<And>SI. SI \<in> set Sis \<Longrightarrow> B ! server_index ident SI = SI"
    "\<And>SI. SI \<in> set Sis \<Longrightarrow> sv_ServerInfo (tl_ServerInfoContainer t ! server_index ident SI) = SI \<and>
      sv_ConnectionId (tl_ServerInfoContainer t ! server_index ident SI) \<noteq> 0"
    "\<And>i. i < MAX_SMALL_SERVER_LIST_SIZE \<Longrightarrow> sv_ConnectionId (tl_ServerInfoContainer t ! i) \<noteq> 0 \<Longrightarrow>
      sv_ServerInfo (tl_ServerInfoContainer t ! i) \<in> set Sis"
proof -
  let ?C = "tl_ServerInfoContainer s" and ?ix = "server_index ident"
  from UpdateServerList_slots [OF assms] obtain t B where t: "UpdateServerList alloc ident Sis s = Some t"
    "tl_PackedServerList t = List.map ?ix Sis" "pool_matches (tl_ClientPool t) (tl_ServerInfoContainer t)"
    "length (tl_ServerInfoContainer t) = MAX_SMALL_SERVER_LIST_SIZE"
    and slot: "\<And>i. i < MAX_SMALL_SERVER_LIST_SIZE \<Longrightarrow> slot_result (?C ! i) (B ! i) (tl_ServerInfoContainer t ! i)"
    and B: "\<And>SI. SI \<in> set Sis \<Longrightarrow> B ! ?ix SI = SI"
    and noB: "\<And>k. k < MAX_SMALL_SERVER_LIST_SIZE \<Longrightarrow> k \<notin> ?ix ` set Sis \<Longrightarrow> B ! k = no_server"
    by metis
  let ?D = "tl_ServerInfoContainer t"
  have ix: "?ix SI < MAX_SMALL_SERVER_LIST_SIZE" if "SI \<in> set Sis" for SI
    using assms(3) that by (simp add: servers_ok_def)
  have want: "sv_ServerInfo (?D ! ?ix SI) = SI \<and> sv_ConnectionId (?D ! ?ix SI) \<noteq> 0" if SI: "SI \<in> set Sis" for SI
    using slot_result_wanted [OF slot [OF ix [OF SI]]] servers_ok_id [OF assms(3) SI] by (simp add: B [OF SI])
  have have_conn: "sv_ServerInfo (?D ! i) \<in> set Sis \<and> ?ix (sv_ServerInfo (?D ! i)) = i"
    if i: "i < MAX_SMALL_SERVER_LIST_SIZE" and c: "sv_ConnectionId (?D ! i) \<noteq> 0" for i
  proof -
    have "sv_ConnectionId (?C ! i) \<noteq> 0 \<Longrightarrow> si_ServerId (sv_ServerInfo (?C ! i)) \<noteq> 0"
      using assms(1) i by (simp add: client_inv_def)
    from slot_result_connected [OF slot [OF i] c this]
    have info: "sv_ServerInfo (?D ! i) = B ! i" and "si_ServerId (B ! i) \<noteq> 0"
      by auto
    then have "B ! i \<noteq> no_server"
      by (auto simp: no_server_def)
    then have "i \<in> ?ix ` set Sis"
      using noB [OF i] by blast
    with B info show ?thesis by auto
  qed
  have inv: "client_inv ident t"
    using t have_conn want ix servers_ok_id [OF assms(3)] by (auto simp: client_inv_def)
  show thesis
    by (rule that [OF t(1) inv t(2-4) slot B want]) (use have_conn in blast)+
qed

text \<open>
  C18: Given a list of servers with distinct numbers, in particular one that was registered and
  downloaded, the client ends with exactly one connection to each of them and none to any other
  server; servers that were connected before keep their connection, the pool holds no other
  connection, and every message goes to a live connection to the server that its hash selects.
\<close>

theorem server_connections:
  assumes "client_inv ident s" and "pool_ready alloc" and "servers_ok ident Sis"
  shows "\<exists>t. UpdateServerList alloc ident Sis s = Some t \<and> client_inv ident t \<and>
    connected_servers t = set Sis \<and>
    (\<forall>i < MAX_SMALL_SERVER_LIST_SIZE. sv_ConnectionId (tl_ServerInfoContainer s ! i) \<noteq> 0 \<and>
       sv_ServerInfo (tl_ServerInfoContainer s ! i) \<in> set Sis \<longrightarrow>
       tl_ServerInfoContainer t ! i = tl_ServerInfoContainer s ! i) \<and>
    (\<forall>Hash P. Sis \<noteq> [] \<longrightarrow> (\<exists>i. client_PostMessage Hash P t = Some (t\<lparr>tl_Out := tl_Out t @ [(i, P)]\<rparr>) \<and>
       tl_ClientPool t i = Some (si_Address (Sis ! (unat Hash mod length Sis)))))"
proof -
  let ?C = "tl_ServerInfoContainer s" and ?ix = "server_index ident"
  obtain t B where t: "UpdateServerList alloc ident Sis s = Some t" "client_inv ident t"
      "tl_PackedServerList t = List.map ?ix Sis" "pool_matches (tl_ClientPool t) (tl_ServerInfoContainer t)"
    and len: "length (tl_ServerInfoContainer t) = MAX_SMALL_SERVER_LIST_SIZE"
    and slot: "\<And>i. i < MAX_SMALL_SERVER_LIST_SIZE \<Longrightarrow> slot_result (?C ! i) (B ! i) (tl_ServerInfoContainer t ! i)"
    and B: "\<And>SI. SI \<in> set Sis \<Longrightarrow> B ! ?ix SI = SI"
    and want: "\<And>SI. SI \<in> set Sis \<Longrightarrow> sv_ServerInfo (tl_ServerInfoContainer t ! ?ix SI) = SI \<and>
      sv_ConnectionId (tl_ServerInfoContainer t ! ?ix SI) \<noteq> 0"
    and have_conn: "\<And>i. i < MAX_SMALL_SERVER_LIST_SIZE \<Longrightarrow> sv_ConnectionId (tl_ServerInfoContainer t ! i) \<noteq> 0 \<Longrightarrow>
      sv_ServerInfo (tl_ServerInfoContainer t ! i) \<in> set Sis"
    using UpdateServerList_connected [OF assms] by blast
  let ?D = "tl_ServerInfoContainer t"
  have ix: "?ix SI < MAX_SMALL_SERVER_LIST_SIZE" if "SI \<in> set Sis" for SI
    using assms(3) that by (simp add: servers_ok_def)
  have "connected_servers t = set Sis"
  proof
    show "connected_servers t \<subseteq> set Sis"
      using have_conn len by (auto simp: connected_servers_def in_set_conv_nth)
    show "set Sis \<subseteq> connected_servers t"
    proof
      fix SI assume SI: "SI \<in> set Sis"
      have "?D ! ?ix SI \<in> set ?D"
        using len ix [OF SI] by simp
      with want [OF SI] show "SI \<in> connected_servers t"
        unfolding connected_servers_def by force
    qed
  qed
  moreover have "?D ! i = ?C ! i"
    if "i < MAX_SMALL_SERVER_LIST_SIZE" "sv_ConnectionId (?C ! i) \<noteq> 0" "sv_ServerInfo (?C ! i) \<in> set Sis" for i
  proof -
    have "?ix (sv_ServerInfo (?C ! i)) = i"
      using assms(1) that by (simp add: client_inv_def)
    then have "B ! i = sv_ServerInfo (?C ! i)"
      using B [OF that(3)] by simp
    then show ?thesis
      using slot [OF that(1)] that(2) by (simp add: slot_result_def)
  qed
  moreover have "\<exists>i. client_PostMessage Hash P t = Some (t\<lparr>tl_Out := tl_Out t @ [(i, P)]\<rparr>) \<and>
      tl_ClientPool t i = Some (si_Address (Sis ! (unat Hash mod length Sis)))" if "Sis \<noteq> []" for Hash P
    by (rule client_posts [OF t(3,4) len that ix want])
  ultimately show ?thesis
    using t(1,2) by blast
qed

definition least_free :: "uint64 set \<Rightarrow> uint64" where
  "least_free D = (case find (\<lambda>i. i \<notin> D) (List.map (\<lambda>k. of_nat (Suc k)) [0..<MAX_SMALL_SERVER_LIST_SIZE]) of
     None \<Rightarrow> 0 | Some i \<Rightarrow> i)"

lemma index_positive_128:
  "k < MAX_SMALL_SERVER_LIST_SIZE \<Longrightarrow> (of_nat (Suc k) :: uint64) \<noteq> 0"
  using of_nat_64_eq_0 [of "Suc k"] by (simp add: MAX_SMALL_SERVER_LIST_SIZE_def del: of_nat_Suc)

lemma pool_ready_least_free: "pool_ready least_free"
proof -
  let ?I = "List.map (\<lambda>k. of_nat (Suc k) :: uint64) [0..<MAX_SMALL_SERVER_LIST_SIZE]"
  have distinct: "distinct ?I"
  proof -
    have "inj_on (\<lambda>k. of_nat (Suc k) :: uint64) {0..<MAX_SMALL_SERVER_LIST_SIZE}"
    proof (rule inj_onI)
      fix j k :: nat
      assume jk: "j \<in> {0..<MAX_SMALL_SERVER_LIST_SIZE}" "k \<in> {0..<MAX_SMALL_SERVER_LIST_SIZE}"
        and eq: "(of_nat (Suc j) :: uint64) = of_nat (Suc k)"
      from eq have "unat (of_nat (Suc j) :: uint64) = unat (of_nat (Suc k) :: uint64)"
        by (simp only:)
      with jk show "j = k"
        by (simp add: unat_of_nat MAX_SMALL_SERVER_LIST_SIZE_def del: of_nat_Suc)
    qed
    then show ?thesis
      by (simp add: distinct_map del: of_nat_Suc)
  qed
  have nonzero: "i \<noteq> 0" if "i \<in> set ?I" for i
    using that index_positive_128 by auto
  have "least_free D \<noteq> 0" if "card D < MAX_SMALL_SERVER_LIST_SIZE" for D
  proof -
    have "card (set ?I) = MAX_SMALL_SERVER_LIST_SIZE"
      using distinct_card [OF distinct] by simp
    with that have "\<not> set ?I \<subseteq> D"
      by (metis card_mono finite not_less)
    then obtain i where "find (\<lambda>i. i \<notin> D) ?I = Some i"
      by (cases "find (\<lambda>i. i \<notin> D) ?I") (auto simp only: find_None_iff)
    moreover from this have "i \<in> set ?I"
      by (metis find_Some_iff nth_mem)
    ultimately show ?thesis
      using nonzero by (simp add: least_free_def)
  qed
  moreover have "storage_ok least_free"
    unfolding storage_ok_def least_free_def
    by (auto simp: find_Some_iff split: option.splits)
  ultimately show ?thesis
    by (simp add: pool_ready_def)
qed

theorem server_connections_witness:
  "\<exists>t. UpdateServerList least_free sample_ident [sample_server] new_tcp_client = Some t \<and>
     connected_servers t = {sample_server}"
proof -
  have "servers_ok sample_ident [sample_server]"
    by (simp add: servers_ok_def ExtractIndexFromSmallServerId_def sample_ident_def sample_server_def
        server_index_def MAX_SMALL_SERVER_LIST_SIZE_def)
  from server_connections [OF client_inv_new pool_ready_least_free this] show ?thesis
    by auto
qed


text \<open>The guard never fails, and leaves nothing behind.\<close>

lemma main_groups_guard:
  "\<exists>s. main_EnableGroups Map.empty = Some s \<and> dom s = set main_groups \<and> main_DisableGroups s = Some Map.empty"
  by (simp add: main_EnableGroups_def main_DisableGroups_def main_groups_def EnableServerGroup_def DisableServerGroup_def)
    auto

end
