(* ===== verification/Audit_Report.thy ===== *)
theory Audit_Report
  imports Server_List Auth_Service
begin

text \<open>
  \<open>lib_component/audit_service/audit_service\<close>: what the proxies report. The usage and the blocked
  accounts, which the authentication service hands over, go to the audit collector that the account
  selects, over one connection per collector; the targets go to the target collector that the hash
  of the report selects, in datagrams. The lists of both come from the downloader, and the
  connections follow the list of the audit collectors by a merge of the old and the new one.
\<close>

section \<open>State\<close>

record audit_state =
  av_TcpReporter :: client_pool
  av_ServerListDownloader :: downloader
  av_AuditServerList :: "xServerInfo list"
  av_ConnectionIdList :: "uint64 list"
  av_NoServerReport :: uint64
  av_TcpOut :: "(uint64 \<times> packet option) list"
  av_UdpOut :: "(xNetAddress \<times> packet option) list"

definition no_connections :: "uint64 list" where
  "no_connections = replicate MAX_SMALL_SERVER_LIST_SIZE 0"

definition new_audit_state :: "uint64 \<Rightarrow> audit_state" where
  "new_audit_state Now =
     \<lparr>av_TcpReporter = Map.empty, av_ServerListDownloader = new_downloader Now, av_AuditServerList = [],
      av_ConnectionIdList = no_connections, av_NoServerReport = 0, av_TcpOut = [], av_UdpOut = []\<rparr>"

definition Cmd_TargetReport :: uint32 where "Cmd_TargetReport = 0x2001"
definition Cmd_BlockAccountReport :: uint32 where "Cmd_BlockAccountReport = 0x2002"
definition Cmd_AuditReport :: uint32 where "Cmd_AuditReport = 0x2003"

text \<open>
  \<open>Init\<close> with the outcomes of its four parts; when the last one fails the others are cleaned, but
  it goes on and succeeds.
\<close>

definition audit_Init ::
    "bool \<Rightarrow> bool \<Rightarrow> bool \<Rightarrow> bool \<Rightarrow> xNetAddress \<Rightarrow> audit_state \<Rightarrow> (bool \<times> audit_state) option" where
  "audit_Init tcp_ok udp_ok download_ok pool_ok ServerListServerAddress s =
     (if \<not> tcp_ok then Some (False, s)
      else if \<not> udp_ok then Some (False, s\<lparr>av_TcpReporter := Map.empty\<rparr>)
      else
        let (ok, d) = downloader_Init download_ok ServerListServerAddress (av_ServerListDownloader s) in
        if \<not> ok then Some (False, s\<lparr>av_TcpReporter := Map.empty, av_ServerListDownloader := d\<rparr>)
        else
          case (if pool_ok then Some d else downloader_Clean d) of
            None \<Rightarrow> None
          | Some d \<Rightarrow>
              (case Option.bind (downloader_EnableServerGroup ST_TARGET_COLLECTOR d)
                      (downloader_EnableServerGroup ST_AUDIT_COLLECTOR) of
                 None \<Rightarrow> None
               | Some d \<Rightarrow>
                   Some (True, s\<lparr>av_ServerListDownloader := d, av_ConnectionIdList := no_connections,
                                 av_TcpReporter := Map.empty\<rparr>)))"

definition audit_Clean :: "audit_state \<Rightarrow> audit_state option" where
  "audit_Clean s =
     (case downloader_Clean (av_ServerListDownloader s) of
        None \<Rightarrow> None
      | Some d \<Rightarrow>
          Some (s\<lparr>av_ConnectionIdList := no_connections, av_ServerListDownloader := d,
                  av_TcpReporter := Map.empty\<rparr>))"

definition audit_Tick :: "codec \<Rightarrow> (nat \<Rightarrow> nat) \<Rightarrow> uint64 \<Rightarrow> audit_state \<Rightarrow> audit_state option" where
  "audit_Tick c Random NowMS s =
     map_option (\<lambda>d. s\<lparr>av_ServerListDownloader := d\<rparr>)
       (downloader_Tick c Random NowMS (av_ServerListDownloader s))"

definition OutputAudit_NoServerReport :: "audit_state \<Rightarrow> uint64 \<times> audit_state" where
  "OutputAudit_NoServerReport s = (av_NoServerReport s, s\<lparr>av_NoServerReport := 0\<rparr>)"

section \<open>The connections to the audit collectors\<close>

text \<open>
  The merge of the old list, with its connections, and the new list: the connections of the new
  list and the pool. An \<open>AddServer\<close> that fails is fatal.
\<close>

fun remove_servers :: "(xServerInfo \<times> uint64) list \<Rightarrow> client_pool \<Rightarrow> client_pool" where
  "remove_servers [] p = p"
| "remove_servers ((RemovedServerInfo, ConnectionId) # Olds) p = remove_servers Olds (RemoveServer ConnectionId p)"

fun merge_servers ::
    "(uint64 set \<Rightarrow> uint64) \<Rightarrow> (xServerInfo \<times> uint64) list \<Rightarrow> xServerInfo list \<Rightarrow> client_pool \<Rightarrow>
     (uint64 list \<times> client_pool) option" where
  "merge_servers alloc Olds [] p = Some ([], remove_servers Olds p)"
| "merge_servers alloc [] (FromNew # News) p =
     (case AddServer alloc (si_Address FromNew) p of
        None \<Rightarrow> None
      | Some (i, p) \<Rightarrow> map_option (apfst ((#) i)) (merge_servers alloc [] News p))"
| "merge_servers alloc ((FromOld, ConnectionId) # Olds) (FromNew # News) p =
     (if si_ServerId FromOld = si_ServerId FromNew then
        if si_Address FromOld = si_Address FromNew
        then map_option (apfst ((#) ConnectionId)) (merge_servers alloc Olds News p)
        else
          (case AddServer alloc (si_Address FromNew) (RemoveServer ConnectionId p) of
             None \<Rightarrow> None
           | Some (i, p) \<Rightarrow> map_option (apfst ((#) i)) (merge_servers alloc Olds News p))
      else if si_ServerId FromOld < si_ServerId FromNew
      then merge_servers alloc Olds (FromNew # News) (RemoveServer ConnectionId p)
      else
        (case AddServer alloc (si_Address FromNew) p of
           None \<Rightarrow> None
         | Some (i, p) \<Rightarrow>
             map_option (apfst ((#) i)) (merge_servers alloc ((FromOld, ConnectionId) # Olds) News p)))"

definition server_connections_of :: "audit_state \<Rightarrow> (xServerInfo \<times> uint64) list" where
  "server_connections_of s = zip (av_AuditServerList s) (av_ConnectionIdList s)"

definition OnServerListUpdated ::
    "(uint64 set \<Rightarrow> uint64) \<Rightarrow> uint8 \<Rightarrow> xServerInfo list \<Rightarrow> audit_state \<Rightarrow> audit_state option" where
  "OnServerListUpdated alloc ServerGroup ServerList s =
     (if ServerGroup = ST_TARGET_COLLECTOR then Some s
      else if ServerGroup = ST_AUDIT_COLLECTOR then
        (case merge_servers alloc (server_connections_of s) ServerList (av_TcpReporter s) of
           None \<Rightarrow> None
         | Some (TempConnectionIdList, p) \<Rightarrow>
             Some (s\<lparr>av_TcpReporter := p, av_AuditServerList := ServerList,
                     av_ConnectionIdList :=
                       TempConnectionIdList @ drop (length ServerList) (av_ConnectionIdList s)\<rparr>))
      else Some s)"

text \<open>An answer of the server list is handed on when the downloader announces an update.\<close>

fun announce ::
    "(uint64 set \<Rightarrow> uint64) \<Rightarrow> download_output list \<Rightarrow> audit_state \<Rightarrow> audit_state option" where
  "announce alloc [] s = Some s"
| "announce alloc (Dl_Updated G ServerList V # Os) s =
     Option.bind (OnServerListUpdated alloc G ServerList s) (announce alloc Os)"
| "announce alloc (Dl_Post A P # Os) s = announce alloc Os s"

definition audit_OnUdpPacket ::
    "(uint64 set \<Rightarrow> uint64) \<Rightarrow> codec \<Rightarrow> (bytes \<Rightarrow> bytes) \<Rightarrow> bytes \<Rightarrow> packet \<Rightarrow> audit_state \<Rightarrow> audit_state option" where
  "audit_OnUdpPacket alloc c Md5 beyond P s =
     (let d = av_ServerListDownloader s in
      case downloader_OnUdpPacket c Md5 beyond P d of
        None \<Rightarrow> None
      | Some e \<Rightarrow> announce alloc (drop (length (dl_Out d)) (dl_Out e)) (s\<lparr>av_ServerListDownloader := e\<rparr>))"

section \<open>Reports\<close>

text \<open>The loop that looks for a dot from a position downwards.\<close>

fun last_dot :: "bytes \<Rightarrow> nat \<Rightarrow> nat option" where
  "last_dot DomainName 0 = None"
| "last_dot DomainName (Suc I) = (if DomainName ! I = 0x2E then Some I else last_dot DomainName I)"

definition ExtractSecondLevelDomain :: "bytes \<Rightarrow> bytes" where
  "ExtractSecondLevelDomain DomainName =
     (case last_dot DomainName (length DomainName) of
        None \<Rightarrow> DomainName
      | Some LastDot \<Rightarrow>
          (case last_dot DomainName LastDot of
             None \<Rightarrow> DomainName
           | Some SecondLastDot \<Rightarrow> drop (SecondLastDot + 1) DomainName))"

text \<open>
  The report of a target. The hash stays zero when the members it covers do not fit the packet,
  and then a datagram of size zero is sent.
\<close>

definition audit_ReportTarget ::
    "codec \<Rightarrow> (bytes \<Rightarrow> uint64) \<Rightarrow> nat \<Rightarrow> uint64 \<Rightarrow> xNetAddress \<Rightarrow> bytes \<Rightarrow> uint64 \<Rightarrow> audit_state \<Rightarrow>
     audit_state option" where
  "audit_ReportTarget c std_hash max_payload GlobalAuthId TargetAddress TargetHost Count s =
     (case GetServerListView (av_ServerListDownloader s) ST_TARGET_COLLECTOR of
        None \<Rightarrow> None
      | Some ServerList \<Rightarrow>
          let ServerListSize = length ServerList in
          if ServerListSize = 0 then Some (s\<lparr>av_NoServerReport := av_NoServerReport s + 1\<rparr>)
          else
            let Req = \<lparr>tc_GlobalAuthId = GlobalAuthId, tc_TargetAddress = TargetAddress,
                       tc_TargetHostView = ExtractSecondLevelDomain TargetHost, tc_StartTimestampMS = 0,
                       tc_PeriodMS = 0, tc_Count = Count, tc_Hash = 0\<rparr>;
                (Payload, Req') = xPP_TargetCollect_Serialize c std_hash Req;
                Hash = (if length (target_identity c Req) > max_payload then 0 else tc_Hash Req');
                SelectTarget = ServerList ! (unat Hash mod ServerListSize)
            in Some (s\<lparr>av_UdpOut := av_UdpOut s @
                 [(si_Address SelectTarget, WriteMessage max_payload Cmd_TargetReport 0 Payload)]\<rparr>))"

definition select_connection :: "uint64 \<Rightarrow> audit_state \<Rightarrow> uint64" where
  "select_connection AuthId s = av_ConnectionIdList s ! (unat AuthId mod length (av_AuditServerList s))"

definition post_to_collector :: "nat \<Rightarrow> uint64 \<Rightarrow> uint32 \<Rightarrow> bytes \<Rightarrow> audit_state \<Rightarrow> audit_state" where
  "post_to_collector max_payload ConnectionId CommandId Payload s =
     s\<lparr>av_TcpOut := av_TcpOut s @ [(ConnectionId, WriteMessage max_payload CommandId 0 Payload)]\<rparr>"

definition usage_message :: "xAuditUsage \<Rightarrow> xPP_AuditCollect" where
  "usage_message UsageInfo =
     \<lparr>ac_GlobalAuthId = ru_AuthId UsageInfo, ac_StartTimestampMS = ru_StartTimestampMS UsageInfo,
      ac_PeriodMS = ru_PeriodMS UsageInfo,
      ac_TotalTcpConnections = lu_TotalTcpConnections (ru_Usage UsageInfo),
      ac_TotalTcpBytesFromClient = lu_TotalTcpBytesFromClient (ru_Usage UsageInfo),
      ac_TotalTcpBytesToClient = lu_TotalTcpBytesToClient (ru_Usage UsageInfo),
      ac_TotalUdpChannels = lu_TotalUdpChannels (ru_Usage UsageInfo),
      ac_TotalUdpBytesFromClient = lu_TotalUdpBytesFromClient (ru_Usage UsageInfo),
      ac_TotalUdpBytesToClient = lu_TotalUdpBytesToClient (ru_Usage UsageInfo)\<rparr>"

definition audit_ReportUsage :: "codec \<Rightarrow> nat \<Rightarrow> xAuditUsage \<Rightarrow> audit_state \<Rightarrow> audit_state" where
  "audit_ReportUsage c max_payload UsageInfo s =
     (if av_AuditServerList s = [] then s\<lparr>av_NoServerReport := av_NoServerReport s + 1\<rparr>
      else post_to_collector max_payload (select_connection (ru_AuthId UsageInfo) s) Cmd_AuditReport
             (xPP_AuditCollect_Serialize c (usage_message UsageInfo)) s)"

definition reason_code :: "eBlockAccountReason \<Rightarrow> uint8" where
  "reason_code R = (case R of BANDWITH_LIMIT \<Rightarrow> 0 | CONNECTION_LIMIT \<Rightarrow> 1 | BLACK_LIST_LIMIT \<Rightarrow> 2)"

text \<open>The period is cut to 32 bits.\<close>

definition block_message :: "xAuditBlockAccount \<Rightarrow> xPP_BlockAccount" where
  "block_message B =
     \<lparr>ba_StartTimestampMS = rb_StartTimestampMS B, ba_GlobalAuthId = rb_AuthId B,
      ba_BlockReason = reason_code (rb_Reason B), ba_BlockThreshold = rb_Threshold B,
      ba_BlockTriggerValue = rb_TriggerValue B, ba_BlockPeriodMS = ucast (rb_PeriodMS B)\<rparr>"

definition audit_ReportBlockAccount :: "codec \<Rightarrow> nat \<Rightarrow> xAuditBlockAccount \<Rightarrow> audit_state \<Rightarrow> audit_state" where
  "audit_ReportBlockAccount c max_payload B s =
     (if av_AuditServerList s = [] then s\<lparr>av_NoServerReport := av_NoServerReport s + 1\<rparr>
      else post_to_collector max_payload (select_connection (rb_AuthId B) s) Cmd_BlockAccountReport
             (xPP_BlockAccount_Serialize c (block_message B)) s)"

text \<open>The reports of the authentication service, in the order in which it makes them.\<close>

fun audit_reports :: "codec \<Rightarrow> nat \<Rightarrow> audit_report list \<Rightarrow> audit_state \<Rightarrow> audit_state" where
  "audit_reports c max_payload [] s = s"
| "audit_reports c max_payload (ReportUsage U # Rs) s =
     audit_reports c max_payload Rs (audit_ReportUsage c max_payload U s)"
| "audit_reports c max_payload (ReportBlockAccount B # Rs) s =
     audit_reports c max_payload Rs (audit_ReportBlockAccount c max_payload B s)"

section \<open>Lemmas: the merge\<close>

text \<open>The pool holds exactly the connections of a list of servers with their connections.\<close>

definition conn_list :: "(xServerInfo \<times> uint64) list \<Rightarrow> (uint64 \<times> xNetAddress) list" where
  "conn_list L = List.map (\<lambda>(S, i). (i, si_Address S)) L"

definition pool_of :: "(xServerInfo \<times> uint64) list \<Rightarrow> client_pool \<Rightarrow> bool" where
  "pool_of L p \<longleftrightarrow> p = map_of (conn_list L) \<and> distinct (List.map snd L) \<and> 0 \<notin> set (List.map snd L)"

lemma conn_list_simps [simp]:
  "conn_list [] = []" "conn_list ((S, i) # L) = (i, si_Address S) # conn_list L"
  "conn_list (L @ M) = conn_list L @ conn_list M" "List.map fst (conn_list L) = List.map snd L"
  by (auto simp: conn_list_def)

lemma pool_of_dom: "pool_of L p \<Longrightarrow> dom p = set (List.map snd L)"
  by (auto simp: pool_of_def dom_map_of_conv_image_fst conn_list_def image_comp case_prod_beta)

lemma pool_of_lookup: "pool_of L p \<Longrightarrow> (S, i) \<in> set L \<Longrightarrow> p i = Some (si_Address S) \<and> i \<noteq> 0"
  by (force simp: pool_of_def conn_list_def image_comp o_def case_prod_beta intro!: map_of_is_SomeI)

lemma pool_of_remove:
  assumes "pool_of (D @ (S, i) # Olds) p"
  shows "pool_of (D @ Olds) (RemoveServer i p)"
proof -
  have d: "distinct (List.map fst (conn_list D @ (i, si_Address S) # conn_list Olds))"
    and p: "p = map_of (conn_list D @ (i, si_Address S) # conn_list Olds)"
    using assms by (simp_all add: pool_of_def)
  have "RemoveServer i p = map_of (conn_list D @ conn_list Olds)"
    using map_of_middle [OF d] unfolding p RemoveServer_def by (metis fun_upd_idem fun_upd_upd)
  then show ?thesis
    using assms by (simp add: pool_of_def)
qed

lemma pool_of_add:
  assumes "pool_of (D @ Olds) p" and "pool_ready alloc" and "length D + length Olds < MAX_SMALL_SERVER_LIST_SIZE"
  shows "\<exists>i. AddServer alloc (si_Address S) p = Some (i, p(i \<mapsto> si_Address S)) \<and>
    pool_of (D @ (S, i) # Olds) (p(i \<mapsto> si_Address S))"
proof -
  let ?i = "alloc (dom p)"
  have "card (dom p) \<le> length (List.map snd (D @ Olds))"
    unfolding pool_of_dom [OF assms(1)] by (rule card_length)
  with assms(2,3) have i: "?i \<noteq> 0"
    by (simp add: pool_ready_def)
  moreover have "?i = 0 \<or> ?i \<notin> dom p"
    using assms(2) by (simp only: pool_ready_def storage_ok_def)
  ultimately have fresh: "?i \<notin> dom p"
    by blast
  from fresh have "?i \<notin> set (List.map snd (D @ Olds))"
    using pool_of_dom [OF assms(1)] by simp
  then have d: "distinct (List.map fst (conn_list D @ (?i, si_Address S) # conn_list Olds))"
    using assms(1) by (auto simp: pool_of_def)
  have "p(?i \<mapsto> si_Address S) = map_of (conn_list D @ (?i, si_Address S) # conn_list Olds)"
    using map_of_middle [OF d] assms(1) by (simp add: pool_of_def)
  then have "pool_of (D @ (S, ?i) # Olds) (p(?i \<mapsto> si_Address S))"
    using assms(1) d i by (simp add: pool_of_def)
  then show ?thesis
    using i by (auto simp: AddServer_def)
qed

lemma remove_servers_pool: "pool_of (D @ Olds) p \<Longrightarrow> pool_of D (remove_servers Olds p)"
proof (induction Olds arbitrary: p)
  case (Cons x Olds)
  obtain S i where x: "x = (S, i)" by fastforce
  from Cons.prems have "pool_of (D @ Olds) (RemoveServer i p)"
    unfolding x by (rule pool_of_remove)
  with Cons.IH show ?case
    by (simp add: x)
qed simp

text \<open>
  The invariant of the loop: the identifiers are ascending, come from a set \<open>K\<close> of as many as the
  pool has room for, and the pool holds the connections that are done and those still to look at.
\<close>

abbreviation sids :: "(xServerInfo \<times> uint64) list \<Rightarrow> uint64 list" where
  "sids L \<equiv> List.map (\<lambda>x. si_ServerId (fst x)) L"

definition merge_inv ::
    "uint64 set \<Rightarrow> (xServerInfo \<times> uint64) list \<Rightarrow> (xServerInfo \<times> uint64) list \<Rightarrow> xServerInfo list \<Rightarrow>
     client_pool \<Rightarrow> bool" where
  "merge_inv K D Olds News p \<longleftrightarrow>
     finite K \<and> card K \<le> MAX_SMALL_SERVER_LIST_SIZE \<and>
     sorted_wrt (<) (sids D @ sids Olds) \<and> sorted_wrt (<) (sids D @ List.map si_ServerId News) \<and>
     set (sids D) \<union> set (sids Olds) \<union> si_ServerId ` set News \<subseteq> K \<and>
     pool_of (D @ Olds) p"

lemma strict_sorted_distinct: "sorted_wrt (<) xs \<Longrightarrow> distinct (xs :: uint64 list)"
  by (induction xs) auto

lemma merge_room:
  assumes "finite K" and "card K \<le> MAX_SMALL_SERVER_LIST_SIZE" and "distinct (n # xs)" and "set (n # xs) \<subseteq> K"
  shows "length xs < MAX_SMALL_SERVER_LIST_SIZE"
proof -
  have "Suc (length xs) = card (set (n # xs))"
    using assms(3) distinct_card [of "n # xs"] by simp
  also have "\<dots> \<le> card K"
    using assms(1,4) by (rule card_mono)
  finally show ?thesis
    using assms(2) by simp
qed

lemma merge_inv_keep:
  assumes "merge_inv K D ((S, i) # Olds) (N # News) p" and "si_ServerId S = si_ServerId N"
    and "si_Address S = si_Address N"
  shows "merge_inv K (D @ [(N, i)]) Olds News p"
proof -
  have "N = S"
    using assms(2,3) by simp
  with assms(1) show ?thesis
    by (simp add: merge_inv_def)
qed

lemma merge_inv_drop:
  assumes "merge_inv K D ((S, i) # Olds) News p"
  shows "merge_inv K D Olds News (RemoveServer i p)"
proof -
  have "pool_of (D @ Olds) (RemoveServer i p)"
    using assms by (auto simp: merge_inv_def intro: pool_of_remove)
  with assms show ?thesis
    by (auto simp: merge_inv_def sorted_wrt_append)
qed

lemma merge_inv_add:
  assumes "merge_inv K D Olds (N # News) p" and "pool_ready alloc"
    and "\<forall>x \<in> set Olds. si_ServerId N < si_ServerId (fst x)"
  shows "\<exists>i. AddServer alloc (si_Address N) p = Some (i, p(i \<mapsto> si_Address N)) \<and>
    merge_inv K (D @ [(N, i)]) Olds News (p(i \<mapsto> si_Address N))"
proof -
  have s: "sorted_wrt (<) (sids D @ si_ServerId N # sids Olds)"
    using assms(1,3) by (auto simp: merge_inv_def sorted_wrt_append)
  then have "distinct (si_ServerId N # sids D @ sids Olds)"
    using strict_sorted_distinct [OF s] by auto
  then have room: "length (sids D @ sids Olds) < MAX_SMALL_SERVER_LIST_SIZE"
    using assms(1) by (intro merge_room [of K "si_ServerId N"]) (auto simp: merge_inv_def)
  have p: "pool_of (D @ Olds) p"
    using assms(1) by (simp add: merge_inv_def)
  from pool_of_add [OF p assms(2), of N] room obtain i
    where i: "AddServer alloc (si_Address N) p = Some (i, p(i \<mapsto> si_Address N))"
      "pool_of (D @ (N, i) # Olds) (p(i \<mapsto> si_Address N))"
    by auto
  have "merge_inv K (D @ [(N, i)]) Olds News (p(i \<mapsto> si_Address N))"
    using assms(1) s i(2) by (simp add: merge_inv_def)
  with i(1) show ?thesis by blast
qed

text \<open>The result of the merge, for any list of connections that are done.\<close>

definition merge_post ::
    "(xServerInfo \<times> uint64) list \<Rightarrow> (xServerInfo \<times> uint64) list \<Rightarrow> xServerInfo list \<Rightarrow>
     (uint64 list \<times> client_pool) option \<Rightarrow> bool" where
  "merge_post D Olds News R \<longleftrightarrow>
     (\<exists>cs q. R = Some (cs, q) \<and> length cs = length News \<and> pool_of (D @ zip News cs) q \<and>
        (\<forall>(S, i) \<in> set Olds. S \<in> set News \<longrightarrow> (S, i) \<in> set (zip News cs)))"

lemma merge_post_Cons:
  assumes "merge_post (D @ [(N, i)]) Olds' News R"
    and "\<And>S j. (S, j) \<in> set Olds \<Longrightarrow> S \<in> set (N # News) \<Longrightarrow> (S, j) = (N, i) \<or> ((S, j) \<in> set Olds' \<and> S \<in> set News)"
  shows "merge_post D Olds (N # News) (map_option (apfst ((#) i)) R)"
proof -
  from assms(1) obtain cs q where R: "R = Some (cs, q)" "length cs = length News"
    "pool_of ((D @ [(N, i)]) @ zip News cs) q"
    and kept: "\<And>S j. (S, j) \<in> set Olds' \<Longrightarrow> S \<in> set News \<Longrightarrow> (S, j) \<in> set (zip News cs)"
    by (fastforce simp: merge_post_def)
  have "(S, j) \<in> set (zip (N # News) (i # cs))" if "(S, j) \<in> set Olds" "S \<in> set (N # News)" for S j
    using assms(2) [OF that] kept by auto
  with R show ?thesis
    by (fastforce simp: merge_post_def)
qed

lemma merge_servers_spec:
  assumes "pool_ready alloc" and "merge_inv K D Olds News p"
  shows "merge_post D Olds News (merge_servers alloc Olds News p)"
  using assms
proof (induction alloc Olds News p arbitrary: D rule: merge_servers.induct)
  case (1 alloc Olds p)
  then show ?case
    using remove_servers_pool [of D Olds p] by (auto simp: merge_inv_def merge_post_def)
next
  case (2 alloc N News p)
  from merge_inv_add [OF 2(3,2)] obtain i where i: "AddServer alloc (si_Address N) p = Some (i, p(i \<mapsto> si_Address N))"
    "merge_inv K (D @ [(N, i)]) [] News (p(i \<mapsto> si_Address N))"
    by auto
  have "merge_post (D @ [(N, i)]) [] News (merge_servers alloc [] News (p(i \<mapsto> si_Address N)))"
    by (rule 2(1) [OF i(1) refl 2(2) i(2)])
  from merge_post_Cons [OF this, of "[]"] show ?case
    by (simp add: i(1))
next
  case (3 alloc S c Olds N News p)
  note inv = 3(6) and ready = 3(5)
  have later: "si_ServerId S < si_ServerId (fst x)" if "x \<in> set Olds" for x
    using inv that by (auto simp: merge_inv_def sorted_wrt_append)
  have later_new: "si_ServerId N < si_ServerId M" if "M \<in> set News" for M
    using inv that by (auto simp: merge_inv_def sorted_wrt_append)
  consider (same) "si_ServerId S = si_ServerId N" "si_Address S = si_Address N"
    | (moved) "si_ServerId S = si_ServerId N" "si_Address S \<noteq> si_Address N"
    | (gone) "si_ServerId S < si_ServerId N" | (fresh) "si_ServerId N < si_ServerId S"
    by (meson linorder_neqE)
  then show ?case
  proof cases
    case same
    then have SN: "S = N" by simp
    have "merge_post (D @ [(N, c)]) Olds News (merge_servers alloc Olds News p)"
      by (rule 3(1) [OF same ready merge_inv_keep [OF inv same]])
    from merge_post_Cons [OF this, of "(S, c) # Olds"] show ?thesis
      using same SN later by fastforce
  next
    case moved
    have inv': "merge_inv K D Olds (N # News) (RemoveServer c p)"
      by (rule merge_inv_drop [OF inv])
    from merge_inv_add [OF this ready] later moved(1) obtain i
      where i: "AddServer alloc (si_Address N) (RemoveServer c p) = Some (i, (RemoveServer c p)(i \<mapsto> si_Address N))"
        "merge_inv K (D @ [(N, i)]) Olds News ((RemoveServer c p)(i \<mapsto> si_Address N))"
      by auto
    have "merge_post (D @ [(N, i)]) Olds News
        (merge_servers alloc Olds News ((RemoveServer c p)(i \<mapsto> si_Address N)))"
      by (rule 3(2) [OF moved i(1) refl ready i(2)])
    from merge_post_Cons [OF this, of "(S, c) # Olds"] show ?thesis
      using moved later later_new i(1) by fastforce
  next
    case gone
    have "merge_post D Olds (N # News) (merge_servers alloc Olds (N # News) (RemoveServer c p))"
      by (rule 3(3) [OF _ gone ready merge_inv_drop [OF inv]]) (use gone in simp)
    then show ?thesis
      using gone later_new by (fastforce simp: merge_post_def)
  next
    case fresh
    from merge_inv_add [OF inv ready] later fresh obtain i
      where i: "AddServer alloc (si_Address N) p = Some (i, p(i \<mapsto> si_Address N))"
        "merge_inv K (D @ [(N, i)]) ((S, c) # Olds) News (p(i \<mapsto> si_Address N))"
      by (force intro: order.strict_trans)
    have "merge_post (D @ [(N, i)]) ((S, c) # Olds) News
        (merge_servers alloc ((S, c) # Olds) News (p(i \<mapsto> si_Address N)))"
      by (rule 3(4) [OF _ _ i(1) refl ready i(2)]) (use fresh in auto)
    from merge_post_Cons [OF this, of "(S, c) # Olds"] show ?thesis
      using fresh later i(1) by fastforce
  qed
qed

section \<open>Lemmas: the service\<close>

definition audit_inv :: "uint64 set \<Rightarrow> audit_state \<Rightarrow> bool" where
  "audit_inv K s \<longleftrightarrow>
     finite K \<and> card K \<le> MAX_SMALL_SERVER_LIST_SIZE \<and>
     length (av_ConnectionIdList s) = MAX_SMALL_SERVER_LIST_SIZE \<and>
     length (av_AuditServerList s) \<le> MAX_SMALL_SERVER_LIST_SIZE \<and>
     sorted_wrt (<) (List.map si_ServerId (av_AuditServerList s)) \<and>
     si_ServerId ` set (av_AuditServerList s) \<subseteq> K \<and>
     pool_of (server_connections_of s) (av_TcpReporter s)"

lemma audit_inv_new [inv_intros]:
  "finite K \<Longrightarrow> card K \<le> MAX_SMALL_SERVER_LIST_SIZE \<Longrightarrow> audit_inv K (new_audit_state Now)"
  by (simp add: audit_inv_def new_audit_state_def no_connections_def server_connections_of_def pool_of_def)

lemma sids_zip: "length Ss \<le> length cs \<Longrightarrow> sids (zip Ss cs) = List.map si_ServerId Ss"
proof (induction Ss arbitrary: cs)
  case (Cons S Ss)
  then show ?case
    by (cases cs) simp_all
qed simp

lemma sids_server_connections:
  "length (av_AuditServerList s) \<le> length (av_ConnectionIdList s) \<Longrightarrow>
   sids (server_connections_of s) = List.map si_ServerId (av_AuditServerList s)"
  unfolding server_connections_of_def by (rule sids_zip)

lemma sorted_in_bound:
  assumes "finite K" and "card K \<le> MAX_SMALL_SERVER_LIST_SIZE" and "sorted_wrt (<) (List.map si_ServerId Ss)"
    and "si_ServerId ` set Ss \<subseteq> K"
  shows "length Ss \<le> MAX_SMALL_SERVER_LIST_SIZE"
proof -
  have "length Ss = card (set (List.map si_ServerId Ss))"
    using distinct_card [OF strict_sorted_distinct [OF assms(3)]] by simp
  also have "\<dots> \<le> card K"
    using assms(1,4) by (intro card_mono) auto
  finally show ?thesis
    using assms(2) by simp
qed

lemma selected_connection:
  assumes "audit_inv K s" and "av_AuditServerList s \<noteq> []"
  defines "k \<equiv> \<lambda>A. unat (A :: uint64) mod length (av_AuditServerList s)"
  shows "av_TcpReporter s (select_connection A s) = Some (si_Address (av_AuditServerList s ! k A))"
    and "select_connection A s \<noteq> 0"
proof -
  have k: "k A < length (av_AuditServerList s)"
    using assms(2) by (simp add: k_def)
  moreover have "length (av_AuditServerList s) \<le> length (av_ConnectionIdList s)"
    using assms(1) by (simp add: audit_inv_def)
  ultimately have "(av_AuditServerList s ! k A, av_ConnectionIdList s ! k A) \<in> set (server_connections_of s)"
    by (force simp: server_connections_of_def set_zip)
  moreover have "pool_of (server_connections_of s) (av_TcpReporter s)"
    using assms(1) by (simp add: audit_inv_def)
  ultimately have "av_TcpReporter s (av_ConnectionIdList s ! k A) = Some (si_Address (av_AuditServerList s ! k A)) \<and>
      av_ConnectionIdList s ! k A \<noteq> 0"
    by (blast dest: pool_of_lookup)
  then show "av_TcpReporter s (select_connection A s) = Some (si_Address (av_AuditServerList s ! k A))"
    and "select_connection A s \<noteq> 0"
    by (simp_all add: select_connection_def k_def)
qed

text \<open>What is sent for a report, and by which account it is routed.\<close>

definition report_account :: "audit_report \<Rightarrow> uint64" where
  "report_account R = (case R of ReportUsage U \<Rightarrow> ru_AuthId U | ReportBlockAccount B \<Rightarrow> rb_AuthId B)"

definition report_packet :: "codec \<Rightarrow> nat \<Rightarrow> audit_report \<Rightarrow> packet option" where
  "report_packet c max_payload R =
     (case R of
        ReportUsage U \<Rightarrow> WriteMessage max_payload Cmd_AuditReport 0 (xPP_AuditCollect_Serialize c (usage_message U))
      | ReportBlockAccount B \<Rightarrow>
          WriteMessage max_payload Cmd_BlockAccountReport 0 (xPP_BlockAccount_Serialize c (block_message B)))"

lemma audit_report_one:
  assumes "av_AuditServerList s \<noteq> []"
  shows "audit_reports c mp (R # Rs) s = audit_reports c mp Rs
    (s\<lparr>av_TcpOut := av_TcpOut s @ [(select_connection (report_account R) s, report_packet c mp R)]\<rparr>)"
  using assms
  by (cases R) (simp_all add: audit_ReportUsage_def audit_ReportBlockAccount_def post_to_collector_def
      report_account_def report_packet_def)

lemma audit_reports_out:
  assumes "av_AuditServerList s \<noteq> []"
  shows "audit_reports c mp Rs s = s\<lparr>av_TcpOut := av_TcpOut s @
    List.map (\<lambda>R. (select_connection (report_account R) s, report_packet c mp R)) Rs\<rparr>"
  using assms
proof (induction Rs arbitrary: s)
  case (Cons R Rs)
  let ?t = "s\<lparr>av_TcpOut := av_TcpOut s @ [(select_connection (report_account R) s, report_packet c mp R)]\<rparr>"
  have "select_connection A ?t = select_connection A s" for A
    by (simp add: select_connection_def)
  then show ?case
    using Cons.IH [of ?t] Cons.prems by (simp only: audit_report_one [OF Cons.prems]) simp
qed simp

lemma audit_reports_none:
  "av_AuditServerList s = [] \<Longrightarrow>
   audit_reports c mp Rs s = s\<lparr>av_NoServerReport := av_NoServerReport s + of_nat (length Rs)\<rparr>"
proof (induction Rs arbitrary: s)
  case (Cons R Rs)
  then show ?case
    by (cases R) (simp_all add: audit_ReportUsage_def audit_ReportBlockAccount_def algebra_simps)
qed simp

lemma last_dot_None: "(\<And>i. i < n \<Longrightarrow> D ! i \<noteq> 0x2E) \<Longrightarrow> last_dot D n = None"
  by (induction n) auto

lemma last_dot_found:
  assumes "k < n" and "D ! k = 0x2E" and "\<And>i. k < i \<Longrightarrow> i < n \<Longrightarrow> D ! i \<noteq> 0x2E"
  shows "last_dot D n = Some k"
  using assms
proof (induction n)
  case (Suc n)
  then show ?case
    by (cases "n = k") auto
qed simp

text \<open>After a restart the collectors are still listed, without a connection.\<close>

lemma audit_restart_posts_to_zero:
  assumes "audit_Clean s = Some t" and "av_AuditServerList s \<noteq> []"
    and "length (av_AuditServerList s) \<le> MAX_SMALL_SERVER_LIST_SIZE"
  shows "av_TcpOut (audit_ReportUsage c mp U t) =
    av_TcpOut s @ [(0, WriteMessage mp Cmd_AuditReport 0 (xPP_AuditCollect_Serialize c (usage_message U)))]"
proof -
  have t: "av_AuditServerList t = av_AuditServerList s" "av_TcpOut t = av_TcpOut s"
    "av_ConnectionIdList t = no_connections"
    using assms(1) by (auto simp: audit_Clean_def split: option.splits)
  have "unat (ru_AuthId U) mod length (av_AuditServerList s) < length (av_AuditServerList s)"
    using assms(2) by simp
  then have "unat (ru_AuthId U) mod length (av_AuditServerList s) < MAX_SMALL_SERVER_LIST_SIZE"
    using assms(3) by linarith
  then have "select_connection (ru_AuthId U) t = 0"
    by (simp add: select_connection_def t no_connections_def)
  with assms(2) show ?thesis
    by (simp add: audit_ReportUsage_def post_to_collector_def t)
qed

text \<open>A pool that cannot be initialised does not make \<open>Init\<close> fail, but loses the server's address.\<close>

lemma audit_init_continues:
  assumes "downloader_inv (av_ServerListDownloader s)" and "dl_EnabledServerGroupList (av_ServerListDownloader s) = []"
  shows "\<exists>t. audit_Init True True True False A s = Some (True, t)"
proof -
  let ?d = "snd (downloader_Init True A (av_ServerListDownloader s))"
  have "downloader_inv ?d"
    using assms(1) by (simp add: downloader_Init_def downloader_inv_def)
  from downloader_Clean_total [OF this] obtain d
    where d: "downloader_Clean ?d = Some d" "downloader_inv d" "dl_EnabledServerGroupList d = []"
    by blast
  from EnableServerGroup_total [OF d(2), of ST_TARGET_COLLECTOR] d(3) obtain e
    where e: "downloader_EnableServerGroup ST_TARGET_COLLECTOR d = Some e" "downloader_inv e"
      "dl_EnabledServerGroupList e = [unat ST_TARGET_COLLECTOR]"
    by (auto simp: ST_TARGET_COLLECTOR_def MAX_SMALL_SERVER_LIST_SIZE_def)
  from EnableServerGroup_total [OF e(2), of ST_AUDIT_COLLECTOR] e(3) obtain f
    where "downloader_EnableServerGroup ST_AUDIT_COLLECTOR e = Some f"
    by (auto simp: ST_TARGET_COLLECTOR_def ST_AUDIT_COLLECTOR_def MAX_SMALL_SERVER_LIST_SIZE_def)
  with d e show ?thesis
    by (simp add: audit_Init_def downloader_Init_def)
qed

section \<open>Properties\<close>

text \<open>
  C19: When the list of the audit collectors is replaced by another ascending list, the merge ends
  with one live connection per server of the new list and no other connection in the pool, servers
  that stay keep their connection, and the pool never needs more room than there are server numbers,
  although connections are added before old ones are removed.
\<close>

theorem audit_connections_merge:
  assumes "audit_inv K s" and "pool_ready alloc" and "sorted_wrt (<) (List.map si_ServerId News)"
    and "si_ServerId ` set News \<subseteq> K"
  shows "\<exists>t. OnServerListUpdated alloc ST_AUDIT_COLLECTOR News s = Some t \<and> audit_inv K t \<and>
    av_AuditServerList t = News \<and>
    (\<forall>(S, i) \<in> set (server_connections_of s). S \<in> set News \<longrightarrow> (S, i) \<in> set (server_connections_of t))"
proof -
  let ?Olds = "server_connections_of s"
  note inv = assms(1) [unfolded audit_inv_def]
  have len: "length News \<le> MAX_SMALL_SERVER_LIST_SIZE"
    using inv assms(3,4) by (intro sorted_in_bound [of K]) auto
  have ids: "sids ?Olds = List.map si_ServerId (av_AuditServerList s)"
    using inv by (intro sids_server_connections) simp
  have "set (sids ?Olds) = si_ServerId ` set (av_AuditServerList s)"
    unfolding ids by simp
  then have "merge_inv K [] ?Olds News (av_TcpReporter s)"
    using inv assms(3,4) by (simp add: merge_inv_def ids)
  from merge_servers_spec [OF assms(2) this] obtain cs q
    where m: "merge_servers alloc ?Olds News (av_TcpReporter s) = Some (cs, q)" "length cs = length News"
      "pool_of (zip News cs) q"
      and kept: "\<forall>(S, i) \<in> set ?Olds. S \<in> set News \<longrightarrow> (S, i) \<in> set (zip News cs)"
    by (auto simp: merge_post_def)
  let ?t = "s\<lparr>av_TcpReporter := q, av_AuditServerList := News,
      av_ConnectionIdList := cs @ drop (length News) (av_ConnectionIdList s)\<rparr>"
  have t: "OnServerListUpdated alloc ST_AUDIT_COLLECTOR News s = Some ?t"
    by (simp add: OnServerListUpdated_def m ST_AUDIT_COLLECTOR_def ST_TARGET_COLLECTOR_def)
  have conns: "server_connections_of ?t = zip News cs"
    using m(2) by (simp add: server_connections_of_def zip_append2)
  have "audit_inv K ?t"
    using inv assms(3,4) len m by (simp add: audit_inv_def conns)
  with t kept conns show ?thesis
    by (intro exI [of _ ?t]) simp
qed

definition sample_audit_state :: audit_state where
  "sample_audit_state = new_audit_state 3"

theorem audit_connections_merge_witness:
  "\<exists>t. OnServerListUpdated least_free ST_AUDIT_COLLECTOR [sample_server] sample_audit_state = Some t \<and>
     av_AuditServerList t = [sample_server]"
proof -
  have "audit_inv {1} sample_audit_state"
    unfolding sample_audit_state_def
    by (rule audit_inv_new) (simp_all add: MAX_SMALL_SERVER_LIST_SIZE_def)
  from audit_connections_merge [OF this pool_ready_least_free, of "[sample_server]"] show ?thesis
    by (auto simp: sample_server_def)
qed

text \<open>
  C20: Every report that the authentication service makes is sent, in order, over a live
  connection to the collector that its account selects in the list, so that as long as the list
  stays all reports of one account go to one collector; without collectors the reports are counted
  and nothing is sent.
\<close>

theorem audit_reports_routed:
  assumes "audit_inv K s"
  shows "(av_AuditServerList s \<noteq> [] \<longrightarrow>
      av_TcpOut (audit_reports c max_payload (au_Reports a) s) =
        av_TcpOut s @ List.map (\<lambda>R. (select_connection (report_account R) s, report_packet c max_payload R)) (au_Reports a) \<and>
      (\<forall>R \<in> set (au_Reports a). av_TcpReporter s (select_connection (report_account R) s) =
         Some (si_Address (av_AuditServerList s ! (unat (report_account R) mod length (av_AuditServerList s)))))) \<and>
    (av_AuditServerList s = [] \<longrightarrow>
      av_TcpOut (audit_reports c max_payload (au_Reports a) s) = av_TcpOut s \<and>
      av_NoServerReport (audit_reports c max_payload (au_Reports a) s) =
        av_NoServerReport s + of_nat (length (au_Reports a)))"
  using selected_connection(1) [OF assms]
  by (auto simp: audit_reports_out audit_reports_none)

theorem audit_reports_routed_witness:
  "av_NoServerReport (audit_reports sample_codec 4000
     [ReportUsage \<lparr>ru_AuthId = 1, ru_StartTimestampMS = 2, ru_PeriodMS = 3,
        ru_Usage = \<lparr>lu_Dirty = True, lu_TotalTcpConnections = 1, lu_TotalTcpBytesFromClient = 2,
          lu_TotalTcpBytesToClient = 3, lu_TotalUdpChannels = 4, lu_TotalUdpBytesFromClient = 5,
          lu_TotalUdpBytesToClient = 6\<rparr>\<rparr>] sample_audit_state) = 1"
proof -
  have "audit_inv {1} sample_audit_state"
    unfolding sample_audit_state_def
    by (rule audit_inv_new) (simp_all add: MAX_SMALL_SERVER_LIST_SIZE_def)
  from audit_reports_routed [OF this, of sample_codec 4000 "undefined\<lparr>au_Reports :=
      [ReportUsage \<lparr>ru_AuthId = 1, ru_StartTimestampMS = 2, ru_PeriodMS = 3,
        ru_Usage = \<lparr>lu_Dirty = True, lu_TotalTcpConnections = 1, lu_TotalTcpBytesFromClient = 2,
          lu_TotalTcpBytesToClient = 3, lu_TotalUdpChannels = 4, lu_TotalUdpBytesFromClient = 5,
          lu_TotalUdpBytesToClient = 6\<rparr>\<rparr>]\<rparr>"]
  show ?thesis
    by (simp add: sample_audit_state_def new_audit_state_def)
qed

text \<open>
  The name under which a target is reported is the last two labels of its host name; a name
  with fewer than two dots is reported as it is.
\<close>

theorem second_level_domain:
  assumes "0x2E \<notin> set a" and "0x2E \<notin> set b"
  shows "ExtractSecondLevelDomain (pre @ [0x2E] @ a @ [0x2E] @ b) = a @ [0x2E] @ b \<and>
    ExtractSecondLevelDomain (a @ [0x2E] @ b) = a @ [0x2E] @ b \<and> ExtractSecondLevelDomain a = a"
proof -
  have a: "a ! i \<noteq> 0x2E" if "i < length a" for i
    using assms(1) nth_mem [OF that] by auto
  have b: "b ! i \<noteq> 0x2E" if "i < length b" for i
    using assms(2) nth_mem [OF that] by auto
  let ?D = "pre @ [0x2E] @ a @ [0x2E] @ b"
  let ?k = "Suc (length pre + length a)"
  have later: "?D ! i \<noteq> 0x2E" if i: "?k < i" "i < length ?D" for i
  proof -
    obtain j where j: "i = length (pre @ [0x2E] @ a @ [0x2E]) + j"
      using less_imp_Suc_add [OF i(1)] by auto
    have "?D ! i = ((pre @ [0x2E] @ a @ [0x2E]) @ b) ! i"
      by simp
    also have "\<dots> = b ! j"
      unfolding j by (rule nth_append_length_plus)
    finally show ?thesis
      using i(2) b [of j] j by simp
  qed
  have between: "?D ! i \<noteq> 0x2E" if i: "length pre < i" "i < ?k" for i
  proof -
    obtain j where j: "i = length (pre @ [0x2E]) + j"
      using less_imp_Suc_add [OF i(1)] by auto
    have "?D ! i = ((pre @ [0x2E]) @ a @ [0x2E] @ b) ! i"
      by simp
    also have "\<dots> = (a @ [0x2E] @ b) ! j"
      unfolding j by (rule nth_append_length_plus)
    finally show ?thesis
      using i(2) a [of j] j by (simp add: nth_append)
  qed
  have dots: "?D ! ?k = 0x2E" "?D ! length pre = 0x2E"
    by (simp_all add: nth_append)
  have "last_dot ?D (length ?D) = Some ?k"
    by (rule last_dot_found [OF _ dots(1) later]) simp_all
  moreover have "last_dot ?D ?k = Some (length pre)"
    by (rule last_dot_found [OF _ dots(2) between]) simp_all
  ultimately have three: "ExtractSecondLevelDomain ?D = a @ [0x2E] @ b"
    by (simp add: ExtractSecondLevelDomain_def)
  let ?E = "a @ [0x2E] @ b"
  have later2: "?E ! i \<noteq> 0x2E" if i: "length a < i" "i < length ?E" for i
  proof -
    obtain j where j: "i = length (a @ [0x2E]) + j"
      using less_imp_Suc_add [OF i(1)] by auto
    have "?E ! i = ((a @ [0x2E]) @ b) ! i"
      by simp
    also have "\<dots> = b ! j"
      unfolding j by (rule nth_append_length_plus)
    finally show ?thesis
      using i(2) b [of j] j by simp
  qed
  have "last_dot ?E (length ?E) = Some (length a)"
    by (rule last_dot_found [OF _ _ later2]) simp_all
  moreover have "last_dot ?E (length a) = None"
    by (rule last_dot_None) (simp add: a nth_append)
  ultimately have two: "ExtractSecondLevelDomain ?E = ?E"
    by (simp add: ExtractSecondLevelDomain_def)
  have "last_dot a (length a) = None"
    by (rule last_dot_None) (simp add: a)
  then have "ExtractSecondLevelDomain a = a"
    by (simp add: ExtractSecondLevelDomain_def)
  with three two show ?thesis by blast
qed

theorem second_level_domain_witness:
  "ExtractSecondLevelDomain (str ''a.b.example'' @ [0x2E] @ str ''com'') = str ''example'' @ [0x2E] @ str ''com''"
  using second_level_domain [of "str ''example''" "str ''com''" "str ''a.b''"] by simp

end
