(* ===== verification/Target_Collector.thy ===== *)
theory Target_Collector
  imports Audit_Report
begin

text \<open>
  \<open>s_target_collector\<close>: reports of visited targets arrive as packets on the main thread and go to
  Kafka from a second thread. The nodes of the reports live in a pool and move through five lists:
  \<open>Post\<close>, \<open>Pending\<close> and \<open>Finished\<close> of the reporter and \<open>TempPost\<close>, \<open>TempFinished\<close> of the thread. The
  two threads meet only where both hold the lock, so a run is an interleaving of the main thread's
  operations with two steps of the other thread: to send one report, and to swap lists. Handing a
  message to Kafka appends it to an output.
\<close>

definition MAX_AUDIT_REPORTER_COUNT :: nat where "MAX_AUDIT_REPORTER_COUNT = 200000"
definition Cmd_BackendTargetReport :: uint32 where "Cmd_BackendTargetReport = 0x4301"

record xTargetCollectNode =
  tn_GlobalAuthId :: uint64
  tn_TargetAddress :: xNetAddress
  tn_TargetHost :: bytes
  tn_Count :: uint64

record target_reporter =
  tr_RunState :: bool
  tr_NodePool :: "uint64 \<Rightarrow> xTargetCollectNode option"
  tr_PostCollectionList :: "uint64 list"
  tr_PendingCollectionList :: "uint64 list"
  tr_FinishedCollectionList :: "uint64 list"
  tr_TempPostList :: "uint64 list"
  tr_TempFinishedList :: "uint64 list"
  tr_NowMS :: uint64
  tr_Kafka :: "(bytes \<times> packet option) list"

definition started_reporter :: "uint64 \<Rightarrow> target_reporter" where
  "started_reporter NowMS =
     \<lparr>tr_RunState = True, tr_NodePool = Map.empty, tr_PostCollectionList = [], tr_PendingCollectionList = [],
      tr_FinishedCollectionList = [], tr_TempPostList = [], tr_TempFinishedList = [], tr_NowMS = NowMS, tr_Kafka = []\<rparr>"

text \<open>
  \<open>Init\<close> with the outcomes of the pool, of the configuration and of the producer; the thread reads
  the clock once, before its loop.
\<close>

definition reporter_Init :: "bool \<Rightarrow> bool \<Rightarrow> uint64 \<Rightarrow> target_reporter option" where
  "reporter_Init pool_ok producer_ok NowMS =
     (if \<not> pool_ok then None else if \<not> producer_ok then None else Some (started_reporter NowMS))"

section \<open>The main thread\<close>

fun destroy_nodes :: "uint64 list \<Rightarrow> target_reporter \<Rightarrow> target_reporter" where
  "destroy_nodes [] s = s"
| "destroy_nodes (i # FreeCollectionList) s =
     destroy_nodes FreeCollectionList (s\<lparr>tr_NodePool := (tr_NodePool s)(i := None)\<rparr>)"

definition reporter_Tick :: "target_reporter \<Rightarrow> target_reporter" where
  "reporter_Tick s =
     destroy_nodes (tr_FinishedCollectionList s)
       (s\<lparr>tr_PendingCollectionList := tr_PendingCollectionList s @ tr_PostCollectionList s,
          tr_PostCollectionList := [], tr_FinishedCollectionList := []\<rparr>)"

definition PostTargetCollect ::
    "(uint64 set \<Rightarrow> uint64) \<Rightarrow> uint64 \<Rightarrow> xNetAddress \<Rightarrow> bytes \<Rightarrow> uint64 \<Rightarrow> target_reporter \<Rightarrow> target_reporter" where
  "PostTargetCollect alloc GlobalAuthId TargetAddress TargetHost Count s =
     (let i = alloc (dom (tr_NodePool s)) in
      if i = 0 then s
      else
        let Node = \<lparr>tn_GlobalAuthId = GlobalAuthId, tn_TargetAddress = TargetAddress, tn_TargetHost = TargetHost,
              tn_Count = Count\<rparr> in
        s\<lparr>tr_NodePool := (tr_NodePool s)(i \<mapsto> Node),
          tr_PostCollectionList := add_tail (tr_PostCollectionList s) i\<rparr>)"

definition collector_OnUdpPacket ::
    "(uint64 set \<Rightarrow> uint64) \<Rightarrow> codec \<Rightarrow> packet \<Rightarrow> target_reporter \<Rightarrow> target_reporter" where
  "collector_OnUdpPacket alloc c P s =
     (if pk_CommandId P = Cmd_TargetReport then
        (case xPP_TargetCollect_Deserialize c (pk_Payload P) of
           None \<Rightarrow> s
         | Some (Req, _) \<Rightarrow>
             PostTargetCollect alloc (tc_GlobalAuthId Req) (tc_TargetAddress Req) (tc_TargetHostView Req) (tc_Count Req) s)
      else s)"

section \<open>The thread that talks to Kafka\<close>

definition target_report :: "uint64 \<Rightarrow> xTargetCollectNode \<Rightarrow> xPPB_TargetCollect" where
  "target_report NowMS PNode =
     \<lparr>bt_TimeMs = NowMS, bt_AuditId = tn_GlobalAuthId PNode, bt_Domain = tn_TargetHost PNode,
      bt_IpAddress = tn_TargetAddress PNode, bt_Port = 0, bt_TimePeriodMs = 1,
      bt_TotalRequestCount = tn_Count PNode\<rparr>"

definition kafka_message :: "codec \<Rightarrow> nat \<Rightarrow> uint64 \<Rightarrow> xTargetCollectNode \<Rightarrow> bytes \<times> packet option" where
  "kafka_message c max_payload NowMS PNode =
     (to_string (tn_GlobalAuthId PNode),
      WriteMessage max_payload Cmd_BackendTargetReport 0 (xPPB_TargetCollect_Serialize c (target_report NowMS PNode)))"

text \<open>One turn of the inner loop; a dead node would be undefined behaviour.\<close>

definition KfkThread_post :: "codec \<Rightarrow> nat \<Rightarrow> target_reporter \<Rightarrow> target_reporter option" where
  "KfkThread_post c max_payload s =
     (case tr_TempPostList s of
        [] \<Rightarrow> Some s
      | i # q \<Rightarrow>
          (case tr_NodePool s i of
             None \<Rightarrow> None
           | Some PNode \<Rightarrow>
               Some (s\<lparr>tr_TempPostList := q, tr_Kafka := tr_Kafka s @ [kafka_message c max_payload (tr_NowMS s) PNode],
                       tr_TempFinishedList := add_tail (tr_TempFinishedList s) i\<rparr>)))"

text \<open>The swap under the lock, reached when the inner loop has emptied its list.\<close>

definition KfkThread_swap :: "target_reporter \<Rightarrow> target_reporter" where
  "KfkThread_swap s =
     (if tr_TempPostList s \<noteq> [] then s
      else s\<lparr>tr_FinishedCollectionList := tr_FinishedCollectionList s @ tr_TempFinishedList s, tr_TempFinishedList := [],
             tr_TempPostList := tr_PendingCollectionList s, tr_PendingCollectionList := []\<rparr>)"

text \<open>
  \<open>Clean\<close>: the thread is told to stop and ends its turn, sending what it holds and swapping once
  more; then the three lists of the reporter are freed.
\<close>

fun post_all :: "codec \<Rightarrow> nat \<Rightarrow> nat \<Rightarrow> target_reporter \<Rightarrow> target_reporter option" where
  "post_all c max_payload 0 s = Some s"
| "post_all c max_payload (Suc n) s = Option.bind (KfkThread_post c max_payload s) (post_all c max_payload n)"

definition thread_turn :: "codec \<Rightarrow> nat \<Rightarrow> target_reporter \<Rightarrow> target_reporter option" where
  "thread_turn c max_payload s = map_option KfkThread_swap (post_all c max_payload (length (tr_TempPostList s)) s)"

definition reporter_Clean :: "codec \<Rightarrow> nat \<Rightarrow> target_reporter \<Rightarrow> target_reporter option" where
  "reporter_Clean c max_payload s =
     map_option (\<lambda>s.
         destroy_nodes (tr_PostCollectionList s @ tr_PendingCollectionList s @ tr_FinishedCollectionList s)
           (s\<lparr>tr_PostCollectionList := [], tr_PendingCollectionList := [], tr_FinishedCollectionList := []\<rparr>))
       (thread_turn c max_payload (s\<lparr>tr_RunState := False\<rparr>))"

section \<open>Runs\<close>

datatype collect_event =
    Collect_Packet packet
  | Collect_Tick
  | Thread_Post
  | Thread_Swap

text \<open>The nodes a packet makes: none when it is no report, cannot be read, or the pool is used up.\<close>

definition accepted_node ::
    "(uint64 set \<Rightarrow> uint64) \<Rightarrow> codec \<Rightarrow> packet \<Rightarrow> target_reporter \<Rightarrow> xTargetCollectNode list" where
  "accepted_node alloc c P s =
     (if pk_CommandId P \<noteq> Cmd_TargetReport \<or> alloc (dom (tr_NodePool s)) = 0 then []
      else case xPP_TargetCollect_Deserialize c (pk_Payload P) of
        None \<Rightarrow> []
      | Some (Req, _) \<Rightarrow> [\<lparr>tn_GlobalAuthId = tc_GlobalAuthId Req, tn_TargetAddress = tc_TargetAddress Req,
          tn_TargetHost = tc_TargetHostView Req, tn_Count = tc_Count Req\<rparr>])"

fun collect_step ::
    "(uint64 set \<Rightarrow> uint64) \<Rightarrow> codec \<Rightarrow> nat \<Rightarrow> collect_event \<Rightarrow> target_reporter \<Rightarrow>
     (xTargetCollectNode list \<times> target_reporter) option" where
  "collect_step alloc c mp (Collect_Packet P) s = Some (accepted_node alloc c P s, collector_OnUdpPacket alloc c P s)"
| "collect_step alloc c mp Collect_Tick s = Some ([], reporter_Tick s)"
| "collect_step alloc c mp Thread_Post s = map_option (Pair []) (KfkThread_post c mp s)"
| "collect_step alloc c mp Thread_Swap s = Some ([], KfkThread_swap s)"

fun collect_run ::
    "(uint64 set \<Rightarrow> uint64) \<Rightarrow> codec \<Rightarrow> nat \<Rightarrow> collect_event list \<Rightarrow> target_reporter \<Rightarrow>
     (xTargetCollectNode list \<times> target_reporter) option" where
  "collect_run alloc c mp [] s = Some ([], s)"
| "collect_run alloc c mp (e # es) s =
     (case collect_step alloc c mp e s of
        None \<Rightarrow> None
      | Some (xs, t) \<Rightarrow> map_option (\<lambda>(ys, u). (xs @ ys, u)) (collect_run alloc c mp es t))"

section \<open>Lemmas: no node is lost\<close>

definition node_lists :: "target_reporter \<Rightarrow> uint64 list" where
  "node_lists s = tr_TempPostList s @ tr_PendingCollectionList s @ tr_PostCollectionList s @
     tr_TempFinishedList s @ tr_FinishedCollectionList s"

definition reporter_inv :: "target_reporter \<Rightarrow> bool" where
  "reporter_inv s \<longleftrightarrow> distinct (node_lists s) \<and> set (node_lists s) = dom (tr_NodePool s)"

text \<open>The reports that wait, in the order in which they will be sent.\<close>

definition waiting :: "target_reporter \<Rightarrow> xTargetCollectNode list" where
  "waiting s = List.map (\<lambda>i. the (tr_NodePool s i))
     (tr_TempPostList s @ tr_PendingCollectionList s @ tr_PostCollectionList s)"

lemma reporter_inv_started [inv_intros]: "reporter_inv (started_reporter Now)"
  by (simp add: reporter_inv_def node_lists_def started_reporter_def)

lemma destroy_nodes_fields [simp]:
  "tr_PostCollectionList (destroy_nodes q s) = tr_PostCollectionList s"
  "tr_PendingCollectionList (destroy_nodes q s) = tr_PendingCollectionList s"
  "tr_FinishedCollectionList (destroy_nodes q s) = tr_FinishedCollectionList s"
  "tr_TempPostList (destroy_nodes q s) = tr_TempPostList s"
  "tr_TempFinishedList (destroy_nodes q s) = tr_TempFinishedList s"
  "tr_NowMS (destroy_nodes q s) = tr_NowMS s"
  "tr_Kafka (destroy_nodes q s) = tr_Kafka s"
  "tr_RunState (destroy_nodes q s) = tr_RunState s"
  by (induction q s rule: destroy_nodes.induct) simp_all

lemma destroy_nodes_pool: "tr_NodePool (destroy_nodes q s) = (tr_NodePool s) |` (- set q)"
  by (induction q s rule: destroy_nodes.induct) (auto simp: restrict_map_def fun_eq_iff)

lemma reporter_Tick_spec:
  assumes "reporter_inv s"
  shows "reporter_inv (reporter_Tick s) \<and> waiting (reporter_Tick s) = waiting s \<and>
    tr_Kafka (reporter_Tick s) = tr_Kafka s \<and> tr_NowMS (reporter_Tick s) = tr_NowMS s"
proof -
  have d: "distinct (node_lists s)" "set (node_lists s) = dom (tr_NodePool s)"
    using assms by (simp_all add: reporter_inv_def)
  have "the (tr_NodePool (reporter_Tick s) i) = the (tr_NodePool s i)"
    if "i \<in> set (tr_TempPostList s @ tr_PendingCollectionList s @ tr_PostCollectionList s)" for i
    using that d(1) by (auto simp: reporter_Tick_def destroy_nodes_pool node_lists_def restrict_map_def)
  then have "waiting (reporter_Tick s) = waiting s"
    by (auto simp: waiting_def reporter_Tick_def)
  moreover have "dom (tr_NodePool (reporter_Tick s)) = dom (tr_NodePool s) - set (tr_FinishedCollectionList s)"
    by (auto simp: reporter_Tick_def destroy_nodes_pool)
  then have "reporter_inv (reporter_Tick s)"
    using d by (auto simp: reporter_inv_def node_lists_def reporter_Tick_def)
  ultimately show ?thesis
    by (simp add: reporter_Tick_def)
qed

lemma PostTargetCollect_spec:
  assumes "reporter_inv s" and "storage_ok alloc" and "alloc (dom (tr_NodePool s)) \<noteq> 0"
  shows "reporter_inv (PostTargetCollect alloc A T H n s) \<and>
    waiting (PostTargetCollect alloc A T H n s) =
      waiting s @ [\<lparr>tn_GlobalAuthId = A, tn_TargetAddress = T, tn_TargetHost = H, tn_Count = n\<rparr>]"
proof -
  let ?i = "alloc (dom (tr_NodePool s))"
  have d: "distinct (node_lists s)" "set (node_lists s) = dom (tr_NodePool s)"
    using assms(1) by (simp_all add: reporter_inv_def)
  have "?i \<notin> dom (tr_NodePool s)"
    using assms(2,3) by (auto simp: storage_ok_def)
  then have i: "?i \<notin> set (node_lists s)"
    by (simp add: d(2))
  then have w: "?i \<notin> set (tr_TempPostList s @ tr_PendingCollectionList s @ tr_PostCollectionList s)"
    by (simp add: node_lists_def)
  have "reporter_inv (PostTargetCollect alloc A T H n s)"
    using d i assms(3) by (auto simp: reporter_inv_def node_lists_def PostTargetCollect_def Let_def)
  moreover have "waiting (PostTargetCollect alloc A T H n s) =
      waiting s @ [\<lparr>tn_GlobalAuthId = A, tn_TargetAddress = T, tn_TargetHost = H, tn_Count = n\<rparr>]"
    using w assms(3) by (auto simp: waiting_def PostTargetCollect_def Let_def)
  ultimately show ?thesis
    by blast
qed

lemma collector_OnUdpPacket_spec:
  assumes "reporter_inv s" and "storage_ok alloc"
  shows "reporter_inv (collector_OnUdpPacket alloc c P s) \<and>
    waiting (collector_OnUdpPacket alloc c P s) = waiting s @ accepted_node alloc c P s \<and>
    tr_Kafka (collector_OnUdpPacket alloc c P s) = tr_Kafka s \<and> tr_NowMS (collector_OnUdpPacket alloc c P s) = tr_NowMS s"
proof (cases "alloc (dom (tr_NodePool s)) = 0")
  case True
  then show ?thesis
    using assms(1)
    by (auto simp: collector_OnUdpPacket_def accepted_node_def PostTargetCollect_def Let_def split: option.split)
next
  case False
  have "tr_Kafka (PostTargetCollect alloc A T H n s) = tr_Kafka s" "tr_NowMS (PostTargetCollect alloc A T H n s) = tr_NowMS s"
    for A T H n
    by (simp_all add: PostTargetCollect_def Let_def)
  then show ?thesis
    using False assms(1) PostTargetCollect_spec [OF assms False]
    by (auto simp: collector_OnUdpPacket_def accepted_node_def split: option.split)
qed

lemma KfkThread_post_spec:
  assumes "reporter_inv s"
  shows "\<exists>t. KfkThread_post c mp s = Some t \<and> reporter_inv t \<and> tr_NowMS t = tr_NowMS s \<and>
    (\<exists>sent. waiting s = sent @ waiting t \<and>
       tr_Kafka t = tr_Kafka s @ List.map (kafka_message c mp (tr_NowMS s)) sent \<and>
       length sent = (if tr_TempPostList s = [] then 0 else 1)) \<and>
    length (tr_TempPostList t) = length (tr_TempPostList s) - 1 \<and>
    tr_PendingCollectionList t = tr_PendingCollectionList s \<and> tr_PostCollectionList t = tr_PostCollectionList s"
proof (cases "tr_TempPostList s")
  case Nil
  then show ?thesis
    using assms by (simp add: KfkThread_post_def)
next
  case (Cons i q)
  have d: "distinct (node_lists s)" "set (node_lists s) = dom (tr_NodePool s)"
    using assms by (simp_all add: reporter_inv_def)
  then have "i \<in> dom (tr_NodePool s)"
    using Cons by (auto simp: node_lists_def)
  then obtain N where N: "tr_NodePool s i = Some N"
    by blast
  let ?t = "s\<lparr>tr_TempPostList := q, tr_Kafka := tr_Kafka s @ [kafka_message c mp (tr_NowMS s) N],
     tr_TempFinishedList := tr_TempFinishedList s @ [i]\<rparr>"
  have "set (node_lists ?t) = set (node_lists s)" "distinct (node_lists ?t)"
    using d(1) Cons by (auto simp: node_lists_def)
  then have "reporter_inv ?t"
    using d(2) by (simp add: reporter_inv_def)
  then show ?thesis
    using Cons N by (intro exI [of _ ?t]) (simp add: KfkThread_post_def waiting_def)
qed

lemma KfkThread_swap_spec:
  assumes "reporter_inv s"
  shows "reporter_inv (KfkThread_swap s) \<and> waiting (KfkThread_swap s) = waiting s \<and>
    tr_Kafka (KfkThread_swap s) = tr_Kafka s \<and> tr_NowMS (KfkThread_swap s) = tr_NowMS s"
  using assms by (auto simp: KfkThread_swap_def reporter_inv_def node_lists_def waiting_def)

lemma collect_step_spec:
  assumes "reporter_inv s" and "storage_ok alloc"
  shows "\<exists>xs t sent. collect_step alloc c mp e s = Some (xs, t) \<and> reporter_inv t \<and> tr_NowMS t = tr_NowMS s \<and>
    waiting s @ xs = sent @ waiting t \<and> tr_Kafka t = tr_Kafka s @ List.map (kafka_message c mp (tr_NowMS s)) sent"
proof (cases e)
  case (Collect_Packet P)
  then show ?thesis
    using collector_OnUdpPacket_spec [OF assms, of c P]
    by (intro exI [of _ "accepted_node alloc c P s"] exI [of _ "collector_OnUdpPacket alloc c P s"] exI [of _ "[]"]) simp
next
  case Collect_Tick
  then show ?thesis
    using reporter_Tick_spec [OF assms(1)] by (intro exI [of _ "[]"] exI [of _ "reporter_Tick s"]) simp
next
  case Thread_Post
  then show ?thesis
    using KfkThread_post_spec [OF assms(1), of c mp] by fastforce
next
  case Thread_Swap
  then show ?thesis
    using KfkThread_swap_spec [OF assms(1)] by (intro exI [of _ "[]"] exI [of _ "KfkThread_swap s"]) simp
qed

lemma collect_run_spec:
  assumes "reporter_inv s" and "storage_ok alloc"
  shows "\<exists>xs t sent. collect_run alloc c mp es s = Some (xs, t) \<and> reporter_inv t \<and> tr_NowMS t = tr_NowMS s \<and>
    waiting s @ xs = sent @ waiting t \<and> tr_Kafka t = tr_Kafka s @ List.map (kafka_message c mp (tr_NowMS s)) sent"
  using assms(1)
proof (induction es arbitrary: s)
  case (Cons e es)
  obtain xs t sent where 1: "collect_step alloc c mp e s = Some (xs, t)" "reporter_inv t" "tr_NowMS t = tr_NowMS s"
      "waiting s @ xs = sent @ waiting t" "tr_Kafka t = tr_Kafka s @ List.map (kafka_message c mp (tr_NowMS s)) sent"
    using collect_step_spec [OF Cons.prems assms(2)] by blast
  obtain ys u sent' where 2: "collect_run alloc c mp es t = Some (ys, u)" "reporter_inv u" "tr_NowMS u = tr_NowMS t"
      "waiting t @ ys = sent' @ waiting u" "tr_Kafka u = tr_Kafka t @ List.map (kafka_message c mp (tr_NowMS t)) sent'"
    using Cons.IH [OF 1(2)] by blast
  have "waiting s @ xs @ ys = (sent @ sent') @ waiting u"
    using 1(4) 2(4) by (metis append.assoc)
  then show ?case
    using 1 2 by (intro exI [of _ "xs @ ys"] exI [of _ u] exI [of _ "sent @ sent'"]) simp
qed (use assms in auto)

lemma post_all_spec:
  "reporter_inv s \<Longrightarrow> n = length (tr_TempPostList s) \<Longrightarrow>
   \<exists>t sent. post_all c mp n s = Some t \<and> reporter_inv t \<and> tr_NowMS t = tr_NowMS s \<and> tr_TempPostList t = [] \<and>
     tr_PendingCollectionList t = tr_PendingCollectionList s \<and> tr_PostCollectionList t = tr_PostCollectionList s \<and>
     waiting s = sent @ waiting t \<and> tr_Kafka t = tr_Kafka s @ List.map (kafka_message c mp (tr_NowMS s)) sent"
proof (induction n arbitrary: s)
  case (Suc n)
  obtain u sent where u: "KfkThread_post c mp s = Some u" "reporter_inv u" "tr_NowMS u = tr_NowMS s"
      "waiting s = sent @ waiting u" "tr_Kafka u = tr_Kafka s @ List.map (kafka_message c mp (tr_NowMS s)) sent"
      "length (tr_TempPostList u) = length (tr_TempPostList s) - 1"
      "tr_PendingCollectionList u = tr_PendingCollectionList s" "tr_PostCollectionList u = tr_PostCollectionList s"
    using KfkThread_post_spec [OF Suc.prems(1), of c mp] by blast
  have "n = length (tr_TempPostList u)"
    using u(6) Suc.prems(2) by simp
  from Suc.IH [OF u(2) this] obtain t sent' where t: "post_all c mp n u = Some t" "reporter_inv t" "tr_NowMS t = tr_NowMS u"
      "tr_TempPostList t = []" "tr_PendingCollectionList t = tr_PendingCollectionList u"
      "tr_PostCollectionList t = tr_PostCollectionList u" "waiting u = sent' @ waiting t"
      "tr_Kafka t = tr_Kafka u @ List.map (kafka_message c mp (tr_NowMS u)) sent'"
    by blast
  show ?case
    using u t by (intro exI [of _ t] exI [of _ "sent @ sent'"]) simp
qed auto

lemma thread_turn_spec:
  assumes "reporter_inv s"
  shows "\<exists>t sent. thread_turn c mp s = Some t \<and> reporter_inv t \<and> tr_NowMS t = tr_NowMS s \<and>
    tr_TempPostList t = tr_PendingCollectionList s \<and> tr_PendingCollectionList t = [] \<and>
    tr_PostCollectionList t = tr_PostCollectionList s \<and> tr_TempFinishedList t = [] \<and>
    waiting s = sent @ waiting t \<and> tr_Kafka t = tr_Kafka s @ List.map (kafka_message c mp (tr_NowMS s)) sent"
proof -
  obtain t sent where t: "post_all c mp (length (tr_TempPostList s)) s = Some t" "reporter_inv t" "tr_NowMS t = tr_NowMS s"
      "tr_TempPostList t = []" "tr_PendingCollectionList t = tr_PendingCollectionList s"
      "tr_PostCollectionList t = tr_PostCollectionList s" "waiting s = sent @ waiting t"
      "tr_Kafka t = tr_Kafka s @ List.map (kafka_message c mp (tr_NowMS s)) sent"
    using post_all_spec [OF assms refl, of c mp] by blast
  have "thread_turn c mp s = Some (KfkThread_swap t)"
    using t(1) by (simp add: thread_turn_def)
  moreover have "tr_TempPostList (KfkThread_swap t) = tr_PendingCollectionList s"
      "tr_PendingCollectionList (KfkThread_swap t) = []" "tr_TempFinishedList (KfkThread_swap t) = []"
      "tr_PostCollectionList (KfkThread_swap t) = tr_PostCollectionList s"
    using t(4-6) by (simp_all add: KfkThread_swap_def)
  ultimately show ?thesis
    using t(3,7,8) KfkThread_swap_spec [OF t(2)]
    by (intro exI [of _ "KfkThread_swap t"] exI [of _ sent]) simp
qed

section \<open>Reports are sent once and in order\<close>

definition sample_report :: xPP_TargetCollect where
  "sample_report = \<lparr>tc_GlobalAuthId = 5, tc_TargetAddress = no_address, tc_TargetHostView = [97],
     tc_StartTimestampMS = 1, tc_PeriodMS = 1, tc_Count = 3, tc_Hash = 0\<rparr>"

definition sample_report_packet :: packet where
  "sample_report_packet = \<lparr>pk_CommandId = Cmd_TargetReport, pk_RequestId = 0,
     pk_Payload = fst (xPP_TargetCollect_Serialize sample_codec (\<lambda>_. 0) sample_report)\<rparr>"

definition sample_node :: xTargetCollectNode where
  "sample_node = \<lparr>tn_GlobalAuthId = 5, tn_TargetAddress = no_address, tn_TargetHost = [97], tn_Count = 3\<rparr>"

lemma sample_report_accepted:
  "accepted_node two_slot_alloc sample_codec sample_report_packet (started_reporter Now) = [sample_node]"
proof -
  have "str_ok sample_codec (tc_TargetHostView sample_report)" "addr_wf (tc_TargetAddress sample_report)"
    by (simp_all add: sample_report_def str_ok_def addr_wf_def no_address_def)
  then have "xPP_TargetCollect_Deserialize sample_codec (pk_Payload sample_report_packet) = Some (sample_report\<lparr>tc_Hash := 0\<rparr>, [])"
    using xPP_TargetCollect_roundtrip [OF sample_codec_ok, of sample_report "\<lambda>_. 0" "[]"] by (simp add: sample_report_packet_def)
  moreover have "pk_CommandId sample_report_packet = Cmd_TargetReport"
    by (simp add: sample_report_packet_def)
  ultimately show ?thesis
    by (simp add: accepted_node_def started_reporter_def two_slot_alloc_def sample_report_def sample_node_def)
qed

text \<open>
  C21: every accepted report is sent to Kafka exactly once and in the order of arrival. However the
  packets, the ticks of the main thread, the sends and the swaps of the Kafka thread interleave, no
  step touches a node that was freed, and the accepted reports are those sent followed by those that
  still wait in the lists; every message carries the time at which the thread was started, not the
  time of its report.
\<close>

theorem reports_conserved:
  assumes "storage_ok alloc"
  shows "\<exists>accepted s sent. collect_run alloc c mp es (started_reporter Start) = Some (accepted, s) \<and>
    accepted = sent @ waiting s \<and> tr_Kafka s = List.map (kafka_message c mp Start) sent \<and>
    distinct (node_lists s) \<and> set (node_lists s) = dom (tr_NodePool s)"
proof -
  obtain xs t sent where "collect_run alloc c mp es (started_reporter Start) = Some (xs, t)" "reporter_inv t"
      "waiting (started_reporter Start) @ xs = sent @ waiting t"
      "tr_Kafka t = tr_Kafka (started_reporter Start) @ List.map (kafka_message c mp (tr_NowMS (started_reporter Start))) sent"
    using collect_run_spec [OF reporter_inv_started assms, of c mp es Start] by blast
  then show ?thesis
    by (intro exI [of _ xs] exI [of _ t] exI [of _ sent]) (simp add: waiting_def started_reporter_def reporter_inv_def)
qed

theorem reports_conserved_witness:
  "\<exists>s sent. collect_run two_slot_alloc sample_codec 1000 [Collect_Packet sample_report_packet] (started_reporter 9) =
      Some ([sample_node], s) \<and> [sample_node] = sent @ waiting s"
proof -
  have "\<exists>s. collect_run two_slot_alloc sample_codec 1000 [Collect_Packet sample_report_packet] (started_reporter 9) =
      Some ([sample_node], s)"
    using sample_report_accepted by simp
  with reports_conserved [OF two_slot_alloc_ok, of sample_codec 1000 "[Collect_Packet sample_report_packet]" 9]
  show ?thesis
    by force
qed

section \<open>Reports get there\<close>

text \<open>A tick and two turns of the thread empty the lists that wait.\<close>

lemma two_turns_send:
  assumes "reporter_inv s"
  shows "\<exists>t u. thread_turn c mp (reporter_Tick s) = Some t \<and> thread_turn c mp t = Some u \<and> reporter_inv u \<and>
    tr_TempPostList u = [] \<and> tr_PendingCollectionList u = [] \<and> tr_PostCollectionList u = [] \<and>
    tr_Kafka u = tr_Kafka s @ List.map (kafka_message c mp (tr_NowMS s)) (waiting s)"
proof -
  have tick: "reporter_inv (reporter_Tick s)" "waiting (reporter_Tick s) = waiting s" "tr_Kafka (reporter_Tick s) = tr_Kafka s"
      "tr_NowMS (reporter_Tick s) = tr_NowMS s"
    using reporter_Tick_spec [OF assms] by simp_all
  have post: "tr_PostCollectionList (reporter_Tick s) = []"
    by (simp add: reporter_Tick_def)
  obtain t sent where t: "thread_turn c mp (reporter_Tick s) = Some t" "reporter_inv t" "tr_NowMS t = tr_NowMS s"
      "tr_PendingCollectionList t = []" "tr_PostCollectionList t = []" "waiting s = sent @ waiting t"
      "tr_Kafka t = tr_Kafka s @ List.map (kafka_message c mp (tr_NowMS s)) sent"
    using thread_turn_spec [OF tick(1), of c mp] tick post by auto
  obtain u sent' where u: "thread_turn c mp t = Some u" "reporter_inv u" "tr_TempPostList u = []"
      "tr_PendingCollectionList u = []" "tr_PostCollectionList u = []" "waiting t = sent' @ waiting u"
      "tr_Kafka u = tr_Kafka t @ List.map (kafka_message c mp (tr_NowMS t)) sent'"
    using thread_turn_spec [OF t(2), of c mp] t(4,5) by auto
  have "waiting u = []"
    using u(3-5) by (simp add: waiting_def)
  then have sent: "tr_Kafka u = tr_Kafka s @ List.map (kafka_message c mp (tr_NowMS s)) (waiting s)"
    using t(3,6,7) u(6,7) by simp
  with t(1) u(1-5) show ?thesis
    by blast
qed

text \<open>
  C22: what waits is sent. From any state the reporter can be in, one tick of the main thread and
  two turns of the Kafka thread send everything that was waiting, in order, and the next swap and
  tick give every node back to the pool.
\<close>

theorem waiting_reports_sent:
  assumes "reporter_inv s"
  shows "\<exists>t u v. thread_turn c mp (reporter_Tick s) = Some t \<and> thread_turn c mp t = Some u \<and>
    tr_Kafka u = tr_Kafka s @ List.map (kafka_message c mp (tr_NowMS s)) (waiting s) \<and>
    thread_turn c mp u = Some v \<and> dom (tr_NodePool (reporter_Tick v)) = {}"
proof -
  obtain t u where u: "thread_turn c mp (reporter_Tick s) = Some t" "thread_turn c mp t = Some u" "reporter_inv u"
      "tr_TempPostList u = []" "tr_PendingCollectionList u = []" "tr_PostCollectionList u = []"
      "tr_Kafka u = tr_Kafka s @ List.map (kafka_message c mp (tr_NowMS s)) (waiting s)"
    using two_turns_send [OF assms, of c mp] by blast
  obtain v where v: "thread_turn c mp u = Some v" "reporter_inv v" "tr_TempPostList v = []"
      "tr_PendingCollectionList v = []" "tr_PostCollectionList v = []" "tr_TempFinishedList v = []"
    using thread_turn_spec [OF u(3), of c mp] u(5,6) by auto
  have "node_lists (reporter_Tick v) = []"
    using v(3-6) by (simp add: node_lists_def reporter_Tick_def)
  then have "dom (tr_NodePool (reporter_Tick v)) = {}"
    using reporter_Tick_spec [OF v(2)] by (simp add: reporter_inv_def)
  with u(1,2,7) v(1) show ?thesis
    by blast
qed

theorem waiting_reports_sent_witness:
  "\<exists>s t u. collect_run two_slot_alloc sample_codec 1000 [Collect_Packet sample_report_packet] (started_reporter 9) =
      Some ([sample_node], s) \<and> thread_turn sample_codec 1000 (reporter_Tick s) = Some t \<and>
    thread_turn sample_codec 1000 t = Some u \<and> tr_Kafka u = [kafka_message sample_codec 1000 9 sample_node]"
proof -
  obtain s where run: "collect_run two_slot_alloc sample_codec 1000 [Collect_Packet sample_report_packet] (started_reporter 9) =
      Some ([sample_node], s)"
    using sample_report_accepted by simp
  obtain sent where s: "reporter_inv s" "tr_NowMS s = 9" "[sample_node] = sent @ waiting s"
      "tr_Kafka s = List.map (kafka_message sample_codec 1000 9) sent"
    using collect_run_spec [OF reporter_inv_started two_slot_alloc_ok, of sample_codec 1000 "[Collect_Packet sample_report_packet]" 9] run
    by (auto simp: waiting_def started_reporter_def)
  have "tr_Kafka s @ List.map (kafka_message sample_codec 1000 9) (waiting s) = [kafka_message sample_codec 1000 9 sample_node]"
    unfolding s(4) map_append [symmetric] s(3) [symmetric] by simp
  then show ?thesis
    using run waiting_reports_sent [OF s(1), of sample_codec 1000] s(2) by auto
qed

section \<open>Reports that are lost at the end\<close>

text \<open>
  Stopping sends what the Kafka thread holds and nothing else: the reports that wait in the lists
  of the reporter are dropped, and those the last swap moved to the thread are not even freed.
\<close>

lemma stop_loses_waiting:
  assumes "reporter_inv s" and "tr_TempPostList s = []" and "tr_PendingCollectionList s = [i]"
  shows "\<exists>t. reporter_Clean c mp s = Some t \<and> tr_Kafka t = tr_Kafka s \<and> i \<in> dom (tr_NodePool t)"
proof -
  have d: "distinct (node_lists s)" "set (node_lists s) = dom (tr_NodePool s)"
    using assms(1) by (simp_all add: reporter_inv_def)
  have "i \<notin> set (tr_PostCollectionList s @ tr_FinishedCollectionList s @ tr_TempFinishedList s)" "i \<in> dom (tr_NodePool s)"
    using d assms(3) by (auto simp: node_lists_def)
  then show ?thesis
    using assms(2,3)
    by (auto simp: reporter_Clean_def thread_turn_def KfkThread_swap_def destroy_nodes_pool restrict_map_def)
qed

end
