(* ===== verification/Kafka_Producer.thy ===== *)
theory Kafka_Producer
  imports PP_Common
begin

text \<open>
  \<open>lib_util/rdkafka_producer\<close> and \<open>rdkafka_wrapper\<close>: the producer that the collector posts to, the
  parts it creates and frees, its topics, and the audit of the delivery reports. What librdkafka
  answers (whether an object could be created, a parameter set, a message taken) is a parameter.
\<close>

section \<open>Delivery reports\<close>

record kfk_delivery =
  kd_TotalSuccess :: uint64
  kd_TotalFailure :: uint64
  kd_AuditLastOffset :: uint64
  kd_AuditLastSegAverageLatency :: uint64
  kd_LastAuditTimestampMS :: uint64
  kd_LastSegMessageCount :: uint64
  kd_LastSegTotalLatency :: uint64

definition AuditTimeoutMS :: uint64 where "AuditTimeoutMS = 10 * 60000"

definition new_delivery :: kfk_delivery where
  "new_delivery = \<lparr>kd_TotalSuccess = 0, kd_TotalFailure = 0, kd_AuditLastOffset = 0, kd_AuditLastSegAverageLatency = 0,
     kd_LastAuditTimestampMS = 0, kd_LastSegMessageCount = 0, kd_LastSegTotalLatency = 0\<rparr>"

text \<open>A message has failed, or carries an offset and a latency in microseconds.\<close>

datatype kfk_message = Failed | Delivered uint64 uint64

fun dr_cb :: "kfk_message \<Rightarrow> kfk_delivery \<Rightarrow> kfk_delivery" where
  "dr_cb Failed s = s\<lparr>kd_TotalFailure := kd_TotalFailure s + 1\<rparr>"
| "dr_cb (Delivered offset latency) s =
     s\<lparr>kd_TotalSuccess := kd_TotalSuccess s + 1, kd_LastSegMessageCount := kd_LastSegMessageCount s + 1,
       kd_LastSegTotalLatency := kd_LastSegTotalLatency s + latency, kd_AuditLastOffset := offset\<rparr>"

definition delivery_Reset :: "kfk_delivery \<Rightarrow> kfk_delivery" where
  "delivery_Reset s = s\<lparr>kd_TotalSuccess := 0, kd_TotalFailure := 0, kd_AuditLastOffset := 0,
     kd_AuditLastSegAverageLatency := 0, kd_LastSegMessageCount := 0, kd_LastSegTotalLatency := 0\<rparr>"

definition delivery_Tick :: "uint64 \<Rightarrow> kfk_delivery \<Rightarrow> kfk_delivery" where
  "delivery_Tick NowMS s =
     (if NowMS - kd_LastAuditTimestampMS s < AuditTimeoutMS then s
      else
        s\<lparr>kd_AuditLastSegAverageLatency :=
            (if kd_LastSegMessageCount s = 0 then 0
             else kd_LastSegTotalLatency s div kd_LastSegMessageCount s div 1000),
          kd_LastSegMessageCount := 0, kd_LastSegTotalLatency := 0, kd_LastAuditTimestampMS := NowMS\<rparr>)"

definition GetAudit :: "kfk_delivery \<Rightarrow> uint64 \<times> uint64" where
  "GetAudit s = (kd_AuditLastOffset s, kd_AuditLastSegAverageLatency s)"

section \<open>The producer\<close>

datatype kfk_part = Topic_Pool | Event_Callback | Delivery_Callback | Config | Native_Producer

text \<open>
  \<open>kp_Live\<close> are the parts that exist; a topic is its native object, and the native objects that
  were not deleted are \<open>kp_Natives\<close>.
\<close>

record kfk_producer =
  kp_Live :: "kfk_part set"
  kp_Polling :: bool
  kp_TopicPool :: "uint64 \<Rightarrow> bytes option"
  kp_ActiveTopicList :: "uint64 list"
  kp_Natives :: "(uint64 \<times> bytes) set"
  kp_Posted :: "(uint64 \<times> bytes \<times> bytes) list"

definition new_producer :: kfk_producer where
  "new_producer = \<lparr>kp_Live = {}, kp_Polling = False, kp_TopicPool = Map.empty, kp_ActiveTopicList = [],
     kp_Natives = {}, kp_Posted = []\<rparr>"

definition create_part :: "kfk_part \<Rightarrow> kfk_producer \<Rightarrow> kfk_producer" where
  "create_part p s = s\<lparr>kp_Live := insert p (kp_Live s)\<rparr>"

text \<open>The scope guards, the last one first.\<close>

definition run_guards :: "kfk_part list \<Rightarrow> kfk_producer \<Rightarrow> kfk_producer" where
  "run_guards parts s = fold (\<lambda>p s. s\<lparr>kp_Live := kp_Live s - {p}\<rparr>) (rev parts) s"

record kfk_answers =
  ka_pool_ok :: bool
  ka_conf_ok :: bool
  ka_param_ok :: "bytes \<times> bytes \<Rightarrow> bool"
  ka_event_cb_ok :: bool
  ka_dr_cb_ok :: bool
  ka_producer_ok :: bool

record xRdKfkProducerOptions =
  ko_SecurityProtocol :: bytes
  ko_SaslMechanism :: bytes
  ko_SaslUsername :: bytes
  ko_SaslPassword :: bytes
  ko_BootstrapServerList :: bytes

text \<open>\<open>std::map\<close> gives its entries in the order of the keys.\<close>

definition kafka_params :: "xRdKfkProducerOptions \<Rightarrow> (bytes \<times> bytes) list" where
  "kafka_params Options =
     [(str ''bootstrap.servers'', ko_BootstrapServerList Options), (str ''sasl.mechanism'', ko_SaslMechanism Options),
      (str ''sasl.password'', ko_SaslPassword Options), (str ''sasl.username'', ko_SaslUsername Options),
      (str ''security.protocol'', ko_SecurityProtocol Options)]"

definition producer_Init :: "kfk_answers \<Rightarrow> xRdKfkProducerOptions \<Rightarrow> kfk_producer \<Rightarrow> bool \<times> kfk_producer" where
  "producer_Init k Options s =
     (if \<not> ka_pool_ok k then (False, s)
      else
        let s = create_part Delivery_Callback (create_part Event_Callback (create_part Topic_Pool s)) in
        if \<not> ka_conf_ok k then (False, run_guards [Topic_Pool, Event_Callback, Delivery_Callback] s)
        else
          let s = create_part Config s;
              guards = [Topic_Pool, Event_Callback, Delivery_Callback, Config] in
          if \<not> list_all (ka_param_ok k) (kafka_params Options) then (False, run_guards guards s)
          else if \<not> ka_event_cb_ok k then (False, run_guards guards s)
          else if \<not> ka_dr_cb_ok k then (False, run_guards guards s)
          else if \<not> ka_producer_ok k then (False, run_guards guards s)
          else (True, (create_part Native_Producer s)\<lparr>kp_Polling := True\<rparr>))"

fun delete_topics :: "uint64 list \<Rightarrow> kfk_producer \<Rightarrow> kfk_producer option" where
  "delete_topics [] s = Some (s\<lparr>kp_ActiveTopicList := []\<rparr>)"
| "delete_topics (i # q) s =
     (case kp_TopicPool s i of
        None \<Rightarrow> None
      | Some Native \<Rightarrow>
          delete_topics q (s\<lparr>kp_Natives := kp_Natives s - {(i, Native)}, kp_TopicPool := (kp_TopicPool s)(i := None)\<rparr>))"

definition RemoveAllTopics :: "kfk_producer \<Rightarrow> kfk_producer option" where
  "RemoveAllTopics s = delete_topics (kp_ActiveTopicList s) s"

definition producer_Clean :: "kfk_producer \<Rightarrow> kfk_producer option" where
  "producer_Clean s =
     map_option (\<lambda>s. (run_guards [Topic_Pool, Event_Callback, Delivery_Callback, Config, Native_Producer] s)
         \<lparr>kp_TopicPool := Map.empty\<rparr>)
       (RemoveAllTopics (s\<lparr>kp_Polling := False\<rparr>))"

definition AddTopic ::
    "(uint64 set \<Rightarrow> uint64) \<Rightarrow> (bytes \<Rightarrow> bool) \<Rightarrow> bytes \<Rightarrow> kfk_producer \<Rightarrow> uint64 \<times> kfk_producer" where
  "AddTopic alloc create_ok TopicName s =
     (let TopicId = alloc (dom (kp_TopicPool s)) in
      if TopicId = 0 then (0, s)
      else if \<not> create_ok TopicName then (0, s)
      else (TopicId, s\<lparr>kp_TopicPool := (kp_TopicPool s)(TopicId \<mapsto> TopicName),
              kp_Natives := insert (TopicId, TopicName) (kp_Natives s)\<rparr>))"

definition RemoveTopic :: "uint64 \<Rightarrow> kfk_producer \<Rightarrow> kfk_producer" where
  "RemoveTopic TopicId s =
     (case kp_TopicPool s TopicId of
        None \<Rightarrow> s
      | Some Native \<Rightarrow> s\<lparr>kp_Natives := kp_Natives s - {(TopicId, Native)}, kp_TopicPool := (kp_TopicPool s)(TopicId := None)\<rparr>)"

definition producer_Post ::
    "(bytes \<Rightarrow> bool) \<Rightarrow> uint64 \<Rightarrow> bytes \<Rightarrow> bytes \<Rightarrow> kfk_producer \<Rightarrow> (bool \<times> kfk_producer) option" where
  "producer_Post produce_ok TopicId Key Payload s =
     (case kp_TopicPool s TopicId of
        None \<Rightarrow> None
      | Some Native \<Rightarrow>
          if \<not> produce_ok Payload then Some (False, s)
          else Some (True, s\<lparr>kp_Posted := kp_Posted s @ [(TopicId, Key, Payload)]\<rparr>))"

section \<open>A producer with one topic\<close>

record one_topic_producer =
  ot_Producer :: kfk_producer
  ot_DefuaultTopicId :: uint64

definition one_topic_Init ::
    "(uint64 set \<Rightarrow> uint64) \<Rightarrow> (bytes \<Rightarrow> bool) \<Rightarrow> kfk_answers \<Rightarrow> bytes \<Rightarrow> xRdKfkProducerOptions \<Rightarrow> one_topic_producer \<Rightarrow>
     (bool \<times> one_topic_producer) option" where
  "one_topic_Init alloc create_ok k Topic Options s =
     (case producer_Init k Options (ot_Producer s) of
        (ok, P) \<Rightarrow>
          if \<not> ok then Some (False, s\<lparr>ot_Producer := P\<rparr>)
          else case AddTopic alloc create_ok Topic P of
            (Tid, P) \<Rightarrow>
              let s = s\<lparr>ot_Producer := P, ot_DefuaultTopicId := Tid\<rparr> in
              if Tid = 0 then map_option (\<lambda>P. (False, s\<lparr>ot_Producer := P\<rparr>)) (producer_Clean P)
              else Some (True, s))"

definition one_topic_Post ::
    "(bytes \<Rightarrow> bool) \<Rightarrow> bytes \<Rightarrow> bytes \<Rightarrow> one_topic_producer \<Rightarrow> (bool \<times> one_topic_producer) option" where
  "one_topic_Post produce_ok Key Payload s =
     map_option (\<lambda>(ok, P). (ok, s\<lparr>ot_Producer := P\<rparr>))
       (producer_Post produce_ok (ot_DefuaultTopicId s) Key Payload (ot_Producer s))"

definition one_topic_Clean :: "one_topic_producer \<Rightarrow> one_topic_producer option" where
  "one_topic_Clean s = map_option (\<lambda>P. s\<lparr>ot_Producer := P\<rparr>) (producer_Clean (ot_Producer s))"

section \<open>Lemmas\<close>

lemma create_part_fields [simp]:
  "kp_Live (create_part p s) = insert p (kp_Live s)" "kp_Polling (create_part p s) = kp_Polling s"
  "kp_TopicPool (create_part p s) = kp_TopicPool s" "kp_ActiveTopicList (create_part p s) = kp_ActiveTopicList s"
  "kp_Natives (create_part p s) = kp_Natives s" "kp_Posted (create_part p s) = kp_Posted s"
  by (simp_all add: create_part_def)

lemma run_guards_eq: "run_guards parts s = s\<lparr>kp_Live := kp_Live s - set parts\<rparr>"
proof (induction parts)
  case (Cons p parts)
  have "kp_Live s - insert p (set parts) = kp_Live s - set parts - {p}"
    by blast
  then show ?case
    using Cons by (simp add: run_guards_def)
qed (simp add: run_guards_def)

definition all_parts :: "kfk_part set" where
  "all_parts = {Topic_Pool, Event_Callback, Delivery_Callback, Config, Native_Producer}"

lemma producer_Init_parts:
  assumes "producer_Init k Options new_producer = (ok, s)"
  shows "kp_Live s = (if ok then all_parts else {}) \<and> kp_Polling s = ok \<and> kp_ActiveTopicList s = [] \<and>
    kp_Natives s = {} \<and> kp_TopicPool s = Map.empty \<and> kp_Posted s = []"
  using assms
  by (auto simp: producer_Init_def Let_def run_guards_eq all_parts_def new_producer_def split: if_splits)

text \<open>No topic is ever in the list of active topics, so that cleaning deletes none.\<close>

lemma topics_inactive:
  "kp_ActiveTopicList (snd (AddTopic alloc create_ok T s)) = kp_ActiveTopicList s"
  "kp_ActiveTopicList (RemoveTopic i s) = kp_ActiveTopicList s"
  by (simp_all add: AddTopic_def Let_def RemoveTopic_def split: option.split)

lemma producer_Clean_parts:
  assumes "kp_ActiveTopicList s = []" and "kp_Live s \<subseteq> all_parts"
  shows "producer_Clean s = Some (s\<lparr>kp_Live := {}, kp_Polling := False, kp_TopicPool := Map.empty\<rparr>)"
  using assms by (auto simp: producer_Clean_def RemoveAllTopics_def run_guards_eq all_parts_def)

section \<open>All parts or none\<close>

text \<open>
  C36: a producer with one topic starts with all of its parts or with none. If \<open>Init\<close> succeeds all
  five parts exist, the thread polls and a post goes to the one topic; if it fails at any point, the
  creation of the topic included, no part and no topic is left and nothing polls. \<open>Clean\<close> frees the
  five parts, but the native topic stays allocated, because the list it deletes from is never
  filled.
\<close>

theorem one_topic_all_or_nothing:
  assumes "one_topic_Init alloc create_ok k Topic Options \<lparr>ot_Producer = new_producer, ot_DefuaultTopicId = 0\<rparr> = Some (ok, s)"
  shows "kp_Live (ot_Producer s) = (if ok then all_parts else {}) \<and> kp_Polling (ot_Producer s) = ok \<and>
    (\<not> ok \<longrightarrow> kp_Natives (ot_Producer s) = {} \<and> kp_TopicPool (ot_Producer s) = Map.empty) \<and>
    (ok \<longrightarrow> (\<forall>Key P. produce_ok P \<longrightarrow> (\<exists>t. one_topic_Post produce_ok Key P s = Some (True, t) \<and>
        kp_Posted (ot_Producer t) = [(ot_DefuaultTopicId s, Key, P)])) \<and>
       (\<exists>t. one_topic_Clean s = Some t \<and> kp_Live (ot_Producer t) = {} \<and> \<not> kp_Polling (ot_Producer t) \<and>
        kp_Natives (ot_Producer t) = {(ot_DefuaultTopicId s, Topic)}))"
proof -
  obtain o1 P where P: "producer_Init k Options new_producer = (o1, P)"
    by fastforce
  note parts = producer_Init_parts [OF P]
  obtain i Q where Q: "AddTopic alloc create_ok Topic P = (i, Q)"
    by fastforce
  have act: "kp_ActiveTopicList Q = []" "kp_Live Q = kp_Live P" "kp_Polling Q = kp_Polling P" "kp_Posted Q = kp_Posted P"
      "i = 0 \<Longrightarrow> Q = P" "i \<noteq> 0 \<Longrightarrow> kp_TopicPool Q i = Some Topic \<and> kp_Natives Q = {(i, Topic)}"
    using Q parts by (auto simp: AddTopic_def Let_def split: if_splits)
  have clean: "producer_Clean Q = Some (Q\<lparr>kp_Live := {}, kp_Polling := False, kp_TopicPool := Map.empty\<rparr>)"
    using producer_Clean_parts [of Q] act parts by auto
  show ?thesis
  proof (cases "o1 \<and> i \<noteq> 0")
    case True
    then have "ok" "s = \<lparr>ot_Producer = Q, ot_DefuaultTopicId = i\<rparr>"
      using assms P Q by (simp_all add: one_topic_Init_def Let_def)
    then show ?thesis
      using True parts act clean by (simp add: one_topic_Post_def producer_Post_def one_topic_Clean_def)
  next
    case False
    then have "\<not> ok \<and> (ot_Producer s = P \<and> \<not> o1 \<or>
        ot_Producer s = P\<lparr>kp_Live := {}, kp_Polling := False, kp_TopicPool := Map.empty\<rparr>)"
      using assms P Q clean act(5) by (auto simp: one_topic_Init_def Let_def split: if_splits)
    then show ?thesis
      using parts by auto
  qed
qed

definition good_answers :: kfk_answers where
  "good_answers = \<lparr>ka_pool_ok = True, ka_conf_ok = True, ka_param_ok = (\<lambda>_. True), ka_event_cb_ok = True,
     ka_dr_cb_ok = True, ka_producer_ok = True\<rparr>"

theorem one_topic_all_or_nothing_witness:
  "\<exists>s t. one_topic_Init two_slot_alloc (\<lambda>_. True) good_answers [116]
      \<lparr>ko_SecurityProtocol = [], ko_SaslMechanism = [], ko_SaslUsername = [], ko_SaslPassword = [], ko_BootstrapServerList = []\<rparr>
      \<lparr>ot_Producer = new_producer, ot_DefuaultTopicId = 0\<rparr> = Some (True, s) \<and>
    one_topic_Clean s = Some t \<and> kp_Natives (ot_Producer t) = {(1, [116])}"
proof -
  let ?o = "\<lparr>ko_SecurityProtocol = [], ko_SaslMechanism = [], ko_SaslUsername = [], ko_SaslPassword = [], ko_BootstrapServerList = []\<rparr>"
  obtain s where s: "one_topic_Init two_slot_alloc (\<lambda>_. True) good_answers [116] ?o
      \<lparr>ot_Producer = new_producer, ot_DefuaultTopicId = 0\<rparr> = Some (True, s)" "ot_DefuaultTopicId s = 1"
    by (simp add: one_topic_Init_def producer_Init_def AddTopic_def good_answers_def Let_def new_producer_def
        create_part_def two_slot_alloc_def list_all_iff)
  show ?thesis
    using one_topic_all_or_nothing [OF s(1), of "\<lambda>_. True"] s by auto
qed

text \<open>
  The average that is shown is the mean latency of the segment in milliseconds, or zero, and a
  segment starts anew when it is shown.
\<close>

lemma delivery_Tick_average:
  assumes "AuditTimeoutMS \<le> Now - kd_LastAuditTimestampMS s"
  shows "snd (GetAudit (delivery_Tick Now s)) =
      (if kd_LastSegMessageCount s = 0 then 0 else kd_LastSegTotalLatency s div kd_LastSegMessageCount s div 1000) \<and>
    kd_LastSegMessageCount (delivery_Tick Now s) = 0 \<and> kd_LastSegTotalLatency (delivery_Tick Now s) = 0"
  using assms by (simp add: delivery_Tick_def GetAudit_def not_less [symmetric])

end
