(* ===== verification/Service_Runtime.thy ===== *)
theory Service_Runtime
  imports PP_Common
begin

text \<open>
  \<open>src_common/pp_common/service_runtime\<close>, \<open>runtime_env\<close> and the ticks of \<open>_.hpp\<close>: the pool of request
  contexts with their timeout, the runner of periodic work, the order in which observers are
  ticked, the paths a program takes from its command line; \<open>lib_component/server_id_client\<close>: the
  server identifier that is kept in a file. Files are a map from names to contents; the clock, the
  canonical form of a path and the parsing of options are the system's or \<open>xel\<close>'s and are
  parameters.
\<close>

section \<open>Request contexts\<close>

record xServiceRequestContext =
  rc_RequestId :: uint64
  rc_RequestTimestampMS :: uint64
  rc_RequestContext :: uint64
  rc_RequestContextEx :: uint64

record request_pool =
  qp_Pool :: "uint64 \<Rightarrow> xServiceRequestContext option"
  qp_TimeoutList :: "uint64 list"
  qp_DefaultTimeoutMS :: uint64
  qp_TimedOut :: "xServiceRequestContext list"

definition new_request_pool :: request_pool where
  "new_request_pool = \<lparr>qp_Pool = Map.empty, qp_TimeoutList = [], qp_DefaultTimeoutMS = 2000, qp_TimedOut = []\<rparr>"

definition request_Acquire ::
    "(uint64 set \<Rightarrow> uint64) \<Rightarrow> uint64 \<Rightarrow> uint64 \<Rightarrow> uint64 \<Rightarrow> request_pool \<Rightarrow> xServiceRequestContext option \<times> request_pool" where
  "request_Acquire alloc Ticker RequestContext RequestContextEx s =
     (let i = alloc (dom (qp_Pool s)) in
      if i = 0 then (None, s)
      else
        let N = \<lparr>rc_RequestId = i, rc_RequestTimestampMS = Ticker, rc_RequestContext = RequestContext,
              rc_RequestContextEx = RequestContextEx\<rparr> in
        (Some N, s\<lparr>qp_Pool := (qp_Pool s)(i \<mapsto> N), qp_TimeoutList := add_tail (qp_TimeoutList s) i\<rparr>))"

definition request_CheckAndGet :: "uint64 \<Rightarrow> request_pool \<Rightarrow> xServiceRequestContext option" where
  "request_CheckAndGet RequestId s = qp_Pool s RequestId"

text \<open>A node that dies leaves the list it is in.\<close>

definition pool_free :: "uint64 \<Rightarrow> request_pool \<Rightarrow> request_pool" where
  "pool_free i s = s\<lparr>qp_Pool := (qp_Pool s)(i := None), qp_TimeoutList := removeAll i (qp_TimeoutList s)\<rparr>"

definition request_Release :: "xServiceRequestContext \<Rightarrow> request_pool \<Rightarrow> request_pool option" where
  "request_Release RCP s =
     (if request_CheckAndGet (rc_RequestId RCP) s = None then None else Some (pool_free (rc_RequestId RCP) s))"

definition request_Clean :: "request_pool \<Rightarrow> request_pool" where
  "request_Clean s = s\<lparr>qp_Pool := Map.empty, qp_TimeoutList := []\<rparr>"

definition SetRequestTimeoutMS :: "uint64 \<Rightarrow> request_pool \<Rightarrow> request_pool" where
  "SetRequestTimeoutMS TimeoutMS s = s\<lparr>qp_DefaultTimeoutMS := (if TimeoutMS > 500 then TimeoutMS else 500)\<rparr>"

definition request_before :: "uint64 \<Rightarrow> request_pool \<Rightarrow> uint64 \<Rightarrow> bool" where
  "request_before KillTimepoint s i \<longleftrightarrow>
     (case qp_Pool s i of None \<Rightarrow> False | Some N \<Rightarrow> rc_RequestTimestampMS N \<le> KillTimepoint)"

definition time_out :: "uint64 \<Rightarrow> request_pool \<Rightarrow> request_pool" where
  "time_out i s =
     (case qp_Pool s i of
        None \<Rightarrow> s
      | Some P \<Rightarrow> pool_free (rc_RequestId P) (s\<lparr>qp_TimedOut := qp_TimedOut s @ [P]\<rparr>))"

definition RemoveTimeoutRequests :: "uint64 \<Rightarrow> uint64 \<Rightarrow> request_pool \<Rightarrow> request_pool option" where
  "RemoveTimeoutRequests TimeoutMS NowMS s =
     (let KillTimepoint = NowMS - TimeoutMS in
      pop_loop_run qp_TimeoutList (\<lambda>q s. s\<lparr>qp_TimeoutList := q\<rparr>) (request_before KillTimepoint) time_out s)"

definition request_Tick :: "uint64 \<Rightarrow> request_pool \<Rightarrow> request_pool option" where
  "request_Tick NowMS s = RemoveTimeoutRequests (qp_DefaultTimeoutMS s) NowMS s"

section \<open>Periodic work\<close>

definition TickAll :: "uint64 \<Rightarrow> (uint64 \<Rightarrow> 's \<Rightarrow> 's) list \<Rightarrow> 's \<Rightarrow> 's" where
  "TickAll NowMS Observers s = fold (\<lambda>F. F NowMS) Observers s"

text \<open>The ticker is read, the sockets are served, and then the observers are ticked in order.\<close>

definition ServiceUpdateOnce ::
    "uint64 \<Rightarrow> ('s \<Rightarrow> 's) \<Rightarrow> (uint64 \<Rightarrow> 's \<Rightarrow> 's) list \<Rightarrow> uint64 \<times> 's \<Rightarrow> uint64 \<times> 's" where
  "ServiceUpdateOnce NowMS LoopOnce Observers st = (NowMS, TickAll NowMS Observers (LoopOnce (snd st)))"

record tick_runner =
  tk_TimeoutMS :: uint64
  tk_LastRunTimestampMS :: uint64
  tk_Runs :: "uint64 list"

definition new_tick_runner :: "uint64 \<Rightarrow> tick_runner" where
  "new_tick_runner TimeoutMS = \<lparr>tk_TimeoutMS = TimeoutMS, tk_LastRunTimestampMS = 0, tk_Runs = []\<rparr>"

definition runner_Tick :: "uint64 \<Rightarrow> tick_runner \<Rightarrow> tick_runner" where
  "runner_Tick NowMS s =
     (if NowMS \<le> tk_LastRunTimestampMS s + tk_TimeoutMS s then s
      else s\<lparr>tk_LastRunTimestampMS := NowMS, tk_Runs := tk_Runs s @ [NowMS]\<rparr>)"

section \<open>Object handles\<close>

text \<open>
  A handle keeps an object with the identifier it had; it is valid while its manager still finds
  that object under that identifier. An object is the number of its address.
\<close>

record xPPObjectHandle =
  oh_Object :: uint64
  oh_ObjectId :: uint64

definition object_handle :: "(uint64 \<Rightarrow> uint64) \<Rightarrow> uint64 \<Rightarrow> xPPObjectHandle" where
  "object_handle Id_of Object = \<lparr>oh_Object = Object, oh_ObjectId = Id_of Object\<rparr>"

definition handle_IsValid :: "(uint64 \<Rightarrow> uint64 option) \<Rightarrow> xPPObjectHandle \<Rightarrow> bool" where
  "handle_IsValid GetObjectById H \<longleftrightarrow> GetObjectById (oh_ObjectId H) = Some (oh_Object H)"

section \<open>The server identifier\<close>

type_synonym files = "bytes \<Rightarrow> bytes option"

definition LoadLocalServerId :: "files \<Rightarrow> bytes \<Rightarrow> uint64" where
  "LoadLocalServerId fs LocalServerIdFilename =
     (case fs LocalServerIdFilename of
        None \<Rightarrow> 0
      | Some FSOpt \<Rightarrow> strtoumax (takeWhile (\<lambda>c. c \<noteq> 0) FSOpt))"

definition DumpLocalServerId :: "(bytes \<Rightarrow> bool) \<Rightarrow> bytes \<Rightarrow> uint64 \<Rightarrow> files \<Rightarrow> files" where
  "DumpLocalServerId writable LocalServerIdFilename LocalServerId fs =
     (if LocalServerIdFilename = [] then fs
      else if \<not> writable LocalServerIdFilename then fs
      else fs(LocalServerIdFilename \<mapsto> to_string LocalServerId @ [10]))"

record xServerIdClientOptions =
  so_ServerGroup :: uint8
  so_PreviousServerId :: uint64
  so_ExportAddress :: xNetAddress

record server_id_client =
  sc_LocalServerIdFilename :: bytes
  sc_Internal :: "xServerIdClientOptions option"
  sc_Updates :: "uint64 list"

definition new_server_id_client :: server_id_client where
  "new_server_id_client = \<lparr>sc_LocalServerIdFilename = [], sc_Internal = None, sc_Updates = []\<rparr>"

definition server_id_Init ::
    "(xServerIdClientOptions \<Rightarrow> bool) \<Rightarrow> files \<Rightarrow> xServerIdClientOptions \<Rightarrow> bytes \<Rightarrow> server_id_client \<Rightarrow>
     bool \<times> server_id_client" where
  "server_id_Init Init_ok fs Options DumpFilename s =
     (let s = s\<lparr>sc_LocalServerIdFilename := DumpFilename\<rparr>;
          InitServerId = (if DumpFilename \<noteq> [] then LoadLocalServerId fs DumpFilename else 0);
          ProcessedOptions = (if InitServerId \<noteq> 0 then Options\<lparr>so_PreviousServerId := InitServerId\<rparr> else Options) in
      if \<not> Init_ok ProcessedOptions then (False, s)
      else (True, s\<lparr>sc_Internal := Some ProcessedOptions\<rparr>))"

definition server_id_Init_nofile ::
    "(xServerIdClientOptions \<Rightarrow> bool) \<Rightarrow> files \<Rightarrow> xServerIdClientOptions \<Rightarrow> server_id_client \<Rightarrow> bool \<times> server_id_client" where
  "server_id_Init_nofile Init_ok fs Options s = server_id_Init Init_ok fs Options [] s"

definition server_id_Clean :: "server_id_client \<Rightarrow> server_id_client" where
  "server_id_Clean s = s\<lparr>sc_Internal := None, sc_LocalServerIdFilename := []\<rparr>"

definition InternalOnServerIdUpdated ::
    "(bytes \<Rightarrow> bool) \<Rightarrow> uint64 \<Rightarrow> server_id_client \<times> files \<Rightarrow> server_id_client \<times> files" where
  "InternalOnServerIdUpdated writable NewServerId st =
     (let fs = (if sc_LocalServerIdFilename (fst st) \<noteq> []
                then DumpLocalServerId writable (sc_LocalServerIdFilename (fst st)) NewServerId (snd st) else snd st) in
      ((fst st)\<lparr>sc_Updates := sc_Updates (fst st) @ [NewServerId]\<rparr>, fs))"

section \<open>The paths of a program\<close>

text \<open>
  Paths as \<open>std::filesystem\<close> treats them on POSIX systems: appending, the file name, and whether
  there is a parent.
\<close>

definition slash :: byte where "slash = 47"

definition path_append :: "bytes \<Rightarrow> bytes \<Rightarrow> bytes" where
  "path_append a b =
     (if b \<noteq> [] \<and> hd b = slash then b
      else if a = [] \<or> last a = slash then a @ b
      else a @ slash # b)"

definition path_filename :: "bytes \<Rightarrow> bytes" where
  "path_filename p = rev (takeWhile (\<lambda>c. c \<noteq> slash) (rev p))"

definition IsLocalPath :: "bytes \<Rightarrow> bool" where
  "IsLocalPath Path \<longleftrightarrow> slash \<notin> set Path"

record xRuntimeEnv =
  re_HomeDir :: bytes
  re_BinDir :: bytes
  re_ConfigDir :: bytes
  re_DataDir :: bytes
  re_CacheDir :: bytes
  re_ProgramName :: bytes
  re_DefaultConfigFilePath :: bytes
  re_DefaultAuditLoggerFilePath :: bytes
  re_DefaultLoggerFilePath :: bytes
  re_DefaultLocalServerIdFilePath :: bytes
  re_DefaultLockFilePath :: bytes

definition no_env :: xRuntimeEnv where
  "no_env = \<lparr>re_HomeDir = [], re_BinDir = [], re_ConfigDir = [], re_DataDir = [], re_CacheDir = [],
     re_ProgramName = [], re_DefaultConfigFilePath = [], re_DefaultAuditLoggerFilePath = [],
     re_DefaultLoggerFilePath = [], re_DefaultLocalServerIdFilePath = [], re_DefaultLockFilePath = []\<rparr>"

definition GetBinaryPath :: "xRuntimeEnv \<Rightarrow> bytes \<Rightarrow> bytes option" where
  "GetBinaryPath Env Filename =
     (if Filename = [] then None
      else Some (if IsLocalPath Filename then path_append (re_BinDir Env) Filename else Filename))"

definition GetConfigPath :: "xRuntimeEnv \<Rightarrow> bytes \<Rightarrow> bytes option" where
  "GetConfigPath Env Filename =
     (if Filename = [] then None
      else Some (if IsLocalPath Filename then path_append (re_ConfigDir Env) Filename else Filename))"

definition GetDataPath :: "xRuntimeEnv \<Rightarrow> bytes \<Rightarrow> bytes option" where
  "GetDataPath Env Filename =
     (if Filename = [] then None
      else Some (if IsLocalPath Filename then path_append (re_DataDir Env) Filename else Filename))"

definition GetCachePath :: "xRuntimeEnv \<Rightarrow> bytes \<Rightarrow> bytes option" where
  "GetCachePath Env Filename =
     (if Filename = [] then None
      else Some (if IsLocalPath Filename then path_append (re_CacheDir Env) Filename else Filename))"

definition env_dirs :: "(bytes \<Rightarrow> bytes) \<Rightarrow> bytes \<Rightarrow> bytes option \<Rightarrow> xRuntimeEnv \<Rightarrow> xRuntimeEnv" where
  "env_dirs canonical current_path HomeOpt Env =
     (case HomeOpt of
        None \<Rightarrow>
          let Home = canonical current_path in
          Env\<lparr>re_HomeDir := Home, re_BinDir := Home, re_ConfigDir := Home, re_DataDir := Home, re_CacheDir := Home\<rparr>
      | Some H \<Rightarrow>
          let Home = canonical H in
          Env\<lparr>re_HomeDir := Home, re_BinDir := path_append Home (str ''bin''),
              re_ConfigDir := path_append Home (str ''config''), re_DataDir := path_append Home (str ''data''),
              re_CacheDir := path_append Home (str ''cache'')\<rparr>)"

text \<open>The options of the command line are its \<open>home_dir\<close> and its \<open>config-file\<close>.\<close>

definition FromCommandLine ::
    "(bytes \<Rightarrow> bytes) \<Rightarrow> bytes \<Rightarrow> bytes list \<Rightarrow> bytes option \<Rightarrow> bytes option \<Rightarrow> xRuntimeEnv option" where
  "FromCommandLine canonical current_path CmdArgv HomeOpt ConfigFilenameOpt =
     (case CmdArgv of
        [] \<Rightarrow> Some no_env
      | ProgramPath # _ \<Rightarrow>
          let Name = (if ProgramPath \<noteq> [] then path_filename ProgramPath else []);
              Env = no_env\<lparr>re_ProgramName := if Name = [] then str ''unnamed_application'' else Name\<rparr>;
              Env = env_dirs canonical current_path HomeOpt Env in
          (case GetConfigPath Env (case ConfigFilenameOpt of Some F \<Rightarrow> F | None \<Rightarrow> str ''default'') of
             None \<Rightarrow> None
           | Some Config \<Rightarrow>
               Some (Env\<lparr>re_DefaultConfigFilePath := Config,
                 re_DefaultAuditLoggerFilePath := path_append (re_CacheDir Env) (re_ProgramName Env @ str ''.adt''),
                 re_DefaultLoggerFilePath := path_append (re_CacheDir Env) (re_ProgramName Env @ str ''.log''),
                 re_DefaultLocalServerIdFilePath := path_append (re_CacheDir Env) (re_ProgramName Env @ str ''.sid''),
                 re_DefaultLockFilePath := path_append (re_CacheDir Env) (re_ProgramName Env @ str ''.lock'')\<rparr>)))"

section \<open>Lemmas: request contexts\<close>

text \<open>
  The list holds every live context once, under its own identifier, oldest first, none of them
  newer than the clock.
\<close>

definition request_stamp :: "request_pool \<Rightarrow> uint64 \<Rightarrow> uint64" where
  "request_stamp s i = (case qp_Pool s i of None \<Rightarrow> 0 | Some N \<Rightarrow> rc_RequestTimestampMS N)"

definition request_inv :: "uint64 \<Rightarrow> request_pool \<Rightarrow> bool" where
  "request_inv Now s \<longleftrightarrow>
     distinct (qp_TimeoutList s) \<and> set (qp_TimeoutList s) = dom (qp_Pool s) \<and>
     (\<forall>i N. qp_Pool s i = Some N \<longrightarrow> rc_RequestId N = i \<and> rc_RequestTimestampMS N \<le> Now) \<and>
     sorted (List.map (request_stamp s) (qp_TimeoutList s))"

lemma request_stamp_out [simp]: "request_stamp (s\<lparr>qp_TimedOut := x\<rparr>) = request_stamp s"
  by (simp add: request_stamp_def fun_eq_iff)

lemma request_inv_new [inv_intros]: "request_inv Now new_request_pool"
  by (simp add: request_inv_def new_request_pool_def)

lemma request_Clean_inv [inv_intros]: "request_inv Now (request_Clean s)"
  by (simp add: request_inv_def request_Clean_def)

lemma request_inv_later: "request_inv Now s \<Longrightarrow> Now \<le> Now' \<Longrightarrow> request_inv Now' s"
  by (fastforce simp: request_inv_def)

lemma sorted_stamps_remove: "sorted (List.map f xs) \<Longrightarrow> sorted (List.map f (removeAll i xs))"
  by (induction xs) auto

lemma pool_free_inv:
  assumes "request_inv Now s"
  shows "request_inv Now (pool_free i s)"
proof -
  have stamp: "List.map (request_stamp (pool_free i s)) (removeAll i xs) = List.map (request_stamp s) (removeAll i xs)" for xs
    by (auto simp: request_stamp_def pool_free_def)
  have list: "qp_TimeoutList (pool_free i s) = removeAll i (qp_TimeoutList s)"
    by (simp add: pool_free_def)
  have "sorted (List.map (request_stamp (pool_free i s)) (qp_TimeoutList (pool_free i s)))"
    unfolding list stamp using assms by (intro sorted_stamps_remove) (simp add: request_inv_def)
  then show ?thesis
    using assms by (auto simp: request_inv_def pool_free_def)
qed

lemma request_Acquire_inv:
  assumes "request_inv Now s" and "storage_ok alloc"
  shows "request_inv Now (snd (request_Acquire alloc Now a b s))"
proof (cases "alloc (dom (qp_Pool s)) = 0")
  case False
  let ?i = "alloc (dom (qp_Pool s))"
  let ?t = "snd (request_Acquire alloc Now a b s)"
  have i: "?i \<notin> dom (qp_Pool s)"
    using assms(2) False by (auto simp: storage_ok_def)
  then have il: "?i \<notin> set (qp_TimeoutList s)"
    using assms(1) by (simp add: request_inv_def)
  have list: "qp_TimeoutList ?t = qp_TimeoutList s @ [?i]"
    using False by (simp add: request_Acquire_def Let_def)
  have stamp: "request_stamp ?t j = (if j = ?i then Now else request_stamp s j)" for j
    using False by (simp add: request_Acquire_def Let_def request_stamp_def)
  have same: "List.map (request_stamp ?t) (qp_TimeoutList s) = List.map (request_stamp s) (qp_TimeoutList s)"
    using il by (auto simp: stamp)
  have le: "request_stamp s j \<le> Now" if "j \<in> set (qp_TimeoutList s)" for j
    using assms(1) that by (auto simp: request_inv_def request_stamp_def split: option.split)
  have "sorted (List.map (request_stamp ?t) (qp_TimeoutList ?t))"
    unfolding list map_append same using assms(1) le by (auto simp: request_inv_def sorted_append stamp)
  then show ?thesis
    using assms(1) False i il by (auto simp: request_inv_def request_Acquire_def Let_def)
qed (use assms in \<open>simp add: request_Acquire_def\<close>)

text \<open>One round of the loop: the head goes, and is handed to the callback.\<close>

lemma time_out_step:
  assumes "request_inv Now s" and "qp_TimeoutList s = i # q" and "qp_Pool s i = Some N"
  shows "request_inv Now (time_out i (s\<lparr>qp_TimeoutList := q\<rparr>)) \<and>
    qp_TimeoutList (time_out i (s\<lparr>qp_TimeoutList := q\<rparr>)) = q \<and>
    qp_TimedOut (time_out i (s\<lparr>qp_TimeoutList := q\<rparr>)) = qp_TimedOut s @ [N] \<and>
    qp_Pool (time_out i (s\<lparr>qp_TimeoutList := q\<rparr>)) = (qp_Pool s)(i := None)"
proof -
  have id: "rc_RequestId N = i" and iq: "i \<notin> set q"
    using assms by (auto simp: request_inv_def)
  have eq: "time_out i (s\<lparr>qp_TimeoutList := q\<rparr>) = (pool_free i s)\<lparr>qp_TimedOut := qp_TimedOut s @ [N]\<rparr>"
    using assms(2,3) id iq by (simp add: time_out_def pool_free_def)
  have "request_inv Now ((pool_free i s)\<lparr>qp_TimedOut := qp_TimedOut s @ [N]\<rparr>)"
    using pool_free_inv [OF assms(1), of i] by (simp add: request_inv_def request_stamp_def)
  then show ?thesis
    using assms(2) iq unfolding eq by (simp add: pool_free_def)
qed

lemma timeout_loop:
  assumes "request_inv Now s" and "qp_TimeoutList s = q"
  shows "\<exists>t. pop_loop_run qp_TimeoutList (\<lambda>q s. s\<lparr>qp_TimeoutList := q\<rparr>) (request_before T) time_out s = Some t \<and>
    request_inv Now t \<and>
    qp_TimedOut t = qp_TimedOut s @ List.map (\<lambda>i. the (qp_Pool s i)) (filter (\<lambda>i. request_stamp s i \<le> T) q) \<and>
    qp_Pool t = (qp_Pool s) |` {i. T < request_stamp s i}"
  using assms
proof (induction q arbitrary: s)
  case Nil
  then have "pop_head_if qp_TimeoutList (\<lambda>q s. s\<lparr>qp_TimeoutList := q\<rparr>) (request_before T) s = None"
    by (simp add: pop_head_if_def)
  moreover have "dom (qp_Pool s) = {}"
    using Nil by (auto simp: request_inv_def)
  ultimately show ?case
    using Nil(1) by (simp add: pop_loop_run_stop)
next
  case (Cons i q)
  have "i \<in> dom (qp_Pool s)"
    using Cons.prems by (auto simp: request_inv_def)
  then obtain N where N: "qp_Pool s i = Some N"
    by blast
  then have stamp: "request_stamp s i = rc_RequestTimestampMS N"
    by (simp add: request_stamp_def)
  have le: "request_stamp s i \<le> request_stamp s j" if "j \<in> set q" for j
    using Cons.prems that by (simp add: request_inv_def)
  have dom: "dom (qp_Pool s) = insert i (set q)" and iq: "i \<notin> set q"
    using Cons.prems by (auto simp: request_inv_def)
  show ?case
  proof (cases "rc_RequestTimestampMS N \<le> T")
    case True
    let ?u = "time_out i (s\<lparr>qp_TimeoutList := q\<rparr>)"
    note u = time_out_step [OF Cons.prems N]
    have stamps: "request_stamp ?u j = (if j = i then 0 else request_stamp s j)" for j
      using u by (simp add: request_stamp_def)
    obtain t where t: "pop_loop_run qp_TimeoutList (\<lambda>q s. s\<lparr>qp_TimeoutList := q\<rparr>) (request_before T) time_out ?u = Some t"
        "request_inv Now t"
        "qp_TimedOut t = qp_TimedOut ?u @ List.map (\<lambda>i. the (qp_Pool ?u i)) (filter (\<lambda>i. request_stamp ?u i \<le> T) q)"
        "qp_Pool t = (qp_Pool ?u) |` {i. T < request_stamp ?u i}"
      using Cons.IH [of ?u] u by blast
    have run: "pop_loop_run qp_TimeoutList (\<lambda>q s. s\<lparr>qp_TimeoutList := q\<rparr>) (request_before T) time_out s = Some t"
      using t(1) pop_loop_run_step [of qp_TimeoutList "\<lambda>q s. s\<lparr>qp_TimeoutList := q\<rparr>" "request_before T" s i "s\<lparr>qp_TimeoutList := q\<rparr>" time_out]
        Cons.prems(2) N True by (simp add: pop_head_if_def request_before_def)
    have "filter (\<lambda>i. request_stamp ?u i \<le> T) q = filter (\<lambda>i. request_stamp s i \<le> T) q"
      using iq by (intro filter_cong) (auto simp: stamps)
    moreover have "List.map (\<lambda>i. the (qp_Pool ?u i)) (filter (\<lambda>i. request_stamp s i \<le> T) q) =
        List.map (\<lambda>i. the (qp_Pool s i)) (filter (\<lambda>i. request_stamp s i \<le> T) q)"
      using iq u by auto
    moreover have "(qp_Pool ?u) |` {i. T < request_stamp ?u i} = (qp_Pool s) |` {i. T < request_stamp s i}"
      using u stamp True by (auto simp: restrict_map_def stamps fun_eq_iff)
    ultimately show ?thesis
      using run t(2-4) u stamp True N by simp
  next
    case False
    then have "pop_head_if qp_TimeoutList (\<lambda>q s. s\<lparr>qp_TimeoutList := q\<rparr>) (request_before T) s = None"
      using Cons.prems(2) N by (simp add: pop_head_if_def request_before_def)
    moreover have late: "T < request_stamp s j" if "j \<in> insert i (set q)" for j
      using that le False stamp by (auto simp: not_le intro: less_le_trans)
    then have "filter (\<lambda>i. request_stamp s i \<le> T) (i # q) = []"
      by (intro filter_False) (simp add: not_le)
    moreover have "qp_Pool s |` {i. T < request_stamp s i} = qp_Pool s"
    proof (rule ext)
      fix j
      show "(qp_Pool s |` {i. T < request_stamp s i}) j = qp_Pool s j"
        using late [of j] dom by (cases "j \<in> insert i (set q)") (auto simp: restrict_map_def domIff)
    qed
    ultimately show ?thesis
      using Cons.prems(1) by (simp add: pop_loop_run_stop del: filter.simps)
  qed
qed

section \<open>Requests that time out\<close>

text \<open>
  A tick takes exactly the requests that are too old. The loop ends; the requests whose time
  stamp is at most \<open>NowMS\<close> minus the timeout are handed to the callback, each once and oldest
  first, and released; the others stay as they are; and the timeout is never below half a second,
  whatever was asked for.
\<close>

theorem request_timeouts:
  assumes "request_inv Now s"
  shows "\<exists>t. request_Tick Now s = Some t \<and> request_inv Now t \<and>
    qp_TimedOut t = qp_TimedOut s @ List.map (\<lambda>i. the (qp_Pool s i))
      (filter (\<lambda>i. request_stamp s i \<le> Now - qp_DefaultTimeoutMS s) (qp_TimeoutList s)) \<and>
    (\<forall>i. request_CheckAndGet i t =
       (if request_stamp s i \<le> Now - qp_DefaultTimeoutMS s then None else request_CheckAndGet i s)) \<and>
    500 \<le> qp_DefaultTimeoutMS (SetRequestTimeoutMS T s)"
proof -
  obtain t where t: "request_Tick Now s = Some t" "request_inv Now t"
      "qp_TimedOut t = qp_TimedOut s @ List.map (\<lambda>i. the (qp_Pool s i))
        (filter (\<lambda>i. request_stamp s i \<le> Now - qp_DefaultTimeoutMS s) (qp_TimeoutList s))"
      "qp_Pool t = (qp_Pool s) |` {i. Now - qp_DefaultTimeoutMS s < request_stamp s i}"
    using timeout_loop [OF assms refl, of "Now - qp_DefaultTimeoutMS s"]
    by (auto simp: request_Tick_def RemoveTimeoutRequests_def Let_def)
  moreover have "500 \<le> qp_DefaultTimeoutMS (SetRequestTimeoutMS T s)"
    by (simp add: SetRequestTimeoutMS_def less_imp_le)
  ultimately show ?thesis
    by (intro exI [of _ t]) (auto simp: request_CheckAndGet_def restrict_map_def not_le [symmetric])
qed

theorem request_timeouts_witness:
  "\<exists>t. request_Tick 3000 (snd (request_Acquire two_slot_alloc 900 7 8 new_request_pool)) = Some t \<and>
    request_CheckAndGet 1 t = None \<and> List.map rc_RequestContext (qp_TimedOut t) = [7]"
proof -
  let ?s = "snd (request_Acquire two_slot_alloc 900 7 8 new_request_pool)"
  have inv: "request_inv 3000 ?s"
    by (rule request_inv_later [OF request_Acquire_inv [OF request_inv_new two_slot_alloc_ok]]) simp
  have s: "qp_Pool ?s = [1 \<mapsto> \<lparr>rc_RequestId = 1, rc_RequestTimestampMS = 900, rc_RequestContext = 7, rc_RequestContextEx = 8\<rparr>]"
      "qp_TimeoutList ?s = [1]" "qp_DefaultTimeoutMS ?s = 2000" "qp_TimedOut ?s = []"
    by (simp_all add: request_Acquire_def Let_def new_request_pool_def two_slot_alloc_def)
  have stamp: "request_stamp ?s 1 = 900"
    by (simp add: request_stamp_def s)
  obtain t where "request_Tick 3000 ?s = Some t"
      "qp_TimedOut t = qp_TimedOut ?s @ List.map (\<lambda>i. the (qp_Pool ?s i))
        (filter (\<lambda>i. request_stamp ?s i \<le> 3000 - qp_DefaultTimeoutMS ?s) (qp_TimeoutList ?s))"
      "\<forall>i. request_CheckAndGet i t =
        (if request_stamp ?s i \<le> 3000 - qp_DefaultTimeoutMS ?s then None else request_CheckAndGet i ?s)"
    using request_timeouts [OF inv] by blast
  then show ?thesis
    by (intro exI [of _ t]) (simp add: s stamp)
qed

section \<open>Handles\<close>

text \<open>Once the object is gone from under its identifier, its handle stays invalid until it is put back there.\<close>

lemma stale_handle_invalid:
  "handle_IsValid (m(Id_of x := None)) (object_handle Id_of x) = False \<and>
   (handle_IsValid (m(Id_of x \<mapsto> y)) (object_handle Id_of x) \<longleftrightarrow> y = x)"
  by (simp add: handle_IsValid_def object_handle_def)

section \<open>Periodic work\<close>

text \<open>The runs are further apart than the period, as long as the sum does not wrap around.\<close>

lemma runner_Tick_apart:
  assumes "unat (tk_LastRunTimestampMS s) + unat (tk_TimeoutMS s) < 2 ^ 64"
  shows "(tk_LastRunTimestampMS (runner_Tick Now s) = Now \<and> tk_Runs (runner_Tick Now s) = tk_Runs s @ [Now] \<longleftrightarrow>
      unat (tk_LastRunTimestampMS s) + unat (tk_TimeoutMS s) < unat Now) \<and>
    (unat Now \<le> unat (tk_LastRunTimestampMS s) + unat (tk_TimeoutMS s) \<longrightarrow> runner_Tick Now s = s)"
proof -
  have "unat (tk_LastRunTimestampMS s + tk_TimeoutMS s) = unat (tk_LastRunTimestampMS s) + unat (tk_TimeoutMS s)"
    using assms by (simp add: unat_word_ariths)
  then show ?thesis
    by (auto simp: runner_Tick_def word_le_nat_alt)
qed

section \<open>The identifier survives a restart\<close>

lemma LoadLocalServerId_dumped:
  "LoadLocalServerId (fs(F \<mapsto> to_string n @ [10])) F = n"
proof -
  obtain C T where CT: "to_string_nat (unat n) = C # T"
    using to_string_nat_ne by (cases "to_string_nat (unat n)") auto
  then have digits: "isdigit C" "list_all isdigit T"
    using to_string_nat_digits [of "unat n"] by simp_all
  have zero: "\<not> isdigit 0" "\<not> isdigit 10"
    by (simp_all add: isdigit_def)
  have "\<forall>c \<in> set (C # T @ [10]). c \<noteq> 0"
    using digits zero by (auto simp: list_all_iff)
  then have "takeWhile (\<lambda>c. c \<noteq> 0) (C # T @ [10]) = C # T @ [10]"
    by (simp only: takeWhile_eq_all_conv)
  moreover have "takeWhile isdigit (T @ [10]) = T"
    using digits(2) zero(2) by (simp add: takeWhile_append list_all_iff)
  moreover have "unat n < 2 ^ 64"
    using unsigned_less [of n] by simp
  ultimately show ?thesis
    using to_string_nat_value [of "unat n"] digits(1) isdigit_not_sign [OF digits(1)]
    by (simp add: LoadLocalServerId_def strtoumax_def to_string_def CT Let_def)
qed

text \<open>
  The identifier a server was given survives its restart. Once an identifier other than zero
  was announced to a client with a file that can be written, the client passes it on, and a client
  that is initialised later with that file asks for that identifier; without a file, or with one
  that cannot be written and does not exist, it asks for what its options say.
\<close>

theorem server_id_remembered:
  assumes "NewId \<noteq> 0" and "File \<noteq> []" and "sc_LocalServerIdFilename s = File"
  shows "sc_Updates (fst (InternalOnServerIdUpdated writable NewId (s, fs))) = sc_Updates s @ [NewId] \<and>
    (writable File \<and> Init_ok (Options\<lparr>so_PreviousServerId := NewId\<rparr>) \<longrightarrow>
       server_id_Init Init_ok (snd (InternalOnServerIdUpdated writable NewId (s, fs))) Options File new_server_id_client =
         (True, \<lparr>sc_LocalServerIdFilename = File, sc_Internal = Some (Options\<lparr>so_PreviousServerId := NewId\<rparr>), sc_Updates = []\<rparr>)) \<and>
    (\<not> writable File \<and> fs File = None \<and> Init_ok Options \<longrightarrow>
       server_id_Init Init_ok (snd (InternalOnServerIdUpdated writable NewId (s, fs))) Options File new_server_id_client =
         (True, \<lparr>sc_LocalServerIdFilename = File, sc_Internal = Some Options, sc_Updates = []\<rparr>)) \<and>
    (Init_ok Options \<longrightarrow> server_id_Init_nofile Init_ok fs Options new_server_id_client =
       (True, \<lparr>sc_LocalServerIdFilename = [], sc_Internal = Some Options, sc_Updates = []\<rparr>))"
proof -
  have upd: "sc_Updates (fst (InternalOnServerIdUpdated writable NewId (s, fs))) = sc_Updates s @ [NewId]"
    "snd (InternalOnServerIdUpdated writable NewId (s, fs)) =
       (if writable File then fs(File \<mapsto> to_string NewId @ [10]) else fs)"
    using assms by (simp_all add: InternalOnServerIdUpdated_def DumpLocalServerId_def Let_def)
  have "LoadLocalServerId fs File = 0" if "fs File = None"
    using that by (simp add: LoadLocalServerId_def)
  then show ?thesis
    using assms(1,2) LoadLocalServerId_dumped [of fs File NewId]
    by (auto simp: upd server_id_Init_def server_id_Init_nofile_def new_server_id_client_def)
qed

theorem server_id_remembered_witness:
  "server_id_Init (\<lambda>_. True)
     (snd (InternalOnServerIdUpdated (\<lambda>_. True) 77 (\<lparr>sc_LocalServerIdFilename = [115], sc_Internal = None, sc_Updates = []\<rparr>, Map.empty)))
     \<lparr>so_ServerGroup = 1, so_PreviousServerId = 0, so_ExportAddress = no_address\<rparr> [115] new_server_id_client =
   (True, \<lparr>sc_LocalServerIdFilename = [115],
      sc_Internal = Some \<lparr>so_ServerGroup = 1, so_PreviousServerId = 77, so_ExportAddress = no_address\<rparr>, sc_Updates = []\<rparr>)"
  using server_id_remembered [of 77 "[115]" "\<lparr>sc_LocalServerIdFilename = [115], sc_Internal = None, sc_Updates = []\<rparr>"
      "\<lambda>_. True" Map.empty "\<lambda>_. True" "\<lparr>so_ServerGroup = 1, so_PreviousServerId = 0, so_ExportAddress = no_address\<rparr>"]
  by simp

section \<open>Paths\<close>

text \<open>A bare name lands in the directory of its kind, a path stays as it is.\<close>

lemma FromCommandLine_paths:
  assumes "FromCommandLine canonical cwd (P # Args) HomeOpt (Some F) = Some Env"
  shows "re_DefaultConfigFilePath Env = (if slash \<in> set F then F else path_append (re_ConfigDir Env) F) \<and>
    re_DefaultLocalServerIdFilePath Env = path_append (re_CacheDir Env) (re_ProgramName Env @ str ''.sid'') \<and>
    re_ProgramName Env \<noteq> [] \<and>
    (HomeOpt = None \<longrightarrow> re_CacheDir Env = canonical cwd \<and> re_ConfigDir Env = canonical cwd)"
  using assms
  by (auto simp: FromCommandLine_def Let_def GetConfigPath_def IsLocalPath_def env_dirs_def str_def
      split: if_splits option.splits)

lemma FromCommandLine_refuses:
  "FromCommandLine canonical cwd (P # Args) HomeOpt (Some []) = None"
  by (simp add: FromCommandLine_def GetConfigPath_def Let_def)

end
