(* ===== verification/Service_Environment.thy ===== *)
theory Service_Environment
  imports Service_Runtime
begin

text \<open>
  \<open>src_common/pp_common/service_runtime.cpp\<close>: the globals of a program and the guard that sets them
  up for the time it lives. A guard is named by its address, a logger by the file it writes to.
  Opening a log file, the initialisation of the IO context and the start of the run state belong to
  \<open>xel\<close>: their outcomes are parameters. An assertion that fails ends the program, and so does
  cleaning a logger that is not an \<open>xBaseLogger\<close> or an IO context that is not there: \<open>None\<close>.
\<close>

section \<open>The globals and the loggers\<close>

datatype logger = NonLogger | StdLogger | BaseLogger bytes

record service_globals =
  sg_ServiceEnvironment :: xRuntimeEnv
  sg_Logger :: logger
  sg_AuditLogger :: logger
  sg_ServiceIoContext :: bool
  sg_ServiceRunState :: bool
  sg_Instance :: "uint64 option"

definition initial_globals :: service_globals where
  "initial_globals =
     \<lparr>sg_ServiceEnvironment = no_env, sg_Logger = NonLogger, sg_AuditLogger = NonLogger,
      sg_ServiceIoContext = False, sg_ServiceRunState = False, sg_Instance = None\<rparr>"

definition InitLogger :: "(bytes \<Rightarrow> bool) \<Rightarrow> service_globals \<Rightarrow> service_globals option" where
  "InitLogger open_ok s =
     (let LogPath = re_DefaultLoggerFilePath (sg_ServiceEnvironment s);
          AuditPath = re_DefaultAuditLoggerFilePath (sg_ServiceEnvironment s) in
      if \<not> open_ok LogPath then None
      else
        let s = s\<lparr>sg_Logger := BaseLogger LogPath\<rparr> in
        if \<not> open_ok AuditPath then None else Some (s\<lparr>sg_AuditLogger := BaseLogger AuditPath\<rparr>))"

fun is_base_logger :: "logger \<Rightarrow> bool" where
  "is_base_logger (BaseLogger _) = True"
| "is_base_logger _ = False"

definition CleanLogger :: "service_globals \<Rightarrow> service_globals option" where
  "CleanLogger s =
     (if \<not> is_base_logger (sg_AuditLogger s) then None
      else
        let s = s\<lparr>sg_AuditLogger := NonLogger\<rparr> in
        if \<not> is_base_logger (sg_Logger s) then None else Some (s\<lparr>sg_Logger := NonLogger\<rparr>))"

definition AssertServiceEnviromentReady :: "service_globals \<Rightarrow> unit option" where
  "AssertServiceEnviromentReady s = (if sg_Instance s = None then None else Some ())"

text \<open>What \<open>ServiceLoadConfig\<close> loads: the configuration file of the environment.\<close>

definition ServiceLoadConfig :: "service_globals \<Rightarrow> bytes option" where
  "ServiceLoadConfig s =
     map_option (\<lambda>_. re_DefaultConfigFilePath (sg_ServiceEnvironment s)) (AssertServiceEnviromentReady s)"

section \<open>The guard\<close>

text \<open>
  The three constructors differ in their loggers. What they get from outside is the command line as
  \<open>FromCommandLine\<close> read it (\<open>None\<close> if it refused it), and the outcomes of the calls.
\<close>

datatype logger_mode = File_Logger | No_Logger | Console_Logger

record service_outcomes =
  so_open_ok :: "bytes \<Rightarrow> bool"
  so_io_ok :: bool
  so_start_ok :: bool

definition start_service :: "service_outcomes \<Rightarrow> uint64 \<Rightarrow> service_globals \<Rightarrow> service_globals option" where
  "start_service W this s =
     (let s = s\<lparr>sg_ServiceIoContext := True\<rparr> in
      if \<not> so_io_ok W then None
      else if \<not> so_start_ok W then None
      else Some (s\<lparr>sg_ServiceRunState := True, sg_Instance := Some this\<rparr>))"

definition guard_construct ::
    "logger_mode \<Rightarrow> service_outcomes \<Rightarrow> xRuntimeEnv option \<Rightarrow> uint64 \<Rightarrow> service_globals \<Rightarrow> service_globals option" where
  "guard_construct mode W Env this s =
     (if sg_Instance s \<noteq> None then None
      else case Env of
        None \<Rightarrow> None
      | Some Env \<Rightarrow>
          let s = s\<lparr>sg_ServiceEnvironment := Env\<rparr> in
          (case mode of
             File_Logger \<Rightarrow> Option.bind (InitLogger (so_open_ok W) s) (start_service W this)
           | No_Logger \<Rightarrow> start_service W this s
           | Console_Logger \<Rightarrow>
               start_service W this (s\<lparr>sg_AuditLogger := StdLogger, sg_Logger := StdLogger\<rparr>)))"

definition EnableLogger :: "logger_mode \<Rightarrow> bool" where
  "EnableLogger mode \<longleftrightarrow> mode = File_Logger"

definition guard_destruct :: "logger_mode \<Rightarrow> uint64 \<Rightarrow> service_globals \<Rightarrow> service_globals option" where
  "guard_destruct mode this s =
     (if sg_Instance s \<noteq> Some this then None
      else
        let s = s\<lparr>sg_ServiceRunState := False\<rparr> in
        if \<not> sg_ServiceIoContext s then None
        else
          let s = s\<lparr>sg_ServiceIoContext := False\<rparr> in
          map_option (\<lambda>s. s\<lparr>sg_ServiceEnvironment := no_env, sg_Instance := None\<rparr>)
            (if EnableLogger mode then CleanLogger s
             else Some (s\<lparr>sg_AuditLogger := NonLogger, sg_Logger := NonLogger\<rparr>)))"

section \<open>The life of the environment\<close>

text \<open>
  A program is a sequence of guards entered and left and of configurations loaded. Whatever the
  order, as long as it does not end the program, the globals say whether a guard lives: without one
  they are as at the start, with one the loggers are those of its mode, and the configuration can be
  loaded.
\<close>

datatype service_event =
    Enter logger_mode service_outcomes "xRuntimeEnv option" uint64
  | Leave
  | Load

text \<open>The state is the globals and the guard that lives, with its mode.\<close>

fun service_step ::
    "service_event \<Rightarrow> service_globals \<times> (logger_mode \<times> uint64) option \<Rightarrow>
     (service_globals \<times> (logger_mode \<times> uint64) option) option" where
  "service_step (Enter mode W Env this) (s, g) =
     map_option (\<lambda>s. (s, Some (mode, this))) (guard_construct mode W Env this s)"
| "service_step Leave (s, g) =
     (case g of
        None \<Rightarrow> Some (s, None)
      | Some (mode, this) \<Rightarrow> map_option (\<lambda>s. (s, None)) (guard_destruct mode this s))"
| "service_step Load (s, g) = map_option (\<lambda>_. (s, g)) (ServiceLoadConfig s)"

fun service_steps ::
    "service_event list \<Rightarrow> service_globals \<times> (logger_mode \<times> uint64) option \<Rightarrow>
     (service_globals \<times> (logger_mode \<times> uint64) option) option" where
  "service_steps [] st = Some st"
| "service_steps (e # es) st = Option.bind (service_step e st) (service_steps es)"

fun logs_as :: "logger_mode \<Rightarrow> service_globals \<Rightarrow> bool" where
  "logs_as File_Logger s \<longleftrightarrow> sg_Logger s = BaseLogger (re_DefaultLoggerFilePath (sg_ServiceEnvironment s)) \<and>
     sg_AuditLogger s = BaseLogger (re_DefaultAuditLoggerFilePath (sg_ServiceEnvironment s))"
| "logs_as No_Logger s \<longleftrightarrow> sg_Logger s = NonLogger \<and> sg_AuditLogger s = NonLogger"
| "logs_as Console_Logger s \<longleftrightarrow> sg_Logger s = StdLogger \<and> sg_AuditLogger s = StdLogger"

fun service_inv :: "service_globals \<times> (logger_mode \<times> uint64) option \<Rightarrow> bool" where
  "service_inv (s, None) \<longleftrightarrow> s = initial_globals"
| "service_inv (s, Some (mode, this)) \<longleftrightarrow>
     sg_Instance s = Some this \<and> sg_ServiceIoContext s \<and> sg_ServiceRunState s \<and> logs_as mode s"

lemma guard_construct_inv:
  assumes "guard_construct mode W Env this initial_globals = Some s"
  shows "service_inv (s, Some (mode, this)) \<and> Some (sg_ServiceEnvironment s) = Env"
  using assms
  by (cases mode) (auto simp: guard_construct_def initial_globals_def start_service_def InitLogger_def Let_def
      split: option.splits if_splits)

lemma guard_destruct_total:
  assumes "service_inv (s, Some (mode, this))"
  shows "guard_destruct mode this s = Some initial_globals"
proof -
  have "guard_destruct mode this s = Some (s\<lparr>sg_ServiceEnvironment := no_env, sg_Logger := NonLogger,
      sg_AuditLogger := NonLogger, sg_ServiceIoContext := False, sg_ServiceRunState := False, sg_Instance := None\<rparr>)"
    using assms by (cases mode) (simp_all add: guard_destruct_def EnableLogger_def CleanLogger_def Let_def)
  then show ?thesis
    by (simp add: initial_globals_def)
qed

lemma guard_refused: "sg_Instance s \<noteq> None \<Longrightarrow> guard_construct mode W Env this s = None"
  by (simp add: guard_construct_def)

lemma service_step_inv:
  assumes "service_inv st" and "service_step e st = Some st'"
  shows "service_inv st'"
proof (cases st)
  case (Pair s g)
  show ?thesis
  proof (cases g)
    case None
    then show ?thesis
      using assms Pair guard_construct_inv by (cases e) (auto split: option.splits)
  next
    case (Some p)
    obtain mode this where p: "p = (mode, this)"
      by fastforce
    then show ?thesis
      using assms Pair Some guard_destruct_total [of s mode this] guard_refused [of s]
      by (cases e) auto
  qed
qed

lemma service_steps_inv: "service_inv st \<Longrightarrow> service_steps es st = Some st' \<Longrightarrow> service_inv st'"
proof (induction es arbitrary: st)
  case (Cons e es)
  then obtain u where "service_step e st = Some u" "service_steps es u = Some st'"
    by (cases "service_step e st") simp_all
  with Cons.IH Cons.prems(1) show ?case
    using service_step_inv by blast
qed simp

text \<open>Leaving never fails, and brings the globals back; a second guard ends the program.\<close>

lemma service_environment_life:
  assumes "service_steps es (initial_globals, None) = Some (s, g)"
  shows "service_step Leave (s, g) = Some (initial_globals, None) \<and>
    (g = None \<longleftrightarrow> ServiceLoadConfig s = None) \<and>
    (g \<noteq> None \<longrightarrow> service_step (Enter mode W Env this) (s, g) = None)"
proof -
  have inv: "service_inv (s, g)"
    using service_steps_inv [OF _ assms] by simp
  show ?thesis
  proof (cases g)
    case None
    then show ?thesis
      using inv by (simp add: ServiceLoadConfig_def AssertServiceEnviromentReady_def initial_globals_def)
  next
    case (Some p)
    then obtain m i where p: "g = Some (m, i)"
      by (cases p) simp
    then show ?thesis
      using inv guard_destruct_total [of s m i] guard_refused [of s]
      by (simp add: ServiceLoadConfig_def AssertServiceEnviromentReady_def)
  qed
qed

end
