(* ===== verification/Relay_Dispatch.thy ===== *)
theory Relay_Dispatch
  imports Server_List
begin

text \<open>
  How relays are announced. \<open>s_relay_dispatcher_master/rdm.cpp\<close>: relays register and keep their
  connection alive, and every sign of life is handed as a heartbeat to the next dispatcher slave;
  \<open>s_relay_dispatcher_slave\<close>: a slave registers with the master and passes the heartbeats on to all
  of its clients. A TCP connection is the number of its handle; \<open>UserContext\<close> of a connection is a
  map from the handles to the identifiers of their contexts. What is posted or killed goes to an
  output trace.
\<close>

definition Cmd_RelayInfoRegister :: uint32 where "Cmd_RelayInfoRegister = 0x3001"
definition Cmd_RelayInfoRegisterResp :: uint32 where "Cmd_RelayInfoRegisterResp = 0x3002"
definition Cmd_RelayDispatcherSlaveRegister :: uint32 where "Cmd_RelayDispatcherSlaveRegister = 0x3003"
definition Cmd_RelayDispatcherSlaveRegisterResp :: uint32 where "Cmd_RelayDispatcherSlaveRegisterResp = 0x3004"
definition Cmd_RelayHeartbeatBroadcast :: uint32 where "Cmd_RelayHeartbeatBroadcast = 0x3005"
definition Cmd_RelayHeartbeatLost :: uint32 where "Cmd_RelayHeartbeatLost = 0x3006"

section \<open>The master\<close>

record xRelayEntryContext =
  rx_ServerId :: uint64
  rx_RelayServerType :: uint8
  rx_DeviceEntryAddress :: xNetAddress
  rx_ProxyEntryAddress :: xNetAddress
  rx_Heartbeat :: "packet option"

record xDispatcherSlaveContext =
  ds_ContextId :: uint64
  ds_ConnectionHandle :: uint64

datatype master_output =
    Relay_Post uint64 "packet option"
  | Relay_Kill uint64
  | Slave_Post uint64 "packet option"
  | Slave_Kill uint64

record relay_master =
  ms_RelayEntryContextPool :: "uint64 \<Rightarrow> xRelayEntryContext option"
  ms_DispatcherEntryContextPool :: "uint64 \<Rightarrow> xDispatcherSlaveContext option"
  ms_DispatcherEntryList :: "uint64 list"
  ms_RelayUserContext :: "uint64 \<Rightarrow> uint64 option"
  ms_DispatcherUserContext :: "uint64 \<Rightarrow> uint64 option"
  ms_Out :: "master_output list"

definition new_master :: relay_master where
  "new_master =
     \<lparr>ms_RelayEntryContextPool = Map.empty, ms_DispatcherEntryContextPool = Map.empty,
      ms_DispatcherEntryList = [], ms_RelayUserContext = Map.empty, ms_DispatcherUserContext = Map.empty,
      ms_Out = []\<rparr>"

definition master_out :: "master_output \<Rightarrow> relay_master \<Rightarrow> relay_master" where
  "master_out x s = s\<lparr>ms_Out := ms_Out s @ [x]\<rparr>"

text \<open>
  The constructor, with the outcomes of its four parts: ready, and what is left initialised when it
  is not.
\<close>

definition master_construct :: "bool \<Rightarrow> bool \<Rightarrow> bool \<Rightarrow> bool \<Rightarrow> bool \<times> string list" where
  "master_construct relay_pool_ok slave_pool_ok relay_entry_ok slave_entry_ok =
     (if \<not> relay_pool_ok then (False, [])
      else if \<not> slave_pool_ok then (False, [])
      else if \<not> relay_entry_ok then (False, [])
      else if \<not> slave_entry_ok then (False, [])
      else (True, [''RelayEntryContextPool'', ''DispatcherEntryContextPool'', ''RelayEntry'', ''DispatcherEntry'']))"

definition relay_broadcast :: "xRelayEntryContext \<Rightarrow> xPP_RelayInfoBroadcast" where
  "relay_broadcast R =
     \<lparr>ri_Type = rx_RelayServerType R, ri_ServerId = rx_ServerId R,
      ri_ExportDeviceEntryAddress = rx_DeviceEntryAddress R,
      ri_ExportProxyEntryAddress = rx_ProxyEntryAddress R\<rparr>"

definition build_heartbeat :: "codec \<Rightarrow> nat \<Rightarrow> xRelayEntryContext \<Rightarrow> xRelayEntryContext" where
  "build_heartbeat c max_heartbeat R =
     (if rx_Heartbeat R = None
      then R\<lparr>rx_Heartbeat := WriteMessage max_heartbeat Cmd_RelayHeartbeatBroadcast 0
               (xPP_RelayInfoBroadcast_Serialize c (relay_broadcast R))\<rparr>
      else R)"

text \<open>The heartbeat goes to the slave at the head of the list, which goes to its tail.\<close>

definition DispatchRelayHeartbeat :: "codec \<Rightarrow> nat \<Rightarrow> uint64 \<Rightarrow> relay_master \<Rightarrow> relay_master" where
  "DispatchRelayHeartbeat c max_heartbeat i s =
     (case ms_RelayEntryContextPool s i of
        None \<Rightarrow> s
      | Some R \<Rightarrow>
          let R = build_heartbeat c max_heartbeat R;
              s = s\<lparr>ms_RelayEntryContextPool := (ms_RelayEntryContextPool s)(i \<mapsto> R)\<rparr> in
          case ms_DispatcherEntryList s of
            [] \<Rightarrow> s
          | d # q \<Rightarrow>
              (case ms_DispatcherEntryContextPool s d of
                 None \<Rightarrow> s
               | Some PContext \<Rightarrow>
                   master_out (Slave_Post (ds_ConnectionHandle PContext) (rx_Heartbeat R))
                     (s\<lparr>ms_DispatcherEntryList := add_tail q d\<rparr>)))"

definition OnRelayEntryKeepAlive :: "codec \<Rightarrow> nat \<Rightarrow> uint64 \<Rightarrow> relay_master \<Rightarrow> relay_master" where
  "OnRelayEntryKeepAlive c max_heartbeat h s =
     (case ms_RelayUserContext s h of
        None \<Rightarrow> master_out (Relay_Kill h) s
      | Some i \<Rightarrow> DispatchRelayHeartbeat c max_heartbeat i s)"

text \<open>The connection is gone with its context.\<close>

definition OnRelayEntryClean :: "uint64 \<Rightarrow> relay_master \<Rightarrow> relay_master option" where
  "OnRelayEntryClean h s =
     (case ms_RelayUserContext s h of
        None \<Rightarrow> Some s
      | Some i \<Rightarrow>
          (case ms_RelayEntryContextPool s i of
             None \<Rightarrow> None
           | Some R \<Rightarrow>
               if rx_ServerId R = 0 then None
               else Some (s\<lparr>ms_RelayEntryContextPool := (ms_RelayEntryContextPool s)(rx_ServerId R := None),
                            ms_RelayUserContext := (ms_RelayUserContext s)(h := None)\<rparr>)))"

definition OnRelayEntryPacket ::
    "(uint64 set \<Rightarrow> uint64) \<Rightarrow> codec \<Rightarrow> nat \<Rightarrow> nat \<Rightarrow> uint64 \<Rightarrow> packet \<Rightarrow> relay_master \<Rightarrow> bool \<times> relay_master" where
  "OnRelayEntryPacket alloc c max_payload max_heartbeat h P s =
     (if ms_RelayUserContext s h \<noteq> None then (False, s)
      else if pk_CommandId P \<noteq> Cmd_RelayInfoRegister then (False, s)
      else case xPP_RelayRegister_Deserialize c (pk_Payload P) of
        None \<Rightarrow> (False, s)
      | Some (Register, _) \<Rightarrow>
          let NewContextId = alloc (dom (ms_RelayEntryContextPool s));
              s = (if NewContextId = 0 then s
                   else
                     let Context = \<lparr>rx_ServerId = NewContextId, rx_RelayServerType = rr_RelayServerType Register,
                           rx_DeviceEntryAddress = rr_ExportDeviceEntryAddress Register,
                           rx_ProxyEntryAddress = rr_ExportProxyEntryAddress Register, rx_Heartbeat = None\<rparr>
                     in DispatchRelayHeartbeat c max_heartbeat NewContextId
                          (s\<lparr>ms_RelayEntryContextPool := (ms_RelayEntryContextPool s)(NewContextId \<mapsto> Context),
                             ms_RelayUserContext := (ms_RelayUserContext s)(h \<mapsto> NewContextId)\<rparr>))
          in (True, master_out (Relay_Post h (WriteMessage max_payload Cmd_RelayInfoRegisterResp 0
                      (xPP_RelayRegisterResp_Serialize c \<lparr>rp_ServerId = NewContextId\<rparr>))) s))"

definition OnDispatcherEntryKeepAlive :: "uint64 \<Rightarrow> relay_master \<Rightarrow> relay_master" where
  "OnDispatcherEntryKeepAlive h s =
     (case ms_DispatcherUserContext s h of None \<Rightarrow> master_out (Slave_Kill h) s | Some _ \<Rightarrow> s)"

definition OnDispatcherEntryClean :: "uint64 \<Rightarrow> relay_master \<Rightarrow> relay_master option" where
  "OnDispatcherEntryClean h s =
     (case ms_DispatcherUserContext s h of
        None \<Rightarrow> Some s
      | Some i \<Rightarrow>
          (case ms_DispatcherEntryContextPool s i of
             None \<Rightarrow> None
           | Some D \<Rightarrow>
               if ds_ContextId D = 0 then None
               else Some (s\<lparr>ms_DispatcherEntryContextPool := (ms_DispatcherEntryContextPool s)(ds_ContextId D := None),
                            ms_DispatcherEntryList := removeAll (ds_ContextId D) (ms_DispatcherEntryList s),
                            ms_DispatcherUserContext := (ms_DispatcherUserContext s)(h := None)\<rparr>)))"

definition OnDispatcherEntryPacket ::
    "(uint64 set \<Rightarrow> uint64) \<Rightarrow> codec \<Rightarrow> (bytes \<Rightarrow> bytes) \<Rightarrow> xel_text \<Rightarrow> nat \<Rightarrow> uint64 \<Rightarrow> uint64 \<Rightarrow> packet \<Rightarrow>
     relay_master \<Rightarrow> bool \<times> relay_master" where
  "OnDispatcherEntryPacket alloc c Md5 X max_payload NowMS h P s =
     (if ms_DispatcherUserContext s h \<noteq> None then (False, s)
      else if pk_CommandId P \<noteq> Cmd_RelayDispatcherSlaveRegister then (False, s)
      else case xPP_RelayDispatcherSlaveRegister_Deserialize c Md5 (pk_Payload P) of
        None \<Rightarrow> (False, s)
      | Some (Register, _) \<Rightarrow>
          if abs (SignedDiff X NowMS (sr_TimestampMS Register)) > 600000 then (False, s)
          else
            let NewContextId = alloc (dom (ms_DispatcherEntryContextPool s));
                s = (if NewContextId = 0 then s
                     else
                       s\<lparr>ms_DispatcherEntryContextPool := (ms_DispatcherEntryContextPool s)
                            (NewContextId \<mapsto> \<lparr>ds_ContextId = NewContextId, ds_ConnectionHandle = h\<rparr>),
                         ms_DispatcherEntryList := add_tail (ms_DispatcherEntryList s) NewContextId,
                         ms_DispatcherUserContext := (ms_DispatcherUserContext s)(h \<mapsto> NewContextId)\<rparr>)
            in (True, master_out (Slave_Post h (WriteMessage max_payload Cmd_RelayDispatcherSlaveRegisterResp 0
                        (xPP_RelayDispatcherSlaveRegisterResp_Serialize c \<lparr>rsp_Accepted = NewContextId \<noteq> 0\<rparr>))) s))"

section \<open>A slave\<close>

text \<open>
  The connection to the master has a target; clients are the handles of their connections, in the
  order in which they connected.
\<close>

datatype slave_output =
    Client_Post uint64 packet
  | Master_Post "packet option"
  | Master_Update xNetAddress

record relay_slave =
  ss_MasterTarget :: xNetAddress
  ss_ClientList :: "uint64 list"
  ss_Out :: "slave_output list"

definition slave_out :: "slave_output list \<Rightarrow> relay_slave \<Rightarrow> relay_slave" where
  "slave_out xs s = s\<lparr>ss_Out := ss_Out s @ xs\<rparr>"

definition slave_OnClientConnected :: "uint64 \<Rightarrow> relay_slave \<Rightarrow> relay_slave" where
  "slave_OnClientConnected h s = s\<lparr>ss_ClientList := add_tail (ss_ClientList s) h\<rparr>"

definition slave_OnClientClean :: "uint64 \<Rightarrow> relay_slave \<Rightarrow> relay_slave" where
  "slave_OnClientClean h s = s\<lparr>ss_ClientList := removeAll h (ss_ClientList s)\<rparr>"

definition slave_OnClientPacket :: "packet \<Rightarrow> relay_slave \<Rightarrow> bool \<times> relay_slave" where
  "slave_OnClientPacket P s = (False, s)"

definition DispatchData :: "packet \<Rightarrow> relay_slave \<Rightarrow> relay_slave" where
  "DispatchData P s = slave_out (List.map (\<lambda>h. Client_Post h P) (ss_ClientList s)) s"

definition slave_OnServerListUpdated :: "xServerInfo list \<Rightarrow> relay_slave \<Rightarrow> relay_slave" where
  "slave_OnServerListUpdated ServerList s =
     (if length ServerList = 0 then s
      else if length ServerList \<noteq> 1 then s
      else
        let MasterAddress = si_Address (ServerList ! 0) in
        if ss_MasterTarget s \<noteq> MasterAddress
        then slave_out [Master_Update MasterAddress] (s\<lparr>ss_MasterTarget := MasterAddress\<rparr>)
        else s)"

definition slave_OnServerConnected ::
    "codec \<Rightarrow> (bytes \<Rightarrow> bytes) \<Rightarrow> nat \<Rightarrow> uint64 \<Rightarrow> relay_slave \<Rightarrow> relay_slave" where
  "slave_OnServerConnected c Md5 max_payload NowMS s =
     slave_out [Master_Post (WriteMessage max_payload Cmd_RelayDispatcherSlaveRegister 0
       (xPP_RelayDispatcherSlaveRegister_Serialize c Md5 \<lparr>sr_TimestampMS = NowMS\<rparr>))] s"

definition slave_OnServerPacket :: "codec \<Rightarrow> packet \<Rightarrow> relay_slave \<Rightarrow> bool \<times> relay_slave" where
  "slave_OnServerPacket c P s =
     (if pk_CommandId P = Cmd_RelayHeartbeatBroadcast then (True, DispatchData P s)
      else if pk_CommandId P = Cmd_RelayDispatcherSlaveRegisterResp then
        (case xPP_RelayDispatcherSlaveRegisterResp_Deserialize c (pk_Payload P) of
           None \<Rightarrow> (False, s)
         | Some (Resp, _) \<Rightarrow> if \<not> rsp_Accepted Resp then (False, s) else (True, s))
      else (True, s))"

section \<open>Lemmas: the master\<close>

text \<open>
  Contexts carry their identifiers, every live context belongs to one connection, and the list of
  slaves holds each live slave once.
\<close>

definition owned_contexts :: "(uint64 \<Rightarrow> uint64 option) \<Rightarrow> uint64 set \<Rightarrow> bool" where
  "owned_contexts owner D \<longleftrightarrow>
     (\<forall>h i. owner h = Some i \<longrightarrow> i \<in> D) \<and> (\<forall>g h i. owner g = Some i \<and> owner h = Some i \<longrightarrow> g = h)"

definition master_inv :: "relay_master \<Rightarrow> bool" where
  "master_inv s \<longleftrightarrow>
     (\<forall>i R. ms_RelayEntryContextPool s i = Some R \<longrightarrow> rx_ServerId R = i \<and> i \<noteq> 0) \<and>
     (\<forall>i D. ms_DispatcherEntryContextPool s i = Some D \<longrightarrow> ds_ContextId D = i \<and> i \<noteq> 0 \<and>
        ms_DispatcherUserContext s (ds_ConnectionHandle D) = Some i) \<and>
     owned_contexts (ms_RelayUserContext s) (dom (ms_RelayEntryContextPool s)) \<and>
     owned_contexts (ms_DispatcherUserContext s) (dom (ms_DispatcherEntryContextPool s)) \<and>
     distinct (ms_DispatcherEntryList s) \<and>
     set (ms_DispatcherEntryList s) = dom (ms_DispatcherEntryContextPool s)"

lemma master_inv_new [inv_intros]: "master_inv new_master"
  by (simp add: master_inv_def new_master_def owned_contexts_def)

lemma master_inv_out [simp]: "master_inv (master_out x s) = master_inv s"
  by (simp add: master_inv_def master_out_def)

lemma owned_contexts_add:
  "owned_contexts owner D \<Longrightarrow> i \<notin> D \<Longrightarrow> owned_contexts (owner(h \<mapsto> i)) (insert i D)"
  by (auto simp: owned_contexts_def)

lemma owned_contexts_remove:
  "owned_contexts owner D \<Longrightarrow> owner h = Some i \<Longrightarrow> owned_contexts (owner(h := None)) (D - {i})"
  by (auto simp: owned_contexts_def split: if_splits)

lemma rx_ServerId_heartbeat [simp]: "rx_ServerId (build_heartbeat c n R) = rx_ServerId R"
  by (simp add: build_heartbeat_def)

lemma master_inv_relay_update:
  assumes "master_inv s" and "ms_RelayEntryContextPool s i = Some R" and "rx_ServerId R' = rx_ServerId R"
  shows "master_inv (s\<lparr>ms_RelayEntryContextPool := (ms_RelayEntryContextPool s)(i \<mapsto> R')\<rparr>)"
proof -
  have "insert i (dom (ms_RelayEntryContextPool s)) = dom (ms_RelayEntryContextPool s)"
    using assms(2) by auto
  then show ?thesis
    using assms by (simp add: master_inv_def)
qed

lemma master_inv_rotate:
  assumes "master_inv s" and "ms_DispatcherEntryList s = d # q"
  shows "master_inv (s\<lparr>ms_DispatcherEntryList := q @ [d]\<rparr>)"
  using assms by (simp add: master_inv_def)

lemma DispatchRelayHeartbeat_inv [inv_intros]:
  assumes "master_inv s"
  shows "master_inv (DispatchRelayHeartbeat c n i s)"
proof (cases "ms_RelayEntryContextPool s i")
  case (Some R)
  let ?u = "s\<lparr>ms_RelayEntryContextPool := (ms_RelayEntryContextPool s)(i \<mapsto> build_heartbeat c n R)\<rparr>"
  have u: "master_inv ?u"
    by (rule master_inv_relay_update [OF assms Some]) simp
  show ?thesis
  proof (cases "ms_DispatcherEntryList s")
    case Nil
    then show ?thesis
      using u Some by (simp add: DispatchRelayHeartbeat_def Let_def)
  next
    case (Cons d q)
    then have r: "master_inv (?u\<lparr>ms_DispatcherEntryList := q @ [d]\<rparr>)"
      by (intro master_inv_rotate [OF u]) simp
    show ?thesis
    proof (cases "ms_DispatcherEntryContextPool s d")
      case None
      then show ?thesis
        using u Some Cons by (simp add: DispatchRelayHeartbeat_def Let_def)
    next
      case (Some D)
      then show ?thesis
        using r \<open>ms_RelayEntryContextPool s i = Some R\<close> Cons by (simp add: DispatchRelayHeartbeat_def Let_def)
    qed
  qed
qed (use assms in \<open>simp add: DispatchRelayHeartbeat_def\<close>)

lemma OnRelayEntryKeepAlive_inv [inv_intros]:
  "master_inv s \<Longrightarrow> master_inv (OnRelayEntryKeepAlive c n h s)"
  by (auto simp: OnRelayEntryKeepAlive_def DispatchRelayHeartbeat_inv split: option.split)

lemma OnRelayEntryClean_inv:
  assumes "master_inv s"
  shows "\<exists>t. OnRelayEntryClean h s = Some t \<and> master_inv t \<and> ms_RelayUserContext t h = None"
proof (cases "ms_RelayUserContext s h")
  case (Some i)
  with assms have "i \<in> dom (ms_RelayEntryContextPool s)"
    by (simp add: master_inv_def owned_contexts_def)
  then obtain R where R: "ms_RelayEntryContextPool s i = Some R"
    by blast
  then have id: "rx_ServerId R = i" "i \<noteq> 0"
    using assms by (simp_all add: master_inv_def)
  have "owned_contexts ((ms_RelayUserContext s)(h := None)) (dom (ms_RelayEntryContextPool s) - {i})"
    using assms Some by (intro owned_contexts_remove) (simp_all add: master_inv_def)
  then have "master_inv (s\<lparr>ms_RelayEntryContextPool := (ms_RelayEntryContextPool s)(i := None),
      ms_RelayUserContext := (ms_RelayUserContext s)(h := None)\<rparr>)"
    using assms by (simp add: master_inv_def)
  then show ?thesis
    using Some R id by (simp add: OnRelayEntryClean_def)
qed (use assms in \<open>simp add: OnRelayEntryClean_def\<close>)

lemma OnRelayEntryPacket_inv:
  assumes "master_inv s" and "storage_ok alloc"
  shows "master_inv (snd (OnRelayEntryPacket alloc c mp n h P s))"
proof -
  let ?i = "alloc (dom (ms_RelayEntryContextPool s))"
  have "master_inv (s\<lparr>ms_RelayEntryContextPool := (ms_RelayEntryContextPool s)(?i \<mapsto> R),
      ms_RelayUserContext := (ms_RelayUserContext s)(h \<mapsto> ?i)\<rparr>)"
    if "?i \<noteq> 0" "rx_ServerId R = ?i" for R
  proof -
    have new: "?i \<notin> dom (ms_RelayEntryContextPool s)"
      using assms(2) that(1) by (auto simp: storage_ok_def)
    then have "owned_contexts ((ms_RelayUserContext s)(h \<mapsto> ?i)) (insert ?i (dom (ms_RelayEntryContextPool s)))"
      using assms(1) by (intro owned_contexts_add) (simp_all add: master_inv_def)
    then show ?thesis
      using assms(1) that by (simp add: master_inv_def)
  qed
  then show ?thesis
    using assms(1)
    by (auto simp: OnRelayEntryPacket_def Let_def DispatchRelayHeartbeat_inv split: option.split)
qed

lemma OnDispatcherEntryKeepAlive_inv [inv_intros]:
  "master_inv s \<Longrightarrow> master_inv (OnDispatcherEntryKeepAlive h s)"
  by (auto simp: OnDispatcherEntryKeepAlive_def split: option.split)

lemma OnDispatcherEntryClean_inv:
  assumes "master_inv s"
  shows "\<exists>t. OnDispatcherEntryClean h s = Some t \<and> master_inv t \<and> ms_DispatcherUserContext t h = None"
proof (cases "ms_DispatcherUserContext s h")
  case (Some i)
  with assms have "i \<in> dom (ms_DispatcherEntryContextPool s)"
    by (simp add: master_inv_def owned_contexts_def)
  then obtain D where D: "ms_DispatcherEntryContextPool s i = Some D"
    by blast
  then have id: "ds_ContextId D = i" "i \<noteq> 0"
    using assms by (simp_all add: master_inv_def)
  have own: "owned_contexts ((ms_DispatcherUserContext s)(h := None)) (dom (ms_DispatcherEntryContextPool s) - {i})"
    using assms Some by (intro owned_contexts_remove) (simp_all add: master_inv_def)
  have other: "ds_ConnectionHandle E \<noteq> h" if "ms_DispatcherEntryContextPool s j = Some E" "j \<noteq> i" for j E
  proof
    assume "ds_ConnectionHandle E = h"
    then have "ms_DispatcherUserContext s h = Some j"
      using assms that(1) by (auto simp: master_inv_def)
    with Some that(2) show False by simp
  qed
  have "master_inv (s\<lparr>ms_DispatcherEntryContextPool := (ms_DispatcherEntryContextPool s)(i := None),
      ms_DispatcherEntryList := removeAll i (ms_DispatcherEntryList s),
      ms_DispatcherUserContext := (ms_DispatcherUserContext s)(h := None)\<rparr>)"
    using assms own other by (simp add: master_inv_def distinct_removeAll)
  then show ?thesis
    using Some D id by (simp add: OnDispatcherEntryClean_def)
qed (use assms in \<open>simp add: OnDispatcherEntryClean_def\<close>)

lemma master_inv_new_slave:
  assumes s: "master_inv s" and i: "i \<notin> dom (ms_DispatcherEntryContextPool s)" "i \<noteq> 0"
    and h: "ms_DispatcherUserContext s h = None"
  shows "master_inv (s\<lparr>ms_DispatcherEntryContextPool := (ms_DispatcherEntryContextPool s)
        (i \<mapsto> \<lparr>ds_ContextId = i, ds_ConnectionHandle = h\<rparr>),
      ms_DispatcherEntryList := ms_DispatcherEntryList s @ [i],
      ms_DispatcherUserContext := (ms_DispatcherUserContext s)(h \<mapsto> i)\<rparr>)"
proof -
  have own: "owned_contexts ((ms_DispatcherUserContext s)(h \<mapsto> i)) (insert i (dom (ms_DispatcherEntryContextPool s)))"
    using s i(1) by (intro owned_contexts_add) (simp_all add: master_inv_def)
  have "ds_ConnectionHandle D \<noteq> h \<and> ds_ContextId D = j \<and> j \<noteq> 0 \<and>
      ms_DispatcherUserContext s (ds_ConnectionHandle D) = Some j"
    if "ms_DispatcherEntryContextPool s j = Some D" for j D
    using s that h by (auto simp: master_inv_def)
  then show ?thesis
    using s i own by (simp add: master_inv_def)
qed

lemma OnDispatcherEntryPacket_inv:
  assumes "master_inv s" and "storage_ok alloc"
  shows "master_inv (snd (OnDispatcherEntryPacket alloc c Md5 X mp Now h P s))"
proof -
  let ?i = "alloc (dom (ms_DispatcherEntryContextPool s))"
  have "?i \<noteq> 0 \<Longrightarrow> ?i \<notin> dom (ms_DispatcherEntryContextPool s)"
    using assms(2) by (auto simp: storage_ok_def)
  then show ?thesis
    using assms(1)
    by (cases "xPP_RelayDispatcherSlaveRegister_Deserialize c Md5 (pk_Payload P)")
      (auto simp: OnDispatcherEntryPacket_def Let_def master_inv_new_slave)
qed

section \<open>Runs of the master\<close>

datatype master_event =
    Relay_Packet uint64 packet
  | Relay_KeepAlive uint64
  | Relay_Clean uint64
  | Slave_Packet uint64 uint64 packet
  | Slave_KeepAlive uint64
  | Slave_Clean uint64

record master_config =
  mc_alloc_relay :: "uint64 set \<Rightarrow> uint64"
  mc_alloc_slave :: "uint64 set \<Rightarrow> uint64"
  mc_codec :: codec
  mc_Md5 :: "bytes \<Rightarrow> bytes"
  mc_text :: xel_text
  mc_max_payload :: nat
  mc_max_heartbeat :: nat

fun master_step :: "master_config \<Rightarrow> master_event \<Rightarrow> relay_master \<Rightarrow> relay_master option" where
  "master_step k (Relay_Packet h P) s =
     Some (snd (OnRelayEntryPacket (mc_alloc_relay k) (mc_codec k) (mc_max_payload k) (mc_max_heartbeat k) h P s))"
| "master_step k (Relay_KeepAlive h) s =
     Some (OnRelayEntryKeepAlive (mc_codec k) (mc_max_heartbeat k) h s)"
| "master_step k (Relay_Clean h) s = OnRelayEntryClean h s"
| "master_step k (Slave_Packet Now h P) s =
     Some (snd (OnDispatcherEntryPacket (mc_alloc_slave k) (mc_codec k) (mc_Md5 k) (mc_text k) (mc_max_payload k) Now h P s))"
| "master_step k (Slave_KeepAlive h) s = Some (OnDispatcherEntryKeepAlive h s)"
| "master_step k (Slave_Clean h) s = OnDispatcherEntryClean h s"

fun master_run :: "master_config \<Rightarrow> master_event list \<Rightarrow> relay_master \<Rightarrow> relay_master option" where
  "master_run k [] s = Some s"
| "master_run k (e # es) s = Option.bind (master_step k e s) (master_run k es)"

definition master_config_ok :: "master_config \<Rightarrow> bool" where
  "master_config_ok k \<longleftrightarrow> storage_ok (mc_alloc_relay k) \<and> storage_ok (mc_alloc_slave k)"

lemma master_step_total:
  assumes "master_config_ok k" and "master_inv s"
  shows "\<exists>t. master_step k e s = Some t \<and> master_inv t"
proof (cases e)
  case (Relay_Clean h)
  then show ?thesis
    using OnRelayEntryClean_inv [OF assms(2), of h] by auto
next
  case (Slave_Clean h)
  then show ?thesis
    using OnDispatcherEntryClean_inv [OF assms(2), of h] by auto
qed (use assms in \<open>simp_all add: master_config_ok_def OnRelayEntryPacket_inv OnRelayEntryKeepAlive_inv
       OnDispatcherEntryPacket_inv OnDispatcherEntryKeepAlive_inv\<close>)

lemma master_run_total:
  "master_config_ok k \<Longrightarrow> master_inv s \<Longrightarrow> \<exists>t. master_run k es s = Some t \<and> master_inv t"
proof (induction es arbitrary: s)
  case (Cons e es)
  obtain u where "master_step k e s = Some u" "master_inv u"
    using master_step_total [OF Cons.prems] by blast
  with Cons.IH [OF Cons.prems(1)] show ?case
    by simp
qed simp

section \<open>Lemmas: who gets a heartbeat\<close>

definition heartbeat_of :: "codec \<Rightarrow> nat \<Rightarrow> relay_master \<Rightarrow> uint64 \<Rightarrow> packet option" where
  "heartbeat_of c n s i =
     (case ms_RelayEntryContextPool s i of
        None \<Rightarrow> None
      | Some R \<Rightarrow> rx_Heartbeat (build_heartbeat c n R))"

definition slave_handle :: "relay_master \<Rightarrow> uint64 \<Rightarrow> uint64" where
  "slave_handle s d = (case ms_DispatcherEntryContextPool s d of None \<Rightarrow> 0 | Some D \<Rightarrow> ds_ConnectionHandle D)"

definition dispatch_all :: "codec \<Rightarrow> nat \<Rightarrow> uint64 list \<Rightarrow> relay_master \<Rightarrow> relay_master" where
  "dispatch_all c n Is s = fold (DispatchRelayHeartbeat c n) Is s"

lemma build_heartbeat_again: "rx_Heartbeat (build_heartbeat c n (build_heartbeat c n R)) = rx_Heartbeat (build_heartbeat c n R)"
  by (simp add: build_heartbeat_def relay_broadcast_def)

lemma DispatchRelayHeartbeat_head:
  fixes c :: codec and n :: nat
  assumes "master_inv s" and "i \<in> dom (ms_RelayEntryContextPool s)" and "ms_DispatcherEntryList s = d # q"
  defines "t \<equiv> DispatchRelayHeartbeat c n i s"
  shows "ms_DispatcherEntryList t = q @ [d]"
    and "ms_DispatcherEntryContextPool t = ms_DispatcherEntryContextPool s"
    and "ms_Out t = ms_Out s @ [Slave_Post (slave_handle s d) (heartbeat_of c n s i)]"
    and "dom (ms_RelayEntryContextPool t) = dom (ms_RelayEntryContextPool s)"
    and "heartbeat_of c n t j = heartbeat_of c n s j"
proof -
  obtain R where R: "ms_RelayEntryContextPool s i = Some R"
    using assms(2) by blast
  have "d \<in> dom (ms_DispatcherEntryContextPool s)"
    using assms(1,3) by (metis list.set_intros(1) master_inv_def)
  then obtain D where D: "ms_DispatcherEntryContextPool s d = Some D"
    by blast
  have t: "t = master_out (Slave_Post (ds_ConnectionHandle D) (rx_Heartbeat (build_heartbeat c n R)))
      (s\<lparr>ms_RelayEntryContextPool := (ms_RelayEntryContextPool s)(i \<mapsto> build_heartbeat c n R),
         ms_DispatcherEntryList := q @ [d]\<rparr>)"
    using R D assms(3) by (simp add: t_def DispatchRelayHeartbeat_def Let_def)
  show "ms_DispatcherEntryList t = q @ [d]"
    "ms_DispatcherEntryContextPool t = ms_DispatcherEntryContextPool s"
    "ms_Out t = ms_Out s @ [Slave_Post (slave_handle s d) (heartbeat_of c n s i)]"
    by (simp_all add: t master_out_def slave_handle_def D heartbeat_of_def R)
  show "dom (ms_RelayEntryContextPool t) = dom (ms_RelayEntryContextPool s)"
    using assms(2) by (auto simp: t master_out_def)
  show "heartbeat_of c n t j = heartbeat_of c n s j"
    by (simp add: t master_out_def heartbeat_of_def R build_heartbeat_again)
qed

lemma dispatch_all_rotates:
  assumes "master_inv s" and "set Is \<subseteq> dom (ms_RelayEntryContextPool s)"
    and "ms_DispatcherEntryList s = ds @ q" and "length Is = length ds"
  shows "ms_DispatcherEntryList (dispatch_all c n Is s) = q @ ds \<and>
    ms_Out (dispatch_all c n Is s) =
      ms_Out s @ map2 (\<lambda>d i. Slave_Post (slave_handle s d) (heartbeat_of c n s i)) ds Is"
  using assms
proof (induction Is arbitrary: s ds q)
  case (Cons i Is)
  obtain d ds' where ds: "ds = d # ds'"
    using Cons.prems(4) by (cases ds) auto
  let ?t = "DispatchRelayHeartbeat c n i s"
  note head = DispatchRelayHeartbeat_head [OF Cons.prems(1), of i d "ds' @ q" c n]
  have i: "i \<in> dom (ms_RelayEntryContextPool s)" and l: "ms_DispatcherEntryList s = d # ds' @ q"
    using Cons.prems(2,3) ds by auto
  have handle: "slave_handle ?t e = slave_handle s e" for e
    by (simp add: slave_handle_def head(2) [OF i l])
  have "ms_DispatcherEntryList (dispatch_all c n Is ?t) = (q @ [d]) @ ds' \<and>
    ms_Out (dispatch_all c n Is ?t) =
      ms_Out ?t @ map2 (\<lambda>d i. Slave_Post (slave_handle ?t d) (heartbeat_of c n ?t i)) ds' Is"
  proof (rule Cons.IH)
    show "master_inv ?t"
      by (rule DispatchRelayHeartbeat_inv [OF Cons.prems(1)])
    show "set Is \<subseteq> dom (ms_RelayEntryContextPool ?t)"
      using Cons.prems(2) head(4) [OF i l] by simp
    show "ms_DispatcherEntryList ?t = ds' @ q @ [d]"
      using head(1) [OF i l] by simp
    show "length Is = length ds'"
      using Cons.prems(4) ds by simp
  qed
  then show ?case
    by (simp add: ds dispatch_all_def handle head(3,5) [OF i l])
qed (simp add: dispatch_all_def)

section \<open>The master keeps its contexts apart\<close>

definition sample_config :: master_config where
  "sample_config =
     \<lparr>mc_alloc_relay = (\<lambda>D. if 1 \<in> D then 0 else 1), mc_alloc_slave = (\<lambda>D. if 7 \<in> D then 0 else 7),
      mc_codec = sample_codec, mc_Md5 = sample_md5, mc_text = text_instance, mc_max_payload = 1000, mc_max_heartbeat = 1000\<rparr>"

lemma sample_config_ok: "master_config_ok sample_config"
  by (auto simp: master_config_ok_def sample_config_def storage_ok_def)

definition relay_register_packet :: "codec \<Rightarrow> xPP_RelayRegister \<Rightarrow> packet" where
  "relay_register_packet c m =
     \<lparr>pk_CommandId = Cmd_RelayInfoRegister, pk_RequestId = 0, pk_Payload = xPP_RelayRegister_Serialize c m\<rparr>"

definition slave_register_packet :: "codec \<Rightarrow> (bytes \<Rightarrow> bytes) \<Rightarrow> uint64 \<Rightarrow> packet" where
  "slave_register_packet c Md5 NowMS =
     \<lparr>pk_CommandId = Cmd_RelayDispatcherSlaveRegister, pk_RequestId = 0,
      pk_Payload = xPP_RelayDispatcherSlaveRegister_Serialize c Md5 \<lparr>sr_TimestampMS = NowMS\<rparr>\<rparr>"



section \<open>Heartbeats are shared out\<close>

text \<open>
  C30: heartbeats are shared out fairly. As many signs of life as there are slaves, from whatever
  live relays, go one to each slave in the order of the list: the k-th relay's own announcement to
  the k-th slave's connection, nothing else is sent, and the list is as it was. A sign of life on a
  connection that never registered closes that connection and reaches no slave.
\<close>

theorem heartbeats_shared_out:
  assumes "master_inv s" and "set Is \<subseteq> dom (ms_RelayEntryContextPool s)"
    and "length Is = length (ms_DispatcherEntryList s)" and "ms_RelayUserContext s h = None"
  shows "ms_DispatcherEntryList (dispatch_all c n Is s) = ms_DispatcherEntryList s \<and>
    ms_Out (dispatch_all c n Is s) =
      ms_Out s @ map2 (\<lambda>d i. Slave_Post (slave_handle s d) (heartbeat_of c n s i)) (ms_DispatcherEntryList s) Is \<and>
    OnRelayEntryKeepAlive c n h s = s\<lparr>ms_Out := ms_Out s @ [Relay_Kill h]\<rparr>"
  using dispatch_all_rotates [OF assms(1,2), of "ms_DispatcherEntryList s" "[]" c n] assms(3,4)
  by (simp add: OnRelayEntryKeepAlive_def master_out_def)

definition sample_relay :: xRelayEntryContext where
  "sample_relay = \<lparr>rx_ServerId = 1, rx_RelayServerType = 0, rx_DeviceEntryAddress = no_address,
     rx_ProxyEntryAddress = no_address, rx_Heartbeat = None\<rparr>"

definition sample_master :: relay_master where
  "sample_master =
     \<lparr>ms_RelayEntryContextPool = [1 \<mapsto> sample_relay],
      ms_DispatcherEntryContextPool = [7 \<mapsto> \<lparr>ds_ContextId = 7, ds_ConnectionHandle = 40\<rparr>,
        8 \<mapsto> \<lparr>ds_ContextId = 8, ds_ConnectionHandle = 41\<rparr>],
      ms_DispatcherEntryList = [7, 8], ms_RelayUserContext = [30 \<mapsto> 1],
      ms_DispatcherUserContext = [40 \<mapsto> 7, 41 \<mapsto> 8], ms_Out = []\<rparr>"

lemma sample_master_inv: "master_inv sample_master"
  by (auto simp: sample_master_def sample_relay_def master_inv_def owned_contexts_def)

theorem heartbeats_shared_out_witness:
  "ms_Out (dispatch_all sample_codec 60 [1, 1] sample_master) =
     [Slave_Post 40 (heartbeat_of sample_codec 60 sample_master 1), Slave_Post 41 (heartbeat_of sample_codec 60 sample_master 1)]"
proof -
  have "set [1, 1] \<subseteq> dom (ms_RelayEntryContextPool sample_master)"
    "length [1, 1 :: uint64] = length (ms_DispatcherEntryList sample_master)"
    "ms_RelayUserContext sample_master 99 = None"
    by (simp_all add: sample_master_def)
  from heartbeats_shared_out [OF sample_master_inv this, of sample_codec 60] show ?thesis
    by (simp add: sample_master_def slave_handle_def)
qed

end
