(* ===== verification/Device_Entry.thy ===== *)
theory Device_Entry
  imports Relay_Dispatch
begin

text \<open>
  How a device finds its relay. \<open>relay_info_observer\<close> keeps the announced relays and tells a
  listener when one is new and when one is gone; \<open>s_device_entry/local_relay_info_manager\<close> is that
  listener and keeps the relays of every country in a ring; \<open>address_challenge\<close> tells a device the
  key of its own address; \<open>s_device_entry/_main.cpp\<close> answers a device that shows its key with a
  relay of its country. The slot of a relay is the index inside its identifier, which belongs to
  \<open>xIndexId\<close> of \<open>xel\<close> (\<open>ix\<close>); the country of an address is what the GeoIP database answers.
  An assertion that fails, or a null pointer that is read, is \<open>None\<close>.
\<close>

section \<open>The region of an address\<close>

datatype mmdb_answer =
    Mmdb_Error
  | Mmdb_NotFound
  | Mmdb_Entry bool bool bytes

text \<open>An entry has a value (the first flag), which is a text (the second flag).\<close>

definition GetCountry :: "(xNetAddress \<Rightarrow> mmdb_answer) \<Rightarrow> xNetAddress \<Rightarrow> (byte \<times> byte) option" where
  "GetCountry lookup Address =
     (case lookup Address of
        Mmdb_Error \<Rightarrow> None
      | Mmdb_NotFound \<Rightarrow> None
      | Mmdb_Entry status_ok is_text NameRef \<Rightarrow>
          if \<not> status_ok \<or> \<not> is_text \<or> length NameRef \<noteq> 2 then None
          else Some (NameRef ! 0, NameRef ! 1))"

text \<open>The future is ready, with a country or without one.\<close>

definition GetRegion :: "(xNetAddress \<Rightarrow> mmdb_answer) \<Rightarrow> xNetAddress \<Rightarrow> bool \<times> uint32 option" where
  "GetRegion lookup NA =
     (case GetCountry lookup NA of
        None \<Rightarrow> (True, None)
      | Some R \<Rightarrow> (True, Some (CountryCodeToCountryId R)))"

section \<open>The observer\<close>

definition MAX_RELAY_SERVER_LIST_SIZE :: nat where "MAX_RELAY_SERVER_LIST_SIZE = 200000"
definition RELAY_HEARTBEAT_TIMEOUT_MS :: uint64 where "RELAY_HEARTBEAT_TIMEOUT_MS = 5 * 60000 + 60000"

record xLocalRelayInfo =
  li_ServerId :: uint64
  li_ExportDeviceEntryAddress :: xNetAddress
  li_ExportProxyEntryAddress :: xNetAddress

record xInternalLocalRelayInfo = xLocalRelayInfo +
  li_LastKeepAliveTimestampMS :: uint64

record relay_observer =
  ob_LocalTicker :: uint64
  ob_RelayServerList :: "nat \<Rightarrow> xInternalLocalRelayInfo"
  ob_RelayInfoTimeoutList :: "nat list"
  ob_TcpClient :: tcp_client

type_synonym 'm relay_callback = "xLocalRelayInfo \<Rightarrow> 'm \<Rightarrow> 'm option"

definition no_relay :: xInternalLocalRelayInfo where
  "no_relay = \<lparr>li_ServerId = 0, li_ExportDeviceEntryAddress = no_address,
     li_ExportProxyEntryAddress = no_address, li_LastKeepAliveTimestampMS = 0\<rparr>"

definition new_observer :: relay_observer where
  "new_observer = \<lparr>ob_LocalTicker = 0, ob_RelayServerList = (\<lambda>_. no_relay),
     ob_RelayInfoTimeoutList = [], ob_TcpClient = new_tcp_client\<rparr>"

definition ExtractIndexFromRelayServerId :: "(uint64 \<Rightarrow> nat) \<Rightarrow> uint64 \<Rightarrow> nat option" where
  "ExtractIndexFromRelayServerId ix ServerId = (if ServerId = 0 then None else Some (ix ServerId))"

definition set_relay_info :: "nat \<Rightarrow> xInternalLocalRelayInfo \<Rightarrow> relay_observer \<Rightarrow> relay_observer" where
  "set_relay_info i RelayInfo s = s\<lparr>ob_RelayServerList := (ob_RelayServerList s)(i := RelayInfo)\<rparr>"

definition observer_KeepAlive :: "nat \<Rightarrow> relay_observer \<Rightarrow> relay_observer option" where
  "observer_KeepAlive i s =
     (let RelayInfo = ob_RelayServerList s i in
      if li_ServerId RelayInfo = 0 \<or> i \<notin> set (ob_RelayInfoTimeoutList s) then None
      else
        let s = set_relay_info i (RelayInfo\<lparr>li_LastKeepAliveTimestampMS := ob_LocalTicker s\<rparr>) s in
        Some (s\<lparr>ob_RelayInfoTimeoutList := grab_tail (ob_RelayInfoTimeoutList s) i\<rparr>))"

definition observer_Kill ::
    "'m relay_callback \<Rightarrow> nat \<Rightarrow> relay_observer \<times> 'm \<Rightarrow> (relay_observer \<times> 'm) option" where
  "observer_Kill dropped i st =
     (let RelayInfo = ob_RelayServerList (fst st) i;
          s = (fst st)\<lparr>ob_RelayInfoTimeoutList := removeAll i (ob_RelayInfoTimeoutList (fst st))\<rparr> in
      if li_ServerId RelayInfo = 0 then None
      else case dropped (xLocalRelayInfo.truncate RelayInfo) (snd st) of
        None \<Rightarrow> None
      | Some m \<Rightarrow> Some (set_relay_info i (RelayInfo\<lparr>li_ServerId := 0\<rparr>) s, m))"

definition observe_new ::
    "'m relay_callback \<Rightarrow> nat \<Rightarrow> xPP_RelayInfoBroadcast \<Rightarrow> relay_observer \<times> 'm \<Rightarrow> (relay_observer \<times> 'm) option" where
  "observe_new updated i B st =
     (let s = fst st;
          RelayInfo = (ob_RelayServerList s i)\<lparr>li_ServerId := ri_ServerId B,
             li_ExportProxyEntryAddress := ri_ExportProxyEntryAddress B,
             li_ExportDeviceEntryAddress := ri_ExportDeviceEntryAddress B\<rparr> in
      case updated (xLocalRelayInfo.truncate RelayInfo) (snd st) of
        None \<Rightarrow> None
      | Some m \<Rightarrow>
          let s = set_relay_info i (RelayInfo\<lparr>li_LastKeepAliveTimestampMS := ob_LocalTicker s\<rparr>) s in
          Some (s\<lparr>ob_RelayInfoTimeoutList := add_tail (ob_RelayInfoTimeoutList s) i\<rparr>, m))"

definition OnRelayHeartbeat ::
    "'m relay_callback \<Rightarrow> 'm relay_callback \<Rightarrow> nat \<Rightarrow> xPP_RelayInfoBroadcast \<Rightarrow> relay_observer \<times> 'm \<Rightarrow>
     (relay_observer \<times> 'm) option" where
  "OnRelayHeartbeat updated dropped i B st =
     (let RelayInfo = ob_RelayServerList (fst st) i in
      if li_ServerId RelayInfo \<noteq> ri_ServerId B \<or>
         li_ExportDeviceEntryAddress RelayInfo \<noteq> ri_ExportDeviceEntryAddress B \<or>
         li_ExportProxyEntryAddress RelayInfo \<noteq> ri_ExportProxyEntryAddress B
      then Option.bind (if li_ServerId RelayInfo \<noteq> 0 then observer_Kill dropped i st else Some st)
             (observe_new updated i B)
      else map_option (\<lambda>s. (s, snd st)) (observer_KeepAlive i (fst st)))"

definition observer_OnPacket ::
    "codec \<Rightarrow> (uint64 \<Rightarrow> nat) \<Rightarrow> 'm relay_callback \<Rightarrow> 'm relay_callback \<Rightarrow> packet \<Rightarrow> relay_observer \<times> 'm \<Rightarrow>
     (bool \<times> relay_observer \<times> 'm) option" where
  "observer_OnPacket c ix updated dropped P st =
     (if pk_CommandId P = Cmd_RelayHeartbeatBroadcast then
        (case xPP_RelayInfoBroadcast_Deserialize c (pk_Payload P) of
           None \<Rightarrow> Some (False, st)
         | Some (B, _) \<Rightarrow>
             if ri_ServerId B = 0 then Some (False, st)
             else case ExtractIndexFromRelayServerId ix (ri_ServerId B) of
               None \<Rightarrow> None
             | Some ServerIndex \<Rightarrow>
                 if ServerIndex \<ge> MAX_RELAY_SERVER_LIST_SIZE then Some (False, st)
                 else map_option (Pair True) (OnRelayHeartbeat updated dropped ServerIndex B st))
      else if pk_CommandId P = Cmd_RelayHeartbeatLost then
        (case xPP_RelayInfoLost_Deserialize c (pk_Payload P) of
           None \<Rightarrow> Some (False, st)
         | Some (B, _) \<Rightarrow>
             if xPP_RelayInfoLost.rx_ServerId B = 0 then Some (False, st)
             else case ExtractIndexFromRelayServerId ix (xPP_RelayInfoLost.rx_ServerId B) of
               None \<Rightarrow> None
             | Some ServerIndex \<Rightarrow>
                 if ServerIndex \<ge> MAX_RELAY_SERVER_LIST_SIZE then Some (False, st)
                 else if li_ServerId (ob_RelayServerList (fst st) ServerIndex) = xPP_RelayInfoLost.rx_ServerId B
                 then map_option (Pair True) (observer_Kill dropped ServerIndex st)
                 else Some (True, st))
      else Some (True, st))"

text \<open>The head is popped as long as it is silent for too long, and killed.\<close>

definition heard_before :: "uint64 \<Rightarrow> relay_observer \<Rightarrow> nat \<Rightarrow> bool" where
  "heard_before KillTimepoint s i \<longleftrightarrow>
     li_LastKeepAliveTimestampMS (ob_RelayServerList s i) \<le> KillTimepoint"

fun kill_silent ::
    "'m relay_callback \<Rightarrow> uint64 \<Rightarrow> nat list \<Rightarrow> relay_observer \<times> 'm \<Rightarrow> (relay_observer \<times> 'm) option" where
  "kill_silent dropped KillTimepoint [] st = Some st"
| "kill_silent dropped KillTimepoint (i # q) st =
     (if heard_before KillTimepoint (fst st) i
      then Option.bind (observer_Kill dropped i ((fst st)\<lparr>ob_RelayInfoTimeoutList := q\<rparr>, snd st))
             (kill_silent dropped KillTimepoint q)
      else Some st)"

definition RemoveTimeoutRelayInfo ::
    "'m relay_callback \<Rightarrow> relay_observer \<times> 'm \<Rightarrow> (relay_observer \<times> 'm) option" where
  "RemoveTimeoutRelayInfo dropped st =
     kill_silent dropped (ob_LocalTicker (fst st) - RELAY_HEARTBEAT_TIMEOUT_MS)
       (ob_RelayInfoTimeoutList (fst st)) st"

definition observer_Tick ::
    "'m relay_callback \<Rightarrow> uint64 \<Rightarrow> relay_observer \<times> 'm \<Rightarrow> (relay_observer \<times> 'm) option" where
  "observer_Tick dropped NowMS st =
     RemoveTimeoutRelayInfo dropped ((fst st)\<lparr>ob_LocalTicker := NowMS\<rparr>, snd st)"

definition observer_UpdateServerList ::
    "(uint64 set \<Rightarrow> uint64) \<Rightarrow> (uint64 \<Rightarrow> uint8 \<times> uint64) \<Rightarrow> xServerInfo list \<Rightarrow> relay_observer \<Rightarrow>
     relay_observer option" where
  "observer_UpdateServerList alloc ident ServerInfoList s =
     map_option (\<lambda>C. s\<lparr>ob_TcpClient := C\<rparr>) (UpdateServerList alloc ident ServerInfoList (ob_TcpClient s))"

section \<open>The relays of every country\<close>

record xDE_LocalRelayInfoBase =
  rb_ServerId :: uint64
  rb_ExportDeviceEntryAddress :: xNetAddress

record xDE_LocalRelayInfListEntry =
  le_V4 :: "nat list"
  le_V6 :: "nat list"

text \<open>
  A node of a list is its slot; a country that was never looked up has empty lists. \<open>RegionService\<close>
  may be null.
\<close>

type_synonym region_service = "(xNetAddress \<Rightarrow> mmdb_answer) option"

record relay_manager =
  de_FullRelayInfoList :: "nat \<Rightarrow> xDE_LocalRelayInfoBase"
  de_RelayInfoListByCountry :: "uint32 \<Rightarrow> xDE_LocalRelayInfListEntry"
  de_InvalidRelayServerAddress :: uint64

definition no_base :: xDE_LocalRelayInfoBase where
  "no_base = \<lparr>rb_ServerId = 0, rb_ExportDeviceEntryAddress = no_address\<rparr>"

definition new_relay_manager :: relay_manager where
  "new_relay_manager = \<lparr>de_FullRelayInfoList = (\<lambda>_. no_base),
     de_RelayInfoListByCountry = (\<lambda>_. \<lparr>le_V4 = [], le_V6 = []\<rparr>), de_InvalidRelayServerAddress = 0\<rparr>"

definition unlink_node :: "nat \<Rightarrow> relay_manager \<Rightarrow> relay_manager" where
  "unlink_node i s =
     s\<lparr>de_RelayInfoListByCountry := (\<lambda>C. let Entry = de_RelayInfoListByCountry s C in
        Entry\<lparr>le_V4 := removeAll i (le_V4 Entry), le_V6 := removeAll i (le_V6 Entry)\<rparr>)\<rparr>"

definition UpdateRelayServerInfo ::
    "(uint64 \<Rightarrow> nat) \<Rightarrow> region_service \<Rightarrow> xDE_LocalRelayInfoBase \<Rightarrow> relay_manager \<Rightarrow> relay_manager option" where
  "UpdateRelayServerInfo ix RegionService ServerInfo s =
     (case ExtractIndexFromRelayServerId ix (rb_ServerId ServerInfo) of
        None \<Rightarrow> None
      | Some Index \<Rightarrow>
          if Index \<ge> MAX_RELAY_SERVER_LIST_SIZE then Some s
          else if de_FullRelayInfoList s Index = ServerInfo then Some s
          else
            let s = unlink_node Index s;
                s = s\<lparr>de_FullRelayInfoList := (de_FullRelayInfoList s)(Index := ServerInfo)\<rparr> in
            case RegionService of
              None \<Rightarrow> Some s
            | Some lookup \<Rightarrow>
                (case GetRegion lookup (rb_ExportDeviceEntryAddress ServerInfo) of
                   (IsReady, CountryId) \<Rightarrow>
                     if \<not> IsReady then None
                     else case CountryId of
                       None \<Rightarrow> Some s
                     | Some Country \<Rightarrow>
                         let ListEntry = de_RelayInfoListByCountry s Country in
                         if Is4 (rb_ExportDeviceEntryAddress ServerInfo)
                         then Some (s\<lparr>de_RelayInfoListByCountry := (de_RelayInfoListByCountry s)
                                (Country := ListEntry\<lparr>le_V4 := add_tail (le_V4 ListEntry) Index\<rparr>)\<rparr>)
                         else if Is6 (rb_ExportDeviceEntryAddress ServerInfo)
                         then Some (s\<lparr>de_RelayInfoListByCountry := (de_RelayInfoListByCountry s)
                                (Country := ListEntry\<lparr>le_V4 := add_tail (le_V4 ListEntry) Index\<rparr>)\<rparr>)
                         else Some (s\<lparr>de_InvalidRelayServerAddress := de_InvalidRelayServerAddress s + 1\<rparr>)))"

definition RemoveRelayServerInfo :: "(uint64 \<Rightarrow> nat) \<Rightarrow> uint64 \<Rightarrow> relay_manager \<Rightarrow> relay_manager option" where
  "RemoveRelayServerInfo ix ServerId s =
     (case ExtractIndexFromRelayServerId ix ServerId of
        None \<Rightarrow> None
      | Some Index \<Rightarrow>
          if Index \<ge> MAX_RELAY_SERVER_LIST_SIZE then Some s
          else if rb_ServerId (de_FullRelayInfoList s Index) \<noteq> ServerId then Some s
          else
            let s = unlink_node Index s in
            Some (s\<lparr>de_FullRelayInfoList := (de_FullRelayInfoList s)(Index := no_base)\<rparr>))"

text \<open>The head of the ring serves, and goes to the tail.\<close>

definition GetRelayServerByDeviceIp ::
    "region_service \<Rightarrow> xNetAddress \<Rightarrow> relay_manager \<Rightarrow> (xNetAddress \<times> relay_manager) option" where
  "GetRelayServerByDeviceIp RegionService DeviceAddress s =
     (case RegionService of
        None \<Rightarrow> None
      | Some lookup \<Rightarrow>
          (case GetRegion lookup DeviceAddress of
             (IsReady, CountryId) \<Rightarrow>
               if \<not> IsReady then None
               else case CountryId of
                 None \<Rightarrow> Some (no_address, s)
               | Some Country \<Rightarrow>
                   let ListEntry = de_RelayInfoListByCountry s Country in
                   case if Is4 DeviceAddress then le_V4 ListEntry else le_V6 ListEntry of
                     [] \<Rightarrow> Some (no_address, s)
                   | First # q \<Rightarrow>
                       let ListEntry = (if Is4 DeviceAddress then ListEntry\<lparr>le_V4 := add_tail q First\<rparr>
                                        else ListEntry\<lparr>le_V6 := add_tail q First\<rparr>) in
                       Some (rb_ExportDeviceEntryAddress (de_FullRelayInfoList s First),
                         s\<lparr>de_RelayInfoListByCountry := (de_RelayInfoListByCountry s)(Country := ListEntry)\<rparr>)))"

text \<open>The two callbacks that \<open>main\<close> installs in the observer.\<close>

definition entry_OnRelayUpdated :: "(uint64 \<Rightarrow> nat) \<Rightarrow> region_service \<Rightarrow> relay_manager relay_callback" where
  "entry_OnRelayUpdated ix RegionService RelayInfo =
     UpdateRelayServerInfo ix RegionService
       \<lparr>rb_ServerId = li_ServerId RelayInfo, rb_ExportDeviceEntryAddress = li_ExportDeviceEntryAddress RelayInfo\<rparr>"

definition entry_OnRelayDropped :: "(uint64 \<Rightarrow> nat) \<Rightarrow> relay_manager relay_callback" where
  "entry_OnRelayDropped ix RelayInfo = RemoveRelayServerInfo ix (li_ServerId RelayInfo)"

section \<open>The key of an address\<close>

definition Cmd_DV_CC_GetAddressKey :: uint32 where "Cmd_DV_CC_GetAddressKey = 0x7001"
definition Cmd_DV_CC_GetAddressKeyResp :: uint32 where "Cmd_DV_CC_GetAddressKeyResp = 0x7002"
definition Cmd_DV_CC_Challenge :: uint32 where "Cmd_DV_CC_Challenge = 0x7003"
definition Cmd_DV_CC_ChallengeResp :: uint32 where "Cmd_DV_CC_ChallengeResp = 0x7004"
definition CLIENT_CHALLENGE_RETRY_TIMEOUT_MS :: uint64 where "CLIENT_CHALLENGE_RETRY_TIMEOUT_MS = 10 * 60000"

text \<open>
  Every byte is chained to the one before it, from a start value that the counter \<open>EC\<close> gives.
\<close>

fun chain_bytes :: "byte \<Rightarrow> bytes \<Rightarrow> bytes" where
  "chain_bytes LocalEC [] = []"
| "chain_bytes LocalEC (b # bs) = (let LocalEC = LocalEC XOR b in LocalEC # chain_bytes LocalEC bs)"

fun unchain_bytes :: "byte \<Rightarrow> bytes \<Rightarrow> bytes" where
  "unchain_bytes LocalEC [] = []"
| "unchain_bytes LocalEC (b # bs) = (LocalEC XOR b) # unchain_bytes b bs"

text \<open>The output is the buffer of \<open>S\<close> bytes, shortened to what was written if it fits.\<close>

definition EncryptAddressKey :: "nat \<Rightarrow> xNetAddress \<Rightarrow> byte \<Rightarrow> (bytes \<times> byte) option" where
  "EncryptAddressKey S Address EC =
     (if \<not> (addr_ok Address \<and> na_port Address = 0) then None
      else
        let EC = EC + 1; LocalEC = EC OR 0x37; Output = replicate S 0 in
        case na_ip Address of
          IPV4 SA4 \<Rightarrow> Some (if S < 4 + 1 then Output else LocalEC # chain_bytes LocalEC SA4, EC)
        | IPV6 SA6 \<Rightarrow> Some (if S < 16 + 1 then Output else LocalEC # chain_bytes LocalEC SA6, EC)
        | UNKNOWN \<Rightarrow> Some (Output, EC))"

definition DecryptAddressKey :: "(bytes \<Rightarrow> bytes) \<Rightarrow> bytes \<Rightarrow> xNetAddress" where
  "DecryptAddressKey HexToStr View =
     (let Origin = HexToStr View; Size = length Origin in
      if Size = 4 + 1 then \<lparr>na_ip = IPV4 (unchain_bytes (Origin ! 0) (tl Origin)), na_port = 0\<rparr>
      else if Size = 16 + 1 then \<lparr>na_ip = IPV6 (unchain_bytes (Origin ! 0) (tl Origin)), na_port = 0\<rparr>
      else no_address)"

text \<open>What is posted back, and the counter.\<close>

definition challenge_OnUdpPacket ::
    "codec \<Rightarrow> xel_text \<Rightarrow> nat \<Rightarrow> xNetAddress \<Rightarrow> packet \<Rightarrow> byte \<Rightarrow> (packet option list \<times> byte) option" where
  "challenge_OnUdpPacket c X max_payload Remote P EC =
     (if pk_CommandId P = Cmd_DV_CC_GetAddressKey then
        (case xPP_AddressChallenge_Deserialize c (pk_Payload P) of
           None \<Rightarrow> Some ([], EC)
         | Some (Req, _) \<Rightarrow>
             (case EncryptAddressKey 32 (addr_Ip Remote) EC of
                None \<Rightarrow> None
              | Some (Span, EC) \<Rightarrow>
                  Some ([WriteMessage max_payload Cmd_DV_CC_GetAddressKeyResp 0
                    (xPP_AddressChallengeResp_Serialize c \<lparr>ak_AddressKey = StrToHex X Span\<rparr>)], EC)))
      else Some ([], EC))"

text \<open>The services that are open after the constructor: all of them, or none.\<close>

fun open_services :: "(xNetAddress \<Rightarrow> bool) \<Rightarrow> xNetAddress list \<Rightarrow> xNetAddress list \<Rightarrow> bool \<times> xNetAddress list" where
  "open_services Init_ok [] UdpServiceList = (False, UdpServiceList)"
| "open_services Init_ok (BA # rest) UdpServiceList =
     (if \<not> Init_ok BA then (True, UdpServiceList)
      else open_services Init_ok rest (UdpServiceList @ [BA]))"

definition challenge_construct ::
    "bool \<Rightarrow> (xNetAddress \<Rightarrow> bool) \<Rightarrow> xNetAddress list \<Rightarrow> (bool \<times> xNetAddress list) option" where
  "challenge_construct ServiceRunState Init_ok BindAddressList =
     (if \<not> ServiceRunState \<or> BindAddressList = [] then None
      else case open_services Init_ok BindAddressList [] of
        (HasError, UdpServiceList) \<Rightarrow> Some (if HasError then (False, []) else (True, UdpServiceList)))"

section \<open>The challenge of a device\<close>

definition challenge_address :: "(bytes \<Rightarrow> bytes) \<Rightarrow> xPP_DeviceChallenge \<Rightarrow> xNetAddress" where
  "challenge_address HexToStr Req =
     (if length (dc_AddressKey4 Req) \<noteq> 0 then DecryptAddressKey HexToStr (dc_AddressKey4 Req)
      else if length (dc_AddressKey6 Req) \<noteq> 0 then DecryptAddressKey HexToStr (dc_AddressKey6 Req)
      else no_address)"

definition challenge_response :: "xNetAddress \<Rightarrow> xPP_DeviceChallengeResp" where
  "challenge_response RelayAddress =
     (let Resp = \<lparr>dp_Accepted = False, dp_RelayAddress = no_address, dp_RelayCheckKey = [], dp_BanVersionTimeMS = 0\<rparr> in
      if addr_ok RelayAddress then Resp\<lparr>dp_Accepted := True, dp_RelayAddress := RelayAddress\<rparr>
      else Resp\<lparr>dp_BanVersionTimeMS := CLIENT_CHALLENGE_RETRY_TIMEOUT_MS\<rparr>)"

definition OnDeviceChallenge ::
    "codec \<Rightarrow> (bytes \<Rightarrow> bytes) \<Rightarrow> region_service \<Rightarrow> nat \<Rightarrow> packet \<Rightarrow> relay_manager \<Rightarrow>
     (packet option list \<times> relay_manager) option" where
  "OnDeviceChallenge c HexToStr RegionService max_payload P s =
     (if pk_CommandId P = Cmd_DV_CC_Challenge then
        (case xPP_DeviceChallenge_Deserialize c (pk_Payload P) of
           None \<Rightarrow> Some ([], s)
         | Some (Req, _) \<Rightarrow>
             let DeviceAddress = challenge_address HexToStr Req in
             if \<not> addr_ok DeviceAddress then Some ([], s)
             else case GetRelayServerByDeviceIp RegionService DeviceAddress s of
               None \<Rightarrow> None
             | Some (RelayAddress, s) \<Rightarrow>
                 Some ([WriteMessage max_payload Cmd_DV_CC_ChallengeResp 0
                   (xPP_DeviceChallengeResp_Serialize c (challenge_response RelayAddress))], s))
      else Some ([], s))"

section \<open>What the observer owes its listener, and the listener the observer\<close>

text \<open>
  \<open>known m i\<close> is the relay the listener has in slot \<open>i\<close>. The observer announces a relay only to an
  empty slot and withdraws only what it announced; under that promise the callbacks succeed and
  the listener's slots follow.
\<close>

type_synonym relay_slots = "nat \<Rightarrow> (uint64 \<times> xNetAddress) option"

definition observed :: "relay_observer \<Rightarrow> relay_slots" where
  "observed s i =
     (let RelayInfo = ob_RelayServerList s i in
      if li_ServerId RelayInfo = 0 then None
      else Some (li_ServerId RelayInfo, li_ExportDeviceEntryAddress RelayInfo))"

definition observer_inv :: "(uint64 \<Rightarrow> nat) \<Rightarrow> relay_observer \<Rightarrow> bool" where
  "observer_inv ix s \<longleftrightarrow>
     distinct (ob_RelayInfoTimeoutList s) \<and>
     set (ob_RelayInfoTimeoutList s) = dom (observed s) \<and>
     (\<forall>i p. observed s i = Some p \<longrightarrow> ix (fst p) = i \<and> fst p \<noteq> 0 \<and> i < MAX_RELAY_SERVER_LIST_SIZE)"

definition mirrored :: "(uint64 \<Rightarrow> nat) \<Rightarrow> ('m \<Rightarrow> bool) \<Rightarrow> ('m \<Rightarrow> relay_slots) \<Rightarrow> relay_observer \<times> 'm \<Rightarrow> bool" where
  "mirrored ix ok known st \<longleftrightarrow> observer_inv ix (fst st) \<and> ok (snd st) \<and> known (snd st) = observed (fst st)"

lemma observed_zero: "observed s i = None \<longleftrightarrow> li_ServerId (ob_RelayServerList s i) = 0"
  by (simp add: observed_def Let_def)

lemma observed_some:
  "observed s i = Some p \<longleftrightarrow>
     li_ServerId (ob_RelayServerList s i) \<noteq> 0 \<and> p =
       (li_ServerId (ob_RelayServerList s i), li_ExportDeviceEntryAddress (ob_RelayServerList s i))"
  by (auto simp: observed_def Let_def)

lemma observed_list [simp]:
  "observed (s\<lparr>ob_RelayInfoTimeoutList := q\<rparr>) = observed s"
  "observed (s\<lparr>ob_LocalTicker := T\<rparr>) = observed s"
  "observed (s\<lparr>ob_TcpClient := C\<rparr>) = observed s"
  by (simp_all add: observed_def fun_eq_iff)

lemma observed_set:
  "observed (set_relay_info i R s) =
     (observed s)(i := if li_ServerId R = 0 then None else Some (li_ServerId R, li_ExportDeviceEntryAddress R))"
  by (auto simp: observed_def set_relay_info_def fun_eq_iff)

lemma set_relay_info_list [simp]:
  "ob_RelayInfoTimeoutList (set_relay_info i R s) = ob_RelayInfoTimeoutList s"
  "ob_LocalTicker (set_relay_info i R s) = ob_LocalTicker s"
  by (simp_all add: set_relay_info_def)

lemma observer_inv_new: "observer_inv ix new_observer"
  by (auto simp: observer_inv_def new_observer_def observed_def no_relay_def)

lemma truncate_fields [simp]:
  "li_ServerId (xLocalRelayInfo.truncate R) = li_ServerId R"
  "li_ExportDeviceEntryAddress (xLocalRelayInfo.truncate R) = li_ExportDeviceEntryAddress R"
  by (simp_all add: xLocalRelayInfo.truncate_def)

text \<open>The timeout list is in the order in which the relays were last heard, none in the future.\<close>

definition heard_in_order :: "relay_observer \<Rightarrow> bool" where
  "heard_in_order s \<longleftrightarrow>
     sorted_wrt (\<lambda>i j. li_LastKeepAliveTimestampMS (ob_RelayServerList s i) \<le>
                       li_LastKeepAliveTimestampMS (ob_RelayServerList s j)) (ob_RelayInfoTimeoutList s) \<and>
     (\<forall>i \<in> set (ob_RelayInfoTimeoutList s). li_LastKeepAliveTimestampMS (ob_RelayServerList s i) \<le> ob_LocalTicker s)"

lemma heard_in_order_new: "heard_in_order new_observer"
  by (simp add: heard_in_order_def new_observer_def)

lemma sorted_wrt_removeAll: "sorted_wrt P xs \<Longrightarrow> sorted_wrt P (removeAll i xs)"
  by (induction xs) auto

lemma heard_in_order_drop:
  assumes "heard_in_order s" and "ob_RelayInfoTimeoutList t = removeAll i (ob_RelayInfoTimeoutList s)"
    and "ob_LocalTicker t = ob_LocalTicker s" and "\<forall>j. j \<noteq> i \<longrightarrow> ob_RelayServerList t j = ob_RelayServerList s j"
  shows "heard_in_order t"
proof -
  have "sorted_wrt (\<lambda>i j. li_LastKeepAliveTimestampMS (ob_RelayServerList s i) \<le>
      li_LastKeepAliveTimestampMS (ob_RelayServerList s j)) (removeAll i (ob_RelayInfoTimeoutList s))"
    using assms(1) by (intro sorted_wrt_removeAll) (simp add: heard_in_order_def)
  then have "sorted_wrt (\<lambda>i j. li_LastKeepAliveTimestampMS (ob_RelayServerList t i) \<le>
      li_LastKeepAliveTimestampMS (ob_RelayServerList t j)) (removeAll i (ob_RelayInfoTimeoutList s))"
    by (rule sorted_wrt_mono_rel [rotated]) (use assms(4) in simp)
  then show ?thesis
    using assms by (simp add: heard_in_order_def)
qed

lemma heard_in_order_push:
  assumes "heard_in_order s" and "ob_RelayInfoTimeoutList t = removeAll i (ob_RelayInfoTimeoutList s) @ [i]"
    and "ob_LocalTicker t = ob_LocalTicker s" and "\<forall>j. j \<noteq> i \<longrightarrow> ob_RelayServerList t j = ob_RelayServerList s j"
    and "li_LastKeepAliveTimestampMS (ob_RelayServerList t i) = ob_LocalTicker s"
  shows "heard_in_order t"
proof -
  let ?u = "t\<lparr>ob_RelayInfoTimeoutList := removeAll i (ob_RelayInfoTimeoutList s)\<rparr>"
  have "heard_in_order ?u"
    by (rule heard_in_order_drop [OF assms(1), of _ i]) (use assms(3,4) in simp_all)
  then have "sorted_wrt (\<lambda>i j. li_LastKeepAliveTimestampMS (ob_RelayServerList t i) \<le>
      li_LastKeepAliveTimestampMS (ob_RelayServerList t j)) (removeAll i (ob_RelayInfoTimeoutList s))"
    by (simp add: heard_in_order_def)
  moreover have "li_LastKeepAliveTimestampMS (ob_RelayServerList t j) \<le> ob_LocalTicker s"
    if "j \<in> set (ob_RelayInfoTimeoutList s)" for j
    using assms(1,4,5) that by (cases "j = i") (simp_all add: heard_in_order_def)
  ultimately show ?thesis
    using assms(2,3,5) by (simp add: heard_in_order_def sorted_wrt_append)
qed

locale relay_listener =
  fixes ix :: "uint64 \<Rightarrow> nat"
    and ok :: "'m \<Rightarrow> bool"
    and known :: "'m \<Rightarrow> relay_slots"
    and updated :: "'m relay_callback"
    and dropped :: "'m relay_callback"
  assumes updated_ok:
      "ok m \<Longrightarrow> li_ServerId I \<noteq> 0 \<Longrightarrow> ix (li_ServerId I) < MAX_RELAY_SERVER_LIST_SIZE \<Longrightarrow>
       known m (ix (li_ServerId I)) = None \<Longrightarrow>
       \<exists>n. updated I m = Some n \<and> ok n \<and>
         known n = (known m)(ix (li_ServerId I) \<mapsto> (li_ServerId I, li_ExportDeviceEntryAddress I))"
    and dropped_ok:
      "ok m \<Longrightarrow> li_ServerId I \<noteq> 0 \<Longrightarrow> ix (li_ServerId I) < MAX_RELAY_SERVER_LIST_SIZE \<Longrightarrow>
       known m (ix (li_ServerId I)) = Some (li_ServerId I, li_ExportDeviceEntryAddress I) \<Longrightarrow>
       \<exists>n. dropped I m = Some n \<and> ok n \<and> known n = (known m)(ix (li_ServerId I) := None)"
begin

abbreviation mirror :: "relay_observer \<times> 'm \<Rightarrow> bool" where
  "mirror \<equiv> mirrored ix ok known"

text \<open>Killing takes one slot away; the timeout list may have lost the node already.\<close>

lemma Kill_mirror:
  assumes obs: "observed s i = Some p" and inv: "observer_inv ix s" and m: "ok m" "known m = observed s"
    and q: "removeAll i q = removeAll i (ob_RelayInfoTimeoutList s)"
  shows "\<exists>t n. observer_Kill dropped i (s\<lparr>ob_RelayInfoTimeoutList := q\<rparr>, m) = Some (t, n) \<and> mirror (t, n) \<and>
    observed t = (observed s)(i := None) \<and> ob_RelayInfoTimeoutList t = removeAll i (ob_RelayInfoTimeoutList s) \<and>
    ob_LocalTicker t = ob_LocalTicker s \<and> (\<forall>j. j \<noteq> i \<longrightarrow> ob_RelayServerList t j = ob_RelayServerList s j)"
proof -
  let ?R = "ob_RelayServerList s i"
  have R: "li_ServerId ?R \<noteq> 0" "p = (li_ServerId ?R, li_ExportDeviceEntryAddress ?R)"
    using obs by (simp_all add: observed_some)
  have i: "ix (li_ServerId ?R) = i" "i < MAX_RELAY_SERVER_LIST_SIZE"
    using inv obs R(2) by (auto simp: observer_inv_def)
  obtain n where n: "dropped (xLocalRelayInfo.truncate ?R) m = Some n" "ok n" "known n = (known m)(i := None)"
    using dropped_ok [of m "xLocalRelayInfo.truncate ?R"] m R i obs by auto
  define t where "t = set_relay_info i (?R\<lparr>li_ServerId := 0\<rparr>)
    (s\<lparr>ob_RelayInfoTimeoutList := removeAll i (ob_RelayInfoTimeoutList s)\<rparr>)"
  have kill: "observer_Kill dropped i (s\<lparr>ob_RelayInfoTimeoutList := q\<rparr>, m) = Some (t, n)"
    using n(1) R(1) q by (simp add: observer_Kill_def Let_def t_def)
  have obs_t: "observed t = (observed s)(i := None)"
    by (simp add: t_def observed_set)
  have list_t: "ob_RelayInfoTimeoutList t = removeAll i (ob_RelayInfoTimeoutList s)"
    by (simp add: t_def)
  have "observer_inv ix t"
    using inv unfolding observer_inv_def obs_t list_t by auto
  moreover have "ob_LocalTicker t = ob_LocalTicker s" "\<forall>j. j \<noteq> i \<longrightarrow> ob_RelayServerList t j = ob_RelayServerList s j"
    by (simp_all add: t_def set_relay_info_def)
  ultimately show ?thesis
    using kill n obs_t m list_t by (intro exI [of _ t] exI [of _ n]) (simp add: mirrored_def)
qed

lemma observe_new_mirror:
  assumes free: "observed s i = None" and inv: "observer_inv ix s" and m: "ok m" "known m = observed s"
    and B: "ri_ServerId B \<noteq> 0" "ix (ri_ServerId B) = i" "i < MAX_RELAY_SERVER_LIST_SIZE"
  shows "\<exists>t n. observe_new updated i B (s, m) = Some (t, n) \<and> mirror (t, n) \<and>
    observed t = (observed s)(i \<mapsto> (ri_ServerId B, ri_ExportDeviceEntryAddress B)) \<and>
    ob_RelayInfoTimeoutList t = ob_RelayInfoTimeoutList s @ [i] \<and> ob_LocalTicker t = ob_LocalTicker s \<and>
    li_LastKeepAliveTimestampMS (ob_RelayServerList t i) = ob_LocalTicker s \<and>
    (\<forall>j. j \<noteq> i \<longrightarrow> ob_RelayServerList t j = ob_RelayServerList s j)"
proof -
  let ?R = "(ob_RelayServerList s i)\<lparr>li_ServerId := ri_ServerId B,
     li_ExportProxyEntryAddress := ri_ExportProxyEntryAddress B,
     li_ExportDeviceEntryAddress := ri_ExportDeviceEntryAddress B\<rparr>"
  obtain n where n: "updated (xLocalRelayInfo.truncate ?R) m = Some n" "ok n"
      "known n = (known m)(i \<mapsto> (ri_ServerId B, ri_ExportDeviceEntryAddress B))"
    using updated_ok [of m "xLocalRelayInfo.truncate ?R"] m B free by auto
  define t where "t = (set_relay_info i (?R\<lparr>li_LastKeepAliveTimestampMS := ob_LocalTicker s\<rparr>) s)
    \<lparr>ob_RelayInfoTimeoutList := ob_RelayInfoTimeoutList s @ [i]\<rparr>"
  have new: "observe_new updated i B (s, m) = Some (t, n)"
    using n(1) by (simp add: observe_new_def Let_def t_def)
  have obs_t: "observed t = (observed s)(i \<mapsto> (ri_ServerId B, ri_ExportDeviceEntryAddress B))"
    using B(1) by (simp add: t_def observed_set)
  have list_t: "ob_RelayInfoTimeoutList t = ob_RelayInfoTimeoutList s @ [i]"
    by (simp add: t_def)
  have i: "i \<notin> set (ob_RelayInfoTimeoutList s)"
    using inv free by (auto simp: observer_inv_def)
  have "observer_inv ix t"
    using inv i B unfolding observer_inv_def obs_t list_t by auto
  moreover have "ob_LocalTicker t = ob_LocalTicker s" "li_LastKeepAliveTimestampMS (ob_RelayServerList t i) = ob_LocalTicker s"
      "\<forall>j. j \<noteq> i \<longrightarrow> ob_RelayServerList t j = ob_RelayServerList s j"
    by (simp_all add: t_def set_relay_info_def)
  ultimately show ?thesis
    using new n obs_t m list_t by (intro exI [of _ t] exI [of _ n]) (simp add: mirrored_def)
qed

lemma observed_KeepAlive_inv:
  assumes "observed s i = Some p" and "observer_inv ix s"
  shows "\<exists>t. observer_KeepAlive i s = Some t \<and> observer_inv ix t \<and> observed t = observed s \<and>
    ob_RelayInfoTimeoutList t = grab_tail (ob_RelayInfoTimeoutList s) i \<and> ob_LocalTicker t = ob_LocalTicker s \<and>
    li_LastKeepAliveTimestampMS (ob_RelayServerList t i) = ob_LocalTicker s \<and>
    (\<forall>j. j \<noteq> i \<longrightarrow> ob_RelayServerList t j = ob_RelayServerList s j)"
proof -
  define t where "t = (set_relay_info i ((ob_RelayServerList s i)\<lparr>li_LastKeepAliveTimestampMS := ob_LocalTicker s\<rparr>) s)
    \<lparr>ob_RelayInfoTimeoutList := grab_tail (ob_RelayInfoTimeoutList s) i\<rparr>"
  have i: "i \<in> set (ob_RelayInfoTimeoutList s)" "li_ServerId (ob_RelayServerList s i) \<noteq> 0"
    using assms by (auto simp: observer_inv_def observed_some)
  have keep: "observer_KeepAlive i s = Some t"
    using i by (simp add: observer_KeepAlive_def Let_def t_def)
  have obs_t: "observed t = observed s"
    using i(2) by (auto simp: t_def observed_set observed_def Let_def fun_eq_iff)
  have list_t: "ob_RelayInfoTimeoutList t = grab_tail (ob_RelayInfoTimeoutList s) i"
    by (simp add: t_def)
  have "observer_inv ix t"
    using assms(2) i(1) unfolding observer_inv_def obs_t list_t by auto
  moreover have "ob_LocalTicker t = ob_LocalTicker s" "li_LastKeepAliveTimestampMS (ob_RelayServerList t i) = ob_LocalTicker s"
      "\<forall>j. j \<noteq> i \<longrightarrow> ob_RelayServerList t j = ob_RelayServerList s j"
    by (simp_all add: t_def set_relay_info_def)
  ultimately show ?thesis
    using keep obs_t list_t by (intro exI [of _ t]) simp
qed

lemma OnRelayHeartbeat_mirror:
  assumes st: "mirror (s, m)"
    and B: "ri_ServerId B \<noteq> 0" "ix (ri_ServerId B) = i" "i < MAX_RELAY_SERVER_LIST_SIZE"
  shows "\<exists>t n. OnRelayHeartbeat updated dropped i B (s, m) = Some (t, n) \<and> mirror (t, n) \<and>
    observed t = (observed s)(i \<mapsto> (ri_ServerId B, ri_ExportDeviceEntryAddress B)) \<and>
    ob_LocalTicker t = ob_LocalTicker s \<and>
    li_LastKeepAliveTimestampMS (ob_RelayServerList t i) = ob_LocalTicker s \<and>
    (heard_in_order s \<longrightarrow> heard_in_order t)"
proof -
  let ?R = "ob_RelayServerList s i"
  have inv: "observer_inv ix s" and m: "ok m" "known m = observed s"
    using st by (simp_all add: mirrored_def)
  consider (keep) "li_ServerId ?R = ri_ServerId B"
      "li_ExportDeviceEntryAddress ?R = ri_ExportDeviceEntryAddress B"
      "li_ExportProxyEntryAddress ?R = ri_ExportProxyEntryAddress B"
    | (fresh) "li_ServerId ?R = 0"
    | (replace) "li_ServerId ?R \<noteq> 0" "\<not> (li_ServerId ?R = ri_ServerId B \<and>
        li_ExportDeviceEntryAddress ?R = ri_ExportDeviceEntryAddress B \<and>
        li_ExportProxyEntryAddress ?R = ri_ExportProxyEntryAddress B)"
    by blast
  then show ?thesis
  proof cases
    case keep
    then have obs: "observed s i = Some (ri_ServerId B, ri_ExportDeviceEntryAddress B)"
      using B(1) by (simp add: observed_some)
    obtain t where t: "observer_KeepAlive i s = Some t" "observer_inv ix t" "observed t = observed s"
        "ob_RelayInfoTimeoutList t = grab_tail (ob_RelayInfoTimeoutList s) i" "ob_LocalTicker t = ob_LocalTicker s"
        "li_LastKeepAliveTimestampMS (ob_RelayServerList t i) = ob_LocalTicker s"
        "\<forall>j. j \<noteq> i \<longrightarrow> ob_RelayServerList t j = ob_RelayServerList s j"
      using observed_KeepAlive_inv [OF obs inv] by blast
    have "heard_in_order s \<longrightarrow> heard_in_order t"
      using heard_in_order_push [of s t i] t by (simp add: grab_tail_def)
    moreover have "observed t = (observed s)(i \<mapsto> (ri_ServerId B, ri_ExportDeviceEntryAddress B))"
      using t(3) obs by (simp add: fun_upd_idem)
    ultimately show ?thesis
      using keep t m by (intro exI [of _ t] exI [of _ m]) (simp add: OnRelayHeartbeat_def Let_def mirrored_def)
  next
    case fresh
    then have obs: "observed s i = None"
      by (simp add: observed_zero)
    then have "i \<notin> set (ob_RelayInfoTimeoutList s)"
      using inv by (auto simp: observer_inv_def)
    then have rem: "removeAll i (ob_RelayInfoTimeoutList s) = ob_RelayInfoTimeoutList s"
      by simp
    obtain t n where t: "observe_new updated i B (s, m) = Some (t, n)" "mirror (t, n)"
        "observed t = (observed s)(i \<mapsto> (ri_ServerId B, ri_ExportDeviceEntryAddress B))"
        "ob_RelayInfoTimeoutList t = ob_RelayInfoTimeoutList s @ [i]" "ob_LocalTicker t = ob_LocalTicker s"
        "li_LastKeepAliveTimestampMS (ob_RelayServerList t i) = ob_LocalTicker s"
        "\<forall>j. j \<noteq> i \<longrightarrow> ob_RelayServerList t j = ob_RelayServerList s j"
      using observe_new_mirror [OF obs inv m B] by blast
    have "heard_in_order s \<longrightarrow> heard_in_order t"
      using heard_in_order_push [of s t i] t rem by simp
    then show ?thesis
      using fresh t B(1) by (intro exI [of _ t] exI [of _ n]) (simp add: OnRelayHeartbeat_def Let_def)
  next
    case replace
    obtain p where obs: "observed s i = Some p"
      using replace(1) by (simp add: observed_some)
    obtain u k where u: "observer_Kill dropped i (s\<lparr>ob_RelayInfoTimeoutList := ob_RelayInfoTimeoutList s\<rparr>, m) = Some (u, k)"
        "mirror (u, k)" "observed u = (observed s)(i := None)"
        "ob_RelayInfoTimeoutList u = removeAll i (ob_RelayInfoTimeoutList s)" "ob_LocalTicker u = ob_LocalTicker s"
        "\<forall>j. j \<noteq> i \<longrightarrow> ob_RelayServerList u j = ob_RelayServerList s j"
      using Kill_mirror [OF obs inv m refl] by blast
    have "observed u i = None" "observer_inv ix u" "ok k" "known k = observed u"
      using u(2,3) by (simp_all add: mirrored_def)
    then obtain t n where t: "observe_new updated i B (u, k) = Some (t, n)" "mirror (t, n)"
        "observed t = (observed u)(i \<mapsto> (ri_ServerId B, ri_ExportDeviceEntryAddress B))"
        "ob_RelayInfoTimeoutList t = ob_RelayInfoTimeoutList u @ [i]" "ob_LocalTicker t = ob_LocalTicker u"
        "li_LastKeepAliveTimestampMS (ob_RelayServerList t i) = ob_LocalTicker u"
        "\<forall>j. j \<noteq> i \<longrightarrow> ob_RelayServerList t j = ob_RelayServerList u j"
      using observe_new_mirror [of u i k B] B by blast
    have "heard_in_order s \<longrightarrow> heard_in_order t"
      using heard_in_order_push [of s t i] t u by simp
    then show ?thesis
      using replace u t by (intro exI [of _ t] exI [of _ n]) (auto simp: OnRelayHeartbeat_def Let_def)
  qed
qed

lemma OnPacket_mirror:
  assumes "mirror (s, m)"
  shows "\<exists>r. observer_OnPacket c ix updated dropped P (s, m) = Some r \<and> mirror (snd r) \<and>
    ob_LocalTicker (fst (snd r)) = ob_LocalTicker s \<and> (heard_in_order s \<longrightarrow> heard_in_order (fst (snd r)))"
proof -
  note same = assms
  show ?thesis
  proof (cases "pk_CommandId P = Cmd_RelayHeartbeatBroadcast")
    case True
    then show ?thesis
    proof (cases "xPP_RelayInfoBroadcast_Deserialize c (pk_Payload P)")
      case (Some Br)
      then obtain B rest where B: "xPP_RelayInfoBroadcast_Deserialize c (pk_Payload P) = Some (B, rest)"
        by (cases Br) auto
      show ?thesis
      proof (cases "ri_ServerId B = 0 \<or> MAX_RELAY_SERVER_LIST_SIZE \<le> ix (ri_ServerId B)")
        case False
        then obtain t n where "OnRelayHeartbeat updated dropped (ix (ri_ServerId B)) B (s, m) = Some (t, n)"
            "mirror (t, n)" "ob_LocalTicker t = ob_LocalTicker s" "heard_in_order s \<longrightarrow> heard_in_order t"
          using OnRelayHeartbeat_mirror [OF assms, of B] by auto
        then show ?thesis
          using True B False by (intro exI [of _ "(True, t, n)"]) (simp add: observer_OnPacket_def ExtractIndexFromRelayServerId_def)
      qed (use True B same in \<open>auto simp: observer_OnPacket_def ExtractIndexFromRelayServerId_def\<close>)
    qed (use same in \<open>simp add: observer_OnPacket_def\<close>)
  next
    case other: False
    show ?thesis
    proof (cases "pk_CommandId P = Cmd_RelayHeartbeatLost")
      case True
      then show ?thesis
      proof (cases "xPP_RelayInfoLost_Deserialize c (pk_Payload P)")
        case (Some Br)
        then obtain B rest where B: "xPP_RelayInfoLost_Deserialize c (pk_Payload P) = Some (B, rest)"
          by (cases Br) auto
        let ?id = "xPP_RelayInfoLost.rx_ServerId B"
        show ?thesis
        proof (cases "?id \<noteq> 0 \<and> ix ?id < MAX_RELAY_SERVER_LIST_SIZE \<and> li_ServerId (ob_RelayServerList s (ix ?id)) = ?id")
          case kill: True
          then obtain p where p: "observed s (ix ?id) = Some p"
            by (simp add: observed_some)
          have "observer_inv ix s" "ok m" "known m = observed s"
            using assms by (simp_all add: mirrored_def)
          then obtain t n where t: "observer_Kill dropped (ix ?id)
                (s\<lparr>ob_RelayInfoTimeoutList := ob_RelayInfoTimeoutList s\<rparr>, m) = Some (t, n)" "mirror (t, n)"
              "ob_RelayInfoTimeoutList t = removeAll (ix ?id) (ob_RelayInfoTimeoutList s)" "ob_LocalTicker t = ob_LocalTicker s"
              "\<forall>j. j \<noteq> ix ?id \<longrightarrow> ob_RelayServerList t j = ob_RelayServerList s j"
            using Kill_mirror [OF p _ _ _ refl] by blast
          then have "heard_in_order s \<longrightarrow> heard_in_order t"
            using heard_in_order_drop by blast
          then show ?thesis
            using True B kill t other by (intro exI [of _ "(True, t, n)"]) (simp add: observer_OnPacket_def ExtractIndexFromRelayServerId_def)
        qed (use True B same other in \<open>auto simp: observer_OnPacket_def ExtractIndexFromRelayServerId_def\<close>)
      qed (use same other in \<open>simp add: observer_OnPacket_def\<close>)
    qed (use same other in \<open>simp add: observer_OnPacket_def\<close>)
  qed
qed

lemma kill_silent_mirror:
  assumes "mirror (s, m)" and "ob_RelayInfoTimeoutList s = q"
  shows "\<exists>t n. kill_silent dropped T q (s, m) = Some (t, n) \<and> mirror (t, n) \<and>
    ob_RelayInfoTimeoutList t = dropWhile (heard_before T s) q \<and> ob_LocalTicker t = ob_LocalTicker s \<and>
    (\<forall>i \<in> set (dropWhile (heard_before T s) q). ob_RelayServerList t i = ob_RelayServerList s i)"
  using assms
proof (induction q arbitrary: s m)
  case (Cons i q)
  show ?case
  proof (cases "heard_before T s i")
    case True
    have inv: "observer_inv ix s" and m: "ok m" "known m = observed s"
      using Cons.prems(1) by (simp_all add: mirrored_def)
    have iq: "i \<notin> set q" and obs: "i \<in> dom (observed s)"
      using inv Cons.prems(2) by (auto simp: observer_inv_def)
    obtain p where p: "observed s i = Some p"
      using obs by blast
    have rem: "removeAll i q = removeAll i (ob_RelayInfoTimeoutList s)"
      by (simp add: Cons.prems(2))
    obtain u k where u: "observer_Kill dropped i (s\<lparr>ob_RelayInfoTimeoutList := q\<rparr>, m) = Some (u, k)"
        "mirror (u, k)" "ob_RelayInfoTimeoutList u = removeAll i (ob_RelayInfoTimeoutList s)"
        "ob_LocalTicker u = ob_LocalTicker s" "\<forall>j. j \<noteq> i \<longrightarrow> ob_RelayServerList u j = ob_RelayServerList s j"
      using Kill_mirror [OF p inv m rem] by blast
    have uq: "ob_RelayInfoTimeoutList u = q"
      using u(3) Cons.prems(2) iq by simp
    have dw: "dropWhile (heard_before T u) q = dropWhile (heard_before T s) q"
      using iq u(5) by (intro dropWhile_cong [OF refl]) (auto simp: heard_before_def)
    obtain t n where t: "kill_silent dropped T q (u, k) = Some (t, n)" "mirror (t, n)"
        "ob_RelayInfoTimeoutList t = dropWhile (heard_before T u) q" "ob_LocalTicker t = ob_LocalTicker u"
        "\<forall>i \<in> set (dropWhile (heard_before T u) q). ob_RelayServerList t i = ob_RelayServerList u i"
      using Cons.IH [OF u(2) uq] by blast
    have "ob_RelayServerList t j = ob_RelayServerList s j" if "j \<in> set (dropWhile (heard_before T s) q)" for j
      using t(5) u(5) that iq dw set_dropWhileD [OF that] by auto
    then show ?thesis
      using True u(1,4) t dw by (intro exI [of _ t] exI [of _ n]) simp
  qed (use Cons.prems in auto)
qed auto

lemma Tick_mirror:
  assumes "mirror (s, m)"
  shows "\<exists>t n. observer_Tick dropped Now (s, m) = Some (t, n) \<and> mirror (t, n) \<and> ob_LocalTicker t = Now \<and>
    (\<forall>i \<in> dom (observed t). i \<in> dom (observed s) \<and> ob_RelayServerList t i = ob_RelayServerList s i) \<and>
    (\<forall>i \<in> dom (observed s). Now - RELAY_HEARTBEAT_TIMEOUT_MS < li_LastKeepAliveTimestampMS (ob_RelayServerList s i) \<longrightarrow>
       i \<in> dom (observed t)) \<and>
    (heard_in_order s \<and> ob_LocalTicker s \<le> Now \<longrightarrow> heard_in_order t \<and>
       (\<forall>i \<in> dom (observed t). Now - RELAY_HEARTBEAT_TIMEOUT_MS < li_LastKeepAliveTimestampMS (ob_RelayServerList t i)))"
proof -
  let ?s = "s\<lparr>ob_LocalTicker := Now\<rparr>" and ?T = "Now - RELAY_HEARTBEAT_TIMEOUT_MS"
  let ?q = "dropWhile (heard_before ?T ?s) (ob_RelayInfoTimeoutList s)"
  have "mirror (?s, m)"
    using assms by (simp add: mirrored_def observer_inv_def)
  then obtain t n where t: "kill_silent dropped ?T (ob_RelayInfoTimeoutList s) (?s, m) = Some (t, n)" "mirror (t, n)"
      "ob_RelayInfoTimeoutList t = ?q" "ob_LocalTicker t = Now"
      "\<forall>i \<in> set ?q. ob_RelayServerList t i = ob_RelayServerList s i"
    using kill_silent_mirror [of ?s m "ob_RelayInfoTimeoutList s" ?T] by auto
  have tick: "observer_Tick dropped Now (s, m) = Some (t, n)"
    using t(1) by (simp add: observer_Tick_def RemoveTimeoutRelayInfo_def)
  have dom: "dom (observed t) = set ?q" and dom_s: "dom (observed s) = set (ob_RelayInfoTimeoutList s)"
    using t(2,3) assms by (simp_all add: mirrored_def observer_inv_def)
  have kept: "i \<in> dom (observed s) \<and> ob_RelayServerList t i = ob_RelayServerList s i" if "i \<in> dom (observed t)" for i
    using t(5) that set_dropWhileD [of i "heard_before ?T ?s"] unfolding dom dom_s by blast
  have late: "i \<in> dom (observed t)"
    if "i \<in> dom (observed s)" "?T < li_LastKeepAliveTimestampMS (ob_RelayServerList s i)" for i
  proof -
    have "\<not> heard_before ?T ?s i"
      using that(2) by (simp add: heard_before_def not_le)
    moreover have "i \<in> set (takeWhile (heard_before ?T ?s) (ob_RelayInfoTimeoutList s) @ ?q)"
      using that(1) unfolding dom_s by simp
    ultimately show ?thesis
      unfolding dom set_append using set_takeWhileD [of i "heard_before ?T ?s"] by blast
  qed
  let ?le = "\<lambda>s i j. li_LastKeepAliveTimestampMS (ob_RelayServerList s i) \<le> li_LastKeepAliveTimestampMS (ob_RelayServerList s j)"
  have "heard_in_order t \<and> (\<forall>i \<in> dom (observed t). ?T < li_LastKeepAliveTimestampMS (ob_RelayServerList t i))"
    if ord: "heard_in_order s" "ob_LocalTicker s \<le> Now"
  proof -
    have "sorted_wrt (?le s) (takeWhile (heard_before ?T ?s) (ob_RelayInfoTimeoutList s) @ ?q)"
      using ord(1) by (simp add: heard_in_order_def)
    then have sq: "sorted_wrt (?le s) ?q"
      by (simp only: sorted_wrt_append)
    have st: "sorted_wrt (?le t) ?q"
      by (rule sorted_wrt_mono_rel [OF _ sq]) (use t(5) in simp)
    have late: "li_LastKeepAliveTimestampMS (ob_RelayServerList s i) \<le> Now" if "i \<in> set ?q" for i
      using ord set_dropWhileD [OF that] by (auto simp: heard_in_order_def intro: order_trans)
    have "?T < li_LastKeepAliveTimestampMS (ob_RelayServerList s i)" if "i \<in> set ?q" for i
    proof (cases ?q)
      case (Cons j r)
      then have "\<not> heard_before ?T ?s j"
        by (metis hd_dropWhile list.distinct(1) list.sel(1))
      then have "?T < li_LastKeepAliveTimestampMS (ob_RelayServerList s j)"
        by (simp add: heard_before_def not_le)
      moreover have "i = j \<or> ?le s j i"
        using sq that unfolding Cons by auto
      ultimately show ?thesis
        by auto
    next
      case Nil
      show ?thesis
        using that unfolding Nil by simp
    qed
    then show ?thesis
      using t(3,4,5) st late by (simp add: heard_in_order_def dom)
  qed
  then show ?thesis
    using tick t(2,4) kept late by (intro exI [of _ t] exI [of _ n]) blast
qed

end

section \<open>The manager is such a listener\<close>

definition placed :: "region_service \<Rightarrow> xNetAddress \<Rightarrow> uint32 option" where
  "placed RegionService Address =
     (case RegionService of
        None \<Rightarrow> None
      | Some lookup \<Rightarrow> if addr_ok Address then snd (GetRegion lookup Address) else None)"

definition manager_slots :: "relay_manager \<Rightarrow> relay_slots" where
  "manager_slots s i =
     (let Base = de_FullRelayInfoList s i in
      if rb_ServerId Base = 0 then None else Some (rb_ServerId Base, rb_ExportDeviceEntryAddress Base))"

definition relays_of :: "relay_slots \<Rightarrow> region_service \<Rightarrow> uint32 \<Rightarrow> nat set" where
  "relays_of slots RegionService C = {i. \<exists>p. slots i = Some p \<and> placed RegionService (snd p) = Some C}"

definition manager_ok :: "region_service \<Rightarrow> relay_manager \<Rightarrow> bool" where
  "manager_ok RegionService s \<longleftrightarrow>
     (\<forall>C. distinct (le_V4 (de_RelayInfoListByCountry s C)) \<and> le_V6 (de_RelayInfoListByCountry s C) = [] \<and>
        set (le_V4 (de_RelayInfoListByCountry s C)) = relays_of (manager_slots s) RegionService C)"

lemma manager_slots_simps [simp]:
  "manager_slots (unlink_node i s) = manager_slots s"
  "manager_slots (s\<lparr>de_RelayInfoListByCountry := L\<rparr>) = manager_slots s"
  "manager_slots (s\<lparr>de_InvalidRelayServerAddress := n\<rparr>) = manager_slots s"
  "manager_slots (s\<lparr>de_FullRelayInfoList := (de_FullRelayInfoList s)(i := B)\<rparr>) =
     (manager_slots s)(i := if rb_ServerId B = 0 then None else Some (rb_ServerId B, rb_ExportDeviceEntryAddress B))"
  by (auto simp: manager_slots_def unlink_node_def Let_def fun_eq_iff)

lemma manager_ok_new: "manager_ok R new_relay_manager"
  by (simp add: manager_ok_def new_relay_manager_def manager_slots_def no_base_def relays_of_def)

lemma manager_slots_new: "manager_slots new_relay_manager = observed new_observer"
  by (simp add: fun_eq_iff manager_slots_def new_relay_manager_def no_base_def observed_def new_observer_def no_relay_def)

lemma GetRegion_ready [simp]: "GetRegion lookup A \<noteq> (False, C)"
  by (simp add: GetRegion_def split: option.split)

lemma relays_of_fresh: "slots i = None \<Longrightarrow> i \<notin> relays_of slots R C"
  by (simp add: relays_of_def)

lemma relays_of_add:
  "slots i = None \<Longrightarrow> relays_of (slots(i \<mapsto> (Sid, A))) R C =
     (if placed R A = Some C then insert i (relays_of slots R C) else relays_of slots R C)"
  by (auto simp: relays_of_def)

lemma relays_of_remove: "relays_of (slots(i := None)) R C = relays_of slots R C - {i}"
  by (auto simp: relays_of_def)

text \<open>The node is linked nowhere, so the update only adds it at the end of one ring.\<close>

lemma UpdateRelayServerInfo_ok:
  assumes s: "manager_ok R s" and I: "rb_ServerId SI \<noteq> 0" "ix (rb_ServerId SI) < MAX_RELAY_SERVER_LIST_SIZE"
    and free: "manager_slots s (ix (rb_ServerId SI)) = None"
  shows "\<exists>t. UpdateRelayServerInfo ix R SI s = Some t \<and> manager_ok R t \<and>
    manager_slots t = (manager_slots s)(ix (rb_ServerId SI) \<mapsto> (rb_ServerId SI, rb_ExportDeviceEntryAddress SI))"
proof -
  define i where "i = ix (rb_ServerId SI)"
  let ?A = "rb_ExportDeviceEntryAddress SI"
  let ?L = "de_RelayInfoListByCountry s"
  let ?u = "s\<lparr>de_FullRelayInfoList := (de_FullRelayInfoList s)(i := SI)\<rparr>"
  have nodes: "i \<notin> set (le_V4 (?L C))" "le_V6 (?L C) = []" for C
    using s relays_of_fresh [of "manager_slots s", OF free] by (simp_all add: manager_ok_def i_def)
  have unlinked: "unlink_node i s = s"
  proof -
    have "(?L C)\<lparr>le_V4 := removeAll i (le_V4 (?L C)), le_V6 := removeAll i (le_V6 (?L C))\<rparr> = ?L C" for C
      using nodes [of C] by (cases "?L C") simp
    then show ?thesis
      unfolding unlink_node_def Let_def by simp
  qed
  have slots_u: "manager_slots ?u = (manager_slots s)(i \<mapsto> (rb_ServerId SI, ?A))"
    using I(1) by simp
  have other: "de_FullRelayInfoList s i \<noteq> SI"
    using free I(1) by (auto simp: manager_slots_def i_def Let_def split: if_splits)
  have step: "UpdateRelayServerInfo ix R SI s =
      (case placed R ?A of
         None \<Rightarrow> if R \<noteq> None \<and> snd (GetRegion (the R) ?A) \<noteq> None
                 then Some (?u\<lparr>de_InvalidRelayServerAddress := de_InvalidRelayServerAddress s + 1\<rparr>) else Some ?u
       | Some C \<Rightarrow> Some (?u\<lparr>de_RelayInfoListByCountry := ?L(C := (?L C)\<lparr>le_V4 := le_V4 (?L C) @ [i]\<rparr>)\<rparr>))"
    using I other
    by (auto simp: UpdateRelayServerInfo_def ExtractIndexFromRelayServerId_def Let_def unlinked i_def [symmetric]
        placed_def addr_ok_cases split: option.split prod.split)
  show ?thesis
  proof (cases "placed R ?A")
    case None
    then have "relays_of ((manager_slots s)(i \<mapsto> (rb_ServerId SI, ?A))) R C = relays_of (manager_slots s) R C" for C
      using relays_of_add [of "manager_slots s", OF free] by (simp add: i_def)
    then have "manager_ok R ?u" "manager_ok R (?u\<lparr>de_InvalidRelayServerAddress := n\<rparr>)" for n
      using s slots_u by (simp_all add: manager_ok_def)
    then show ?thesis
      using None step slots_u by (auto simp: i_def)
  next
    case (Some C)
    let ?t = "?u\<lparr>de_RelayInfoListByCountry := ?L(C := (?L C)\<lparr>le_V4 := le_V4 (?L C) @ [i]\<rparr>)\<rparr>"
    have "relays_of ((manager_slots s)(i \<mapsto> (rb_ServerId SI, ?A))) R D =
        (if C = D then insert i (relays_of (manager_slots s) R D) else relays_of (manager_slots s) R D)" for D
      using relays_of_add [of "manager_slots s", OF free, of "rb_ServerId SI" ?A R D] Some by (simp add: i_def)
    moreover have "manager_slots ?t = (manager_slots s)(i \<mapsto> (rb_ServerId SI, ?A))"
      using slots_u by simp
    ultimately have "manager_ok R ?t"
      using s nodes by (simp add: manager_ok_def)
    then show ?thesis
      using Some step slots_u by (intro exI [of _ ?t]) (simp add: i_def)
  qed
qed

lemma RemoveRelayServerInfo_ok:
  assumes s: "manager_ok R s" and I: "Sid \<noteq> 0" "ix Sid < MAX_RELAY_SERVER_LIST_SIZE"
    and here: "manager_slots s (ix Sid) = Some (Sid, A)"
  shows "\<exists>t. RemoveRelayServerInfo ix Sid s = Some t \<and> manager_ok R t \<and>
    manager_slots t = (manager_slots s)(ix Sid := None)"
proof -
  let ?t = "(unlink_node (ix Sid) s)\<lparr>de_FullRelayInfoList := (de_FullRelayInfoList s)(ix Sid := no_base)\<rparr>"
  have "rb_ServerId (de_FullRelayInfoList s (ix Sid)) = Sid"
    using here by (auto simp: manager_slots_def Let_def split: if_splits)
  then have step: "RemoveRelayServerInfo ix Sid s = Some ?t"
    using I by (simp add: RemoveRelayServerInfo_def ExtractIndexFromRelayServerId_def unlink_node_def)
  have slots: "manager_slots ?t = (manager_slots s)(ix Sid := None)"
    by (auto simp: manager_slots_def unlink_node_def no_base_def Let_def fun_eq_iff)
  have "manager_ok R ?t"
    using s by (simp add: manager_ok_def slots relays_of_remove) (simp add: unlink_node_def Let_def)
  with step slots show ?thesis
    by blast
qed

interpretation entry: relay_listener ix "manager_ok R" manager_slots "entry_OnRelayUpdated ix R" "entry_OnRelayDropped ix"
  for ix R
proof (unfold_locales, goal_cases)
  case (1 m I)
  then show ?case
    using UpdateRelayServerInfo_ok [of R m "\<lparr>rb_ServerId = li_ServerId I,
        rb_ExportDeviceEntryAddress = li_ExportDeviceEntryAddress I\<rparr>" ix]
    by (simp add: entry_OnRelayUpdated_def)
next
  case (2 m I)
  then show ?case
    using RemoveRelayServerInfo_ok [of R m "li_ServerId I" ix] by (simp add: entry_OnRelayDropped_def)
qed

section \<open>Runs of the device entry\<close>

datatype entry_event =
    Entry_Packet packet
  | Entry_Tick uint64
  | Entry_Challenge packet

record entry_config =
  ec_codec :: codec
  ec_index :: "uint64 \<Rightarrow> nat"
  ec_HexToStr :: "bytes \<Rightarrow> bytes"
  ec_region :: "xNetAddress \<Rightarrow> mmdb_answer"
  ec_max_payload :: nat

type_synonym entry_state = "relay_observer \<times> relay_manager"

fun entry_step :: "entry_config \<Rightarrow> entry_event \<Rightarrow> entry_state \<Rightarrow> entry_state option" where
  "entry_step k (Entry_Packet P) st =
     map_option snd (observer_OnPacket (ec_codec k) (ec_index k)
       (entry_OnRelayUpdated (ec_index k) (Some (ec_region k))) (entry_OnRelayDropped (ec_index k)) P st)"
| "entry_step k (Entry_Tick Now) st = observer_Tick (entry_OnRelayDropped (ec_index k)) Now st"
| "entry_step k (Entry_Challenge P) st =
     map_option (\<lambda>(_, m). (fst st, m))
       (OnDeviceChallenge (ec_codec k) (ec_HexToStr k) (Some (ec_region k)) (ec_max_payload k) P (snd st))"

fun entry_run :: "entry_config \<Rightarrow> entry_event list \<Rightarrow> entry_state \<Rightarrow> entry_state option" where
  "entry_run k [] st = Some st"
| "entry_run k (e # es) st = Option.bind (entry_step k e st) (entry_run k es)"

fun entry_times :: "entry_event list \<Rightarrow> uint64 list" where
  "entry_times [] = []"
| "entry_times (Entry_Tick Now # es) = Now # entry_times es"
| "entry_times (_ # es) = entry_times es"

abbreviation entry_mirrored :: "entry_config \<Rightarrow> entry_state \<Rightarrow> bool" where
  "entry_mirrored k \<equiv> mirrored (ec_index k) (manager_ok (Some (ec_region k))) manager_slots"

lemma GetRelayServer_total:
  assumes s: "manager_ok (Some lookup) s" and A: "addr_ok A"
  shows "GetRelayServerByDeviceIp (Some lookup) A s =
    (case placed (Some lookup) A of
       None \<Rightarrow> Some (no_address, s)
     | Some C \<Rightarrow>
         (case if Is4 A then le_V4 (de_RelayInfoListByCountry s C) else [] of
            [] \<Rightarrow> Some (no_address, s)
          | i # q \<Rightarrow> Some (rb_ExportDeviceEntryAddress (de_FullRelayInfoList s i),
              s\<lparr>de_RelayInfoListByCountry := (de_RelayInfoListByCountry s)
                 (C := (de_RelayInfoListByCountry s C)\<lparr>le_V4 := q @ [i]\<rparr>)\<rparr>)))"
proof -
  have "le_V6 (de_RelayInfoListByCountry s C) = []" for C
    using s by (simp add: manager_ok_def)
  then show ?thesis
    using A by (auto simp: GetRelayServerByDeviceIp_def placed_def Let_def split: option.split prod.split list.split)
qed

lemma manager_ok_rotate:
  assumes "manager_ok R s" and "le_V4 (de_RelayInfoListByCountry s C) = i # q"
  shows "manager_ok R (s\<lparr>de_RelayInfoListByCountry := (de_RelayInfoListByCountry s)
      (C := (de_RelayInfoListByCountry s C)\<lparr>le_V4 := q @ [i]\<rparr>)\<rparr>)"
proof -
  have "distinct (i # q)" "set (i # q) = relays_of (manager_slots s) R C"
    using assms by (metis manager_ok_def)+
  then have "distinct (q @ [i])" "set (q @ [i]) = relays_of (manager_slots s) R C"
    by auto
  then show ?thesis
    using assms by (simp add: manager_ok_def)
qed

lemma GetRelayServer_ok:
  assumes "manager_ok (Some lookup) s" and "addr_ok A"
  shows "\<exists>B t. GetRelayServerByDeviceIp (Some lookup) A s = Some (B, t) \<and> manager_ok (Some lookup) t \<and>
    manager_slots t = manager_slots s"
proof (cases "placed (Some lookup) A")
  case (Some C)
  show ?thesis
  proof (cases "if Is4 A then le_V4 (de_RelayInfoListByCountry s C) else []")
    case (Cons i q)
    then have "le_V4 (de_RelayInfoListByCountry s C) = i # q"
      by (simp split: if_splits)
    from manager_ok_rotate [OF assms(1) this] show ?thesis
      using Some Cons by (simp add: GetRelayServer_total [OF assms])
  qed (use assms(1) Some in \<open>simp add: GetRelayServer_total [OF assms]\<close>)
qed (use assms in \<open>simp add: GetRelayServer_total\<close>)

lemma OnDeviceChallenge_ok:
  assumes "manager_ok (Some lookup) s"
  shows "\<exists>out t. OnDeviceChallenge c h (Some lookup) mp P s = Some (out, t) \<and> manager_ok (Some lookup) t \<and>
    manager_slots t = manager_slots s"
proof (cases "pk_CommandId P = Cmd_DV_CC_Challenge")
  case True
  show ?thesis
  proof (cases "xPP_DeviceChallenge_Deserialize c (pk_Payload P)")
    case (Some Rq)
    then obtain Req rest where Req: "xPP_DeviceChallenge_Deserialize c (pk_Payload P) = Some (Req, rest)"
      by (cases Rq) auto
    show ?thesis
    proof (cases "addr_ok (challenge_address h Req)")
      case A: True
      obtain B t where "GetRelayServerByDeviceIp (Some lookup) (challenge_address h Req) s = Some (B, t)"
          "manager_ok (Some lookup) t" "manager_slots t = manager_slots s"
        using GetRelayServer_ok [OF assms A] by blast
      then show ?thesis
        using True Req A by (simp add: OnDeviceChallenge_def Let_def)
    qed (use True Req assms in \<open>simp add: OnDeviceChallenge_def Let_def\<close>)
  qed (use True assms in \<open>simp add: OnDeviceChallenge_def\<close>)
qed (use assms in \<open>simp add: OnDeviceChallenge_def\<close>)

lemma entry_step_total:
  assumes "entry_mirrored k st"
  shows "\<exists>t. entry_step k e st = Some t \<and> entry_mirrored k t \<and>
    (heard_in_order (fst st) \<and> (\<forall>T \<in> set (entry_times [e]). ob_LocalTicker (fst st) \<le> T) \<longrightarrow> heard_in_order (fst t)) \<and>
    ob_LocalTicker (fst t) = (case entry_times [e] of [] \<Rightarrow> ob_LocalTicker (fst st) | T # _ \<Rightarrow> T)"
proof (cases e)
  case (Entry_Packet P)
  then show ?thesis
    using entry.OnPacket_mirror [of "ec_index k" "Some (ec_region k)" "fst st" "snd st" "ec_codec k" P] assms by auto
next
  case (Entry_Tick Now)
  then show ?thesis
    using entry.Tick_mirror [of "ec_index k" "Some (ec_region k)" "fst st" "snd st" Now] assms by auto
next
  case (Entry_Challenge P)
  then show ?thesis
    using OnDeviceChallenge_ok [of "ec_region k" "snd st" "ec_codec k" "ec_HexToStr k" "ec_max_payload k" P] assms
    by (auto simp: mirrored_def)
qed

lemma entry_times_Cons: "entry_times (e # es) = entry_times [e] @ entry_times es"
  by (cases e) auto

lemma entry_run_total:
  assumes "entry_mirrored k st"
  shows "\<exists>t. entry_run k es st = Some t \<and> entry_mirrored k t \<and>
    (heard_in_order (fst st) \<and> sorted (ob_LocalTicker (fst st) # entry_times es) \<longrightarrow>
       heard_in_order (fst t) \<and> ob_LocalTicker (fst t) = last (ob_LocalTicker (fst st) # entry_times es))"
  using assms
proof (induction es arbitrary: st)
  case (Cons e es)
  obtain u where u: "entry_step k e st = Some u" "entry_mirrored k u"
      "heard_in_order (fst st) \<and> (\<forall>T \<in> set (entry_times [e]). ob_LocalTicker (fst st) \<le> T) \<longrightarrow> heard_in_order (fst u)"
      "ob_LocalTicker (fst u) = (case entry_times [e] of [] \<Rightarrow> ob_LocalTicker (fst st) | T # _ \<Rightarrow> T)"
    using entry_step_total [OF Cons.prems] by blast
  obtain t where t: "entry_run k es u = Some t" "entry_mirrored k t"
      "heard_in_order (fst u) \<and> sorted (ob_LocalTicker (fst u) # entry_times es) \<longrightarrow>
         heard_in_order (fst t) \<and> ob_LocalTicker (fst t) = last (ob_LocalTicker (fst u) # entry_times es)"
    using Cons.IH [OF u(2)] by blast
  have "heard_in_order (fst t) \<and> ob_LocalTicker (fst t) = last (ob_LocalTicker (fst st) # entry_times (e # es))"
    if "heard_in_order (fst st)" "sorted (ob_LocalTicker (fst st) # entry_times (e # es))"
    using that u(3,4) t(3) by (cases e) auto
  with u(1) t(1,2) show ?case
    by auto
qed simp

lemma entry_start: "entry_mirrored k (new_observer, new_relay_manager)"
  by (simp add: mirrored_def observer_inv_new manager_ok_new manager_slots_new)

section \<open>The rings follow the announcements\<close>

lemma entry_ring:
  assumes inv: "entry_mirrored k (s, m)"
  shows "\<forall>C. let ring = le_V4 (de_RelayInfoListByCountry m C) in
        distinct ring \<and>
        set ring = {i. li_ServerId (ob_RelayServerList s i) \<noteq> 0 \<and>
          placed (Some (ec_region k)) (li_ExportDeviceEntryAddress (ob_RelayServerList s i)) = Some C} \<and>
        (\<forall>i \<in> set ring. rb_ExportDeviceEntryAddress (de_FullRelayInfoList m i) =
           li_ExportDeviceEntryAddress (ob_RelayServerList s i))"
proof -
  have slots: "manager_slots m = observed s" and ok: "manager_ok (Some (ec_region k)) m"
    using inv by (simp_all add: mirrored_def)
  have live: "relays_of (observed s) R C = {i. li_ServerId (ob_RelayServerList s i) \<noteq> 0 \<and>
      placed R (li_ExportDeviceEntryAddress (ob_RelayServerList s i)) = Some C}" for R C
    by (auto simp: relays_of_def observed_some)
  have addr: "rb_ExportDeviceEntryAddress (de_FullRelayInfoList m i) = li_ExportDeviceEntryAddress (ob_RelayServerList s i)"
    if "li_ServerId (ob_RelayServerList s i) \<noteq> 0" for i
    using that fun_cong [OF slots, of i]
    by (simp add: manager_slots_def observed_def Let_def split: if_splits)
  show ?thesis
    using ok addr by (simp add: manager_ok_def slots live Let_def)
qed


lemma only_element: "distinct xs \<Longrightarrow> set xs = {x} \<Longrightarrow> xs = [x]"
  by (cases xs; cases "tl xs") auto

definition sample_relay_address :: xNetAddress where
  "sample_relay_address = \<lparr>na_ip = IPV4 [10, 0, 0, 9], na_port = 7000\<rparr>"

definition sample_entry :: entry_config where
  "sample_entry =
     \<lparr>ec_codec = sample_codec, ec_index = unat, ec_HexToStr = (\<lambda>bs. bs),
      ec_region = (\<lambda>_. Mmdb_Entry True True [67, 78]), ec_max_payload = 1000\<rparr>"

definition sample_broadcast :: xPP_RelayInfoBroadcast where
  "sample_broadcast = \<lparr>ri_Type = 0, ri_ServerId = 1, ri_ExportDeviceEntryAddress = sample_relay_address,
     ri_ExportProxyEntryAddress = no_address\<rparr>"

definition sample_heartbeat :: packet where
  "sample_heartbeat = \<lparr>pk_CommandId = Cmd_RelayHeartbeatBroadcast, pk_RequestId = 0,
     pk_Payload = xPP_RelayInfoBroadcast_Serialize sample_codec sample_broadcast\<rparr>"

definition sample_country :: uint32 where "sample_country = CountryCodeToCountryId (67, 78)"

lemma sample_placed: "addr_ok A \<Longrightarrow> placed (Some (ec_region sample_entry)) A = Some sample_country"
  by (simp add: placed_def sample_entry_def GetRegion_def GetCountry_def sample_country_def)

lemma sample_relay_address_simps [simp]:
  "addr_ok sample_relay_address" "addr_wf sample_relay_address" "addr_wf no_address"
  by (simp_all add: sample_relay_address_def addr_ok_def addr_wf_def no_address_def)

lemma sample_heartbeat_run:
  "\<exists>st. entry_run sample_entry [Entry_Packet sample_heartbeat] (new_observer, new_relay_manager) = Some st \<and>
     entry_mirrored sample_entry st \<and> observed (fst st) = [1 \<mapsto> (1, sample_relay_address)] \<and>
     li_LastKeepAliveTimestampMS (ob_RelayServerList (fst st) 1) = 0"
proof -
  have read: "xPP_RelayInfoBroadcast_Deserialize sample_codec (pk_Payload sample_heartbeat) = Some (sample_broadcast, [])"
    using xPP_RelayInfoBroadcast_roundtrip [of sample_codec sample_broadcast "[]"] sample_codec_ok
    by (simp add: sample_heartbeat_def sample_broadcast_def)
  obtain t n where "OnRelayHeartbeat (entry_OnRelayUpdated unat (Some (ec_region sample_entry))) (entry_OnRelayDropped unat) 1
      sample_broadcast (new_observer, new_relay_manager) = Some (t, n)"
      "mirrored unat (manager_ok (Some (ec_region sample_entry))) manager_slots (t, n)"
      "observed t = (observed new_observer)(1 \<mapsto> (1, sample_relay_address))"
      "li_LastKeepAliveTimestampMS (ob_RelayServerList t 1) = 0"
    using entry.OnRelayHeartbeat_mirror [of unat "Some (ec_region sample_entry)" new_observer new_relay_manager sample_broadcast 1]
      entry_start [of sample_entry]
    by (auto simp: sample_broadcast_def sample_entry_def MAX_RELAY_SERVER_LIST_SIZE_def new_observer_def)
  moreover have "observed new_observer = Map.empty"
    by (auto simp: observed_def new_observer_def no_relay_def)
  moreover have "ri_ServerId sample_broadcast = 1" "pk_CommandId sample_heartbeat = Cmd_RelayHeartbeatBroadcast"
      "ec_codec sample_entry = sample_codec" "ec_index sample_entry = unat"
    by (simp_all add: sample_broadcast_def sample_heartbeat_def sample_entry_def)
  ultimately show ?thesis
    using read by (intro exI [of _ "(t, n)"])
      (simp add: observer_OnPacket_def ExtractIndexFromRelayServerId_def MAX_RELAY_SERVER_LIST_SIZE_def)
qed


section \<open>Silent relays go\<close>

lemma word_recent: "W \<le> Now \<Longrightarrow> L \<le> Now \<Longrightarrow> Now - W < L \<longleftrightarrow> Now - L < W" for Now :: uint64
  by (simp add: word_less_nat_alt word_le_nat_alt unat_sub) arith

text \<open>
  C31: a relay that is silent for six minutes is forgotten, and no other is. With a clock that does
  not go back, a tick at a time that is at least the timeout leaves exactly the relays that were
  heard less than \<open>RELAY_HEARTBEAT_TIMEOUT_MS\<close> ago, unchanged.
\<close>

theorem silent_relays_dropped:
  assumes "entry_run k es (new_observer, new_relay_manager) = Some st"
    and "sorted (entry_times es @ [Now])" and "RELAY_HEARTBEAT_TIMEOUT_MS \<le> Now"
  shows "\<exists>t. entry_step k (Entry_Tick Now) st = Some t \<and>
    (\<forall>i. li_ServerId (ob_RelayServerList (fst t) i) \<noteq> 0 \<longleftrightarrow>
       li_ServerId (ob_RelayServerList (fst st) i) \<noteq> 0 \<and>
       Now - li_LastKeepAliveTimestampMS (ob_RelayServerList (fst st) i) < RELAY_HEARTBEAT_TIMEOUT_MS) \<and>
    (\<forall>i. li_ServerId (ob_RelayServerList (fst t) i) \<noteq> 0 \<longrightarrow>
       ob_RelayServerList (fst t) i = ob_RelayServerList (fst st) i)"
proof -
  have start: "ob_LocalTicker new_observer = 0" and srt: "sorted (0 # entry_times es)"
    using assms(2) by (simp_all add: new_observer_def sorted_append)
  have "heard_in_order (fst st) \<and> ob_LocalTicker (fst st) = last (0 # entry_times es) \<and> entry_mirrored k st"
    using entry_run_total [OF entry_start, of k es] assms(1) heard_in_order_new srt unfolding fst_conv start by simp
  moreover have "last (0 # entry_times es) \<le> Now"
    using assms(2) by (auto simp: sorted_append)
  ultimately have ord: "heard_in_order (fst st)" "ob_LocalTicker (fst st) \<le> Now" and inv: "entry_mirrored k (fst st, snd st)"
    by simp_all
  obtain t n where t: "observer_Tick (entry_OnRelayDropped (ec_index k)) Now (fst st, snd st) = Some (t, n)"
      "\<forall>i \<in> dom (observed t). i \<in> dom (observed (fst st)) \<and> ob_RelayServerList t i = ob_RelayServerList (fst st) i"
      "\<forall>i \<in> dom (observed (fst st)). Now - RELAY_HEARTBEAT_TIMEOUT_MS <
         li_LastKeepAliveTimestampMS (ob_RelayServerList (fst st) i) \<longrightarrow> i \<in> dom (observed t)"
      "\<forall>i \<in> dom (observed t). Now - RELAY_HEARTBEAT_TIMEOUT_MS < li_LastKeepAliveTimestampMS (ob_RelayServerList t i)"
    using entry.Tick_mirror [OF inv, of Now] ord by blast
  have live: "i \<in> dom (observed s) \<longleftrightarrow> li_ServerId (ob_RelayServerList s i) \<noteq> 0" for s i
    using observed_zero [of s i] by (simp add: domIff)
  have "dom (observed (fst st)) = set (ob_RelayInfoTimeoutList (fst st))"
    using inv by (simp add: mirrored_def observer_inv_def)
  then have heard: "li_LastKeepAliveTimestampMS (ob_RelayServerList (fst st) i) \<le> Now"
    if "i \<in> dom (observed (fst st))" for i
    using ord that by (auto simp: heard_in_order_def intro: order_trans)
  have iff: "i \<in> dom (observed t) \<longleftrightarrow> i \<in> dom (observed (fst st)) \<and>
      Now - li_LastKeepAliveTimestampMS (ob_RelayServerList (fst st) i) < RELAY_HEARTBEAT_TIMEOUT_MS" for i
  proof (cases "i \<in> dom (observed (fst st))")
    case True
    then show ?thesis
      using t(2-4) word_recent [OF assms(3) heard [OF True]] by auto
  qed (use t(2) in blast)
  have "ob_RelayServerList t i = ob_RelayServerList (fst st) i" if "li_ServerId (ob_RelayServerList t i) \<noteq> 0" for i
    using t(2) that unfolding live [symmetric] by blast
  then show ?thesis
    using t(1) iff unfolding live by (intro exI [of _ "(t, n)"] conjI allI impI) simp_all
qed

theorem silent_relays_dropped_witness:
  "\<exists>st t. entry_run sample_entry [Entry_Packet sample_heartbeat] (new_observer, new_relay_manager) = Some st \<and>
     li_ServerId (ob_RelayServerList (fst st) 1) \<noteq> 0 \<and>
     entry_step sample_entry (Entry_Tick 360000) st = Some t \<and> li_ServerId (ob_RelayServerList (fst t) 1) = 0"
proof -
  obtain st where st: "entry_run sample_entry [Entry_Packet sample_heartbeat] (new_observer, new_relay_manager) = Some st"
      "observed (fst st) = [1 \<mapsto> (1, sample_relay_address)]"
      "li_LastKeepAliveTimestampMS (ob_RelayServerList (fst st) 1) = 0"
    using sample_heartbeat_run by auto
  have "li_ServerId (ob_RelayServerList (fst st) 1) \<noteq> 0"
    using observed_zero [of "fst st" 1] by (simp add: st(2))
  moreover have "sorted (entry_times [Entry_Packet sample_heartbeat] @ [360000])" "RELAY_HEARTBEAT_TIMEOUT_MS \<le> 360000"
    by (simp_all add: RELAY_HEARTBEAT_TIMEOUT_MS_def)
  from silent_relays_dropped [OF st(1) this] obtain t where
      "entry_step sample_entry (Entry_Tick 360000) st = Some t"
      "li_ServerId (ob_RelayServerList (fst t) 1) \<noteq> 0 \<longleftrightarrow> li_ServerId (ob_RelayServerList (fst st) 1) \<noteq> 0 \<and>
         360000 - li_LastKeepAliveTimestampMS (ob_RelayServerList (fst st) 1) < RELAY_HEARTBEAT_TIMEOUT_MS"
    by blast
  ultimately show ?thesis
    using st(1,3) by (intro exI [of _ st] exI [of _ t]) (simp add: RELAY_HEARTBEAT_TIMEOUT_MS_def del: entry_step.simps)
qed

section \<open>What a device is answered\<close>

definition challenge_packet :: "codec \<Rightarrow> xPP_DeviceChallenge \<Rightarrow> packet" where
  "challenge_packet c Req =
     \<lparr>pk_CommandId = Cmd_DV_CC_Challenge, pk_RequestId = 0, pk_Payload = xPP_DeviceChallenge_Serialize c Req\<rparr>"

definition challenge_reply :: "codec \<Rightarrow> nat \<Rightarrow> xNetAddress \<Rightarrow> packet option list" where
  "challenge_reply c mp Relay =
     [WriteMessage mp Cmd_DV_CC_ChallengeResp 0 (xPP_DeviceChallengeResp_Serialize c (challenge_response Relay))]"

definition request_ok :: "codec \<Rightarrow> xPP_DeviceChallenge \<Rightarrow> bool" where
  "request_ok c Req \<longleftrightarrow> str_ok c (dc_AddressKey4 Req) \<and> str_ok c (dc_AddressKey6 Req) \<and> str_ok c (dc_Sign Req)"

lemma challenge_read:
  assumes "codec_ok c" and "request_ok c Req"
  shows "xPP_DeviceChallenge_Deserialize c (pk_Payload (challenge_packet c Req)) = Some (Req, [])"
  using xPP_DeviceChallenge_roundtrip [of c Req "[]"] assms by (simp add: challenge_packet_def request_ok_def)

lemma OnDeviceChallenge_read:
  assumes "codec_ok c" and "request_ok c Req"
  shows "OnDeviceChallenge c h R mp (challenge_packet c Req) m =
    (if \<not> addr_ok (challenge_address h Req) then Some ([], m)
     else map_option (\<lambda>(Relay, m). (challenge_reply c mp Relay, m))
       (GetRelayServerByDeviceIp R (challenge_address h Req) m))"
  using challenge_read [OF assms]
  by (simp add: OnDeviceChallenge_def challenge_reply_def Let_def challenge_packet_def split: option.split)

lemma challenge_accepted:
  assumes "codec_ok c" and "request_ok c Req" and "manager_ok (Some lookup) m"
    and A: "Is4 (challenge_address h Req)" "placed (Some lookup) (challenge_address h Req) = Some C"
    and V4: "le_V4 (de_RelayInfoListByCountry m C) = i # q"
  shows "\<exists>n. OnDeviceChallenge c h (Some lookup) mp (challenge_packet c Req) m =
        Some (challenge_reply c mp (rb_ExportDeviceEntryAddress (de_FullRelayInfoList m i)), n) \<and>
      le_V4 (de_RelayInfoListByCountry n C) = q @ [i] \<and>
      dp_Accepted (challenge_response (rb_ExportDeviceEntryAddress (de_FullRelayInfoList m i))) \<and>
      placed (Some lookup) (rb_ExportDeviceEntryAddress (de_FullRelayInfoList m i)) = Some C"
proof -
  have "set (i # q) = relays_of (manager_slots m) (Some lookup) C"
    using assms(3) V4 by (metis manager_ok_def)
  then have "i \<in> relays_of (manager_slots m) (Some lookup) C"
    by auto
  then have i: "placed (Some lookup) (rb_ExportDeviceEntryAddress (de_FullRelayInfoList m i)) = Some C"
    by (auto simp: relays_of_def manager_slots_def Let_def split: if_splits)
  then have "addr_ok (rb_ExportDeviceEntryAddress (de_FullRelayInfoList m i))"
    by (auto simp: placed_def split: if_splits)
  then have acc: "dp_Accepted (challenge_response (rb_ExportDeviceEntryAddress (de_FullRelayInfoList m i)))"
    by (simp add: challenge_response_def Let_def)
  have ok: "addr_ok (challenge_address h Req)"
    using A(1) by (simp add: addr_ok_cases)
  show ?thesis
    using A V4 i acc ok OnDeviceChallenge_read [OF assms(1,2), of h "Some lookup" mp m] GetRelayServer_total [OF assms(3) ok] by simp
qed

text \<open>
  C32: how a challenge is answered. A device with an IPv4 address in a country whose ring is not
  empty is accepted with the address of the relay at the head of the ring, which goes to the tail,
  so that consecutive devices get the relays in turn; that relay lies in the device's country. If
  the country is unknown or its ring is empty the device is refused for ten minutes. A device with
  an IPv6 address is always refused, whatever relays there are, because every relay, IPv6 or not, is
  linked into the IPv4 ring. A challenge without an address key is not answered.
\<close>

theorem device_challenge_answered:
  assumes "codec_ok c" and "request_ok c Req" and "manager_ok (Some lookup) m"
  shows "(\<forall>C i q. Is4 (challenge_address h Req) \<and> placed (Some lookup) (challenge_address h Req) = Some C \<and> le_V4 (de_RelayInfoListByCountry m C) = i # q \<longrightarrow>
       (\<exists>n. OnDeviceChallenge c h (Some lookup) mp (challenge_packet c Req) m =
          Some (challenge_reply c mp (rb_ExportDeviceEntryAddress (de_FullRelayInfoList m i)), n) \<and>
        le_V4 (de_RelayInfoListByCountry n C) = q @ [i] \<and>
        dp_Accepted (challenge_response (rb_ExportDeviceEntryAddress (de_FullRelayInfoList m i))) \<and>
        placed (Some lookup) (rb_ExportDeviceEntryAddress (de_FullRelayInfoList m i)) = Some C)) \<and>
    (Is4 (challenge_address h Req) \<and> (case placed (Some lookup) (challenge_address h Req) of None \<Rightarrow> True | Some C \<Rightarrow> le_V4 (de_RelayInfoListByCountry m C) = []) \<longrightarrow>
       OnDeviceChallenge c h (Some lookup) mp (challenge_packet c Req) m = Some (challenge_reply c mp no_address, m)) \<and>
    (Is6 (challenge_address h Req) \<longrightarrow> OnDeviceChallenge c h (Some lookup) mp (challenge_packet c Req) m = Some (challenge_reply c mp no_address, m)) \<and>
    \<not> dp_Accepted (challenge_response no_address) \<and> dp_BanVersionTimeMS (challenge_response no_address) = 600000 \<and>
    (dc_AddressKey4 Req = [] \<and> dc_AddressKey6 Req = [] \<longrightarrow> OnDeviceChallenge c h (Some lookup) mp (challenge_packet c Req) m = Some ([], m))"
proof -
  let ?A = "challenge_address h Req" and ?P = "challenge_packet c Req"
  note answer = OnDeviceChallenge_read [OF assms(1,2), of h "Some lookup" mp m]
  note relay = challenge_accepted [OF assms, of h _ _ _ mp]
  have none: "OnDeviceChallenge c h (Some lookup) mp ?P m = Some (challenge_reply c mp no_address, m)"
    if "addr_ok ?A" "case placed (Some lookup) ?A of None \<Rightarrow> True | Some C \<Rightarrow> Is4 ?A \<longrightarrow> le_V4 (de_RelayInfoListByCountry m C) = []"
    using that answer GetRelayServer_total [OF assms(3) that(1)]
    by (auto split: option.splits)
  have v4: "OnDeviceChallenge c h (Some lookup) mp ?P m = Some (challenge_reply c mp no_address, m)"
    if "Is4 ?A" "case placed (Some lookup) ?A of None \<Rightarrow> True | Some C \<Rightarrow> le_V4 (de_RelayInfoListByCountry m C) = []"
    using none that by (auto simp: addr_ok_cases split: option.splits)
  have v6: "OnDeviceChallenge c h (Some lookup) mp ?P m = Some (challenge_reply c mp no_address, m)" if "Is6 ?A"
  proof (rule none)
    have "\<not> Is4 ?A"
      using that Is4_not_Is6 by blast
    then show "case placed (Some lookup) ?A of None \<Rightarrow> True | Some C \<Rightarrow> Is4 ?A \<longrightarrow> le_V4 (de_RelayInfoListByCountry m C) = []"
      by (simp split: option.split)
  qed (use that in \<open>simp add: addr_ok_cases\<close>)
  have empty: "OnDeviceChallenge c h (Some lookup) mp ?P m = Some ([], m)"
    if "dc_AddressKey4 Req = []" "dc_AddressKey6 Req = []"
    using answer that by (simp add: challenge_address_def)
  show ?thesis
    using relay v4 v6 empty
    by (auto simp: challenge_response_def CLIENT_CHALLENGE_RETRY_TIMEOUT_MS_def Let_def)
qed

definition sample_challenge :: xPP_DeviceChallenge where
  "sample_challenge = \<lparr>dc_Version = 1, dc_ChannelId = 2, dc_Timestamp = 3, dc_AddressKey4 = [55, 49, 50, 51, 52],
     dc_AddressKey6 = [], dc_Sign = []\<rparr>"

theorem device_challenge_answered_witness:
  "\<exists>st n. entry_run sample_entry [Entry_Packet sample_heartbeat] (new_observer, new_relay_manager) = Some st \<and>
     OnDeviceChallenge sample_codec (\<lambda>bs. bs) (Some (ec_region sample_entry)) 1000
       (challenge_packet sample_codec sample_challenge) (snd st) =
       Some (challenge_reply sample_codec 1000 sample_relay_address, n)"
proof -
  obtain s m where run: "entry_run sample_entry [Entry_Packet sample_heartbeat] (new_observer, new_relay_manager) = Some (s, m)"
      and mir: "entry_mirrored sample_entry (s, m)" and obs: "observed s = [1 \<mapsto> (1, sample_relay_address)]"
    using sample_heartbeat_run by auto
  have m: "manager_ok (Some (ec_region sample_entry)) m" "manager_slots m = [1 \<mapsto> (1, sample_relay_address)]"
    using mir obs by (simp_all add: mirrored_def)
  let ?A = "challenge_address (\<lambda>bs. bs) sample_challenge"
  have A: "Is4 ?A" "addr_ok ?A"
    by (simp_all add: challenge_address_def sample_challenge_def DecryptAddressKey_def Let_def Is4_def addr_ok_def)
  have "distinct (le_V4 (de_RelayInfoListByCountry m sample_country))"
    "set (le_V4 (de_RelayInfoListByCountry m sample_country)) = {1}"
    using m sample_placed by (auto simp: manager_ok_def relays_of_def split: if_splits)
  then have ring: "le_V4 (de_RelayInfoListByCountry m sample_country) = 1 # []"
    by (rule only_element)
  have "rb_ExportDeviceEntryAddress (de_FullRelayInfoList m 1) = sample_relay_address"
    using fun_cong [OF m(2), of 1] by (simp add: manager_slots_def Let_def split: if_splits)
  moreover have "request_ok sample_codec sample_challenge"
    by (simp add: request_ok_def sample_challenge_def str_ok_def sample_codec_def)
  then have "\<exists>n. OnDeviceChallenge sample_codec (\<lambda>bs. bs) (Some (ec_region sample_entry)) 1000
       (challenge_packet sample_codec sample_challenge) m =
       Some (challenge_reply sample_codec 1000 (rb_ExportDeviceEntryAddress (de_FullRelayInfoList m 1)), n)"
    using device_challenge_answered [OF sample_codec_ok _ m(1), of sample_challenge "\<lambda>bs. bs" 1000]
      A(1) sample_placed [OF A(2)] ring by blast
  ultimately show ?thesis
    using run by (intro exI [of _ "(s, m)"]) simp
qed

section \<open>The key of an address gives it back\<close>

lemma unchain_chain: "unchain_bytes e (chain_bytes e bs) = bs"
  by (induction bs arbitrary: e) (simp_all add: Let_def xor.assoc [symmetric])

lemma length_chain [simp]: "length (chain_bytes e bs) = length bs"
  by (induction bs arbitrary: e) (simp_all add: Let_def)

lemma address_key_told:
  assumes "codec_ok c" and "\<forall>bs. HexToStr (StrToHex X bs) = bs" and "str_ok c (am_Message Req)"
    and "addr_ok Remote" and "addr_wf Remote"
  shows "\<exists>bs. bs \<noteq> [] \<and> length bs \<le> 17 \<and> challenge_OnUdpPacket c X mp Remote
      \<lparr>pk_CommandId = Cmd_DV_CC_GetAddressKey, pk_RequestId = 0, pk_Payload = xPP_AddressChallenge_Serialize c Req\<rparr> EC =
      Some ([WriteMessage mp Cmd_DV_CC_GetAddressKeyResp 0
        (xPP_AddressChallengeResp_Serialize c \<lparr>ak_AddressKey = StrToHex X bs\<rparr>)], EC + 1) \<and>
    DecryptAddressKey HexToStr (StrToHex X bs) = addr_Ip Remote"
proof -
  have read: "xPP_AddressChallenge_Deserialize c (xPP_AddressChallenge_Serialize c Req) = Some (Req, [])"
    using xPP_AddressChallenge_roundtrip [of c Req "[]"] assms(1,3) by simp
  let ?e = "(EC + 1) OR 0x37"
  show ?thesis
  proof (cases "na_ip Remote")
    case (IPV4 b)
    then show ?thesis
      using assms(2,4,5) read
      by (intro exI [of _ "?e # chain_bytes ?e b"])
        (simp add: challenge_OnUdpPacket_def EncryptAddressKey_def DecryptAddressKey_def addr_ok_def addr_wf_def
          Let_def unchain_chain addr_Ip_def)
  next
    case (IPV6 b)
    then show ?thesis
      using assms(2,4,5) read
      by (intro exI [of _ "?e # chain_bytes ?e b"])
        (simp add: challenge_OnUdpPacket_def EncryptAddressKey_def DecryptAddressKey_def addr_ok_def addr_wf_def
          Let_def unchain_chain addr_Ip_def)
  qed (use assms(4) in \<open>simp add: addr_ok_def\<close>)
qed

text \<open>
  The key that a device is told decrypts to its own address. Whatever the counter, a device
  that asks from an IPv4 or IPv6 address is answered with one key, and the device entry reads from
  that key the address without its port; the counter advances by one.
\<close>

lemma address_key_roundtrip:
  assumes "codec_ok c" and "\<forall>bs. HexToStr (StrToHex X bs) = bs" and "str_ok c (am_Message Req)"
    and "addr_ok Remote" and "addr_wf Remote"
  shows "\<exists>K. challenge_OnUdpPacket c X mp Remote
      \<lparr>pk_CommandId = Cmd_DV_CC_GetAddressKey, pk_RequestId = 0, pk_Payload = xPP_AddressChallenge_Serialize c Req\<rparr> EC =
      Some ([WriteMessage mp Cmd_DV_CC_GetAddressKeyResp 0 (xPP_AddressChallengeResp_Serialize c \<lparr>ak_AddressKey = K\<rparr>)], EC + 1) \<and>
    DecryptAddressKey HexToStr K = addr_Ip Remote"
  using address_key_told [OF assms, of mp EC] by blast

lemma address_key_roundtrip_witness:
  "\<exists>K. challenge_OnUdpPacket sample_codec (text_instance\<lparr>StrToHex := \<lambda>bs. bs\<rparr>) 1000 sample_relay_address
      \<lparr>pk_CommandId = Cmd_DV_CC_GetAddressKey, pk_RequestId = 0,
       pk_Payload = xPP_AddressChallenge_Serialize sample_codec \<lparr>am_Message = []\<rparr>\<rparr> 55 =
      Some ([WriteMessage 1000 Cmd_DV_CC_GetAddressKeyResp 0
        (xPP_AddressChallengeResp_Serialize sample_codec \<lparr>ak_AddressKey = K\<rparr>)], 56) \<and>
    DecryptAddressKey (\<lambda>bs. bs) K = addr_Ip sample_relay_address"
proof -
  have "\<forall>bs. (\<lambda>bs. bs) (StrToHex (text_instance\<lparr>StrToHex := \<lambda>bs. bs\<rparr>) bs) = bs"
    "str_ok sample_codec (am_Message \<lparr>am_Message = []\<rparr>)"
    by (simp_all add: str_ok_def sample_codec_def)
  from address_key_roundtrip [OF sample_codec_ok this sample_relay_address_simps(1,2), of 1000 55] show ?thesis
    by simp
qed

end
