(* ===== verification/Relay_Device.thy ===== *)
theory Relay_Device
  imports Device_Entry
begin

text \<open>
  \<open>s_relay_device/_main.cpp\<close>: a relay finds the one master in the server list, registers its two
  export addresses on every connection and expects an identifier back. The end of the theory follows
  a registration through the master, a slave and a device entry.
\<close>

section \<open>A relay\<close>

definition relay_type_DEVICE :: uint8 where "relay_type_DEVICE = 1"

text \<open>What \<open>main\<close> asserts of its configuration before it starts anything.\<close>

definition relay_config_ok :: "xNetAddress list \<Rightarrow> bool" where
  "relay_config_ok Addresses \<longleftrightarrow> (\<forall>A \<in> set Addresses. addr_ok A \<and> na_port A \<noteq> 0)"

datatype relay_output =
    Dispatcher_Update xNetAddress
  | Dispatcher_Post "packet option"

record relay_device =
  rd_Target :: xNetAddress
  rd_ExportDeviceEntryAddress :: xNetAddress
  rd_ExportProxyEntryAddress :: xNetAddress
  rd_Out :: "relay_output list"

definition relay_OnServerListUpdated :: "xServerInfo list \<Rightarrow> relay_device \<Rightarrow> relay_device" where
  "relay_OnServerListUpdated ServerList s =
     (if length ServerList = 0 then s
      else if length ServerList \<noteq> 1 then s
      else
        let NewAddress = si_Address (ServerList ! 0) in
        if rd_Target s \<noteq> NewAddress
        then s\<lparr>rd_Target := NewAddress, rd_Out := rd_Out s @ [Dispatcher_Update NewAddress]\<rparr>
        else s)"

definition relay_registration :: "relay_device \<Rightarrow> xPP_RelayRegister" where
  "relay_registration s =
     \<lparr>rr_RelayServerType = relay_type_DEVICE, rr_ExportDeviceEntryAddress = rd_ExportDeviceEntryAddress s,
      rr_ExportProxyEntryAddress = rd_ExportProxyEntryAddress s\<rparr>"

definition relay_OnServerConnected :: "codec \<Rightarrow> nat \<Rightarrow> relay_device \<Rightarrow> relay_device" where
  "relay_OnServerConnected c max_payload s =
     s\<lparr>rd_Out := rd_Out s @ [Dispatcher_Post (WriteMessage max_payload Cmd_RelayInfoRegister 0
         (xPP_RelayRegister_Serialize c (relay_registration s)))]\<rparr>"

definition relay_OnServerPacket :: "codec \<Rightarrow> packet \<Rightarrow> bool" where
  "relay_OnServerPacket c P =
     (if pk_CommandId P \<noteq> Cmd_RelayInfoRegisterResp then False
      else case xPP_RelayRegisterResp_Deserialize c (pk_Payload P) of
        None \<Rightarrow> False
      | Some (Result, _) \<Rightarrow> if rp_ServerId Result = 0 then False else True)"

section \<open>From a relay to the devices\<close>

definition heartbeat_packet :: "codec \<Rightarrow> uint64 \<Rightarrow> xPP_RelayRegister \<Rightarrow> packet" where
  "heartbeat_packet c i m =
     \<lparr>pk_CommandId = Cmd_RelayHeartbeatBroadcast, pk_RequestId = 0,
      pk_Payload = xPP_RelayInfoBroadcast_Serialize c
        \<lparr>ri_Type = rr_RelayServerType m, ri_ServerId = i,
         ri_ExportDeviceEntryAddress = rr_ExportDeviceEntryAddress m,
         ri_ExportProxyEntryAddress = rr_ExportProxyEntryAddress m\<rparr>\<rparr>"

definition register_reply :: "codec \<Rightarrow> uint64 \<Rightarrow> packet" where
  "register_reply c i =
     \<lparr>pk_CommandId = Cmd_RelayInfoRegisterResp, pk_RequestId = 0,
      pk_Payload = xPP_RelayRegisterResp_Serialize c \<lparr>rp_ServerId = i\<rparr>\<rparr>"

lemma registration_announced:
  assumes c: "codec_ok c" and reg: "addr_wf (rr_ExportDeviceEntryAddress m)" "addr_wf (rr_ExportProxyEntryAddress m)"
    and s: "master_inv s" "ms_RelayUserContext s h = None" "ms_DispatcherEntryList s = d # q"
    and i: "alloc (dom (ms_RelayEntryContextPool s)) = i" "i \<noteq> 0" and alloc: "storage_ok alloc"
    and fits: "length (pk_Payload (heartbeat_packet c i m)) \<le> mh" "length (pk_Payload (register_reply c i)) \<le> mp"
  shows "\<exists>t. OnRelayEntryPacket alloc c mp mh h (relay_register_packet c m) s = (True, t) \<and>
    ms_Out t = ms_Out s @ [Slave_Post (slave_handle s d) (Some (heartbeat_packet c i m)), Relay_Post h (Some (register_reply c i))] \<and>
    ms_RelayUserContext t = (ms_RelayUserContext s)(h \<mapsto> i) \<and> ms_DispatcherEntryList t = q @ [d]"
proof -
  have read: "xPP_RelayRegister_Deserialize c (pk_Payload (relay_register_packet c m)) = Some (m, [])"
    using xPP_RelayRegister_roundtrip [of c m "[]"] c reg by (simp add: relay_register_packet_def)
  let ?R = "\<lparr>rx_ServerId = i, rx_RelayServerType = rr_RelayServerType m,
     rx_DeviceEntryAddress = rr_ExportDeviceEntryAddress m, rx_ProxyEntryAddress = rr_ExportProxyEntryAddress m,
     rx_Heartbeat = None\<rparr>"
  let ?u = "s\<lparr>ms_RelayEntryContextPool := (ms_RelayEntryContextPool s)(i \<mapsto> ?R),
     ms_RelayUserContext := (ms_RelayUserContext s)(h \<mapsto> i)\<rparr>"
  have "d \<in> dom (ms_DispatcherEntryContextPool s)"
    using s(1,3) by (metis list.set_intros(1) master_inv_def)
  then obtain D where D: "ms_DispatcherEntryContextPool s d = Some D"
    by blast
  have hb: "rx_Heartbeat (build_heartbeat c mh ?R) = Some (heartbeat_packet c i m)"
    using fits(1) by (simp add: build_heartbeat_def relay_broadcast_def WriteMessage_def heartbeat_packet_def)
  have disp: "DispatchRelayHeartbeat c mh i ?u =
      master_out (Slave_Post (slave_handle s d) (Some (heartbeat_packet c i m)))
        (?u\<lparr>ms_RelayEntryContextPool := (ms_RelayEntryContextPool s)(i \<mapsto> build_heartbeat c mh ?R),
            ms_DispatcherEntryList := q @ [d]\<rparr>)"
    using s(3) D hb by (simp add: DispatchRelayHeartbeat_def Let_def slave_handle_def)
  have "OnRelayEntryPacket alloc c mp mh h (relay_register_packet c m) s =
      (True, master_out (Relay_Post h (Some (register_reply c i))) (DispatchRelayHeartbeat c mh i ?u))"
    using read s(2) i fits(2)
    by (simp add: OnRelayEntryPacket_def Let_def relay_register_packet_def WriteMessage_def register_reply_def)
  then show ?thesis
    by (simp add: disp) (simp add: master_out_def)
qed

lemma heartbeat_recorded:
  assumes "codec_ok c" and "addr_wf (rr_ExportDeviceEntryAddress m)" and "addr_wf (rr_ExportProxyEntryAddress m)"
    and "i \<noteq> 0" and "entry_run k es (new_observer, new_relay_manager) = Some e" and "ec_codec k = c"
    and "ec_index k i < MAX_RELAY_SERVER_LIST_SIZE"
    and "placed (Some (ec_region k)) (rr_ExportDeviceEntryAddress m) = Some C"
  shows "\<exists>f. entry_step k (Entry_Packet (heartbeat_packet c i m)) e = Some f \<and>
       ec_index k i \<in> set (le_V4 (de_RelayInfoListByCountry (snd f) C)) \<and>
       de_FullRelayInfoList (snd f) (ec_index k i) =
         \<lparr>rb_ServerId = i, rb_ExportDeviceEntryAddress = rr_ExportDeviceEntryAddress m\<rparr>"
proof -
  let ?B = "\<lparr>ri_Type = rr_RelayServerType m, ri_ServerId = i, ri_ExportDeviceEntryAddress = rr_ExportDeviceEntryAddress m,
     ri_ExportProxyEntryAddress = rr_ExportProxyEntryAddress m\<rparr>"
  have read: "xPP_RelayInfoBroadcast_Deserialize c (pk_Payload (heartbeat_packet c i m)) = Some (?B, [])"
    using xPP_RelayInfoBroadcast_roundtrip [of c ?B "[]"] assms(1-3) by (simp add: heartbeat_packet_def)
  have mir: "entry_mirrored k (fst e, snd e)"
    using entry_run_total [OF entry_start, of k es] assms(5) by auto
  have B: "ri_ServerId ?B \<noteq> 0" "ec_index k (ri_ServerId ?B) = ec_index k i"
    using assms(4) by simp_all
  obtain t n where f: "OnRelayHeartbeat (entry_OnRelayUpdated (ec_index k) (Some (ec_region k)))
        (entry_OnRelayDropped (ec_index k)) (ec_index k i) ?B (fst e, snd e) = Some (t, n)" "entry_mirrored k (t, n)"
      "observed t = (observed (fst e))(ec_index k i \<mapsto> (ri_ServerId ?B, ri_ExportDeviceEntryAddress ?B))"
    using entry.OnRelayHeartbeat_mirror [OF mir B assms(7)] by blast
  have cmd: "pk_CommandId (heartbeat_packet c i m) = Cmd_RelayHeartbeatBroadcast"
    by (simp add: heartbeat_packet_def)
  have step: "entry_step k (Entry_Packet (heartbeat_packet c i m)) e = Some (t, n)"
    using read f(1) assms(4,6,7) cmd by (simp add: observer_OnPacket_def ExtractIndexFromRelayServerId_def)
  have slots: "manager_slots n (ec_index k i) = Some (i, rr_ExportDeviceEntryAddress m)"
    using f(2,3) by (simp add: mirrored_def)
  then have "ec_index k i \<in> relays_of (manager_slots n) (Some (ec_region k)) C"
    using assms(8) by (simp add: relays_of_def)
  then have ring: "ec_index k i \<in> set (le_V4 (de_RelayInfoListByCountry n C))"
    using f(2) by (simp add: mirrored_def manager_ok_def)
  have "de_FullRelayInfoList n (ec_index k i) =
      \<lparr>rb_ServerId = i, rb_ExportDeviceEntryAddress = rr_ExportDeviceEntryAddress m\<rparr>"
    using slots by (cases "de_FullRelayInfoList n (ec_index k i)") (auto simp: manager_slots_def Let_def split: if_splits)
  then show ?thesis
    using step ring by (intro exI [of _ "(t, n)"]) simp
qed


definition sample_device_relay :: relay_device where
  "sample_device_relay = \<lparr>rd_Target = no_address, rd_ExportDeviceEntryAddress = sample_relay_address,
     rd_ExportProxyEntryAddress = no_address, rd_Out = []\<rparr>"

lemma sample_sizes:
  "length (pk_Payload (heartbeat_packet sample_codec i (relay_registration sample_device_relay))) \<le> 60"
  "length (pk_Payload (register_reply sample_codec i)) \<le> 60"
  "length (pk_Payload (relay_register_packet sample_codec (relay_registration sample_device_relay))) \<le> 60"
  by (simp_all add: heartbeat_packet_def register_reply_def relay_register_packet_def relay_registration_def
      sample_device_relay_def sample_relay_address_def no_address_def xPP_RelayInfoBroadcast_Serialize_def
      xPP_RelayRegisterResp_Serialize_def xPP_RelayRegister_Serialize_def sample_codec_def put_le_def put_ip_def)


end
