(* ===== verification/Program_Entries.thy ===== *)
theory Program_Entries
  imports Relay_Device Service_Runtime "HOL-Library.AList"
begin

text \<open>
  What the programs do beside their components: \<open>s_device_entry/_main.cpp\<close> reads the addresses of
  its challenge services and follows the list of the dispatcher slaves; the master and the challenge
  services are taken down; \<open>u_server_list_downloader/main.cpp\<close> asks for the lists of all groups,
  prints them and stops.
\<close>

section \<open>The device entry\<close>

text \<open>
  The addresses are the trimmed parts between the commas, without the empty ones. A part that is no
  address with a port is reported and kept. \<open>Split\<close>, \<open>Trim\<close> and the parser of addresses belong to \<open>xel\<close>.
\<close>

definition challenge_lines :: "xel_text \<Rightarrow> (bytes \<Rightarrow> bytes) \<Rightarrow> bytes \<Rightarrow> bytes list" where
  "challenge_lines X Trim Text = filter (\<lambda>L. L \<noteq> []) (List.map Trim (Split X Text (str '','')))"

definition challenge_addresses ::
    "xel_text \<Rightarrow> (bytes \<Rightarrow> bytes) \<Rightarrow> bytes \<Rightarrow> xNetAddress list" where
  "challenge_addresses X Trim Text = List.map (\<lambda>L. AddrParse X (Trim L)) (challenge_lines X Trim Text)"

definition invalid_lines ::
    "xel_text \<Rightarrow> (bytes \<Rightarrow> bytes) \<Rightarrow> bytes \<Rightarrow> bytes list" where
  "invalid_lines X Trim Text =
     filter (\<lambda>L. \<not> addr_ok (AddrParse X (Trim L)) \<or> na_port (AddrParse X (Trim L)) = 0) (challenge_lines X Trim Text)"

lemma open_services_fails:
  "\<exists>A \<in> set As. \<not> Init_ok A \<Longrightarrow> \<exists>q. open_services Init_ok As q0 = (True, q)"
  by (induction As arbitrary: q0) auto

lemma open_services_all: "\<forall>A \<in> set As. Init_ok A \<Longrightarrow> open_services Init_ok As q0 = (False, q0 @ As)"
  by (induction As arbitrary: q0) auto

text \<open>
  One address that cannot be bound closes all of the services, and the program, which does not ask
  whether the constructor succeeded, runs on without any: no device is told its key.
\<close>

lemma one_bad_address_silences_all:
  assumes "L \<in> set (invalid_lines X Trim Text)"
    and "\<And>A. \<not> addr_ok A \<or> na_port A = 0 \<Longrightarrow> \<not> Init_ok A"
  shows "challenge_construct True Init_ok (challenge_addresses X Trim Text) = Some (False, [])"
proof -
  have L: "L \<in> set (challenge_lines X Trim Text)" "\<not> Init_ok (AddrParse X (Trim L))"
    using assms by (auto simp: invalid_lines_def)
  then have "\<exists>A \<in> set (challenge_addresses X Trim Text). \<not> Init_ok A"
    by (auto simp: challenge_addresses_def)
  then obtain q where "open_services Init_ok (challenge_addresses X Trim Text) [] = (True, q)"
    using open_services_fails by blast
  moreover have "challenge_addresses X Trim Text \<noteq> []"
    using L(1) by (auto simp: challenge_addresses_def)
  ultimately show ?thesis
    by (simp add: challenge_construct_def)
qed

text \<open>The destructor closes what the constructor opened, if it was ready.\<close>

definition challenge_destruct :: "bool \<times> xNetAddress list \<Rightarrow> bool \<times> xNetAddress list" where
  "challenge_destruct S = (case S of (Ready, UdpServiceList) \<Rightarrow> if \<not> Ready then (Ready, UdpServiceList) else (Ready, []))"

lemma challenge_services_closed:
  assumes "challenge_construct R Init_ok As = Some S"
  shows "snd (challenge_destruct S) = [] \<and> (fst S \<longleftrightarrow> (\<forall>A \<in> set As. Init_ok A)) \<and> (fst S \<longrightarrow> snd S = As)"
proof (cases "\<forall>A \<in> set As. Init_ok A")
  case True
  then show ?thesis
    using assms open_services_all [OF True, of "[]"]
    by (auto simp: challenge_construct_def challenge_destruct_def split: if_splits)
next
  case False
  then obtain q where "open_services Init_ok As [] = (True, q)"
    using open_services_fails by blast
  then show ?thesis
    using assms False by (auto simp: challenge_construct_def challenge_destruct_def split: if_splits)
qed

definition ST_RELAY_DISPATCHER_SLAVE :: uint8 where "ST_RELAY_DISPATCHER_SLAVE = 5"

definition entry_OnServerListUpdated ::
    "(uint64 set \<Rightarrow> uint64) \<Rightarrow> (uint64 \<Rightarrow> uint8 \<times> uint64) \<Rightarrow> uint8 \<Rightarrow> xServerInfo list \<Rightarrow> relay_observer \<Rightarrow>
     relay_observer option" where
  "entry_OnServerListUpdated alloc ident ServerGroup ServerList s =
     (if ServerGroup = ST_RELAY_DISPATCHER_SLAVE then observer_UpdateServerList alloc ident ServerList s else Some s)"

section \<open>The master\<close>

text \<open>The parts of a master that were constructed are taken down in the reverse order; a tick goes to both TCP services.\<close>

definition master_destruct :: "string list \<Rightarrow> string list" where
  "master_destruct Parts =
     fold removeAll [''DispatcherEntry'', ''RelayEntry'', ''DispatcherEntryContextPool'', ''RelayEntryContextPool''] Parts"

lemma master_parts_freed:
  "snd (master_construct a b c d) = [] \<or> fst (master_construct a b c d) \<and> master_destruct (snd (master_construct a b c d)) = []"
  by (simp add: master_construct_def master_destruct_def)

definition master_Tick :: "(uint64 \<Rightarrow> 's \<Rightarrow> 's) \<Rightarrow> (uint64 \<Rightarrow> 's \<Rightarrow> 's) \<Rightarrow> uint64 \<Rightarrow> 's \<Rightarrow> 's" where
  "master_Tick RelayEntry_Tick DispatcherEntry_Tick NowMS s = TickAll NowMS [RelayEntry_Tick, DispatcherEntry_Tick] s"

section \<open>The server list tool\<close>

text \<open>
  The groups the tool waits for, in the order of the map it keeps them in, with the names it prints;
  the list of the list servers is not among them. What it prints of a list is kept as the values it
  prints.
\<close>

definition GroupName :: "uint8 \<Rightarrow> string option" where
  "GroupName ServerGroup = map_of
     [(1, ''ST_TARGET_COLLECTOR''), (2, ''ST_AUDIT_COLLECTOR''), (3, ''ST_RELAY_REGISTER''),
      (4, ''ST_RELAY_DISPATCHER_MASTER''), (5, ''ST_RELAY_DISPATCHER_SLAVE''),
      (6, ''ST_DEVICE_DISPATCHER_PRODUCER_ENTRY''), (7, ''ST_DEVICE_DISPATCHER_OBSERVER_ENTRY''),
      (8, ''ST_DEVICE_LOCATOR''), (9, ''ST_AUTH_SERVER''), (10, ''ST_LAST_DEVICE_USAGE'')] ServerGroup"

definition tool_groups :: "uint8 list" where
  "tool_groups = [1, 2, 3, 4, 5, 6, 7, 8, 9, 10]"

record tool_state =
  tl_EnabledServerGroup :: "(uint8 \<times> bool) list"
  tl_Printed :: "(string \<times> uint64 \<times> (uint64 \<times> xNetAddress) list) list"
  tl_ServiceRunState :: bool

definition new_tool :: tool_state where
  "new_tool = \<lparr>tl_EnabledServerGroup = List.map (\<lambda>G. (G, False)) tool_groups, tl_Printed = [], tl_ServiceRunState = True\<rparr>"

text \<open>The downloader is asked for every group of the map.\<close>

fun tool_enable :: "(uint8 \<times> bool) list \<Rightarrow> downloader \<Rightarrow> downloader option" where
  "tool_enable [] d = Some d"
| "tool_enable (G # Gs) d = Option.bind (downloader_EnableServerGroup (fst G) d) (tool_enable Gs)"

fun tool_IsAllDone :: "(uint8 \<times> bool) list \<Rightarrow> bool" where
  "tool_IsAllDone [] = True"
| "tool_IsAllDone (G # Gs) = (if \<not> snd G then False else tool_IsAllDone Gs)"

definition tool_OnServerListUpdated :: "uint8 \<Rightarrow> xServerInfo list \<Rightarrow> uint64 \<Rightarrow> tool_state \<Rightarrow> tool_state" where
  "tool_OnServerListUpdated ServerGroup ServerList VersionTimestampMS s =
     (case GroupName ServerGroup of
        None \<Rightarrow> s
      | Some Name \<Rightarrow>
          s\<lparr>tl_EnabledServerGroup := AList.update ServerGroup True (tl_EnabledServerGroup s),
            tl_Printed := tl_Printed s @
              [(Name, VersionTimestampMS, List.map (\<lambda>S. (si_ServerId S, si_Address S)) ServerList)]\<rparr>)"

text \<open>
  A turn of the loop: the lists that the downloader announces in it, then the test of the end, where
  \<open>timer\<close> says that three seconds have passed.
\<close>

definition tool_turn :: "(uint8 \<times> xServerInfo list \<times> uint64) list \<Rightarrow> bool \<Rightarrow> tool_state \<Rightarrow> tool_state" where
  "tool_turn Updates timer s =
     (let s = fold (\<lambda>(G, L, V). tool_OnServerListUpdated G L V) Updates s in
      if tool_IsAllDone (tl_EnabledServerGroup s) \<or> timer then s\<lparr>tl_ServiceRunState := False\<rparr> else s)"

fun tool_run :: "((uint8 \<times> xServerInfo list \<times> uint64) list \<times> bool) list \<Rightarrow> tool_state \<Rightarrow> tool_state" where
  "tool_run [] s = s"
| "tool_run ((Updates, timer) # ts) s =
     (if \<not> tl_ServiceRunState s then s else tool_run ts (tool_turn Updates timer s))"

lemma IsAllDone_iff: "tool_IsAllDone Gs \<longleftrightarrow> (\<forall>G \<in> set Gs. snd G)"
  by (induction Gs) auto

lemma GroupName_dom: "dom GroupName = set tool_groups"
proof -
  have "dom GroupName = set [1, 2, 3, 4, 5, 6, 7, 8, 9, 10]"
    unfolding GroupName_def dom_map_of_conv_image_fst by (simp add: insert_commute)
  then show ?thesis
    by (simp add: tool_groups_def)
qed

text \<open>The groups of the map and those among them that a set of announcements marks.\<close>

definition marked :: "uint8 set \<Rightarrow> (uint8 \<times> bool) list \<Rightarrow> bool" where
  "marked A m \<longleftrightarrow> m = List.map (\<lambda>G. (G, G \<in> A)) tool_groups"

lemma update_marked:
  assumes "G \<in> set tool_groups"
  shows "AList.update G True (List.map (\<lambda>G. (G, G \<in> A)) tool_groups) = List.map (\<lambda>H. (H, H \<in> insert G A)) tool_groups"
proof -
  have upd: "AList.update G True (List.map (\<lambda>H. (H, H \<in> A)) Gs) = List.map (\<lambda>H. (H, H \<in> insert G A)) Gs"
    if "distinct Gs" "G \<in> set Gs" for Gs
    using that by (induction Gs) auto
  have "distinct tool_groups"
    by (simp add: tool_groups_def)
  then show ?thesis
    using upd assms by blast
qed

lemma OnServerListUpdated_marked:
  assumes "marked A (tl_EnabledServerGroup s)"
  shows "marked (insert G A) (tl_EnabledServerGroup (tool_OnServerListUpdated G L V s)) \<and>
    tl_ServiceRunState (tool_OnServerListUpdated G L V s) = tl_ServiceRunState s"
proof (cases "GroupName G")
  case None
  then have "G \<notin> set tool_groups"
    using GroupName_dom by (metis domIff)
  then have "List.map (\<lambda>H. (H, H \<in> insert G A)) tool_groups = List.map (\<lambda>H. (H, H \<in> A)) tool_groups"
    by auto
  then show ?thesis
    using None assms by (simp add: tool_OnServerListUpdated_def marked_def)
next
  case (Some n)
  then have "G \<in> set tool_groups"
    using GroupName_dom by (metis domI)
  then show ?thesis
    using Some assms update_marked by (simp add: tool_OnServerListUpdated_def marked_def)
qed

lemma updates_marked:
  "marked A (tl_EnabledServerGroup s) \<Longrightarrow>
   marked (A \<union> fst ` set Us) (tl_EnabledServerGroup (fold (\<lambda>(G, L, V). tool_OnServerListUpdated G L V) Us s)) \<and>
   tl_ServiceRunState (fold (\<lambda>(G, L, V). tool_OnServerListUpdated G L V) Us s) = tl_ServiceRunState s"
proof (induction Us arbitrary: s A)
  case (Cons U Us)
  obtain G L V where U: "U = (G, L, V)"
    by (cases U) auto
  from OnServerListUpdated_marked [OF Cons.prems, of G L V] Cons.IH
  show ?case
    by (fastforce simp: U)
qed simp

lemma marked_IsAllDone: "marked A m \<Longrightarrow> tool_IsAllDone m \<longleftrightarrow> set tool_groups \<subseteq> A"
  by (auto simp: marked_def IsAllDone_iff)

definition announced :: "((uint8 \<times> xServerInfo list \<times> uint64) list \<times> bool) list \<Rightarrow> uint8 set" where
  "announced ts = (\<Union>(Us, timer) \<in> set ts. fst ` set Us)"

lemma announced_Cons: "announced ((Us, timer) # ts) = fst ` set Us \<union> announced ts"
  by (simp add: announced_def)

lemma tool_run_stopped: "\<not> tl_ServiceRunState s \<Longrightarrow> tool_run ts s = s"
  by (cases ts) auto

lemma tool_run_marked:
  assumes "marked A (tl_EnabledServerGroup s)" and "tl_ServiceRunState s" and "\<not> set tool_groups \<subseteq> A"
    and "\<forall>(Us, timer) \<in> set ts. \<not> timer"
  shows "tl_ServiceRunState (tool_run ts s) \<longleftrightarrow> \<not> set tool_groups \<subseteq> A \<union> announced ts"
  using assms
proof (induction ts arbitrary: s A)
  case Nil
  then show ?case
    by (simp add: announced_def)
next
  case (Cons t ts)
  obtain Us where t: "t = (Us, False)"
    using Cons.prems(4) by (cases t) auto
  let ?u = "fold (\<lambda>(G, L, V). tool_OnServerListUpdated G L V) Us s"
  have u: "marked (A \<union> fst ` set Us) (tl_EnabledServerGroup ?u)" "tl_ServiceRunState ?u"
    using updates_marked [OF Cons.prems(1), of Us] Cons.prems(2) by simp_all
  show ?case
  proof (cases "set tool_groups \<subseteq> A \<union> fst ` set Us")
    case True
    then have "\<not> tl_ServiceRunState (tool_turn Us False s)"
      using marked_IsAllDone [OF u(1)] by (simp add: tool_turn_def Let_def)
    then show ?thesis
      using True Cons.prems(2) tool_run_stopped by (auto simp: t announced_Cons)
  next
    case False
    then have "tool_turn Us False s = ?u"
      using marked_IsAllDone [OF u(1)] by (simp add: tool_turn_def Let_def)
    then show ?thesis
      using Cons.IH [OF u(1,2) False] Cons.prems(2,4) by (simp add: t announced_Cons Un_assoc)
  qed
qed

text \<open>Before its time is up the tool runs on exactly as long as a group has not been announced.\<close>

lemma tool_waits_for_every_group:
  assumes "\<forall>(Us, timer) \<in> set ts. \<not> timer"
  shows "tl_ServiceRunState (tool_run ts new_tool) \<longleftrightarrow> \<not> set tool_groups \<subseteq> announced ts"
  using tool_run_marked [of "{}" new_tool ts] assms by (simp add: new_tool_def marked_def tool_groups_def)

text \<open>Every group can be enabled, and is asked for then.\<close>

lemma enable_groups:
  assumes "downloader_inv d" and "distinct (List.map unat Gs)" and "\<forall>G \<in> set Gs. G \<noteq> 0 \<and> unat G < MAX_SMALL_SERVER_LIST_SIZE"
    and "\<forall>G \<in> set Gs. unat G \<notin> set (dl_EnabledServerGroupList d)"
  shows "\<exists>e. tool_enable (List.map (\<lambda>G. (G, False)) Gs) d = Some e \<and> downloader_inv e \<and>
    dl_EnabledServerGroupList e = dl_EnabledServerGroupList d @ List.map unat Gs"
  using assms
proof (induction Gs arbitrary: d)
  case (Cons G Gs)
  obtain t where t: "downloader_EnableServerGroup G d = Some t" "downloader_inv t"
      "dl_EnabledServerGroupList t = dl_EnabledServerGroupList d @ [unat G]"
    using EnableServerGroup_total [OF Cons.prems(1), of G] Cons.prems(3,4) by auto
  have "\<forall>H \<in> set Gs. unat H \<notin> set (dl_EnabledServerGroupList t)"
    using Cons.prems(2,4) t(3) by (fastforce simp: image_iff)
  then obtain e where "tool_enable (List.map (\<lambda>G. (G, False)) Gs) t = Some e" "downloader_inv e"
      "dl_EnabledServerGroupList e = dl_EnabledServerGroupList t @ List.map unat Gs"
    using Cons.IH [OF t(2)] Cons.prems(2,3) by auto
  with t show ?case
    by simp
qed simp

lemma tool_asks_for_every_group:
  "\<exists>d. tool_enable (tl_EnabledServerGroup new_tool) (new_downloader Now) = Some d \<and> downloader_inv d \<and>
     dl_EnabledServerGroupList d = [1, 2, 3, 4, 5, 6, 7, 8, 9, 10]"
  using enable_groups [OF downloader_inv_new, of tool_groups Now]
  by (simp add: new_tool_def tool_groups_def new_downloader_def MAX_SMALL_SERVER_LIST_SIZE_def)

end
