(* ===== verification/Spec2Isabelle.thy ===== *)
theory Spec2Isabelle
  imports Pa_Parsing Request_Map Local_Device Target_Collector Kafka_Producer Service_Environment Program_Entries
begin

text \<open>
  A verification development for the proxy system of this repository.

  \<^bold>\<open>The program.\<close> Clients reach a proxy access server (\<open>lib_component/pa_service\<close>) with SOCKS5 or HTTP.
  It asks an authentication service for the account, a device locator for a device, and a relay for a
  connection or a UDP channel on that device; each of these answers later, through a future
  (\<open>pp_common/future.hpp\<close>). Usage, blocked accounts and visited targets are reported to an audit service,
  which sends them to the audit collectors and the target collectors; a target collector passes them on
  to Kafka. All servers find each other by the lists of the small server list. Relays register with
  the dispatcher master; their signs of life are spread over the dispatcher slaves, which pass them on to
  every device entry; a device asks a device entry for its own address key and shows it again to be
  given a relay of its country.

  \<^bold>\<open>Theories and sources.\<close>
  \<^item> \<open>PP_Prelude\<close>: words, bytes, addresses; lists and storages of \<open>xel\<close>; loops that pop a list.
  \<^item> \<open>PP_Common\<close>: \<open>src_common/pp_common/_.cpp\<close>, \<open>network.cpp\<close>, \<open>_region.cpp\<close>: packing, hash, signatures,
    signed addresses, local addresses, country codes.
  \<^item> \<open>PP_Future\<close>: \<open>pp_common/future.hpp\<close>: pool of futures, ready list, handles.
  \<^item> \<open>Request_Map\<close>: \<open>lib_component/request_mapping\<close>.
  \<^item> \<open>Dns_Service\<close>: \<open>lib_component/dns_local_service\<close> with its query threads.
  \<^item> \<open>Auth_Service\<close>: \<open>lib_component/auth_local_service\<close> with its reload thread.
  \<^item> \<open>Relay_Local\<close>: \<open>lib_component/relay_local_device_service\<close>: devices, connections, UDP channels.
  \<^item> \<open>Pa_Core\<close>, \<open>Pa_Results\<close>, \<open>Pa_Socks\<close>, \<open>Pa_Http\<close>, \<open>Pa_Service\<close>: \<open>lib_component/pa_service\<close>: state and
    timeouts, results of the futures and calls of the relay, the SOCKS5 and HTTP front ends, \<open>Init\<close>,
    \<open>Clean\<close> and dispatch. \<open>Pa_Ownership\<close>, \<open>Pa_Handlers\<close>, \<open>Pa_Invariant\<close>, \<open>Pa_Steps\<close> prove its
    invariant; \<open>Pa_System\<close> runs it on the local authentication and relay services; \<open>Pa_Properties\<close>
    and \<open>Pa_Parsing\<close> state what holds.
  \<^item> \<open>Local_Device\<close>: \<open>lib_component/local_device\<close>.
  \<^item> \<open>Wire_Protocol\<close>: \<open>pp_protocol\<close>: every message with writer and reader, digests, the AES wrapper.
  \<^item> \<open>Server_List\<close>: \<open>s_small_server_list\<close>, \<open>small_server_list_downloader\<close>, \<open>small_server_list_tcp_client\<close>.
  \<^item> \<open>Audit_Report\<close>: \<open>lib_component/audit_service\<close>. \<open>Target_Collector\<close>: \<open>s_target_collector\<close>.
    \<open>Kafka_Producer\<close>: \<open>lib_util/rdkafka_producer\<close>, \<open>rdkafka_wrapper\<close>.
  \<^item> \<open>Relay_Dispatch\<close>: \<open>s_relay_dispatcher_master\<close>, \<open>s_relay_dispatcher_slave\<close>. \<open>Relay_Device\<close>:
    \<open>s_relay_device\<close>. \<open>Device_Entry\<close>: \<open>lib_component/relay/relay_info_observer\<close>, \<open>lib_component/region\<close>,
    \<open>lib_component/address_challenge\<close>, \<open>s_device_entry\<close>.
  \<^item> \<open>Service_Runtime\<close>: \<open>pp_common/service_runtime\<close>, \<open>runtime_env\<close>, the ticks of \<open>_.hpp\<close>,
    \<open>lib_component/server_id_client\<close>. \<open>Service_Environment\<close>: the environment guard and its loggers.
    \<open>Program_Entries\<close>: the rest of \<open>s_device_entry/_main.cpp\<close> and \<open>u_server_list_downloader\<close>.

  Records, fields and operations keep the names of the source; a prefix of a field tells its record.

  \<^bold>\<open>How the code is rendered.\<close> Integers are words of their width and wrap. An \<open>xList\<close> is the list of
  the identifiers of its nodes, an \<open>xIndexedStorage\<close> a map from identifiers to objects; pointers are
  identifiers. Calls to sockets and packets that are posted go to an output trace of the state.
  What would be undefined (a dead node, a null pointer, an index out of bounds, a failed assertion) is
  \<open>None\<close> or an error value, and the properties show when it cannot occur. Threads are interleaved at
  the points where they hold the lock. Assertions are a parameter where they matter
  (\<open>Local_Device\<close>).

  \<^bold>\<open>Loops.\<close> A loop that pops a list while a condition holds is \<open>pop_loop_run\<close>, a \<open>while_option\<close>; the
  operations use \<open>drain\<close>, where the body leaves the list alone, or \<open>pop_all\<close>, bounded by the length
  of the list at the start. The locales \<open>pop_loop\<close> and \<open>bounded_loop\<close> show that the real loop ends in
  the same state, and are interpreted for every loop of the components; no bound is ever used up.
  \<open>post_all\<close> of the collector is bounded by the length of the list it sends.

  \<^bold>\<open>Interfaces.\<close> \<open>future_interface\<close> is what a manager of futures promises; \<open>storage_allocator\<close>
  provides it for every storage. \<open>proxy_services\<close> is what the proxy needs of the services it calls, and
  the local services provide it; \<open>dns_resolver\<close> is what the relay needs of a resolver;
  \<open>future_slot\<close> treats the four futures of a connection alike; \<open>relay_listener\<close> is what the observer
  promises to the one who follows it, and the device entry is one.

  \<^bold>\<open>What is shown.\<close> Invariants of every reachable state: ownership of futures and channels and the
  timeout lists of the proxy, the pools and lists of the relay, references and conserved usage of the
  authentication service, the caches of the resolver, contexts of the dispatcher master, nodes of the
  collector. Progress: ticks end, reclaim what is due and keep what is not; waiting reports are sent.
  Safety: no client data reaches the relay before its phase; blocked accounts stay blocked. Round
  trips of signatures, messages, SOCKS5 targets, datagrams and the cipher. Refinement: the system on the
  local services refines the proxy with arbitrary services, and the rings of the device entry follow
  the announcements. End to end: a registered server is downloaded and connected, a relay that
  connects is offered to devices, a device finds a relay of its country, a visited target reaches
  Kafka. Several theorems state how the code differs from what it seems to mean, among
  them \<open>audit_messages_misread\<close>, \<open>downloader_consistent\<close>, \<open>device_challenge_answered\<close>,
  \<open>local_device_tick\<close>, and the lemmas \<open>dns_cache_never_expires\<close>, \<open>auth_invalid_country_grants\<close>,
  \<open>relay_orphan_never_reclaimed\<close>, \<open>stop_loses_waiting\<close>, \<open>audit_restart_posts_to_zero\<close> and
  \<open>one_bad_address_silences_all\<close>.

  \<^bold>\<open>Parameters and hypotheses.\<close> The sources of \<open>xel\<close>, librdkafka and libmaxminddb are not in the
  repository. The allocator of a storage gives \<open>0\<close> or a fresh identifier (\<open>storage_ok\<close>); the encoding of
  one member is read back (\<open>codec_ok\<close>); \<open>Split\<close> and the hexadecimal printer (\<open>split_ok\<close>, \<open>hex_ok\<close>), the
  byte order of ports (\<open>ports_ok\<close>), the digests and the block cipher satisfy the laws named in the
  theorems; \<open>ident\<close> and the index of an identifier take it apart. Every theorem with such a
  hypothesis has a witness on concrete functions that satisfy it.

  \<^bold>\<open>Not modelled.\<close> Opening sockets and files, accepting connections and the event loop belong to
  \<open>xel\<close>. Log texts and the wording of \<open>ToString\<close> and \<open>OutputAudit\<close> are left
  out; the counters an audit text resets are modelled. The other \<open>main\<close> functions
  read a configuration, construct services and call their ticks; \<open>relay_remote_device_service\<close>,
  \<open>relay_client_pool\<close> and \<open>device_manager_abstract\<close> are declarations without code; \<open>t_sign\<close>,
  \<open>t_component\<close> and \<open>t_cnfilter\<close> are manual tests; \<open>ppp/bak\<close> is not built.
\<close>

section \<open>From the proxy to Kafka\<close>

definition visited_target :: "uint64 \<Rightarrow> xNetAddress \<Rightarrow> bytes \<Rightarrow> uint64 \<Rightarrow> xPP_TargetCollect" where
  "visited_target A T Host N =
     \<lparr>tc_GlobalAuthId = A, tc_TargetAddress = T, tc_TargetHostView = ExtractSecondLevelDomain Host,
      tc_StartTimestampMS = 0, tc_PeriodMS = 0, tc_Count = N, tc_Hash = 0\<rparr>"

text \<open>
  C14: what a proxy reports of a visited target reaches Kafka. All reports of one account, target and
  second level domain go to the same collector of the list, whatever their count; the collector that
  gets such a datagram while it has room hands it to Kafka with everything that waited before it, in
  order, within one tick and two turns of its thread, and the message names the account, the address,
  the second level domain and the count that were reported.
\<close>

theorem target_reaches_kafka:
  assumes "codec_ok c" and "addr_wf T" and "str_ok c (ExtractSecondLevelDomain Host)"
    and "GetServerListView (av_ServerListDownloader s) ST_TARGET_COLLECTOR = Some L" and "L \<noteq> []"
    and "reporter_inv r" and "storage_ok alloc" and "alloc (dom (tr_NodePool r)) \<noteq> 0"
  shows "\<exists>S \<in> set L. \<forall>N. length (fst (xPP_TargetCollect_Serialize c std_hash (visited_target A T Host N))) \<le> mp \<longrightarrow>
    (\<exists>P t u. audit_ReportTarget c std_hash mp A T Host N s =
        Some (s\<lparr>av_UdpOut := av_UdpOut s @ [(si_Address S, Some P)]\<rparr>) \<and>
      thread_turn c mk (reporter_Tick (collector_OnUdpPacket alloc c P r)) = Some t \<and> thread_turn c mk t = Some u \<and>
      tr_Kafka u = tr_Kafka r @ List.map (kafka_message c mk (tr_NowMS r)) (waiting r @
        [\<lparr>tn_GlobalAuthId = A, tn_TargetAddress = T, tn_TargetHost = ExtractSecondLevelDomain Host, tn_Count = N\<rparr>]))"
proof -
  let ?m = "visited_target A T Host"
  define S where "S = L ! (unat (ucast (std_hash (target_identity c (?m 0))) :: uint32) mod length L)"
  have "S \<in> set L"
    using assms(5) by (simp add: S_def)
  moreover have "\<exists>P t u. audit_ReportTarget c std_hash mp A T Host N s =
        Some (s\<lparr>av_UdpOut := av_UdpOut s @ [(si_Address S, Some P)]\<rparr>) \<and>
      thread_turn c mk (reporter_Tick (collector_OnUdpPacket alloc c P r)) = Some t \<and> thread_turn c mk t = Some u \<and>
      tr_Kafka u = tr_Kafka r @ List.map (kafka_message c mk (tr_NowMS r)) (waiting r @
        [\<lparr>tn_GlobalAuthId = A, tn_TargetAddress = T, tn_TargetHost = ExtractSecondLevelDomain Host, tn_Count = N\<rparr>])"
    if fits: "length (fst (xPP_TargetCollect_Serialize c std_hash (?m N))) \<le> mp" for N
  proof -
    let ?P = "\<lparr>pk_CommandId = Cmd_TargetReport, pk_RequestId = 0, pk_Payload = fst (xPP_TargetCollect_Serialize c std_hash (?m N))\<rparr>"
    have identity: "target_identity c (?m N) = target_identity c (?m 0)"
      by (simp add: target_identity_def visited_target_def)
    have post: "audit_ReportTarget c std_hash mp A T Host N s =
        Some (s\<lparr>av_UdpOut := av_UdpOut s @ [(si_Address S, Some ?P)]\<rparr>)"
      using fits assms(4,5) identity
      by (simp add: audit_ReportTarget_def visited_target_def [symmetric] xPP_TargetCollect_Serialize_def Let_def
          WriteMessage_def S_def)
    have read: "xPP_TargetCollect_Deserialize c (pk_Payload ?P) = Some (?m N, [])"
      using xPP_TargetCollect_roundtrip [OF assms(1), of "?m N" std_hash "[]"] assms(2,3)
      by (simp add: visited_target_def)
    let ?r = "collector_OnUdpPacket alloc c ?P r"
    have "accepted_node alloc c ?P r = [\<lparr>tn_GlobalAuthId = A, tn_TargetAddress = T,
        tn_TargetHost = ExtractSecondLevelDomain Host, tn_Count = N\<rparr>]"
      using assms(8) read by (simp add: accepted_node_def visited_target_def)
    then have "reporter_inv ?r" "tr_Kafka ?r = tr_Kafka r" "tr_NowMS ?r = tr_NowMS r"
      "waiting ?r = waiting r @ [\<lparr>tn_GlobalAuthId = A, tn_TargetAddress = T,
        tn_TargetHost = ExtractSecondLevelDomain Host, tn_Count = N\<rparr>]"
      using collector_OnUdpPacket_spec [OF assms(6,7), of c ?P] by simp_all
    then show ?thesis
      using post two_turns_send [of ?r c mk] by (intro exI [of _ ?P]) auto
  qed
  ultimately show ?thesis
    by blast
qed

definition sample_proxy_audit :: audit_state where
  "sample_proxy_audit = (new_audit_state 3)\<lparr>av_ServerListDownloader := (new_downloader 3)
     \<lparr>dl_EnabledServerGroupMap := (replicate MAX_SMALL_SERVER_LIST_SIZE new_group_node)
       [1 := new_group_node\<lparr>gn_Enabled := True, gn_ServerGroup := 1, gn_ServerListSize := 1,
          gn_ServerList := Some (sample_server # replicate 127 no_server)\<rparr>]\<rparr>\<rparr>"

theorem target_reaches_kafka_witness:
  "\<exists>P t u. audit_ReportTarget sample_codec (\<lambda>_. 7) 1000 5 no_address [97] 3 sample_proxy_audit =
       Some (sample_proxy_audit\<lparr>av_UdpOut := [(si_Address sample_server, Some P)]\<rparr>) \<and>
     thread_turn sample_codec 1000 (reporter_Tick (collector_OnUdpPacket two_slot_alloc sample_codec P (started_reporter 9))) = Some t \<and>
     thread_turn sample_codec 1000 t = Some u \<and> tr_Kafka u = [kafka_message sample_codec 1000 9 sample_node]"
proof -
  have domain: "ExtractSecondLevelDomain [97] = [97]"
    by (simp add: ExtractSecondLevelDomain_def)
  have view: "GetServerListView (av_ServerListDownloader sample_proxy_audit) ST_TARGET_COLLECTOR = Some [sample_server]"
    by (simp add: GetServerListView_def group_node_def sample_proxy_audit_def ST_TARGET_COLLECTOR_def
        MAX_SMALL_SERVER_LIST_SIZE_def)
  have "addr_wf no_address" "str_ok sample_codec (ExtractSecondLevelDomain [97])"
    "two_slot_alloc (dom (tr_NodePool (started_reporter 9))) \<noteq> 0"
    by (simp_all add: domain addr_wf_def no_address_def str_ok_def two_slot_alloc_def started_reporter_def)
  note flow = target_reaches_kafka [OF sample_codec_ok this(1,2) view _ reporter_inv_started two_slot_alloc_ok this(3),
      of "\<lambda>_. 7" 5 1000 1000]
  have "length (fst (xPP_TargetCollect_Serialize sample_codec (\<lambda>_. 7) (visited_target 5 no_address [97] 3))) \<le> 1000"
    by (simp add: xPP_TargetCollect_Serialize_def target_identity_def visited_target_def domain sample_codec_def put_le_def
        put_text_def put_ip_def no_address_def Let_def)
  moreover have "av_UdpOut sample_proxy_audit = []" "tr_Kafka (started_reporter 9) = []" "waiting (started_reporter 9) = []"
    "tr_NowMS (started_reporter 9) = 9"
    by (simp_all add: sample_proxy_audit_def new_audit_state_def started_reporter_def waiting_def)
  ultimately show ?thesis
    using flow by (auto simp: domain sample_node_def)
qed

section \<open>From a device to its relay\<close>

text \<open>
  C13: a device gets a relay of its country. A device with an IPv4 address asks for its key and is
  told one; when it shows the key to the device entry while a relay of its country is alive, it is
  accepted and given the address that a live relay of its country announced last.
\<close>

theorem device_finds_relay:
  assumes "codec_ok (ec_codec k)" and "\<forall>bs. ec_HexToStr k (StrToHex X bs) = bs"
    and "\<forall>bs. bs \<noteq> [] \<and> length bs \<le> 17 \<longrightarrow> StrToHex X bs \<noteq> [] \<and> str_ok (ec_codec k) (StrToHex X bs)"
    and "str_ok (ec_codec k) (am_Message Req)" and "request_ok (ec_codec k) Ch"
    and "Is4 Remote" and "addr_wf Remote" and "placed (Some (ec_region k)) (addr_Ip Remote) = Some C"
    and "entry_run k es (new_observer, new_relay_manager) = Some (s, m)"
    and "li_ServerId (ob_RelayServerList s j) \<noteq> 0"
    and "placed (Some (ec_region k)) (li_ExportDeviceEntryAddress (ob_RelayServerList s j)) = Some C"
  shows "\<exists>K i n. challenge_OnUdpPacket (ec_codec k) X mp Remote
      \<lparr>pk_CommandId = Cmd_DV_CC_GetAddressKey, pk_RequestId = 0,
       pk_Payload = xPP_AddressChallenge_Serialize (ec_codec k) Req\<rparr> EC =
      Some ([WriteMessage mp Cmd_DV_CC_GetAddressKeyResp 0
        (xPP_AddressChallengeResp_Serialize (ec_codec k) \<lparr>ak_AddressKey = K\<rparr>)], EC + 1) \<and>
    OnDeviceChallenge (ec_codec k) (ec_HexToStr k) (Some (ec_region k)) mp
      (challenge_packet (ec_codec k) (Ch\<lparr>dc_AddressKey4 := K\<rparr>)) m =
      Some (challenge_reply (ec_codec k) mp (li_ExportDeviceEntryAddress (ob_RelayServerList s i)), n) \<and>
    dp_Accepted (challenge_response (li_ExportDeviceEntryAddress (ob_RelayServerList s i))) \<and>
    li_ServerId (ob_RelayServerList s i) \<noteq> 0 \<and>
    placed (Some (ec_region k)) (li_ExportDeviceEntryAddress (ob_RelayServerList s i)) = Some C"
proof -
  have "addr_ok Remote"
    using assms(6) by (simp add: addr_ok_cases)
  from address_key_told [OF assms(1,2,4) this assms(7), of mp EC] obtain bs where
    bs: "bs \<noteq> []" "length bs \<le> 17"
    and told: "challenge_OnUdpPacket (ec_codec k) X mp Remote
      \<lparr>pk_CommandId = Cmd_DV_CC_GetAddressKey, pk_RequestId = 0,
       pk_Payload = xPP_AddressChallenge_Serialize (ec_codec k) Req\<rparr> EC =
      Some ([WriteMessage mp Cmd_DV_CC_GetAddressKeyResp 0
        (xPP_AddressChallengeResp_Serialize (ec_codec k) \<lparr>ak_AddressKey = StrToHex X bs\<rparr>)], EC + 1)"
    and key: "DecryptAddressKey (ec_HexToStr k) (StrToHex X bs) = addr_Ip Remote"
    by blast
  let ?Ch = "Ch\<lparr>dc_AddressKey4 := StrToHex X bs\<rparr>"
  have ch: "request_ok (ec_codec k) ?Ch"
    using assms(3,5) bs by (simp add: request_ok_def)
  have address: "challenge_address (ec_HexToStr k) ?Ch = addr_Ip Remote"
    using assms(3) bs key by (simp add: challenge_address_def)
  have four: "Is4 (challenge_address (ec_HexToStr k) ?Ch)"
    using assms(6) by (simp add: address addr_Ip_def Is4_def)
  have mirrored: "entry_mirrored k (s, m)"
    using entry_run_total [OF entry_start, of k es] assms(9) by auto
  then have ok: "manager_ok (Some (ec_region k)) m"
    by (simp add: mirrored_def)
  let ?ring = "le_V4 (de_RelayInfoListByCountry m C)"
  have ring: "set ?ring = {i. li_ServerId (ob_RelayServerList s i) \<noteq> 0 \<and>
      placed (Some (ec_region k)) (li_ExportDeviceEntryAddress (ob_RelayServerList s i)) = Some C}"
    "\<forall>i \<in> set ?ring. rb_ExportDeviceEntryAddress (de_FullRelayInfoList m i) =
      li_ExportDeviceEntryAddress (ob_RelayServerList s i)"
    using entry_ring [OF mirrored] by (simp_all add: Let_def)
  have "j \<in> set ?ring"
    using ring(1) assms(10,11) by simp
  then obtain i q where iq: "?ring = i # q"
    by (cases ?ring) simp_all
  then have i: "i \<in> set ?ring"
    by simp
  obtain n where "OnDeviceChallenge (ec_codec k) (ec_HexToStr k) (Some (ec_region k)) mp
      (challenge_packet (ec_codec k) ?Ch) m =
      Some (challenge_reply (ec_codec k) mp (rb_ExportDeviceEntryAddress (de_FullRelayInfoList m i)), n)"
    "dp_Accepted (challenge_response (rb_ExportDeviceEntryAddress (de_FullRelayInfoList m i)))"
    using challenge_accepted [OF assms(1) ch ok four _ iq, of mp] assms(8) address by auto
  then show ?thesis
    using told i ring by (intro exI [of _ "StrToHex X bs"] exI [of _ i] exI [of _ n]) simp
qed

theorem device_finds_relay_witness:
  "\<exists>K s m n. entry_run sample_entry [Entry_Packet sample_heartbeat] (new_observer, new_relay_manager) = Some (s, m) \<and>
    OnDeviceChallenge sample_codec (\<lambda>bs. bs) (Some (ec_region sample_entry)) 1000
      (challenge_packet sample_codec (sample_challenge\<lparr>dc_AddressKey4 := K\<rparr>)) m =
      Some (challenge_reply sample_codec 1000 sample_relay_address, n)"
proof -
  obtain s m where run: "entry_run sample_entry [Entry_Packet sample_heartbeat] (new_observer, new_relay_manager) = Some (s, m)"
      and obs: "observed s = [1 \<mapsto> (1, sample_relay_address)]"
    using sample_heartbeat_run by auto
  have live: "li_ServerId (ob_RelayServerList s i) \<noteq> 0 \<longleftrightarrow> i = 1" for i
    using observed_zero [of s i] by (auto simp: obs split: if_splits)
  have one: "li_ExportDeviceEntryAddress (ob_RelayServerList s 1) = sample_relay_address"
    using fun_cong [OF obs, of 1] by (simp add: observed_def Let_def split: if_splits)
  let ?X = "text_instance\<lparr>StrToHex := \<lambda>bs. bs\<rparr>" and ?D = "\<lparr>na_ip = IPV4 [10, 0, 0, 8], na_port = 5000\<rparr>"
  have e: "ec_codec sample_entry = sample_codec" "ec_HexToStr sample_entry = (\<lambda>bs. bs)"
    by (simp_all add: sample_entry_def)
  have A: "Is4 ?D" "addr_wf ?D" "placed (Some (ec_region sample_entry)) (addr_Ip ?D) = Some sample_country"
    "request_ok sample_codec sample_challenge" "str_ok sample_codec (am_Message \<lparr>am_Message = []\<rparr>)"
    "placed (Some (ec_region sample_entry)) (li_ExportDeviceEntryAddress (ob_RelayServerList s 1)) = Some sample_country"
    using one by (simp_all add: Is4_def addr_wf_def sample_placed addr_ok_def addr_Ip_def request_ok_def sample_challenge_def str_ok_def sample_relay_address_def)
  have "\<exists>K i n. OnDeviceChallenge sample_codec (\<lambda>bs. bs) (Some (ec_region sample_entry)) 1000
      (challenge_packet sample_codec (sample_challenge\<lparr>dc_AddressKey4 := K\<rparr>)) m =
      Some (challenge_reply sample_codec 1000 (li_ExportDeviceEntryAddress (ob_RelayServerList s i)), n) \<and>
    li_ServerId (ob_RelayServerList s i) \<noteq> 0"
    using device_finds_relay [of sample_entry ?X "\<lparr>am_Message = []\<rparr>" sample_challenge ?D sample_country, where s = s and m = m and
        es = "[Entry_Packet sample_heartbeat]" and j = 1 and mp = 1000 and EC = 0] A run sample_codec_ok live
    by (force simp: e str_ok_def)
  then show ?thesis
    using run live one by auto
qed

end
